(* ===== verification/Prelude.thy ===== *)
theory Prelude
  imports Complex_Main "HOL-Library.Word" "HOL-Library.List_Lexorder" "HOL-Library.Char_ord"
begin

text \<open>
  Shared vocabulary of the development.  A fallible Rust function returns a value of
  \<open>'e + 'a\<close>, with \<open>Inl\<close> for \<open>Err\<close> and \<open>Inr\<close> for \<open>Ok\<close>; the operator \<open>?\<close> is \<open>bindE\<close>, and
  \<open>collect::<Result<Vec<_>,_>>\<close> is \<open>mapE\<close>.  A Rust \<open>String\<close> is the list of its UTF-8 bytes,
  written as the HOL type \<open>string\<close> (a \<open>char\<close> is one byte), so that \<open>len\<close> counts bytes as
  Rust does and the order on strings is Rust's byte order.
\<close>

named_theorems result_simps "evaluation and inversion of result-valued code"

subsection \<open>Results\<close>

definition bindE :: "'e + 'a \<Rightarrow> ('a \<Rightarrow> 'e + 'b) \<Rightarrow> 'e + 'b" where
  "bindE m f = (case m of Inl e \<Rightarrow> Inl e | Inr x \<Rightarrow> f x)"

lemma bindE_simps [simp]: "bindE (Inl e) f = Inl e" "bindE (Inr x) f = f x"
  by (simp_all add: bindE_def)

lemma bindE_Inr_iff [result_simps]: "bindE m f = Inr y \<longleftrightarrow> (\<exists>x. m = Inr x \<and> f x = Inr y)"
  by (cases m) simp_all

lemma bindE_Inl_iff: "bindE m f = Inl e \<longleftrightarrow> m = Inl e \<or> (\<exists>x. m = Inr x \<and> f x = Inl e)"
  by (cases m) simp_all

lemma bindE_cong [fundef_cong]:
  "m = m' \<Longrightarrow> (\<And>x. m' = Inr x \<Longrightarrow> f x = g x) \<Longrightarrow> bindE m f = bindE m' g"
  by (cases m') simp_all

definition map_errE :: "('e \<Rightarrow> 'f) \<Rightarrow> 'e + 'a \<Rightarrow> 'f + 'a" where
  "map_errE h m = (case m of Inl e \<Rightarrow> Inl (h e) | Inr x \<Rightarrow> Inr x)"

lemma map_errE_simps [simp]: "map_errE h (Inl e) = Inl (h e)" "map_errE h (Inr x) = Inr x"
  by (simp_all add: map_errE_def)

lemma map_errE_Inr_iff [result_simps]: "map_errE h m = Inr y \<longleftrightarrow> m = Inr y"
  by (cases m) simp_all

definition ok_orE :: "'e \<Rightarrow> 'a option \<Rightarrow> 'e + 'a" where
  "ok_orE e m = (case m of None \<Rightarrow> Inl e | Some x \<Rightarrow> Inr x)"

lemma ok_orE_simps [simp]: "ok_orE e None = Inl e" "ok_orE e (Some x) = Inr x"
  by (simp_all add: ok_orE_def)

lemma ok_orE_Inr_iff [result_simps]: "ok_orE e m = Inr y \<longleftrightarrow> m = Some y"
  by (cases m) simp_all

fun mapE :: "('a \<Rightarrow> 'e + 'b) \<Rightarrow> 'a list \<Rightarrow> 'e + 'b list" where
  "mapE f [] = Inr []"
| "mapE f (x # xs) = bindE (f x) (\<lambda>y. bindE (mapE f xs) (\<lambda>ys. Inr (y # ys)))"

lemma mapE_cong [fundef_cong]:
  "xs = ys \<Longrightarrow> (\<And>x. x \<in> set ys \<Longrightarrow> f x = g x) \<Longrightarrow> mapE f xs = mapE g ys"
proof (induction ys arbitrary: xs)
  case Nil
  then show ?case by simp
next
  case (Cons y ys)
  from Cons.IH [of ys] Cons.prems(2) have "mapE f ys = mapE g ys" by simp
  with Cons.prems show ?case by simp
qed

lemma mapE_Inr_iff: "mapE f xs = Inr ys \<longleftrightarrow> list_all2 (\<lambda>x y. f x = Inr y) xs ys"
proof (induction xs arbitrary: ys)
  case (Cons x xs)
  then show ?case by (cases ys) (auto simp: bindE_Inr_iff)
qed auto

lemma list_all2_in1: "list_all2 P xs ys \<Longrightarrow> x \<in> set xs \<Longrightarrow> \<exists>y \<in> set ys. P x y"
  by (induction rule: list_all2_induct) auto

lemma list_all2_in2: "list_all2 P xs ys \<Longrightarrow> y \<in> set ys \<Longrightarrow> \<exists>x \<in> set xs. P x y"
  by (induction rule: list_all2_induct) auto

lemma mapE_length: "mapE f xs = Inr ys \<Longrightarrow> length ys = length xs"
  by (auto simp: mapE_Inr_iff list_all2_lengthD)

lemma mapE_append: "mapE f (xs @ ys) = bindE (mapE f xs) (\<lambda>a. bindE (mapE f ys) (\<lambda>b. Inr (a @ b)))"
proof (induction xs)
  case Nil
  then show ?case by (cases "mapE f ys") simp_all
next
  case (Cons x xs)
  then show ?case by (cases "f x"; cases "mapE f xs"; cases "mapE f ys") simp_all
qed

text \<open>A loop over a list that stops at the first error.\<close>

fun foldE :: "('a \<Rightarrow> 's \<Rightarrow> 'e + 's) \<Rightarrow> 'a list \<Rightarrow> 's \<Rightarrow> 'e + 's" where
  "foldE f [] s = Inr s"
| "foldE f (x # xs) s = bindE (f x s) (foldE f xs)"

lemma foldE_append: "foldE f (xs @ ys) s = bindE (foldE f xs s) (foldE f ys)"
proof (induction xs arbitrary: s)
  case (Cons x xs)
  then show ?case by (cases "f x s") simp_all
qed simp

subsection \<open>Bytes and strings\<close>

type_synonym byte = "8 word"
type_synonym bytes = "byte list"
type_synonym u16 = "16 word"
type_synonym u32 = "32 word"
type_synonym u64 = "64 word"

definition as_bytes :: "string \<Rightarrow> bytes" where
  "as_bytes s = map (\<lambda>c. word_of_nat (of_char c)) s"

definition of_bytes :: "bytes \<Rightarrow> string" where
  "of_bytes bs = map (\<lambda>b. char_of (unat b)) bs"

lemma as_bytes_length [simp]: "length (as_bytes s) = length s"
  by (simp add: as_bytes_def)

lemma of_bytes_length [simp]: "length (of_bytes bs) = length bs"
  by (simp add: of_bytes_def)

lemma of_bytes_as_bytes [simp]: "of_bytes (as_bytes s) = s"
proof -
  have "char_of (unat (word_of_nat (of_char c) :: byte)) = c" for c
    by (simp add: unat_of_nat)
  then show ?thesis by (simp add: of_bytes_def as_bytes_def map_idI)
qed

lemma as_bytes_of_bytes [simp]: "as_bytes (of_bytes bs) = bs"
proof -
  have "(word_of_nat (of_char (char_of (unat b) :: char)) :: byte) = b" for b
  proof -
    have "unat b < 256" using unsigned_less [of b] by simp
    then have "(of_char (char_of (unat b) :: char) :: nat) = unat b" by simp
    then show ?thesis by simp
  qed
  then show ?thesis by (simp add: of_bytes_def as_bytes_def map_idI)
qed

lemma as_bytes_append [simp]: "as_bytes (a @ b) = as_bytes a @ as_bytes b"
  by (simp add: as_bytes_def)

text \<open>Well-formed UTF-8 (the table of the Unicode standard), as \<open>str::from_utf8\<close> checks it.\<close>

definition utf8_cont :: "byte \<Rightarrow> bool" where
  "utf8_cont b \<longleftrightarrow> 0x80 \<le> unat b \<and> unat b \<le> 0xBF"

fun valid_utf8 :: "bytes \<Rightarrow> bool" where
  "valid_utf8 [] = True"
| "valid_utf8 (b0 # rest) =
    (if unat b0 \<le> 0x7F then valid_utf8 rest
     else if 0xC2 \<le> unat b0 \<and> unat b0 \<le> 0xDF then
       (case rest of b1 # r \<Rightarrow> utf8_cont b1 \<and> valid_utf8 r | _ \<Rightarrow> False)
     else if 0xE0 \<le> unat b0 \<and> unat b0 \<le> 0xEF then
       (case rest of b1 # b2 # r \<Rightarrow>
          (if unat b0 = 0xE0 then 0xA0 \<le> unat b1 \<and> unat b1 \<le> 0xBF
           else if unat b0 = 0xED then 0x80 \<le> unat b1 \<and> unat b1 \<le> 0x9F
           else utf8_cont b1) \<and> utf8_cont b2 \<and> valid_utf8 r
        | _ \<Rightarrow> False)
     else if 0xF0 \<le> unat b0 \<and> unat b0 \<le> 0xF4 then
       (case rest of b1 # b2 # b3 # r \<Rightarrow>
          (if unat b0 = 0xF0 then 0x90 \<le> unat b1 \<and> unat b1 \<le> 0xBF
           else if unat b0 = 0xF4 then 0x80 \<le> unat b1 \<and> unat b1 \<le> 0x8F
           else utf8_cont b1) \<and> utf8_cont b2 \<and> utf8_cont b3 \<and> valid_utf8 r
        | _ \<Rightarrow> False)
     else False)"

subsection \<open>Big-endian integers\<close>

text \<open>\<open>uN::to_be_bytes\<close> and \<open>uN::from_be_bytes\<close>; signed integers are the same words.\<close>

fun le_digits :: "nat \<Rightarrow> nat \<Rightarrow> bytes" where
  "le_digits 0 n = []"
| "le_digits (Suc k) n = word_of_nat n # le_digits k (n div 256)"

fun le_value :: "bytes \<Rightarrow> nat" where
  "le_value [] = 0"
| "le_value (b # bs) = unat b + 256 * le_value bs"

lemma length_le_digits [simp]: "length (le_digits k n) = k"
  by (induction k arbitrary: n) simp_all

lemma unat_byte_of_nat: "unat (word_of_nat n :: byte) = n mod 256"
  by (simp add: unat_of_nat)

lemma unat_byte_less: "unat (b :: byte) < 256"
  using unsigned_less [of b] by simp

lemma le_value_digits: "le_value (le_digits k n) = n mod 256 ^ k"
proof (induction k arbitrary: n)
  case (Suc k)
  have "n mod 256 + 256 * (n div 256 mod 256 ^ k) = n mod (256 * 256 ^ k)"
    by (simp add: mod_mult2_eq)
  with Suc show ?case by (simp add: unat_byte_of_nat)
qed simp

lemma le_value_bound: "le_value bs < 256 ^ length bs"
proof (induction bs)
  case (Cons b bs)
  then have "unat b + 256 * le_value bs < 256 * 256 ^ length bs"
    using unat_byte_less [of b] by linarith
  then show ?case by simp
qed simp

lemma le_digits_value: "le_digits (length bs) (le_value bs) = bs"
proof (induction bs)
  case (Cons b bs)
  have "(unat b + 256 * le_value bs) div 256 = le_value bs"
    using unat_byte_less [of b] by simp
  moreover have "(word_of_nat (unat b + 256 * le_value bs) :: byte) = b"
  proof (rule unsigned_word_eqI [where ?'a = nat])
    show "unat (word_of_nat (unat b + 256 * le_value bs) :: byte) = unat b"
      unfolding unat_byte_of_nat using unat_byte_less [of b] by simp
  qed
  ultimately show ?case using Cons by simp
qed simp

definition u32_to_be :: "u32 \<Rightarrow> bytes" where "u32_to_be w = rev (le_digits 4 (unat w))"
definition u32_from_be :: "bytes \<Rightarrow> u32" where "u32_from_be bs = word_of_nat (le_value (rev bs))"
definition u64_to_be :: "u64 \<Rightarrow> bytes" where "u64_to_be w = rev (le_digits 8 (unat w))"
definition u64_from_be :: "bytes \<Rightarrow> u64" where "u64_from_be bs = word_of_nat (le_value (rev bs))"

lemma u32_from_to_be [simp]: "u32_from_be (u32_to_be w) = w"
proof -
  have "unat w < 256 ^ 4" using unsigned_less [of w] by simp
  then show ?thesis by (simp add: u32_from_be_def u32_to_be_def le_value_digits)
qed

lemma u64_from_to_be [simp]: "u64_from_be (u64_to_be w) = w"
proof -
  have "unat w < 256 ^ 8" using unsigned_less [of w] by simp
  then show ?thesis by (simp add: u64_from_be_def u64_to_be_def le_value_digits)
qed

lemma u32_to_from_be: "length bs = 4 \<Longrightarrow> u32_to_be (u32_from_be bs) = bs"
  using le_value_bound [of "rev bs"] le_digits_value [of "rev bs"]
  by (simp add: u32_from_be_def u32_to_be_def unat_of_nat)

lemma u64_to_from_be: "length bs = 8 \<Longrightarrow> u64_to_be (u64_from_be bs) = bs"
  using le_value_bound [of "rev bs"] le_digits_value [of "rev bs"]
  by (simp add: u64_from_be_def u64_to_be_def unat_of_nat)

lemma length_u32_to_be [simp]: "length (u32_to_be w) = 4"
  and length_u64_to_be [simp]: "length (u64_to_be v) = 8"
  by (simp_all add: u32_to_be_def u64_to_be_def)

lemma unat_u32_from_be: "length bs = 4 \<Longrightarrow> unat (u32_from_be bs) = le_value (rev bs)"
  using le_value_bound [of "rev bs"] by (simp add: u32_from_be_def unat_of_nat)

end
