(* ===== verification/Wire.thy ===== *)
theory Wire
  imports Prelude
begin

text \<open>
  The binary envelope of \<open>src/src/state/yrs_wire.rs\<close> (REST catch-up stream and binary
  WebSocket frames) and the client commit frame of \<open>src/src/realtime.rs\<close>.  Byte lengths are
  natural numbers; the conversions to \<open>u32\<close> and the \<open>usize\<close> additions keep their overflow checks.
\<close>

subsection \<open>The update envelope\<close>

definition YRS_UPDATE_WIRE_VERSION :: byte where
  "YRS_UPDATE_WIRE_VERSION = 1"

record yrs_update_envelope =
  ye_seq :: u64
  ye_client_event_id :: string
  ye_schema_version :: u32
  ye_yupdate :: bytes

definition u32_try_from :: "'e \<Rightarrow> nat \<Rightarrow> 'e + u32" where
  "u32_try_from e n = (if n < 2 ^ 32 then Inr (word_of_nat n) else Inl e)"

definition usize_checked_add :: "nat \<Rightarrow> nat \<Rightarrow> nat option" where
  "usize_checked_add a b = (if a + b < 2 ^ 64 then Some (a + b) else None)"

definition encode_envelope :: "yrs_update_envelope \<Rightarrow> bytes \<Rightarrow> string + bytes" where
  "encode_envelope envelope out =
     (let client_id = as_bytes (ye_client_event_id envelope) in
      bindE (u32_try_from ''client_event_id too large'' (length client_id)) (\<lambda>client_len.
      bindE (u32_try_from ''yupdate too large'' (length (ye_yupdate envelope))) (\<lambda>update_len.
      bindE (ok_orE ''frame length overflow''
        (Option.bind (usize_checked_add 1 (8 + 4 + 4 + 4)) (\<lambda>n.
         Option.bind (usize_checked_add n (length client_id)) (\<lambda>n.
         usize_checked_add n (length (ye_yupdate envelope)))))) (\<lambda>body_len.
      bindE (u32_try_from ''frame too large'' body_len) (\<lambda>body_len.
      Inr (out @ u32_to_be body_len @ [YRS_UPDATE_WIRE_VERSION]
             @ u64_to_be (ye_seq envelope) @ u32_to_be (ye_schema_version envelope)
             @ u32_to_be client_len @ u32_to_be update_len
             @ client_id @ ye_yupdate envelope))))))"

fun encode_envelopes :: "yrs_update_envelope list \<Rightarrow> bytes \<Rightarrow> string + bytes" where
  "encode_envelopes [] out = Inr out"
| "encode_envelopes (row # rows) out = bindE (encode_envelope row out) (encode_envelopes rows)"

definition encode_update_stream :: "yrs_update_envelope list \<Rightarrow> string + bytes" where
  "encode_update_stream rows = encode_envelopes rows []"

subsection \<open>Decoding\<close>

definition slice :: "bytes \<Rightarrow> nat \<Rightarrow> nat \<Rightarrow> bytes" where
  "slice bs i j = take (j - i) (drop i bs)"

lemma length_slice: "j \<le> length bs \<Longrightarrow> length (slice bs i j) = j - i"
  by (simp add: slice_def)

definition FIXED :: nat where
  "FIXED = 1 + 8 + 4 + 4 + 4"

definition decode_envelope :: "bytes \<Rightarrow> string + yrs_update_envelope" where
  "decode_envelope frame =
     (if length frame < FIXED then Inl ''update frame too short''
      else if frame ! 0 \<noteq> YRS_UPDATE_WIRE_VERSION then Inl ''unsupported update wire version''
      else
        (let seq = u64_from_be (slice frame 1 9);
             schema_version = u32_from_be (slice frame 9 13);
             client_len = unat (u32_from_be (slice frame 13 17));
             update_len = unat (u32_from_be (slice frame 17 21)) in
         bindE (ok_orE ''update frame length overflow''
           (Option.bind (usize_checked_add FIXED client_len) (\<lambda>n. usize_checked_add n update_len)))
         (\<lambda>expected.
           if length frame \<noteq> expected then Inl ''update frame length mismatch''
           else
             (let client_end = FIXED + client_len;
                  id_bytes = slice frame FIXED client_end in
              if \<not> valid_utf8 id_bytes then Inl ''client_event_id is not UTF-8''
              else Inr \<lparr>ye_seq = seq, ye_client_event_id = of_bytes id_bytes,
                        ye_schema_version = schema_version,
                        ye_yupdate = drop client_end frame\<rparr>))))"

function decode_update_stream :: "bytes \<Rightarrow> string + yrs_update_envelope list" where
  "decode_update_stream bytes =
     (if bytes = [] then Inr []
      else if length bytes < 4 then Inl ''truncated frame length''
      else
        (let frame_len = unat (u32_from_be (take 4 bytes));
             rest = drop 4 bytes in
         if length rest < frame_len then Inl ''truncated frame body''
         else bindE (decode_envelope (take frame_len rest)) (\<lambda>e.
              bindE (decode_update_stream (drop frame_len rest)) (\<lambda>es. Inr (e # es)))))"
  by pat_completeness auto
termination
  by (relation "measure length") auto

declare decode_update_stream.simps [simp del]

subsection \<open>Frame shape\<close>

definition envelope_body :: "yrs_update_envelope \<Rightarrow> bytes" where
  "envelope_body e = [YRS_UPDATE_WIRE_VERSION] @ u64_to_be (ye_seq e) @ u32_to_be (ye_schema_version e)
     @ u32_to_be (word_of_nat (length (ye_client_event_id e)))
     @ u32_to_be (word_of_nat (length (ye_yupdate e)))
     @ as_bytes (ye_client_event_id e) @ ye_yupdate e"

definition fits_frame :: "yrs_update_envelope \<Rightarrow> bool" where
  "fits_frame e \<longleftrightarrow> FIXED + length (ye_client_event_id e) + length (ye_yupdate e) < 2 ^ 32"

lemma length_envelope_body:
  "length (envelope_body e) = FIXED + length (ye_client_event_id e) + length (ye_yupdate e)"
  by (simp add: envelope_body_def FIXED_def)

lemma encode_envelope_eq:
  "encode_envelope e out = Inr w \<longleftrightarrow>
     fits_frame e \<and> w = out @ u32_to_be (word_of_nat (length (envelope_body e))) @ envelope_body e"
  by (auto simp: encode_envelope_def u32_try_from_def usize_checked_add_def fits_frame_def
      length_envelope_body envelope_body_def FIXED_def Let_def add.assoc simp del: of_nat_add)

lemma decode_envelope_body:
  assumes "fits_frame e" and "valid_utf8 (as_bytes (ye_client_event_id e))"
  shows "decode_envelope (envelope_body e) = Inr e"
proof -
  have len: "length (ye_client_event_id e) < 2 ^ 32" "length (ye_yupdate e) < 2 ^ 32"
    using assms(1) by (simp_all add: fits_frame_def)
  have s1: "slice (envelope_body e) 1 9 = u64_to_be (ye_seq e)"
    and s2: "slice (envelope_body e) 9 13 = u32_to_be (ye_schema_version e)"
    and s3: "slice (envelope_body e) 13 17 = u32_to_be (word_of_nat (length (ye_client_event_id e)))"
    and s4: "slice (envelope_body e) 17 21 = u32_to_be (word_of_nat (length (ye_yupdate e)))"
    and s5: "slice (envelope_body e) FIXED (FIXED + length (ye_client_event_id e))
              = as_bytes (ye_client_event_id e)"
    and s0: "envelope_body e ! 0 = YRS_UPDATE_WIRE_VERSION"
    by (simp_all add: envelope_body_def slice_def FIXED_def)
  have s6: "drop (FIXED + length (ye_client_event_id e)) (envelope_body e) = ye_yupdate e"
  proof -
    let ?P = "[YRS_UPDATE_WIRE_VERSION] @ u64_to_be (ye_seq e) @ u32_to_be (ye_schema_version e)
      @ u32_to_be (word_of_nat (length (ye_client_event_id e)))
      @ u32_to_be (word_of_nat (length (ye_yupdate e))) @ as_bytes (ye_client_event_id e)"
    have "envelope_body e = ?P @ ye_yupdate e" by (simp add: envelope_body_def)
    moreover have "length ?P = FIXED + length (ye_client_event_id e)" by (simp add: FIXED_def)
    ultimately show ?thesis by (metis append_eq_conv_conj)
  qed
  show ?thesis
    unfolding decode_envelope_def Let_def s0 s1 s2 s3 s4
    using assms len
    by (simp add: length_envelope_body usize_checked_add_def s5 s6 unat_of_nat fits_frame_def)
qed

lemma envelope_body_pieces:
  assumes "length a = 8" "length b = 4" "length c = 4" "length d = 4"
    and "unat (u32_from_be c) = length i" and "unat (u32_from_be d) = length u"
  shows "envelope_body \<lparr>ye_seq = u64_from_be a, ye_client_event_id = of_bytes i,
      ye_schema_version = u32_from_be b, ye_yupdate = u\<rparr>
    = [YRS_UPDATE_WIRE_VERSION] @ a @ b @ c @ d @ i @ u"
proof -
  have "word_of_nat (length i) = u32_from_be c" "word_of_nat (length u) = u32_from_be d"
    by (simp_all flip: assms(5,6))
  then show ?thesis
    using assms(1-4) by (simp add: envelope_body_def u32_to_from_be u64_to_from_be)
qed

lemma decode_envelope_inv:
  assumes "decode_envelope frame = Inr e" and "length frame < 2 ^ 32"
  shows "frame = envelope_body e \<and> fits_frame e \<and> valid_utf8 (as_bytes (ye_client_event_id e))"
proof -
  let ?cl = "unat (u32_from_be (slice frame 13 17))"
  let ?ul = "unat (u32_from_be (slice frame 17 21))"
  from assms(1) have ge: "FIXED \<le> length frame" and v: "frame ! 0 = YRS_UPDATE_WIRE_VERSION"
    and len: "length frame = FIXED + ?cl + ?ul"
    and utf: "valid_utf8 (slice frame FIXED (FIXED + ?cl))"
    and e: "e = \<lparr>ye_seq = u64_from_be (slice frame 1 9),
        ye_client_event_id = of_bytes (slice frame FIXED (FIXED + ?cl)),
        ye_schema_version = u32_from_be (slice frame 9 13),
        ye_yupdate = drop (FIXED + ?cl) frame\<rparr>"
    by (auto simp: decode_envelope_def Let_def usize_checked_add_def bindE_Inr_iff ok_orE_Inr_iff
        split: if_splits bind_splits)
  have l1: "length (slice frame 1 9) = 8" and l2: "length (slice frame 9 13) = 4"
    and l3: "length (slice frame 13 17) = 4" and l4: "length (slice frame 17 21) = 4"
    and l5: "length (slice frame FIXED (FIXED + ?cl)) = ?cl"
  proof -
    have "21 \<le> length frame" using ge by (simp add: FIXED_def)
    then show "length (slice frame 1 9) = 8" "length (slice frame 9 13) = 4"
      "length (slice frame 13 17) = 4" "length (slice frame 17 21) = 4"
      by (simp_all add: length_slice)
    have "FIXED + ?cl \<le> length frame" using len by linarith
    then show "length (slice frame FIXED (FIXED + ?cl)) = ?cl"
      by (simp only: length_slice diff_add_inverse)
  qed
  have split: "frame = take 1 frame @ slice frame 1 9 @ slice frame 9 13 @ slice frame 13 17
      @ slice frame 17 21 @ slice frame FIXED (FIXED + ?cl) @ drop (FIXED + ?cl) frame"
  proof -
    have st: "drop i frame = slice frame i j @ drop j frame" if "i \<le> j" for i j
      using append_take_drop_id [of "j - i" "drop i frame"] that by (simp add: slice_def)
    have "frame = take 1 frame @ drop 1 frame" by simp
    also have "drop 1 frame = slice frame 1 9 @ drop 9 frame" by (rule st) simp
    also have "drop 9 frame = slice frame 9 13 @ drop 13 frame" by (rule st) simp
    also have "drop 13 frame = slice frame 13 17 @ drop 17 frame" by (rule st) simp
    also have "drop 17 frame = slice frame 17 21 @ drop FIXED frame"
      by (subst st [of 17 21]) (simp_all add: FIXED_def)
    also have "drop FIXED frame = slice frame FIXED (FIXED + ?cl) @ drop (FIXED + ?cl) frame"
      by (rule st) simp
    finally show ?thesis .
  qed
  have t1: "take 1 frame = [YRS_UPDATE_WIRE_VERSION]"
    using ge v by (cases frame) (simp_all add: FIXED_def)
  have fits: "fits_frame e"
    using assms(2) len l5 by (simp add: fits_frame_def e of_bytes_def)
  have l6: "length (drop (FIXED + ?cl) frame) = ?ul"
    using len by simp
  have "envelope_body e = frame"
    unfolding e envelope_body_pieces [OF l1 l2 l3 l4 l5 [symmetric] l6 [symmetric]]
    using split by (simp only: t1)
  then show ?thesis using fits utf by (simp add: e)
qed

lemma encode_envelopes_eq:
  "encode_envelopes es out = Inr w \<longleftrightarrow> list_all fits_frame es \<and>
     w = out @ concat (map (\<lambda>e. u32_to_be (word_of_nat (length (envelope_body e))) @ envelope_body e) es)"
  by (induction es arbitrary: out) (auto simp: bindE_Inr_iff encode_envelope_eq)

lemma fits_frame_length: "fits_frame e \<Longrightarrow> length (envelope_body e) < 2 ^ 32"
  by (simp add: fits_frame_def length_envelope_body)

definition frame_of :: "yrs_update_envelope \<Rightarrow> bytes" where
  "frame_of e = u32_to_be (word_of_nat (length (envelope_body e))) @ envelope_body e"

lemma decode_stream_frame:
  assumes "fits_frame e" and "valid_utf8 (as_bytes (ye_client_event_id e))"
  shows "decode_update_stream (frame_of e @ rest)
       = bindE (decode_update_stream rest) (\<lambda>es. Inr (e # es))"
proof -
  have "unat (word_of_nat (length (envelope_body e)) :: u32) = length (envelope_body e)"
    using fits_frame_length [OF assms(1)] by (simp add: unat_of_nat)
  moreover have "u32_to_be (word_of_nat (length (envelope_body e))) \<noteq> []"
    by (metis length_u32_to_be list.size(3) zero_neq_numeral)
  ultimately show ?thesis
    by (subst decode_update_stream.simps)
      (simp add: frame_of_def Let_def decode_envelope_body [OF assms])
qed

lemma decode_stream_frames:
  "list_all fits_frame es \<Longrightarrow> \<forall>e \<in> set es. valid_utf8 (as_bytes (ye_client_event_id e)) \<Longrightarrow>
   decode_update_stream (concat (map frame_of es)) = Inr es"
  by (induction es) (simp_all add: decode_update_stream.simps [of "[]"] decode_stream_frame)

subsection \<open>Round trips\<close>

text \<open>C34: A catch-up stream decodes to exactly the envelopes it was encoded from, in order: every
  encoding that succeeds is read back, whatever the sequence numbers, event ids and updates are.\<close>

theorem update_stream_roundtrip:
  assumes "encode_update_stream es = Inr w"
    and "\<forall>e \<in> set es. valid_utf8 (as_bytes (ye_client_event_id e))"
  shows "decode_update_stream w = Inr es"
proof -
  have fits: "list_all fits_frame es" and w: "w = concat (map frame_of es)"
    using assms(1) by (auto simp: encode_update_stream_def encode_envelopes_eq frame_of_def [abs_def])
  show ?thesis unfolding w by (rule decode_stream_frames [OF fits assms(2)])
qed

definition sample_envelopes :: "yrs_update_envelope list" where
  "sample_envelopes =
     [\<lparr>ye_seq = 41, ye_client_event_id = ''event-a'', ye_schema_version = 1, ye_yupdate = [0, 1, 255]\<rparr>,
      \<lparr>ye_seq = 44, ye_client_event_id = ''event-b'', ye_schema_version = 2, ye_yupdate = []\<rparr>]"

lemma sample_fits: "list_all fits_frame sample_envelopes"
  by (simp add: sample_envelopes_def fits_frame_def FIXED_def)

lemma sample_encodes: "encode_update_stream sample_envelopes = Inr (concat (map frame_of sample_envelopes))"
  using sample_fits by (simp add: encode_update_stream_def encode_envelopes_eq frame_of_def [abs_def])

lemma sample_utf8: "\<forall>e \<in> set sample_envelopes. valid_utf8 (as_bytes (ye_client_event_id e))"
  by (simp add: sample_envelopes_def as_bytes_def)

theorem update_stream_roundtrip_witness:
  "decode_update_stream (concat (map frame_of sample_envelopes)) = Inr sample_envelopes"
  by (rule update_stream_roundtrip [OF sample_encodes sample_utf8])

text \<open>C35: The stream format is unambiguous: whatever byte string the decoder accepts is the encoding
  of its result, so truncated frames, trailing bytes inside a record, wrong length fields and
  unknown versions are all rejected.\<close>

theorem update_stream_canonical:
  assumes "decode_update_stream w = Inr es"
  shows "encode_update_stream es = Inr w"
proof -
  have "list_all fits_frame es \<and> w = concat (map frame_of es)"
    using assms
  proof (induction w arbitrary: es rule: decode_update_stream.induct)
    case (1 w)
    show ?case
    proof (cases "w = []")
      case True
      with "1.prems" show ?thesis by (simp add: decode_update_stream.simps)
    next
      case False
      let ?n = "unat (u32_from_be (take 4 w))"
      from False "1.prems" obtain e es' where ge: "\<not> length w < 4"
        and n: "\<not> length (drop 4 w) < ?n"
        and e: "decode_envelope (take ?n (drop 4 w)) = Inr e"
        and rest: "decode_update_stream (drop ?n (drop 4 w)) = Inr es'" and es: "es = e # es'"
        by (subst (asm) decode_update_stream.simps)
          (auto simp: Let_def bindE_Inr_iff split: if_splits)
      have body: "take ?n (drop 4 w) = envelope_body e" and fits: "fits_frame e"
        using decode_envelope_inv [OF e] unsigned_less [of "u32_from_be (take 4 w)"] n by auto
      have len: "length (envelope_body e) = ?n"
        using n by (simp flip: body)
      have IH: "list_all fits_frame es' \<and> drop ?n (drop 4 w) = concat (map frame_of es')"
        by (rule "1.IH" [OF False ge refl refl n e rest])
      have hdr: "take 4 w = u32_to_be (word_of_nat (length (envelope_body e)))"
        using ge by (simp add: len u32_to_from_be)
      have "w = take 4 w @ envelope_body e @ drop ?n (drop 4 w)"
        by (simp only: body [symmetric] append_take_drop_id)
      then have "w = frame_of e @ drop ?n (drop 4 w)"
        by (metis append_assoc frame_of_def hdr)
      with IH fits show ?thesis by (metis es concat.simps(2) list.map(2) list.pred_inject(2))
    qed
  qed
  then show ?thesis
    by (simp add: encode_update_stream_def encode_envelopes_eq frame_of_def [abs_def])
qed

theorem update_stream_canonical_witness:
  "encode_update_stream sample_envelopes = Inr (concat (map frame_of sample_envelopes))"
  by (rule update_stream_canonical [OF decode_stream_frames [OF sample_fits sample_utf8]])

end
