(* ===== verification/Json.thy ===== *)
theory Json
  imports Prelude
begin

text \<open>
  The values of \<open>serde_json\<close> as the code inspects them, and the numbers in them.  A
  \<open>serde_json::Map\<close> is a B-tree map ordered by key, so an object is an association list;
  \<open>json_wf\<close> is the representation invariant of that type (keys strictly increasing, a \<open>NegInt\<close>
  negative, a float finite), kept by every insertion.  An IEEE double is one of the special values or
  the rational it denotes; the code converts only integers up to \<open>2^53\<close>, where the
  conversion is exact.
\<close>

subsection \<open>Doubles\<close>

datatype f64 = NaN | Infinite bool | NegZero | Fin rat

fun f64_is_finite :: "f64 \<Rightarrow> bool" where
  "f64_is_finite NaN = False"
| "f64_is_finite (Infinite s) = False"
| "f64_is_finite NegZero = True"
| "f64_is_finite (Fin r) = True"

fun f64_value :: "f64 \<Rightarrow> rat" where
  "f64_value (Fin r) = r"
| "f64_value _ = 0"

text \<open>\<open>f.fract() == 0.0\<close>, meaningful for finite \<open>f\<close> only.\<close>

definition f64_integral :: "f64 \<Rightarrow> bool" where
  "f64_integral f \<longleftrightarrow> f64_is_finite f \<and> rat_of_int \<lfloor>f64_value f\<rfloor> = f64_value f"

definition f64_to_int :: "f64 \<Rightarrow> int" where
  "f64_to_int f = \<lfloor>f64_value f\<rfloor>"

subsection \<open>Values\<close>

datatype json_num = PosInt u64 | NegInt u64 | Float f64

datatype json =
    JNull
  | JBool bool
  | JNum json_num
  | JStr string
  | JArr "json list"
  | JObj "(string \<times> json) list"

definition num_as_u64 :: "json_num \<Rightarrow> u64 option" where
  "num_as_u64 n = (case n of PosInt u \<Rightarrow> Some u | _ \<Rightarrow> None)"

definition num_as_i64 :: "json_num \<Rightarrow> int option" where
  "num_as_i64 n = (case n of PosInt u \<Rightarrow> (if unat u < 2 ^ 63 then Some (uint u) else None)
                           | NegInt i \<Rightarrow> Some (sint i) | Float _ \<Rightarrow> None)"

definition as_u64 :: "json \<Rightarrow> u64 option" where
  "as_u64 v = (case v of JNum n \<Rightarrow> num_as_u64 n | _ \<Rightarrow> None)"

definition as_str :: "json \<Rightarrow> string option" where
  "as_str v = (case v of JStr s \<Rightarrow> Some s | _ \<Rightarrow> None)"

definition as_bool :: "json \<Rightarrow> bool option" where
  "as_bool v = (case v of JBool b \<Rightarrow> Some b | _ \<Rightarrow> None)"

definition as_array :: "json \<Rightarrow> json list option" where
  "as_array v = (case v of JArr xs \<Rightarrow> Some xs | _ \<Rightarrow> None)"

definition as_object :: "json \<Rightarrow> (string \<times> json) list option" where
  "as_object v = (case v of JObj m \<Rightarrow> Some m | _ \<Rightarrow> None)"

definition json_get :: "string \<Rightarrow> json \<Rightarrow> json option" where
  "json_get k v = (case v of JObj m \<Rightarrow> map_of m k | _ \<Rightarrow> None)"

lemmas json_access = as_u64_def as_str_def as_bool_def as_array_def as_object_def json_get_def
  num_as_u64_def num_as_i64_def

lemma json_get_JObj [simp]: "json_get k (JObj m) = map_of m k"
  by (simp add: json_get_def)

lemma as_array_JArr [simp]: "as_array (JArr xs) = Some xs"
  by (simp add: as_array_def)

lemma as_object_JObj [simp]: "as_object (JObj m) = Some m"
  by (simp add: as_object_def)

lemma as_str_JStr [simp]: "as_str (JStr s) = Some s"
  by (simp add: as_str_def)

lemma as_u64_PosInt [simp]: "as_u64 (JNum (PosInt u)) = Some u"
  by (simp add: as_u64_def num_as_u64_def)

lemma as_array_Some [simp]: "as_array v = Some xs \<longleftrightarrow> v = JArr xs"
  by (cases v) (simp_all add: as_array_def)

lemma as_object_Some [simp]: "as_object v = Some m \<longleftrightarrow> v = JObj m"
  by (cases v) (simp_all add: as_object_def)

lemma as_str_Some [simp]: "as_str v = Some s \<longleftrightarrow> v = JStr s"
  by (cases v) (simp_all add: as_str_def)

subsection \<open>Ordered insertion (the B-tree map of an object)\<close>

fun obj_insert :: "'k::linorder \<Rightarrow> 'v \<Rightarrow> ('k \<times> 'v) list \<Rightarrow> ('k \<times> 'v) list" where
  "obj_insert k v [] = [(k, v)]"
| "obj_insert k v ((k', v') # m) =
     (if k < k' then (k, v) # (k', v') # m
      else if k = k' then (k, v) # m
      else (k', v') # obj_insert k v m)"

definition obj_remove :: "'k \<Rightarrow> ('k \<times> 'v) list \<Rightarrow> ('k \<times> 'v) list" where
  "obj_remove k m = filter (\<lambda>p. fst p \<noteq> k) m"

definition obj_of :: "('k::linorder \<times> 'v) list \<Rightarrow> ('k \<times> 'v) list" where
  "obj_of ps = foldl (\<lambda>m p. obj_insert (fst p) (snd p) m) [] ps"

definition sorted_keys :: "('k::linorder \<times> 'v) list \<Rightarrow> bool" where
  "sorted_keys m \<longleftrightarrow> sorted_wrt (<) (map fst m)"

lemma sorted_keys_simps [simp]:
  "sorted_keys []"
  "sorted_keys (p # m) \<longleftrightarrow> (\<forall>q \<in> set m. fst p < fst q) \<and> sorted_keys m"
  by (auto simp: sorted_keys_def)

lemma set_obj_insert_subset: "set (obj_insert k v m) \<subseteq> insert (k, v) (set m)"
  by (induction k v m rule: obj_insert.induct) auto

lemma fst_set_obj_insert: "fst ` set (obj_insert k v m) = insert k (fst ` set m)"
  by (induction k v m rule: obj_insert.induct) auto

lemma sorted_obj_insert [simp]: "sorted_keys m \<Longrightarrow> sorted_keys (obj_insert k v m)"
proof (induction k v m rule: obj_insert.induct)
  case (2 k v k' v' m)
  have "k' < fst q" if "\<not> k < k'" "k \<noteq> k'" "q \<in> set (obj_insert k v m)" for q
    using that 2(2) set_obj_insert_subset [of k v m] by (cases "q = (k, v)") auto
  with 2 show ?case by force
qed simp

lemma map_of_obj_insert [simp]:
  "sorted_keys m \<Longrightarrow> map_of (obj_insert k v m) = (map_of m)(k \<mapsto> v)"
proof (induction k v m rule: obj_insert.induct)
  case (2 k v k' v' m)
  then show ?case by (auto simp: fun_eq_iff)
qed auto

lemma sorted_obj_remove [simp]: "sorted_keys m \<Longrightarrow> sorted_keys (obj_remove k m)"
  by (induction m) (auto simp: obj_remove_def)

lemma map_of_obj_remove [simp]: "map_of (obj_remove k m) = (map_of m)(k := None)"
  by (induction m) (auto simp: obj_remove_def fun_eq_iff)

lemma map_of_sorted_in: "sorted_keys m \<Longrightarrow> (k, v) \<in> set m \<Longrightarrow> map_of m k = Some v"
  by (induction m) auto

lemma sorted_keys_eqI:
  assumes "sorted_keys m" "sorted_keys m'" "map_of m = map_of m'"
  shows "m = m'"
  using assms
proof (induction m arbitrary: m')
  case Nil
  then show ?case by (cases m') (auto simp: fun_eq_iff split: if_splits)
next
  case (Cons p m)
  obtain k v where p: "p = (k, v)" by force
  from Cons.prems(3) have "map_of m' k = Some v" by (metis p fun_upd_same map_of_Cons_code(2))
  then obtain k' v' r where m': "m' = (k', v') # r" by (cases m') auto
  have none: "map_of m k = None" "map_of r k' = None"
    using Cons.prems(1,2) by (auto simp: p m' map_of_eq_None_iff)
  have kk: "k = k'"
  proof (rule ccontr)
    assume neq: "k \<noteq> k'"
    with \<open>map_of m' k = Some v\<close> have "(k, v) \<in> set r" by (auto simp: m' dest: map_of_SomeD)
    then have "k' < k" using Cons.prems(2) by (auto simp: m')
    moreover have "map_of (p # m) k' = Some v'" unfolding Cons.prems(3) m' by simp
    then have "(k', v') \<in> set m" using neq by (auto simp: p dest: map_of_SomeD)
    then have "k < k'" using Cons.prems(1) by (auto simp: p)
    ultimately show False by simp
  qed
  have "map_of m = map_of r"
  proof
    fix x
    show "map_of m x = map_of r x"
      using fun_cong [OF Cons.prems(3), of x] none by (auto simp: p m' kk split: if_splits)
  qed
  with Cons.IH [of r] Cons.prems(1,2) have "m = r" by (simp add: m')
  moreover have "v = v'" using \<open>map_of m' k = Some v\<close> by (simp add: m' kk)
  ultimately show ?case by (simp add: p m' kk)
qed

lemma obj_of_snoc: "obj_of (ps @ [p]) = obj_insert (fst p) (snd p) (obj_of ps)"
  by (simp add: obj_of_def)

lemma sorted_obj_of [simp]: "sorted_keys (obj_of ps)"
  by (induction ps rule: rev_induct) (simp_all add: obj_of_snoc, simp add: obj_of_def)

lemma map_of_obj_of: "map_of (obj_of ps) = map_of (rev ps)"
  by (induction ps rule: rev_induct) (simp_all add: obj_of_snoc, simp add: obj_of_def)

lemma obj_of_sorted [simp]: "sorted_keys m \<Longrightarrow> obj_of m = m"
proof (rule sorted_keys_eqI)
  assume s: "sorted_keys m"
  then have "distinct (map fst m)" by (simp add: sorted_keys_def strict_sorted_iff)
  then show "map_of (obj_of m) = map_of m"
    by (simp add: map_of_obj_of map_of_inject_set rev_map [symmetric])
qed simp_all

subsection \<open>The representation invariant\<close>

fun num_wf :: "json_num \<Rightarrow> bool" where
  "num_wf (PosInt u) = True"
| "num_wf (NegInt i) = (sint i < 0)"
| "num_wf (Float f) = f64_is_finite f"

fun json_wf :: "json \<Rightarrow> bool" where
  "json_wf (JNum n) = num_wf n"
| "json_wf (JArr xs) = (\<forall>x \<in> set xs. json_wf x)"
| "json_wf (JObj m) = (sorted_keys m \<and> (\<forall>p \<in> set m. json_wf (snd p)))"
| "json_wf _ = True"

end
