(* ===== verification/Yrs_Mapping.thy ===== *)
theory Yrs_Mapping
  imports Json
begin

text \<open>
  The strict JSON to Yrs \<open>Any\<close> mapping of \<open>src/src/state/yrs_model/mapping.rs\<close>.  \<open>any\<close> lists the
  constructors of \<open>yrs::Any\<close>; an \<open>Any::Map\<close> is a hash map, so its entries come as an association
  list in some iteration order.  The theorems: nothing unsafe is converted, every conversion is
  undone by the inverse up to the normal form of numbers, and the normal form is stable.
\<close>

datatype any =
    ANull
  | AUndefined
  | ABool bool
  | ANumber f64
  | ABigInt u64
  | AString string
  | ABuffer bytes
  | AArray "any list"
  | AMap "(string \<times> any) list"

text \<open>\<open>UnsafeInteger\<close> carries the integer whose decimal rendering the code stores.\<close>

datatype mapping_error = NonFiniteNumber | UnsafeInteger int | UnsupportedAny string

definition SAFE_INT :: nat where
  "SAFE_INT = 2 ^ 53"

definition number_to_any :: "json_num \<Rightarrow> mapping_error + any" where
  "number_to_any n =
     (case num_as_u64 n of
        Some u \<Rightarrow> (if unat u \<le> SAFE_INT then Inr (ANumber (Fin (of_nat (unat u))))
                   else Inl (UnsafeInteger (uint u)))
      | None \<Rightarrow>
          (case num_as_i64 n of
             Some i \<Rightarrow> (if nat \<bar>i\<bar> \<le> SAFE_INT then Inr (ANumber (Fin (of_int i)))
                        else Inl (UnsafeInteger i))
           | None \<Rightarrow>
               (case n of
                  Float f \<Rightarrow> (if f64_is_finite f then Inr (ANumber f) else Inl NonFiniteNumber)
                | _ \<Rightarrow> Inl NonFiniteNumber)))"

fun json_to_any :: "json \<Rightarrow> mapping_error + any" where
  "json_to_any JNull = Inr ANull"
| "json_to_any (JBool b) = Inr (ABool b)"
| "json_to_any (JNum n) = number_to_any n"
| "json_to_any (JStr s) = Inr (AString s)"
| "json_to_any (JArr arr) = bindE (mapE json_to_any arr) (\<lambda>items. Inr (AArray items))"
| "json_to_any (JObj obj) =
     bindE (mapE (\<lambda>p. bindE (json_to_any (snd p)) (\<lambda>a. Inr (fst p, a))) obj) (\<lambda>m. Inr (AMap m))"

definition number_to_json :: "f64 \<Rightarrow> mapping_error + json" where
  "number_to_json f =
     (if \<not> f64_is_finite f then Inl NonFiniteNumber
      else if f64_integral f \<and> \<bar>f64_value f\<bar> \<le> of_nat SAFE_INT then
        (if f64_value f \<ge> 0 then Inr (JNum (PosInt (word_of_int (f64_to_int f))))
         else Inr (JNum (NegInt (word_of_int (f64_to_int f)))))
      else Inr (JNum (Float f)))"

definition int_to_json :: "int \<Rightarrow> json" where
  "int_to_json i = JNum (if 0 \<le> i then PosInt (word_of_int i) else NegInt (word_of_int i))"

fun any_to_json :: "any \<Rightarrow> mapping_error + json" where
  "any_to_json ANull = Inr JNull"
| "any_to_json AUndefined = Inl (UnsupportedAny ''Undefined'')"
| "any_to_json (ABool b) = Inr (JBool b)"
| "any_to_json (ANumber f) = number_to_json f"
| "any_to_json (ABigInt i) =
     (if nat \<bar>sint i\<bar> \<le> SAFE_INT then Inr (int_to_json (sint i)) else Inl (UnsafeInteger (sint i)))"
| "any_to_json (AString s) = Inr (JStr s)"
| "any_to_json (ABuffer b) = Inl (UnsupportedAny ''Buffer'')"
| "any_to_json (AArray arr) = bindE (mapE any_to_json arr) (\<lambda>items. Inr (JArr items))"
| "any_to_json (AMap m) =
     bindE (mapE (\<lambda>p. bindE (any_to_json (snd p)) (\<lambda>v. Inr (fst p, v))) m)
       (\<lambda>ps. Inr (JObj (obj_of ps)))"

text \<open>\<open>canon_value\<close> of \<open>yrs_model.rs\<close>.\<close>

definition canon_value :: "json \<Rightarrow> mapping_error + json" where
  "canon_value v = bindE (json_to_any v) any_to_json"

subsection \<open>The numeric domain\<close>

fun num_safe :: "json_num \<Rightarrow> bool" where
  "num_safe (PosInt u) = (unat u \<le> SAFE_INT)"
| "num_safe (NegInt i) = (nat \<bar>sint i\<bar> \<le> SAFE_INT)"
| "num_safe (Float f) = f64_is_finite f"

fun json_safe :: "json \<Rightarrow> bool" where
  "json_safe (JNum n) = num_safe n"
| "json_safe (JArr xs) = (\<forall>x \<in> set xs. json_safe x)"
| "json_safe (JObj m) = (\<forall>p \<in> set m. json_safe (snd p))"
| "json_safe _ = True"

text \<open>The normal form of a number: an integral double in the safe range is an integer.\<close>

fun num_norm :: "json_num \<Rightarrow> json_num" where
  "num_norm (Float f) =
     (if f64_integral f \<and> \<bar>f64_value f\<bar> \<le> of_nat SAFE_INT
      then (if f64_value f \<ge> 0 then PosInt (word_of_int (f64_to_int f))
            else NegInt (word_of_int (f64_to_int f)))
      else Float f)"
| "num_norm n = n"

fun json_norm :: "json \<Rightarrow> json" where
  "json_norm (JNum n) = JNum (num_norm n)"
| "json_norm (JArr xs) = JArr (map json_norm xs)"
| "json_norm (JObj m) = JObj (map (\<lambda>p. (fst p, json_norm (snd p))) m)"
| "json_norm v = v"


subsection \<open>Inverting the conversions\<close>

lemma mapE_pairs_iff:
  fixes f :: "'b \<Rightarrow> 'e + 'd" and m :: "('a \<times> 'b) list"
  shows "mapE (\<lambda>p. bindE (f (snd p)) (\<lambda>a. Inr (fst p, a))) m = Inr qs \<longleftrightarrow>
   list_all2 (\<lambda>p q. fst q = fst p \<and> f (snd p) = Inr (snd q)) m qs"
proof -
  have "(bindE (f (snd p)) (\<lambda>a. Inr (fst p, a)) = Inr q) = (fst q = fst p \<and> f (snd p) = Inr (snd q))"
    for p :: "'a \<times> 'b" and q :: "'a \<times> 'd"
    by (cases q) (auto simp: bindE_Inr_iff)
  then show ?thesis by (simp add: mapE_Inr_iff)
qed

lemma abs_rat_le_SAFE: "(\<bar>rat_of_int i\<bar> \<le> of_nat SAFE_INT) = (nat \<bar>i\<bar> \<le> SAFE_INT)"
proof -
  have "(\<bar>rat_of_int i\<bar> \<le> of_nat SAFE_INT) = (rat_of_int \<bar>i\<bar> \<le> rat_of_int (int SAFE_INT))"
    by simp
  also have "\<dots> = (\<bar>i\<bar> \<le> int SAFE_INT)" by (simp only: of_int_le_iff)
  finally show ?thesis by (simp add: nat_le_iff)
qed

lemma number_to_json_Fin_int:
  assumes "nat \<bar>i\<bar> \<le> SAFE_INT"
  shows "number_to_json (Fin (of_int i)) = Inr (int_to_json i)"
  using assms by (simp add: number_to_json_def f64_integral_def f64_to_int_def int_to_json_def abs_rat_le_SAFE)

lemma number_roundtrip:
  assumes "num_wf n" and "number_to_any n = Inr a"
  shows "any_to_json a = Inr (JNum (num_norm n))"
proof (cases n)
  case (PosInt u)
  with assms have "unat u \<le> SAFE_INT" and a: "a = ANumber (Fin (of_int (int (unat u))))"
    by (auto simp: number_to_any_def num_as_u64_def split: if_splits)
  then show ?thesis using number_to_json_Fin_int [of "int (unat u)"]
    by (simp add: PosInt int_to_json_def)
next
  case (NegInt i)
  with assms have "nat \<bar>sint i\<bar> \<le> SAFE_INT" and a: "a = ANumber (Fin (of_int (sint i)))"
    by (auto simp: number_to_any_def num_as_u64_def num_as_i64_def split: if_splits)
  then show ?thesis using assms(1) number_to_json_Fin_int [of "sint i"]
    by (simp add: NegInt int_to_json_def)
next
  case (Float f)
  with assms show ?thesis
    by (auto simp: number_to_any_def num_as_u64_def num_as_i64_def number_to_json_def split: if_splits)
qed

lemma sorted_keys_map_snd [simp]: "sorted_keys (map (\<lambda>p. (fst p, g (snd p))) m) = sorted_keys m"
  by (simp add: sorted_keys_def comp_def)

lemma json_roundtrip_aux:
  "json_wf v \<Longrightarrow> json_to_any v = Inr a \<Longrightarrow> any_to_json a = Inr (json_norm v)"
proof (induction v arbitrary: a rule: json_to_any.induct)
  case (3 n)
  then show ?case by (simp add: number_roundtrip)
next
  case (5 arr)
  then obtain as where a: "a = AArray as" and as: "list_all2 (\<lambda>x y. json_to_any x = Inr y) arr as"
    by (auto simp: bindE_Inr_iff mapE_Inr_iff)
  have "list_all2 (\<lambda>x y. any_to_json x = Inr y) as (map json_norm arr)"
    using as 5 by (auto simp: list_all2_conv_all_nth)
  then show ?case by (simp add: a mapE_Inr_iff [THEN iffD2])
next
  case (6 obj)
  then obtain qs where a: "a = AMap qs"
    and qs: "list_all2 (\<lambda>p q. fst q = fst p \<and> json_to_any (snd p) = Inr (snd q)) obj qs"
    by (auto simp: bindE_Inr_iff mapE_pairs_iff)
  have "list_all2 (\<lambda>p q. fst q = fst p \<and> any_to_json (snd p) = Inr (snd q)) qs
      (map (\<lambda>p. (fst p, json_norm (snd p))) obj)"
    using qs 6 by (auto simp: list_all2_conv_all_nth)
  then have "any_to_json a = Inr (JObj (obj_of (map (\<lambda>p. (fst p, json_norm (snd p))) obj)))"
    by (simp add: a mapE_pairs_iff [THEN iffD2])
  then show ?case using "6.prems"(1) by simp
qed auto

lemma number_to_any_ok_iff: "num_wf n \<Longrightarrow> (\<exists>a. number_to_any n = Inr a) \<longleftrightarrow> num_safe n"
  by (cases n) (auto simp: number_to_any_def num_as_u64_def num_as_i64_def)

lemma mapE_ok_iff: "(\<exists>ys. mapE f xs = Inr ys) \<longleftrightarrow> (\<forall>x \<in> set xs. \<exists>y. f x = Inr y)"
  by (induction xs) (auto simp: bindE_Inr_iff)

lemma json_to_any_ok_iff: "json_wf v \<Longrightarrow> (\<exists>a. json_to_any v = Inr a) \<longleftrightarrow> json_safe v"
proof (induction v rule: json_to_any.induct)
  case (3 n)
  then show ?case by (simp add: number_to_any_ok_iff)
next
  case (5 arr)
  have "(\<exists>a. json_to_any (JArr arr) = Inr a) = (\<exists>ys. mapE json_to_any arr = Inr ys)"
    by (auto simp: bindE_Inr_iff)
  with 5 show ?case by (simp add: mapE_ok_iff)
next
  case (6 obj)
  let ?g = "\<lambda>p. bindE (json_to_any (snd p)) (\<lambda>a. Inr (fst p, a))"
  have "(\<exists>a. json_to_any (JObj obj) = Inr a) = (\<exists>qs. mapE ?g obj = Inr qs)"
    by (auto simp: bindE_Inr_iff)
  also have "\<dots> = (\<forall>p \<in> set obj. \<exists>q. ?g p = Inr q)"
    by (rule mapE_ok_iff)
  finally have "(\<exists>a. json_to_any (JObj obj) = Inr a) = (\<forall>p \<in> set obj. \<exists>q. ?g p = Inr q)" .
  with 6 show ?case by (auto simp: bindE_Inr_iff)
qed auto

lemma num_norm_idem: "num_norm (num_norm n) = num_norm n"
  by (cases n) (auto split: if_splits)

lemma json_norm_idem: "json_norm (json_norm v) = json_norm v"
  by (induction v rule: json_norm.induct) (auto simp: num_norm_idem)

lemma sint_word_of_int_small:
  assumes "nat \<bar>i\<bar> \<le> SAFE_INT"
  shows "sint (word_of_int i :: u64) = i"
proof -
  have "\<bar>i\<bar> \<le> 2 ^ 53" using assms by (simp add: SAFE_INT_def nat_le_iff)
  then have "- (2 ^ 63) \<le> i" "i < 2 ^ 63" by auto
  then show ?thesis by (simp add: signed_of_int signed_take_bit_int_eq_self)
qed

lemma num_norm_wf_safe:
  assumes "num_wf n" "num_safe n"
  shows "num_wf (num_norm n) \<and> num_safe (num_norm n)"
proof (cases n)
  case (Float f)
  show ?thesis
  proof (cases "f64_integral f \<and> \<bar>f64_value f\<bar> \<le> of_nat SAFE_INT")
    case True
    define i where "i = f64_to_int f"
    have v: "f64_value f = of_int i"
      unfolding i_def f64_to_int_def using True by (metis f64_integral_def)
    with True have small: "nat \<bar>i\<bar> \<le> SAFE_INT" using abs_rat_le_SAFE [of i] by simp
    then have "0 \<le> i \<Longrightarrow> unat (word_of_int i :: u64) \<le> SAFE_INT"
      by (simp add: unsigned_of_int SAFE_INT_def nat_le_iff take_bit_int_eq_self)
    then show ?thesis using True small sint_word_of_int_small [OF small]
      by (auto simp: Float v i_def [symmetric])
  qed (use assms Float in auto)
qed (use assms in auto)

lemma json_norm_wf_safe:
  "json_wf v \<Longrightarrow> json_safe v \<Longrightarrow> json_wf (json_norm v) \<and> json_safe (json_norm v)"
  by (induction v rule: json_norm.induct) (auto simp: num_norm_wf_safe)

lemma f64_integral_of_int: "f64_integral (Fin (of_int i))"
  by (simp add: f64_integral_def)

lemma f64_to_int_of_int: "f64_to_int (Fin (of_int i)) = i"
  by (simp add: f64_to_int_def)

subsection \<open>What the mapping guarantees\<close>

text \<open>C36: Converting JSON to Yrs and back loses nothing: every value whose integers are within \<open>2^53\<close> and whose
  doubles are finite converts, and what it converts to comes back as the value itself up to the normal form of
  numbers (an integral double becomes an integer), with every key, order, null and string preserved; any other
  value is refused with an error.\<close>

theorem json_any_roundtrip:
  assumes "json_wf v"
  shows "(json_safe v \<longrightarrow> (\<exists>a. json_to_any v = Inr a \<and> any_to_json a = Inr (json_norm v)))
    \<and> (\<not> json_safe v \<longrightarrow> (\<exists>e. json_to_any v = Inl e))"
proof (cases "json_safe v")
  case True
  then obtain a where "json_to_any v = Inr a" using json_to_any_ok_iff [OF assms] by blast
  then show ?thesis using json_roundtrip_aux [OF assms] True by blast
next
  case False
  then have "\<nexists>a. json_to_any v = Inr a" using json_to_any_ok_iff [OF assms] by simp
  then show ?thesis using False by (cases "json_to_any v") auto
qed

theorem json_any_roundtrip_witness:
  "(\<exists>a. json_to_any (JObj [(''k'', JArr [JNum (Float (Fin 7)), JNull])]) = Inr a
      \<and> any_to_json a = Inr (JObj [(''k'', JArr [JNum (PosInt 7), JNull])]))
   \<and> (\<exists>e. json_to_any (JArr [JNum (PosInt 9007199254740993)]) = Inl e)"
proof -
  have i: "f64_integral (Fin 7)" "f64_to_int (Fin 7) = 7"
    using f64_integral_of_int [of 7] f64_to_int_of_int [of 7] by simp_all
  then have "json_norm (JObj [(''k'', JArr [JNum (Float (Fin 7)), JNull])]) = JObj [(''k'', JArr [JNum (PosInt 7), JNull])]"
    by (simp add: SAFE_INT_def)
  then show ?thesis
    using json_any_roundtrip [of "JObj [(''k'', JArr [JNum (Float (Fin 7)), JNull])]"]
      json_any_roundtrip [of "JArr [JNum (PosInt 9007199254740993)]"]
    by (simp add: SAFE_INT_def)
qed

text \<open>C39: The mapping is total exactly on the safe domain, and what the canonicalizer returns is a
  fixed point: a value is accepted if and only if all its integers are within \<open>2^53\<close>, and
  canonicalizing the result again changes nothing.\<close>

theorem canon_value_stable:
  assumes "json_wf v"
  shows "(if json_safe v then canon_value v = Inr (json_norm v) \<and> canon_value (json_norm v) = Inr (json_norm v)
          else \<exists>e. canon_value v = Inl e)"
proof -
  have canon: "canon_value u = Inr (json_norm u)" if "json_wf u" "json_safe u" for u
    using json_to_any_ok_iff [OF that(1)] that json_roundtrip_aux [OF that(1)]
    by (auto simp: canon_value_def)
  show ?thesis
  proof (cases "json_safe v")
    case True
    then show ?thesis
      using canon [OF assms] canon [of "json_norm v"] json_norm_wf_safe [OF assms] by (simp add: json_norm_idem)
  next
    case False
    then have "\<nexists>a. json_to_any v = Inr a" using json_to_any_ok_iff [OF assms] by simp
    then show ?thesis using False by (cases "json_to_any v") (auto simp: canon_value_def)
  qed
qed

theorem canon_value_stable_witness:
  "json_wf (JArr [JNum (PosInt 5)]) \<and> canon_value (JArr [JNum (PosInt 5)]) = Inr (JArr [JNum (PosInt 5)])"
  using canon_value_stable [of "JArr [JNum (PosInt 5)]"] by (simp add: SAFE_INT_def)

end
