(* ===== verification/Rust_Str.thy ===== *)
theory Rust_Str
  imports Prelude
begin

text \<open>
  The string functions of the Rust standard library the code uses, on UTF-8 byte strings:
  prefixes, splitting, trimming (ASCII white space), ASCII case folding, and decimal numbers.
\<close>

subsection \<open>Prefixes, substrings, splitting\<close>

definition starts_with :: "string \<Rightarrow> string \<Rightarrow> bool" where
  "starts_with s p \<longleftrightarrow> take (length p) s = p"

definition strip_prefix :: "string \<Rightarrow> string \<Rightarrow> string option" where
  "strip_prefix s p = (if starts_with s p then Some (drop (length p) s) else None)"

definition ends_with :: "string \<Rightarrow> string \<Rightarrow> bool" where
  "ends_with s p \<longleftrightarrow> length p \<le> length s \<and> drop (length s - length p) s = p"

definition strip_suffix :: "string \<Rightarrow> string \<Rightarrow> string option" where
  "strip_suffix s p = (if ends_with s p then Some (take (length s - length p) s) else None)"

fun str_contains :: "string \<Rightarrow> string \<Rightarrow> bool" where
  "str_contains [] p = (p = [])"
| "str_contains (c # s) p = (starts_with (c # s) p \<or> str_contains s p)"

fun split_once :: "char \<Rightarrow> string \<Rightarrow> (string \<times> string) option" where
  "split_once c [] = None"
| "split_once c (d # s) =
     (if d = c then Some ([], s) else map_option (\<lambda>(a, b). (d # a, b)) (split_once c s))"

fun split_char :: "char \<Rightarrow> string \<Rightarrow> string list" where
  "split_char c [] = [[]]"
| "split_char c (d # s) =
     (if d = c then [] # split_char c s
      else (case split_char c s of [] \<Rightarrow> [[d]] | p # ps \<Rightarrow> (d # p) # ps))"

lemma strip_prefix_Some: "strip_prefix s p = Some r \<longleftrightarrow> s = p @ r"
  by (auto simp: strip_prefix_def starts_with_def) (metis append_take_drop_id)

lemma starts_with_iff: "starts_with s p \<longleftrightarrow> (\<exists>r. s = p @ r)"
  by (auto simp: starts_with_def) (metis append_take_drop_id)

lemma starts_with_append [simp]: "starts_with (p @ r) p"
  by (simp add: starts_with_def)

lemma ends_with_iff: "ends_with s p \<longleftrightarrow> (\<exists>r. s = r @ p)"
  by (auto simp: ends_with_def) (metis append_take_drop_id)

lemma strip_suffix_Some: "strip_suffix s p = Some r \<longleftrightarrow> s = r @ p"
  by (auto simp: strip_suffix_def ends_with_def) (metis append_take_drop_id)

lemma str_contains_iff: "str_contains s p \<longleftrightarrow> (\<exists>a b. s = a @ p @ b)"
proof (induction s)
  case (Cons c s)
  note IH = Cons.IH
  show ?case
  proof
    assume "str_contains (c # s) p"
    then consider r where "c # s = [] @ p @ r" | a b where "s = a @ p @ b"
      using Cons by (auto simp: starts_with_iff)
    then show "\<exists>a b. c # s = a @ p @ b"
      by cases (blast, metis append_Cons)
  next
    assume "\<exists>a b. c # s = a @ p @ b"
    then obtain a b where ab: "c # s = a @ p @ b" by blast
    then show "str_contains (c # s) p"
    proof (cases a)
      case Nil
      with ab have "starts_with (c # s) p" by (metis append_Nil starts_with_iff)
      then show ?thesis by simp
    next
      case (Cons d a')
      with ab have "s = a' @ p @ b" by simp
      then show ?thesis using IH by auto
    qed
  qed
qed auto

lemma split_once_Some: "split_once c s = Some (a, b) \<longleftrightarrow> s = a @ c # b \<and> c \<notin> set a"
proof (induction s arbitrary: a)
  case (Cons d s)
  then show ?case by (cases a) auto
qed simp

lemma split_once_None: "split_once c s = None \<longleftrightarrow> c \<notin> set s"
  by (induction s) auto

lemma split_once_append [simp]: "c \<notin> set a \<Longrightarrow> split_once c (a @ c # b) = Some (a, b)"
  by (simp add: split_once_Some)

lemma split_char_nonempty [simp]: "split_char c s \<noteq> []"
  by (induction s) (auto split: list.splits)

lemma split_char_no_sep: "p \<in> set (split_char c s) \<Longrightarrow> c \<notin> set p"
proof (induction s arbitrary: p)
  case (Cons d s)
  then show ?case by (cases "split_char c s") (auto split: if_splits)
qed simp

lemma split_char_hd: "hd (split_char c s) = takeWhile (\<lambda>d. d \<noteq> c) s"
  by (induction s) (auto split: list.splits)

subsection \<open>Trimming and case\<close>

definition is_space :: "char \<Rightarrow> bool" where
  "is_space c \<longleftrightarrow> c \<in> {CHR 0x09, CHR 0x0A, CHR 0x0B, CHR 0x0C, CHR 0x0D, CHR '' ''}"

definition trim_end_matches :: "(char \<Rightarrow> bool) \<Rightarrow> string \<Rightarrow> string" where
  "trim_end_matches p s = rev (dropWhile p (rev s))"

definition trim :: "string \<Rightarrow> string" where
  "trim s = trim_end_matches is_space (dropWhile is_space s)"

definition ascii_lower :: "char \<Rightarrow> char" where
  "ascii_lower c =
     (let n = of_char c :: nat in if 65 \<le> n \<and> n \<le> 90 then char_of (n + 32) else c)"

definition ascii_upper :: "char \<Rightarrow> char" where
  "ascii_upper c =
     (let n = of_char c :: nat in if 97 \<le> n \<and> n \<le> 122 then char_of (n - 32) else c)"

definition to_ascii_lowercase :: "string \<Rightarrow> string" where
  "to_ascii_lowercase s = map ascii_lower s"

definition to_ascii_uppercase :: "string \<Rightarrow> string" where
  "to_ascii_uppercase s = map ascii_upper s"

definition eq_ignore_ascii_case :: "string \<Rightarrow> string \<Rightarrow> bool" where
  "eq_ignore_ascii_case a b \<longleftrightarrow> to_ascii_lowercase a = to_ascii_lowercase b"

definition is_ascii_digit :: "char \<Rightarrow> bool" where
  "is_ascii_digit c \<longleftrightarrow> (let n = of_char c :: nat in 48 \<le> n \<and> n \<le> 57)"

lemma to_ascii_lowercase_length [simp]: "length (to_ascii_lowercase s) = length s"
  by (simp add: to_ascii_lowercase_def)

subsection \<open>Decimal numbers\<close>

definition digit_char :: "nat \<Rightarrow> char" where
  "digit_char d = char_of (48 + d)"

fun nat_str :: "nat \<Rightarrow> string" where
  "nat_str n = (if n < 10 then [digit_char n] else nat_str (n div 10) @ [digit_char (n mod 10)])"

declare nat_str.simps [simp del]

definition digit_value :: "char \<Rightarrow> nat" where
  "digit_value c = of_char c - 48"

fun digits_value :: "nat \<Rightarrow> string \<Rightarrow> nat" where
  "digits_value acc [] = acc"
| "digits_value acc (c # s) = digits_value (10 * acc + digit_value c) s"

text \<open>\<open>str::parse::<uN>()\<close>: an optional plus sign, at least one digit, no overflow.\<close>

definition parse_uint :: "nat \<Rightarrow> string \<Rightarrow> nat option" where
  "parse_uint max_value s =
     (let ds = (case s of c # r \<Rightarrow> (if c = CHR ''+'' then r else s) | [] \<Rightarrow> s) in
      if ds = [] \<or> \<not> list_all is_ascii_digit ds then None
      else if digits_value 0 ds \<le> max_value then Some (digits_value 0 ds) else None)"

lemma digits_value_snoc: "digits_value acc (s @ [c]) = 10 * digits_value acc s + digit_value c"
  by (induction s arbitrary: acc) simp_all

lemma of_digit_char: "d < 10 \<Longrightarrow> (of_char (digit_char d) :: nat) = 48 + d"
  by (simp add: digit_char_def)

lemma digit_value_char [simp]: "d < 10 \<Longrightarrow> digit_value (digit_char d) = d"
  by (simp add: digit_value_def of_digit_char)

lemma is_ascii_digit_char [simp]: "d < 10 \<Longrightarrow> is_ascii_digit (digit_char d)"
  by (simp add: is_ascii_digit_def of_digit_char)

lemma nat_str_digits: "list_all is_ascii_digit (nat_str n)"
  by (induction n rule: nat_str.induct) (subst nat_str.simps, auto)

lemma nat_str_nonempty [simp]: "nat_str n \<noteq> []"
  by (subst nat_str.simps) simp

lemma digits_value_nat_str: "digits_value 0 (nat_str n) = n"
proof (induction n rule: nat_str.induct)
  case (1 n)
  then show ?case by (subst nat_str.simps) (auto simp: digits_value_snoc)
qed

lemma parse_nat_str: "n \<le> m \<Longrightarrow> parse_uint m (nat_str n) = Some n"
proof -
  assume "n \<le> m"
  obtain c r where cr: "nat_str n = c # r" by (cases "nat_str n") auto
  have "is_ascii_digit c" using nat_str_digits [of n] by (simp add: cr)
  then have "c \<noteq> CHR ''+''" by (auto simp: is_ascii_digit_def)
  then show ?thesis
    using \<open>n \<le> m\<close> nat_str_digits [of n] digits_value_nat_str [of n]
    by (auto simp: parse_uint_def cr)
qed

lemma nat_str_inj: "nat_str m = nat_str n \<Longrightarrow> m = n"
  by (metis digits_value_nat_str)

lemma digit_not_in_nat_str: "\<not> is_ascii_digit c \<Longrightarrow> c \<notin> set (nat_str n)"
  using nat_str_digits [of n] by (auto simp: list_all_iff)

end
