(* ===== verification/Yrs_Text.thy ===== *)
theory Yrs_Text
  imports Yrs_Mapping Rust_Str
begin

text \<open>
  Structural text of \<open>src/src/state/yrs_model/text.rs\<close>: parsing the stable snapshot shape of a
  \<open>text.content\<close> component into blocks and runs, writing them, and projecting a document back.
  The values read from a document are those of the \<open>yrs\<close> crate's \<open>Out\<close> and \<open>XmlOut\<close>
  enumerations; \<open>text_diff\<close> (what \<open>XmlText::diff\<close> reports after a series of attributed insertions) and the
  JSON printer and parser are parameters.
\<close>

subsection \<open>Values read from a document\<close>

datatype yout =
    OAny any
  | OMap "(string \<times> yout) list"
  | OXmlFragment "xml list"
  | OOther
and xml =
    XElement string "(string \<times> yout) list" "xml list"
  | XText "(yout \<times> (string \<times> any) list option) list"
  | XFragment

datatype model_error =
    BadRoot
  | BadId
  | EntityIdOutOfRange u64
  | DuplicateEntityId u64
  | MissingType
  | DuplicateComponentType string
  | BadComponentShape
  | OpaqueTypeMismatch string string
  | BadDocShape string
  | RefOutOfRange string json
  | ServerClientIdOutOfBand u64
  | BadTextShape string
  | UnknownTextNode string
  | TextLimitExceeded string
  | Mapping mapping_error

definition COMPONENT :: string where "COMPONENT = ''text.content''"
definition MODE :: string where "MODE = ''crdt_text''"
definition CONTENT_VERSION :: f64 where "CONTENT_VERSION = Fin 1"
definition MAX_INDENT :: nat where "MAX_INDENT = 8"
definition BLOCK_TAG :: string where "BLOCK_TAG = ''block''"
definition ATTR_KIND :: string where "ATTR_KIND = ''kind''"
definition ATTR_INDENT :: string where "ATTR_INDENT = ''indent''"
definition ATTR_EXTRA :: string where "ATTR_EXTRA = ''octaboard-extra''"
definition ATTR_GROUP_EXTRA :: string where "ATTR_GROUP_EXTRA = ''octaboard-group-extra''"

lemmas text_consts = COMPONENT_def MODE_def CONTENT_VERSION_def MAX_INDENT_def BLOCK_TAG_def
  ATTR_KIND_def ATTR_INDENT_def ATTR_EXTRA_def ATTR_GROUP_EXTRA_def

datatype kind = Paragraph | Bullet | Numbered

fun as_attr :: "kind \<Rightarrow> string" where
  "as_attr Paragraph = ''paragraph''"
| "as_attr Bullet = ''bullet''"
| "as_attr Numbered = ''numbered''"

type_synonym jobj = "(string \<times> json) list"

record run =
  run_text :: string
  run_marks :: jobj

record block =
  b_kind :: kind
  b_indent :: nat
  b_runs :: "run list"
  b_extra :: jobj
  b_group_extra :: jobj

definition empty_run :: run where
  "empty_run = \<lparr>run_text = [], run_marks = []\<rparr>"

definition empty_paragraph :: block where
  "empty_paragraph = \<lparr>b_kind = Paragraph, b_indent = 0, b_runs = [empty_run],
                      b_extra = [], b_group_extra = []\<rparr>"

subsection \<open>Parsing the snapshot shape\<close>

definition parse_span :: "json \<Rightarrow> model_error + run" where
  "parse_span sp =
     bindE (ok_orE (BadTextShape ''span must be an object'') (as_object sp)) (\<lambda>m.
     Inr \<lparr>run_text = (case Option.bind (map_of m ''text'') as_str of Some s \<Rightarrow> s | None \<Rightarrow> []),
          run_marks = filter (\<lambda>p. fst p \<noteq> ''text'') m\<rparr>)"

definition parse_runs :: "jobj \<Rightarrow> model_error + run list" where
  "parse_runs object =
     bindE (case Option.bind (map_of object ''spans'') as_array of
              Some spans \<Rightarrow> mapE parse_span spans
            | None \<Rightarrow>
                (case Option.bind (map_of object ''text'') as_str of
                   Some text \<Rightarrow> Inr [\<lparr>run_text = text, run_marks = []\<rparr>]
                 | None \<Rightarrow> Inr []))
       (\<lambda>runs. Inr (if runs = [] then [empty_run] else runs))"

definition parse_item :: "kind \<Rightarrow> jobj \<Rightarrow> json \<Rightarrow> model_error + block" where
  "parse_item k group_extra item =
     bindE (ok_orE (BadTextShape ''list item must be an object'') (as_object item)) (\<lambda>m.
     (let indent = (case Option.bind (map_of m ''indentLevel'') as_u64 of
                      Some u \<Rightarrow> unat u | None \<Rightarrow> 0) in
      if indent > MAX_INDENT then Inl (TextLimitExceeded ''indent'')
      else bindE (parse_runs m) (\<lambda>runs.
        Inr \<lparr>b_kind = k, b_indent = indent, b_runs = runs,
             b_extra = obj_remove ''indentLevel'' (obj_remove ''text'' (obj_remove ''spans'' m)),
             b_group_extra = group_extra\<rparr>)))"

fun parse_items :: "kind \<Rightarrow> jobj \<Rightarrow> json list \<Rightarrow> model_error + block list" where
  "parse_items k group_extra [] = Inr []"
| "parse_items k group_extra (item # items) =
     bindE (parse_item k group_extra item) (\<lambda>b.
     bindE (parse_items k [] items) (\<lambda>bs. Inr (b # bs)))"

definition parse_block :: "json \<Rightarrow> model_error + block list" where
  "parse_block raw =
     bindE (ok_orE (BadTextShape ''text block must be an object'') (as_object raw)) (\<lambda>object.
     (let ty = (case Option.bind (map_of object ''type'') as_str of
                  Some t \<Rightarrow> t | None \<Rightarrow> ''paragraph'') in
      if ty = ''paragraph'' then
        bindE (parse_runs object) (\<lambda>runs.
          Inr [\<lparr>b_kind = Paragraph, b_indent = 0, b_runs = runs,
                b_extra = obj_remove ''text'' (obj_remove ''spans'' (obj_remove ''type'' object)),
                b_group_extra = []\<rparr>])
      else if ty = ''bulletList'' \<or> ty = ''numberedList'' then
        (let k = (if ty = ''bulletList'' then Bullet else Numbered);
             group_extra = obj_remove ''items'' (obj_remove ''type'' object) in
         bindE (ok_orE (BadTextShape ''list missing items'')
                  (Option.bind (map_of object ''items'') as_array)) (\<lambda>items.
         parse_items k group_extra items))
      else Inl (UnknownTextNode ty)))"

definition parse_blocks :: "json option \<Rightarrow> model_error + block list" where
  "parse_blocks value =
     bindE (mapE parse_block (case Option.bind value as_array of Some xs \<Rightarrow> xs | None \<Rightarrow> []))
       (\<lambda>bss. Inr (if concat bss = [] then [empty_paragraph] else concat bss))"

subsection \<open>Projecting blocks to the snapshot shape\<close>

definition obj_extend :: "jobj \<Rightarrow> jobj \<Rightarrow> jobj" where
  "obj_extend m ps = foldl (\<lambda>m p. obj_insert (fst p) (snd p) m) m ps"

definition span_json :: "run \<Rightarrow> json" where
  "span_json r = JObj (obj_extend [(''text'', JStr (run_text r))] (run_marks r))"

definition spans :: "run list \<Rightarrow> json" where
  "spans runs = JArr (map span_json runs)"

definition item_json :: "block \<Rightarrow> json" where
  "item_json item =
     (let v = obj_insert ''spans'' (spans (b_runs item)) (b_extra item) in
      JObj (if b_indent item \<noteq> 0
            then obj_insert ''indentLevel'' (JNum (PosInt (word_of_nat (b_indent item)))) v else v))"

definition paragraph_json :: "block \<Rightarrow> json" where
  "paragraph_json b =
     JObj (obj_insert ''spans'' (spans (b_runs b))
       (obj_insert ''type'' (JStr ''paragraph'') (b_extra b)))"

definition list_json :: "kind \<Rightarrow> jobj \<Rightarrow> block list \<Rightarrow> json" where
  "list_json k group_extra items =
     JObj (obj_insert ''items'' (JArr (map item_json items))
       (obj_insert ''type'' (JStr (if k = Bullet then ''bulletList'' else ''numberedList'')) group_extra))"

function snapshot_block_list :: "block list \<Rightarrow> json list" where
  "snapshot_block_list [] = []"
| "snapshot_block_list (b # bs) =
     (if b_kind b = Paragraph then paragraph_json b # snapshot_block_list bs
      else list_json (b_kind b) (b_group_extra b) (b # takeWhile (\<lambda>c. b_kind c = b_kind b) bs)
             # snapshot_block_list (dropWhile (\<lambda>c. b_kind c = b_kind b) bs))"
  by pat_completeness auto
termination
  by (relation "measure length") (auto simp: length_dropWhile_le less_Suc_eq_le)

definition snapshot_blocks :: "block list \<Rightarrow> json" where
  "snapshot_blocks bs = JArr (snapshot_block_list bs)"

subsection \<open>Writing a component instance\<close>

definition utf16_len :: "string \<Rightarrow> nat" where
  "utf16_len s =
     sum_list (map (\<lambda>c. let n = of_char c :: nat in
       (if 128 \<le> n \<and> n < 192 then 0 else if 240 \<le> n then 2 else 1)) s)"

definition marks_to_attrs :: "jobj \<Rightarrow> model_error + (string \<times> any) list" where
  "marks_to_attrs marks =
     mapE (\<lambda>p. bindE (map_errE Mapping (json_to_any (snd p))) (\<lambda>a. Inr (fst p, a)))
       (filter (\<lambda>p. snd p \<noteq> JBool False \<and> snd p \<noteq> JNull) marks)"

definition encode_json_attr :: "(jobj \<Rightarrow> string option) \<Rightarrow> jobj \<Rightarrow> model_error + string option" where
  "encode_json_attr to_string v =
     (if v = [] then Inr None
      else bindE (ok_orE (BadTextShape ''cannot encode extra text attributes'') (to_string v))
             (\<lambda>s. Inr (Some s)))"

type_synonym text_insert = "nat \<times> string \<times> (string \<times> any) list"

fun run_inserts :: "nat \<Rightarrow> run list \<Rightarrow> model_error + text_insert list" where
  "run_inserts offset [] = Inr []"
| "run_inserts offset (r # rs) =
     bindE (marks_to_attrs (run_marks r)) (\<lambda>attrs.
     bindE (run_inserts (offset + utf16_len (run_text r)) rs) (\<lambda>ins.
     Inr ((offset, run_text r, attrs) # ins)))"

type_synonym text_reader = "text_insert list \<Rightarrow> (yout \<times> (string \<times> any) list option) list"

definition write_block :: "(jobj \<Rightarrow> string option) \<Rightarrow> text_reader \<Rightarrow> block \<Rightarrow> model_error + xml" where
  "write_block to_string text_diff b =
     bindE (encode_json_attr to_string (b_extra b)) (\<lambda>extra.
     bindE (encode_json_attr to_string (b_group_extra b)) (\<lambda>group_extra.
     bindE (run_inserts 0 (b_runs b)) (\<lambda>ins.
     Inr (XElement BLOCK_TAG
       ([(ATTR_KIND, OAny (AString (as_attr (b_kind b))))]
        @ (if b_indent b \<noteq> 0 then [(ATTR_INDENT, OAny (AString (nat_str (b_indent b))))] else [])
        @ (case extra of Some s \<Rightarrow> [(ATTR_EXTRA, OAny (AString s))] | None \<Rightarrow> [])
        @ (case group_extra of Some s \<Rightarrow> [(ATTR_GROUP_EXTRA, OAny (AString s))] | None \<Rightarrow> []))
       [XText (text_diff ins)]))))"

definition write_text_instance ::
  "(jobj \<Rightarrow> string option) \<Rightarrow> text_reader \<Rightarrow> jobj \<Rightarrow> model_error + (string \<times> yout) list" where
  "write_text_instance to_string text_diff object =
     bindE (mapE (\<lambda>p. bindE (map_errE Mapping (json_to_any (snd p))) (\<lambda>a. Inr (fst p, OAny a)))
              (filter (\<lambda>p. fst p \<noteq> ''type'' \<and> fst p \<noteq> ''blocks'') object)) (\<lambda>flds.
     bindE (parse_blocks (map_of object ''blocks'')) (\<lambda>blocks.
     bindE (mapE (write_block to_string text_diff) blocks) (\<lambda>content.
     Inr [(''alive'', OAny (ABool True)), (''mode'', OAny (AString MODE)),
          (''content_version'', OAny (ANumber CONTENT_VERSION)),
          (''fields'', OMap flds), (''content'', OXmlFragment content)])))"

subsection \<open>Projecting a document\<close>

definition attr_string :: "yout option \<Rightarrow> string option" where
  "attr_string v = (case v of Some (OAny (AString s)) \<Rightarrow> Some s | _ \<Rightarrow> None)"

definition json_attr :: "(string \<Rightarrow> jobj option) \<Rightarrow> yout option \<Rightarrow> model_error + jobj" where
  "json_attr from_str v =
     (case attr_string v of
        None \<Rightarrow> Inr []
      | Some s \<Rightarrow> ok_orE (BadTextShape ''invalid extra attribute'') (from_str s))"

definition materialize_run :: "yout \<times> (string \<times> any) list option \<Rightarrow> model_error + run" where
  "materialize_run d =
     (case fst d of
        OAny (AString value) \<Rightarrow>
          bindE (mapE (\<lambda>p. bindE (map_errE Mapping (any_to_json (snd p))) (\<lambda>v. Inr (fst p, v)))
                   (filter (\<lambda>p. snd p \<noteq> ANull \<and> snd p \<noteq> ABool False)
                      (case snd d of Some attrs \<Rightarrow> attrs | None \<Rightarrow> [])))
            (\<lambda>marks. Inr \<lparr>run_text = value, run_marks = obj_of marks\<rparr>)
      | _ \<Rightarrow> Inl (UnknownTextNode ''inline embed''))"

definition materialize_block :: "(string \<Rightarrow> jobj option) \<Rightarrow> xml \<Rightarrow> model_error + block" where
  "materialize_block from_str child =
     (case child of
        XElement tag attrs children \<Rightarrow>
          (if tag \<noteq> ''block'' then Inl (UnknownTextNode tag)
           else
             bindE (case attr_string (map_of attrs ''kind'') of
                      Some s \<Rightarrow> (if s = ''paragraph'' then Inr Paragraph
                                  else if s = ''bullet'' then Inr Bullet
                                  else if s = ''numbered'' then Inr Numbered
                                  else Inl (UnknownTextNode ''block kind''))
                    | None \<Rightarrow> Inl (UnknownTextNode ''block kind'')) (\<lambda>k.
             (let indent = (case Option.bind (attr_string (map_of attrs ''indent'')) (parse_uint 255)
                            of Some n \<Rightarrow> n | None \<Rightarrow> 0) in
              if indent > MAX_INDENT then Inl (TextLimitExceeded ''indent'')
              else
                (case children of
                   XText ds # rest \<Rightarrow>
                     (if rest \<noteq> [] then Inl (BadTextShape ''block has multiple children'')
                      else
                        bindE (mapE materialize_run ds) (\<lambda>runs.
                        bindE (json_attr from_str (map_of attrs ''octaboard-extra'')) (\<lambda>extra.
                        bindE (json_attr from_str (map_of attrs ''octaboard-group-extra'')) (\<lambda>group_extra.
                        Inr \<lparr>b_kind = k, b_indent = indent,
                             b_runs = (if runs = [] then [empty_run] else runs),
                             b_extra = extra, b_group_extra = group_extra\<rparr>))))
                 | _ \<Rightarrow> Inl (BadTextShape ''block missing text'')))))
      | _ \<Rightarrow> Inl (UnknownTextNode ''non-element block''))"

definition materialize_fields :: "string \<Rightarrow> (string \<times> yout) list \<Rightarrow> model_error + jobj" where
  "materialize_fields msg flds =
     mapE (\<lambda>p. bindE (case snd p of OAny a \<Rightarrow> map_errE Mapping (any_to_json a) | _ \<Rightarrow> Inl (BadTextShape msg))
                 (\<lambda>v. Inr (fst p, v))) flds"

definition materialize_text :: "(string \<Rightarrow> jobj option) \<Rightarrow> (string \<times> yout) list \<Rightarrow> model_error + json" where
  "materialize_text from_str inst =
     (if map_of inst ''content_version'' \<noteq> Some (OAny (ANumber CONTENT_VERSION))
      then Inl (BadTextShape ''unsupported content version'')
      else
        (case map_of inst ''fields'' of
           Some (OMap flds) \<Rightarrow>
             (case map_of inst ''content'' of
                Some (OXmlFragment content) \<Rightarrow>
                  bindE (mapE (materialize_block from_str) content) (\<lambda>blocks.
                  if blocks = [] then Inl (BadTextShape ''content has no blocks'')
                  else
                    bindE (materialize_fields ''text field is not Any'' flds) (\<lambda>fs.
                    Inr (JObj (obj_insert ''blocks'' (snapshot_blocks blocks)
                                (obj_extend [(''type'', JStr COMPONENT)] fs)))))
              | _ \<Rightarrow> Inl (BadTextShape ''missing text content''))
         | _ \<Rightarrow> Inl (BadTextShape ''missing text fields'')))"


subsection \<open>The block round trip\<close>

definition run_wf :: "run \<Rightarrow> bool" where
  "run_wf r \<longleftrightarrow> sorted_keys (run_marks r) \<and> map_of (run_marks r) ''text'' = None"

definition block_wf :: "block \<Rightarrow> bool" where
  "block_wf b \<longleftrightarrow> sorted_keys (b_extra b) \<and> sorted_keys (b_group_extra b)
     \<and> b_runs b \<noteq> [] \<and> list_all run_wf (b_runs b)
     \<and> map_of (b_extra b) ''spans'' = None \<and> map_of (b_extra b) ''text'' = None
     \<and> (if b_kind b = Paragraph
        then map_of (b_extra b) ''type'' = None \<and> b_indent b = 0 \<and> b_group_extra b = []
        else map_of (b_extra b) ''indentLevel'' = None \<and> b_indent b \<le> MAX_INDENT
           \<and> map_of (b_group_extra b) ''type'' = None \<and> map_of (b_group_extra b) ''items'' = None)"

text \<open>Inside a run of list items of one kind, only the first carries the attributes of the list.\<close>

fun groups_ok :: "block list \<Rightarrow> bool" where
  "groups_ok (b # c # bs) =
     ((b_kind b \<noteq> Paragraph \<and> b_kind c = b_kind b \<longrightarrow> b_group_extra c = []) \<and> groups_ok (c # bs))"
| "groups_ok _ = True"

lemma obj_extend_singleton:
  "sorted_keys m \<Longrightarrow> map_of m k = None \<Longrightarrow>
   sorted_keys (obj_extend [(k, v)] m) \<and> map_of (obj_extend [(k, v)] m) = (map_of m)(k \<mapsto> v)"
proof -
  assume s: "sorted_keys m" and n: "map_of m k = None"
  have *: "sorted_keys a \<Longrightarrow>
      sorted_keys (obj_extend a m) \<and> map_of (obj_extend a m) = map_of a ++ map_of (rev m)" for a
    by (induction m rule: rev_induct) (auto simp: obj_extend_def fun_eq_iff map_add_def)
  have "map_of (rev m) = map_of m"
    using map_of_obj_of [of m] s by simp
  then show ?thesis using * [of "[(k, v)]"] n
    by (auto simp: fun_eq_iff map_add_def split: option.splits)
qed

lemma parse_span_json: "run_wf r \<Longrightarrow> parse_span (span_json r) = Inr r"
proof -
  assume r: "run_wf r"
  let ?m = "obj_extend [(''text'', JStr (run_text r))] (run_marks r)"
  have m: "sorted_keys ?m" "map_of ?m = (map_of (run_marks r))(''text'' \<mapsto> JStr (run_text r))"
    using r obj_extend_singleton [of "run_marks r" "''text''"] by (simp_all add: run_wf_def)
  have "obj_remove ''text'' ?m = run_marks r"
    using r m by (intro sorted_keys_eqI) (auto simp: run_wf_def fun_eq_iff)
  then show ?thesis
    using m by (simp add: parse_span_def span_json_def obj_remove_def)
qed

lemma parse_runs_spans:
  assumes "map_of object ''spans'' = Some (spans runs)" "runs \<noteq> []" "list_all run_wf runs"
  shows "parse_runs object = Inr runs"
proof -
  have "mapE parse_span (map span_json runs) = Inr runs"
    using assms(3) by (induction runs) (simp_all add: parse_span_json)
  then show ?thesis using assms by (simp add: parse_runs_def spans_def)
qed

lemma parse_item_json:
  assumes "block_wf b" "b_kind b \<noteq> Paragraph"
  shows "parse_item (b_kind b) (b_group_extra b) (item_json b) = Inr b"
proof -
  let ?v = "obj_insert ''spans'' (spans (b_runs b)) (b_extra b)"
  let ?m = "if b_indent b \<noteq> 0
            then obj_insert ''indentLevel'' (JNum (PosInt (word_of_nat (b_indent b)))) ?v else ?v"
  have s: "sorted_keys ?m" "sorted_keys (b_extra b)" using assms by (simp_all add: block_wf_def)
  have ind: "unat (word_of_nat (b_indent b) :: u64) = b_indent b"
    using assms by (simp add: block_wf_def MAX_INDENT_def unat_of_nat)
  have runs: "parse_runs ?m = Inr (b_runs b)"
    using assms by (intro parse_runs_spans) (simp_all add: block_wf_def)
  have rem: "obj_remove ''indentLevel'' (obj_remove ''text'' (obj_remove ''spans'' ?m)) = b_extra b"
    by (rule sorted_keys_eqI) (use s assms in \<open>auto simp: block_wf_def fun_eq_iff\<close>)
  show ?thesis
    using assms runs rem ind by (auto simp: parse_item_def item_json_def Let_def block_wf_def)
qed

lemma parse_items_json:
  assumes "list_all block_wf bs" "\<forall>b \<in> set bs. b_kind b = k \<and> b_group_extra b = []" "k \<noteq> Paragraph"
  shows "parse_items k [] (map item_json bs) = Inr bs"
  using assms parse_item_json by (induction bs) fastforce+

lemma parse_block_list:
  assumes "map_of obj ''type'' = Some (JStr ty)" "ty = ''bulletList'' \<or> ty = ''numberedList''"
    and "map_of obj ''items'' = Some (JArr items)"
  shows "parse_block (JObj obj) =
    parse_items (if ty = ''bulletList'' then Bullet else Numbered)
      (obj_remove ''items'' (obj_remove ''type'' obj)) items"
  using assms by (auto simp: parse_block_def Let_def)

lemma parse_list_json:
  assumes "list_all block_wf (b # bs)" "b_kind b \<noteq> Paragraph"
    and "\<forall>c \<in> set bs. b_kind c = b_kind b \<and> b_group_extra c = []"
  shows "parse_block (list_json (b_kind b) (b_group_extra b) (b # bs)) = Inr (b # bs)"
proof -
  let ?ty = "if b_kind b = Bullet then ''bulletList'' else ''numberedList''"
  let ?items = "JArr (map item_json (b # bs))"
  let ?o = "obj_insert ''items'' ?items (obj_insert ''type'' (JStr ?ty) (b_group_extra b))"
  have wf: "block_wf b" using assms(1) by simp
  then have s: "sorted_keys (b_group_extra b)" "sorted_keys ?o" by (simp_all add: block_wf_def)
  have m: "map_of ?o = (map_of (b_group_extra b))(''type'' \<mapsto> JStr ?ty, ''items'' \<mapsto> ?items)"
    using s by simp
  have rem: "obj_remove ''items'' (obj_remove ''type'' ?o) = b_group_extra b"
    by (rule sorted_keys_eqI) (use s wf assms(2) in \<open>auto simp: block_wf_def fun_eq_iff\<close>)
  have kind: "(if ?ty = ''bulletList'' then Bullet else Numbered) = b_kind b"
    using assms(2) by (cases "b_kind b") simp_all
  have items: "parse_items (b_kind b) (b_group_extra b) (map item_json (b # bs)) = Inr (b # bs)"
    using parse_item_json [OF wf assms(2)] parse_items_json [of bs "b_kind b"] assms by simp
  have "parse_block (JObj ?o) = parse_items (b_kind b) (b_group_extra b) (map item_json (b # bs))"
    using parse_block_list [of ?o ?ty "map item_json (b # bs)"] m by (simp only: kind rem) simp
  then show ?thesis by (simp only: list_json_def items)
qed

lemma parse_paragraph_json:
  assumes "block_wf b" "b_kind b = Paragraph"
  shows "parse_block (paragraph_json b) = Inr [b]"
proof -
  let ?o = "obj_insert ''spans'' (spans (b_runs b)) (obj_insert ''type'' (JStr ''paragraph'') (b_extra b))"
  have s: "sorted_keys (b_extra b)" "sorted_keys ?o" using assms by (simp_all add: block_wf_def)
  have runs: "parse_runs ?o = Inr (b_runs b)"
    using assms s by (intro parse_runs_spans) (simp_all add: block_wf_def)
  have rem: "obj_remove ''text'' (obj_remove ''spans'' (obj_remove ''type'' ?o)) = b_extra b"
    by (rule sorted_keys_eqI) (use s assms in \<open>auto simp: block_wf_def fun_eq_iff\<close>)
  have "map_of ?o ''type'' = Some (JStr ''paragraph'')" using s by simp
  then show ?thesis
    unfolding parse_block_def paragraph_json_def as_object_JObj ok_orE_simps bindE_simps
    using runs rem assms by (simp add: Let_def block_wf_def)
qed

lemma groups_ok_takeWhile:
  "groups_ok (b # bs) \<Longrightarrow> b_kind b \<noteq> Paragraph \<Longrightarrow>
   list_all (\<lambda>d. b_kind d = b_kind b \<and> b_group_extra d = []) (takeWhile (\<lambda>c. b_kind c = b_kind b) bs)"
proof (induction bs arbitrary: b)
  case (Cons c bs)
  show ?case
  proof (cases "b_kind c = b_kind b")
    case True
    then have c: "b_group_extra c = []" "groups_ok (c # bs)" "b_kind c \<noteq> Paragraph" using Cons.prems by simp_all
    show ?thesis using Cons.IH [OF c(2,3)] c(1) True by simp
  qed simp
qed simp

lemma groups_ok_tl: "groups_ok (b # bs) \<Longrightarrow> groups_ok bs"
  by (cases bs) simp_all

lemma groups_ok_dropWhile: "groups_ok bs \<Longrightarrow> groups_ok (dropWhile P bs)"
  by (induction bs) (auto dest: groups_ok_tl)

lemma parse_snapshot_block_list:
  "list_all block_wf bs \<Longrightarrow> groups_ok bs \<Longrightarrow>
   \<exists>bss. mapE parse_block (snapshot_block_list bs) = Inr bss \<and> concat bss = bs"
proof (induction bs rule: snapshot_block_list.induct)
  case (2 b bs)
  show ?case
  proof (cases "b_kind b = Paragraph")
    case True
    then obtain bss where "mapE parse_block (snapshot_block_list bs) = Inr bss" "concat bss = bs"
      using 2 groups_ok_tl by fastforce
    then show ?thesis using True 2 by (intro exI [of _ "[b] # bss"]) (simp add: parse_paragraph_json)
  next
    case False
    let ?P = "\<lambda>c. b_kind c = b_kind b"
    have wfs: "list_all block_wf (b # takeWhile ?P bs)" "list_all block_wf (dropWhile ?P bs)"
      using "2.prems"(1) by (auto simp: list_all_iff dest: set_takeWhileD set_dropWhileD)
    have "groups_ok (dropWhile ?P bs)" using "2.prems"(2) groups_ok_dropWhile groups_ok_tl by blast
    then obtain bss where bss: "mapE parse_block (snapshot_block_list (dropWhile ?P bs)) = Inr bss"
      "concat bss = dropWhile ?P bs"
      using "2.IH"(2) [OF False] wfs(2) by blast
    have "parse_block (list_json (b_kind b) (b_group_extra b) (b # takeWhile ?P bs))
        = Inr (b # takeWhile ?P bs)"
      by (rule parse_list_json [OF wfs(1) False groups_ok_takeWhile [OF "2.prems"(2) False, unfolded list_all_iff]])
    with False bss show ?thesis
      by (intro exI [of _ "(b # takeWhile ?P bs) # bss"]) simp
  qed
qed simp

subsection \<open>What parsing yields\<close>

lemma sorted_keys_filter: "sorted_keys m \<Longrightarrow> sorted_keys (filter P m)"
  by (induction m) auto

lemma attrs_filter_key: "map_of (filter (\<lambda>p. fst p \<noteq> k) m) k = None"
  by (induction m) auto

lemma parse_span_wf: "json_wf sp \<Longrightarrow> parse_span sp = Inr r \<Longrightarrow> run_wf r"
  by (auto simp: parse_span_def run_wf_def sorted_keys_filter attrs_filter_key result_simps)

lemma json_wf_lookup: "json_wf (JObj m) \<Longrightarrow> map_of m k = Some v \<Longrightarrow> json_wf v"
  by (auto dest!: map_of_SomeD)

lemma parse_runs_wf:
  assumes m: "json_wf (JObj m)" and r: "parse_runs m = Inr rs"
  shows "rs \<noteq> [] \<and> list_all run_wf rs"
proof (cases "Option.bind (map_of m ''spans'') as_array")
  case None
  then show ?thesis
    using r by (auto simp: parse_runs_def run_wf_def empty_run_def split: option.splits if_splits)
next
  case (Some spans)
  then have sp: "map_of m ''spans'' = Some (JArr spans)" by (auto simp: Option.bind_eq_Some_conv)
  then have "\<forall>x \<in> set spans. json_wf x" using json_wf_lookup [OF m] by fastforce
  moreover obtain qs where qs: "mapE parse_span spans = Inr qs" "rs = (if qs = [] then [empty_run] else qs)"
    using r sp by (auto simp: parse_runs_def result_simps)
  ultimately have "list_all run_wf qs"
    using parse_span_wf by (fastforce simp: mapE_Inr_iff list_all2_conv_all_nth list_all_length)
  then show ?thesis using qs(2) by (simp add: run_wf_def empty_run_def)
qed

definition group_wf :: "jobj \<Rightarrow> bool" where
  "group_wf g \<longleftrightarrow> sorted_keys g \<and> map_of g ''type'' = None \<and> map_of g ''items'' = None"

lemma parse_item_wf:
  assumes "json_wf item" "parse_item k g item = Inr b" "k \<noteq> Paragraph" "group_wf g"
  shows "block_wf b"
proof -
  obtain m where m: "item = JObj m" using assms(2) by (auto simp: parse_item_def result_simps)
  then have "sorted_keys m" using assms(1) by simp
  moreover obtain rs where "parse_runs m = Inr rs" "b_runs b = rs"
    using assms(2) by (auto simp: parse_item_def m Let_def result_simps split: if_splits)
  moreover have "b_kind b = k" "b_indent b \<le> MAX_INDENT" "b_group_extra b = g"
    "b_extra b = obj_remove ''indentLevel'' (obj_remove ''text'' (obj_remove ''spans'' m))"
    using assms(2) by (auto simp: parse_item_def m Let_def result_simps split: if_splits)
  ultimately show ?thesis
    using parse_runs_wf [of m rs] assms by (simp add: block_wf_def group_wf_def m)
qed

lemma parse_items_wf:
  "\<forall>x \<in> set items. json_wf x \<Longrightarrow> parse_items k g items = Inr bs \<Longrightarrow> k \<noteq> Paragraph \<Longrightarrow> group_wf g \<Longrightarrow> list_all block_wf bs"
proof (induction items arbitrary: g bs)
  case (Cons item items)
  have "group_wf []" by (simp add: group_wf_def)
  then show ?case using Cons parse_item_wf by (fastforce simp: result_simps)
qed simp

lemma parse_block_wf:
  assumes "json_wf raw" "parse_block raw = Inr bs"
  shows "list_all block_wf bs"
proof -
  obtain m where m: "raw = JObj m" using assms(2) by (auto simp: parse_block_def result_simps)
  let ?ty = "case Option.bind (map_of m ''type'') as_str of Some t \<Rightarrow> t | None \<Rightarrow> ''paragraph''"
  show ?thesis
  proof (cases "?ty = ''paragraph''")
    case True
    then obtain rs where "parse_runs m = Inr rs" "bs = [\<lparr>b_kind = Paragraph, b_indent = 0, b_runs = rs,
        b_extra = obj_remove ''text'' (obj_remove ''spans'' (obj_remove ''type'' m)), b_group_extra = []\<rparr>]"
      using assms(2) by (auto simp: parse_block_def m Let_def result_simps)
    then show ?thesis using parse_runs_wf [of m rs] assms(1) by (simp add: block_wf_def m)
  next
    case False
    then obtain items k where it: "map_of m ''items'' = Some (JArr items)" "k \<noteq> Paragraph"
      "parse_items k (obj_remove ''items'' (obj_remove ''type'' m)) items = Inr bs"
      using assms(2) by (auto simp: parse_block_def m Let_def result_simps Option.bind_eq_Some_conv
          split: if_splits)
    have "\<forall>x \<in> set items. json_wf x" using json_wf_lookup [of m _ "JArr items"] it(1) assms(1) m by fastforce
    moreover have "group_wf (obj_remove ''items'' (obj_remove ''type'' m))"
      using assms(1) by (simp add: group_wf_def m)
    ultimately show ?thesis using parse_items_wf it(2,3) by blast
  qed
qed

lemma parse_blocks_wf:
  assumes "\<forall>v. value = Some v \<longrightarrow> json_wf v" "parse_blocks value = Inr bs"
  shows "bs \<noteq> [] \<and> list_all block_wf bs"
proof -
  let ?xs = "case Option.bind value as_array of Some xs \<Rightarrow> xs | None \<Rightarrow> []"
  have xs: "\<forall>x \<in> set ?xs. json_wf x"
  proof (cases "Option.bind value as_array")
    case (Some xs)
    then have "value = Some (JArr xs)" by (auto simp: Option.bind_eq_Some_conv)
    then show ?thesis using assms(1) by simp
  qed simp
  obtain bss where bss: "mapE parse_block ?xs = Inr bss" "bs = (if concat bss = [] then [empty_paragraph] else concat bss)"
    using assms(2) by (auto simp: parse_blocks_def result_simps)
  have "list_all block_wf b" if b: "b \<in> set bss" for b
  proof -
    obtain i where i: "i < length bss" "b = bss ! i" using b by (auto simp: in_set_conv_nth)
    then have "parse_block (?xs ! i) = Inr b" "i < length ?xs"
      using bss(1) by (auto simp: mapE_Inr_iff list_all2_conv_all_nth)
    then show ?thesis using xs parse_block_wf nth_mem by blast
  qed
  moreover have "block_wf empty_paragraph" by (simp add: block_wf_def empty_paragraph_def empty_run_def run_wf_def)
  ultimately show ?thesis unfolding bss(2) by (auto simp: list_all_iff)
qed

subsection \<open>What projecting keeps\<close>

text \<open>Adjacent list items of one kind become one list, which has the attributes of its first item.\<close>

fun regroup_after :: "kind \<Rightarrow> block list \<Rightarrow> block list" where
  "regroup_after p [] = []"
| "regroup_after p (b # bs) =
     (if p \<noteq> Paragraph \<and> b_kind b = p then b\<lparr>b_group_extra := []\<rparr> else b) # regroup_after (b_kind b) bs"

definition regroup :: "block list \<Rightarrow> block list" where
  "regroup = regroup_after Paragraph"

lemma regroup_wf: "list_all block_wf bs \<Longrightarrow> list_all block_wf (regroup_after p bs)"
  by (induction p bs rule: regroup_after.induct) (auto simp: block_wf_def)

lemma regroup_groups_ok:
  "groups_ok (regroup_after p bs) \<and> (\<forall>c cs. regroup_after p bs = c # cs \<longrightarrow> p \<noteq> Paragraph \<longrightarrow> b_kind c = p \<longrightarrow> b_group_extra c = [])"
proof (induction p bs rule: regroup_after.induct)
  case (2 p b bs)
  then show ?case by (cases "regroup_after (b_kind b) bs") auto
qed simp

lemma regroup_id: "groups_ok (b # bs) \<Longrightarrow> regroup_after (b_kind b) bs = bs"
proof (induction bs arbitrary: b)
  case (Cons c bs)
  have same: "c\<lparr>b_group_extra := []\<rparr> = c" if "b_group_extra c = []" using that by (cases c) simp
  have "regroup_after (b_kind c) bs = bs" using Cons by simp
  then show ?case using Cons.prems same by auto
qed simp

lemma item_json_group: "item_json (b\<lparr>b_group_extra := g\<rparr>) = item_json b"
  by (simp add: item_json_def Let_def)

lemma regroup_take:
  "k \<noteq> Paragraph \<Longrightarrow> map item_json (takeWhile (\<lambda>c. b_kind c = k) (regroup_after k bs))
     = map item_json (takeWhile (\<lambda>c. b_kind c = k) bs)"
  by (induction bs) (auto simp: item_json_group)

lemma regroup_drop:
  "k \<noteq> Paragraph \<Longrightarrow> dropWhile (\<lambda>c. b_kind c = k) (regroup_after k bs)
     = regroup_after Paragraph (dropWhile (\<lambda>c. b_kind c = k) bs)"
  by (induction bs) auto

lemma regroup_snapshot: "snapshot_block_list (regroup_after Paragraph bs) = snapshot_block_list bs"
proof (induction bs rule: snapshot_block_list.induct)
  case (2 b bs)
  show ?case
  proof (cases "b_kind b = Paragraph")
    case True
    then show ?thesis using "2.IH"(1) by simp
  next
    case False
    then show ?thesis
      using "2.IH"(2) regroup_take [OF False, of bs] regroup_drop [OF False, of bs] by (simp add: list_json_def)
  qed
qed simp

text \<open>C33: Structural text survives the projection to the stable snapshot shape: whatever blocks a parsed snapshot value
  yields, projecting them and parsing the result returns the same blocks (kinds, indents, formatting runs, unknown
  attributes), except that adjacent lists of one kind come back as one list with the attributes of the first; when
  only the first item of each list has list attributes, the blocks come back exactly.\<close>

theorem text_blocks_roundtrip:
  assumes "\<forall>v. value = Some v \<longrightarrow> json_wf v" and "parse_blocks value = Inr bs"
  shows "parse_blocks (Some (snapshot_blocks bs)) = Inr (regroup bs) \<and> (groups_ok bs \<longrightarrow> regroup bs = bs)"
proof -
  have wf: "bs \<noteq> []" "list_all block_wf bs" using parse_blocks_wf [OF assms] by auto
  have "list_all block_wf (regroup bs)" "groups_ok (regroup bs)" "regroup bs \<noteq> []"
    using regroup_wf [OF wf(2)] regroup_groups_ok wf(1) by (auto simp: regroup_def neq_Nil_conv)
  then obtain bss where "mapE parse_block (snapshot_block_list (regroup bs)) = Inr bss" "concat bss = regroup bs" "regroup bs \<noteq> []"
    using parse_snapshot_block_list [of "regroup bs"] by blast
  then have "parse_blocks (Some (snapshot_blocks (regroup bs))) = Inr (regroup bs)"
    by (simp add: parse_blocks_def snapshot_blocks_def del: concat_eq_Nil_conv)
  moreover have "snapshot_blocks (regroup bs) = snapshot_blocks bs"
    by (simp add: snapshot_blocks_def regroup_def regroup_snapshot)
  moreover have "regroup bs = bs" if "groups_ok bs"
    using regroup_id that wf(1) by (cases bs) (simp_all add: regroup_def)
  ultimately show ?thesis by simp
qed

text \<open>Two adjacent bullet lists with attributes of their own: they come back as one list.\<close>

definition two_lists :: json where
  "two_lists = JArr [
     JObj [(''items'', JArr [JObj [(''text'', JStr ''a'')]]), (''style'', JStr ''disc''), (''type'', JStr ''bulletList'')],
     JObj [(''items'', JArr [JObj [(''text'', JStr ''b'')]]), (''style'', JStr ''square''), (''type'', JStr ''bulletList'')]]"

lemma two_lists_blocks:
  "parse_blocks (Some two_lists) = Inr
     [\<lparr>b_kind = Bullet, b_indent = 0, b_runs = [\<lparr>run_text = ''a'', run_marks = []\<rparr>], b_extra = [],
        b_group_extra = [(''style'', JStr ''disc'')]\<rparr>,
      \<lparr>b_kind = Bullet, b_indent = 0, b_runs = [\<lparr>run_text = ''b'', run_marks = []\<rparr>], b_extra = [],
        b_group_extra = [(''style'', JStr ''square'')]\<rparr>]"
  by (simp add: two_lists_def parse_blocks_def parse_block_def parse_item_def parse_runs_def obj_remove_def Let_def MAX_INDENT_def)

theorem text_blocks_roundtrip_witness:
  "\<exists>bs. parse_blocks (Some two_lists) = Inr bs \<and> parse_blocks (Some (snapshot_blocks bs)) = Inr (regroup bs)
     \<and> map b_group_extra bs = [[(''style'', JStr ''disc'')], [(''style'', JStr ''square'')]]
     \<and> map b_group_extra (regroup bs) = [[(''style'', JStr ''disc'')], []]"
proof -
  have "json_wf two_lists" by (simp add: two_lists_def less_list_code less_char_def)
  then show ?thesis using text_blocks_roundtrip [of "Some two_lists", OF _ two_lists_blocks] two_lists_blocks
    by (simp add: regroup_def)
qed

end
