(* ===== verification/Yrs_Model.thy ===== *)
theory Yrs_Model
  imports Yrs_Text "HOL-Library.Multiset"
begin

text \<open>
  The canonical snapshot and document model of \<open>src/src/state/yrs_model.rs\<close>.  The \<open>yrs\<close> crate
  is the record \<open>yrs\<close> of the functions the code calls: documents, updates and state vectors are its
  type parameters, and a document is read only through its two root maps.
\<close>

subsection \<open>The interface of the \<open>yrs\<close> crate\<close>

record ('d, 'u, 's) yrs =
  y_new :: "u64 \<Rightarrow> 'd"
  y_client :: "'d \<Rightarrow> u64"
  y_bind :: "'d \<Rightarrow> 'd"
  y_decode_update :: "bytes \<Rightarrow> 'u option"
  y_apply_update :: "'u \<Rightarrow> 'd \<Rightarrow> 'd option"
  y_decode_sv :: "bytes \<Rightarrow> ('s \<times> bytes) option"
  y_state_vector :: "'d \<Rightarrow> 's"
  y_sv_encode :: "'s \<Rightarrow> bytes"
  y_sv_default :: 's
  y_encode_diff :: "'d \<Rightarrow> 's \<Rightarrow> bytes"
  y_meta :: "'d \<Rightarrow> (string \<times> yout) list option"
  y_entities :: "'d \<Rightarrow> (string \<times> yout) list option"
  y_insert_meta :: "string \<Rightarrow> yout \<Rightarrow> 'd \<Rightarrow> 'd"
  y_insert_entity :: "string \<Rightarrow> yout \<Rightarrow> 'd \<Rightarrow> 'd"
  y_text_diff :: text_reader
  y_json_print :: "jobj \<Rightarrow> string option"
  y_json_parse :: "string \<Rightarrow> jobj option"

subsection \<open>Constants and strategies\<close>

definition MAX_SYNCED_ID :: nat where "MAX_SYNCED_ID = 2 ^ 53 - 1"
definition SERVER_ID_LO :: nat where "SERVER_ID_LO = 2 ^ 52"
definition SERVER_ID_HI :: nat where "SERVER_ID_HI = 2 ^ 53"
definition PROTOCOL_VERSION :: u64 where "PROTOCOL_VERSION = 1"
definition SCHEMA_VERSION :: u64 where "SCHEMA_VERSION = 2"
definition MIN_WRITER_VERSION :: u64 where "MIN_WRITER_VERSION = SCHEMA_VERSION"

datatype merge_strategy = FieldLww | Opaque

definition strategy_for :: "string \<Rightarrow> merge_strategy" where
  "strategy_for component_type =
     (if component_type \<in> set
          [''text-element.content'', ''text.content'', ''line.label'', ''shape-element.geometry'',
           ''line.element.geometry'', ''line.element.polyline'', ''highlighter.element.geometry'',
           ''pen.element.geometry'', ''freedraw.stroke'', ''pen_stroke'', ''svg.icon'', ''line.binding'']
      then Opaque else FieldLww)"

datatype canonical_snapshot = CanonicalSnapshot (as_value: json)

definition ref_fields :: "string \<Rightarrow> string list" where
  "ref_fields ty =
     (if ty = ''parent'' then [''entity'']
      else if ty = ''line.binding'' then [''start.target'', ''end.target'']
      else if ty = ''group'' then [''members'']
      else [])"

definition check_ref :: "string \<Rightarrow> json \<Rightarrow> model_error + unit" where
  "check_ref path v =
     (case as_u64 v of
        Some u \<Rightarrow> (if unat u \<le> MAX_SYNCED_ID then Inr () else Inl (RefOutOfRange path v))
      | None \<Rightarrow> Inl (RefOutOfRange path v))"

definition resolve_path :: "json \<Rightarrow> string \<Rightarrow> json option" where
  "resolve_path v path =
     foldl (\<lambda>cur seg. Option.bind cur (json_get seg)) (Some v) (split_char (CHR ''.'') path)"

definition validate_ref_path :: "json \<Rightarrow> string \<Rightarrow> model_error + unit" where
  "validate_ref_path cmp path =
     (case resolve_path cmp path of
        None \<Rightarrow> Inr ()
      | Some JNull \<Rightarrow> Inr ()
      | Some (JArr items) \<Rightarrow> foldE (\<lambda>item _. check_ref path item) items ()
      | Some other \<Rightarrow> check_ref path other)"

definition validate_component_refs :: "string \<Rightarrow> json \<Rightarrow> model_error + unit" where
  "validate_component_refs ty cmp = foldE (\<lambda>path _. validate_ref_path cmp path) (ref_fields ty) ()"

definition server_id_in_band :: "u64 \<Rightarrow> bool" where
  "server_id_in_band i \<longleftrightarrow> SERVER_ID_LO \<le> unat i \<and> unat i < SERVER_ID_HI"

subsection \<open>Canonicalisation of a flat snapshot\<close>

definition entity_json :: "u64 \<Rightarrow> json list \<Rightarrow> json" where
  "entity_json i components =
     JObj (obj_insert ''components'' (JArr components) (obj_insert ''id'' (JNum (PosInt i)) []))"

definition root_json :: "json list \<Rightarrow> json" where
  "root_json entities = JObj (obj_insert ''entities'' (JArr entities) [])"

definition component_type :: "json \<Rightarrow> string option" where
  "component_type cmp = Option.bind (json_get ''type'' cmp) as_str"

definition entity_id :: "json \<Rightarrow> u64 option" where
  "entity_id ent = Option.bind (json_get ''id'' ent) as_u64"

fun canon_components :: "string list \<Rightarrow> json list \<Rightarrow> model_error + (string \<times> json) list" where
  "canon_components seen [] = Inr []"
| "canon_components seen (cmp # comps) =
     bindE (ok_orE BadComponentShape (as_object cmp)) (\<lambda>_.
     bindE (ok_orE MissingType (component_type cmp)) (\<lambda>ty.
     if ty \<in> set seen then Inl (DuplicateComponentType ty)
     else
       bindE (validate_component_refs ty cmp) (\<lambda>_.
       bindE (map_errE Mapping (canon_value cmp)) (\<lambda>v.
       bindE (canon_components (ty # seen) comps) (\<lambda>rest. Inr ((ty, v) # rest))))))"

definition entity_components :: "json \<Rightarrow> json list" where
  "entity_components ent =
     (case Option.bind (json_get ''components'' ent) as_array of Some cs \<Rightarrow> cs | None \<Rightarrow> [])"

fun canon_entities :: "u64 list \<Rightarrow> json list \<Rightarrow> model_error + (u64 \<times> json) list" where
  "canon_entities seen [] = Inr []"
| "canon_entities seen (ent # ents) =
     bindE (ok_orE BadId (entity_id ent)) (\<lambda>i.
     if unat i > MAX_SYNCED_ID then Inl (EntityIdOutOfRange i)
     else if i \<in> set seen then Inl (DuplicateEntityId i)
     else
       bindE (canon_components [] (entity_components ent)) (\<lambda>comp_out.
       bindE (canon_entities (i # seen) ents) (\<lambda>rest.
       Inr ((i, entity_json i (map snd (sort_key fst comp_out))) # rest))))"

definition canonicalize_flat :: "json \<Rightarrow> model_error + canonical_snapshot" where
  "canonicalize_flat flat =
     bindE (ok_orE BadRoot (Option.bind (json_get ''entities'' flat) as_array)) (\<lambda>entities.
     bindE (canon_entities [] entities) (\<lambda>out.
     Inr (CanonicalSnapshot (root_json (map snd (sort_key fst out))))))"

subsection \<open>Writing a document\<close>

definition write_instance ::
  "('d, 'u, 's) yrs \<Rightarrow> string \<Rightarrow> jobj \<Rightarrow> json \<Rightarrow> model_error + (string \<times> yout) list" where
  "write_instance Y ty obj whole =
     (if ty = COMPONENT then write_text_instance (y_json_print Y) (y_text_diff Y) obj
      else
        (case strategy_for ty of
           FieldLww \<Rightarrow>
             bindE (mapE (\<lambda>p. bindE (map_errE Mapping (json_to_any (snd p))) (\<lambda>a. Inr (fst p, OAny a)))
                      (filter (\<lambda>p. fst p \<noteq> ''type'') obj))
               (\<lambda>flds. Inr [(''alive'', OAny (ABool True)), (''mode'', OAny (AString ''field_lww'')),
                            (''fields'', OMap flds)])
         | Opaque \<Rightarrow>
             bindE (map_errE Mapping (json_to_any whole))
               (\<lambda>a. Inr [(''alive'', OAny (ABool True)), (''mode'', OAny (AString ''opaque'')),
                         (''value'', OAny a)])))"

definition populate_component ::
  "('d, 'u, 's) yrs \<Rightarrow> json \<Rightarrow> model_error + string \<times> yout" where
  "populate_component Y cmp =
     bindE (ok_orE BadComponentShape (as_object cmp)) (\<lambda>obj.
     bindE (ok_orE MissingType (component_type cmp)) (\<lambda>ty.
     bindE (write_instance Y ty obj cmp) (\<lambda>inst. Inr (ty, OMap inst))))"

definition populate_entity ::
  "('d, 'u, 's) yrs \<Rightarrow> json \<Rightarrow> 'd \<Rightarrow> model_error + 'd" where
  "populate_entity Y ent d =
     bindE (ok_orE BadId (entity_id ent)) (\<lambda>i.
     bindE (mapE (populate_component Y) (entity_components ent)) (\<lambda>comps.
     Inr (y_insert_entity Y (nat_str (unat i))
            (OMap [(''alive'', OAny (ABool True)), (''components'', OMap comps)]) d)))"

definition insert_meta :: "('d, 'u, 's) yrs \<Rightarrow> 'd \<Rightarrow> 'd" where
  "insert_meta Y d =
     y_insert_meta Y ''min_writer_version'' (OAny (ANumber (Fin (of_nat (unat MIN_WRITER_VERSION)))))
    (y_insert_meta Y ''schema_version'' (OAny (ANumber (Fin (of_nat (unat SCHEMA_VERSION)))))
    (y_insert_meta Y ''protocol_version'' (OAny (ANumber (Fin (of_nat (unat PROTOCOL_VERSION))))) d))"

definition populate_doc ::
  "('d, 'u, 's) yrs \<Rightarrow> 'd \<Rightarrow> canonical_snapshot \<Rightarrow> model_error + 'd" where
  "populate_doc Y d snap =
     bindE (ok_orE BadRoot (Option.bind (json_get ''entities'' (as_value snap)) as_array)) (\<lambda>arr.
     foldE (populate_entity Y) arr (insert_meta Y (y_bind Y d)))"

definition snapshot_to_doc_with_client_id ::
  "('d, 'u, 's) yrs \<Rightarrow> canonical_snapshot \<Rightarrow> u64 \<Rightarrow> model_error + 'd" where
  "snapshot_to_doc_with_client_id Y snap client_id =
     (if \<not> server_id_in_band client_id then Inl (ServerClientIdOutOfBand client_id)
      else populate_doc Y (y_new Y client_id) snap)"

subsection \<open>Projecting a document\<close>

definition alive_checked :: "(string \<times> yout) list \<Rightarrow> model_error + bool" where
  "alive_checked m =
     (case map_of m ''alive'' of
        Some (OAny (ABool b)) \<Rightarrow> Inr b
      | _ \<Rightarrow> Inl (BadDocShape ''missing or non-bool `alive`''))"

fun project_fields :: "(string \<times> yout) list \<Rightarrow> jobj \<Rightarrow> model_error + jobj" where
  "project_fields [] obj = Inr obj"
| "project_fields ((k, v) # flds) obj =
     (case v of
        OAny a \<Rightarrow>
          bindE (map_errE Mapping (any_to_json a)) (\<lambda>j. project_fields flds (obj_insert k j obj))
      | _ \<Rightarrow> Inl (BadDocShape ''field value not Any''))"

definition materialize_component ::
  "('d, 'u, 's) yrs \<Rightarrow> string \<Rightarrow> (string \<times> yout) list \<Rightarrow> model_error + json" where
  "materialize_component Y ty inst =
     (case map_of inst ''mode'' of
        Some (OAny (AString mode)) \<Rightarrow>
          (if mode = ''field_lww'' then
             bindE (project_fields
                      (case map_of inst ''fields'' of Some (OMap flds) \<Rightarrow> flds | _ \<Rightarrow> [])
                      (obj_insert ''type'' (JStr ty) []))
               (\<lambda>obj. Inr (JObj obj))
           else if mode = ''opaque'' then
             (case map_of inst ''value'' of
                Some (OAny a) \<Rightarrow>
                  bindE (map_errE Mapping (any_to_json a)) (\<lambda>v.
                  (case component_type v of
                     Some t \<Rightarrow> (if t = ty then Inr v else Inl (OpaqueTypeMismatch ty t))
                   | None \<Rightarrow> Inl (OpaqueTypeMismatch ty ''<none>'')))
              | _ \<Rightarrow> Inl (BadDocShape ''opaque instance missing value''))
           else if mode = MODE \<and> ty = COMPONENT then materialize_text (y_json_parse Y) inst
           else Inl (BadDocShape ''unknown component mode''))
      | _ \<Rightarrow> Inl (BadDocShape ''component instance missing mode''))"

fun project_components ::
  "('d, 'u, 's) yrs \<Rightarrow> (string \<times> yout) list \<Rightarrow> model_error + (string \<times> json) list" where
  "project_components Y [] = Inr []"
| "project_components Y ((ty, inst_val) # comps) =
     (case inst_val of
        OMap inst \<Rightarrow>
          bindE (alive_checked inst) (\<lambda>alive.
          if \<not> alive then project_components Y comps
          else
            bindE (materialize_component Y ty inst) (\<lambda>j.
            bindE (project_components Y comps) (\<lambda>rest. Inr ((ty, j) # rest))))
      | _ \<Rightarrow> Inl (BadDocShape ''component instance not a map''))"

fun project_entities ::
  "('d, 'u, 's) yrs \<Rightarrow> (string \<times> yout) list \<Rightarrow> model_error + (u64 \<times> json) list" where
  "project_entities Y [] = Inr []"
| "project_entities Y ((key, v) # ents) =
     bindE (ok_orE BadId (parse_uint (2 ^ 64 - 1) key)) (\<lambda>i.
     (case v of
        OMap ent \<Rightarrow>
          bindE (alive_checked ent) (\<lambda>alive.
          if \<not> alive then project_entities Y ents
          else
            (case map_of ent ''components'' of
               Some (OMap comps) \<Rightarrow>
                 bindE (project_components Y comps) (\<lambda>comp_out.
                 bindE (project_entities Y ents) (\<lambda>rest.
                 Inr ((word_of_nat i, entity_json (word_of_nat i) (map snd (sort_key fst comp_out))) # rest)))
             | _ \<Rightarrow> Inl (BadDocShape ''entity missing components map'')))
      | _ \<Rightarrow> Inl (BadDocShape ''entity not a map'')))"

definition doc_to_snapshot :: "('d, 'u, 's) yrs \<Rightarrow> 'd \<Rightarrow> model_error + json" where
  "doc_to_snapshot Y d =
     bindE (ok_orE (BadDocShape ''no entities root'') (y_entities Y d)) (\<lambda>entities_root.
     bindE (project_entities Y entities_root) (\<lambda>out.
     Inr (root_json (map snd (sort_key fst out)))))"

subsection \<open>The durable base\<close>

definition encode_base :: "('d, 'u, 's) yrs \<Rightarrow> 'd \<Rightarrow> bytes \<times> bytes" where
  "encode_base Y d = (y_encode_diff Y d (y_sv_default Y), y_sv_encode Y (y_state_vector Y d))"

definition doc_from_base ::
  "('d, 'u, 's) yrs \<Rightarrow> bytes \<Rightarrow> bytes \<Rightarrow> u64 \<Rightarrow> model_error + 'd" where
  "doc_from_base Y state_update state_vector client_id =
     (if \<not> server_id_in_band client_id then Inl (ServerClientIdOutOfBand client_id)
      else
        bindE (ok_orE (BadDocShape ''decode base'') (y_decode_update Y state_update)) (\<lambda>u.
        bindE (ok_orE (BadDocShape ''apply base'') (y_apply_update Y u (y_bind Y (y_new Y client_id)))) (\<lambda>d.
        bindE (ok_orE (BadDocShape ''decode state vector'') (y_decode_sv Y state_vector)) (\<lambda>(persisted, rest).
        if rest \<noteq> [] then Inl (BadDocShape ''trailing state-vector bytes'')
        else if y_state_vector Y d \<noteq> persisted then Inl (BadDocShape ''state-vector mismatch'')
        else Inr d))))"

text \<open>\<open>value as u64\<close> truncates towards zero and saturates.\<close>

definition f64_as_u64 :: "f64 \<Rightarrow> u64" where
  "f64_as_u64 f = word_of_nat (min (2 ^ 64 - 1) (nat \<lfloor>f64_value f\<rfloor>))"

definition doc_schema_version :: "('d, 'u, 's) yrs \<Rightarrow> 'd \<Rightarrow> model_error + u64" where
  "doc_schema_version Y d =
     bindE (ok_orE (BadDocShape ''missing meta root'') (y_meta Y d)) (\<lambda>meta.
     (case map_of meta ''schema_version'' of
        Some (OAny (ANumber f)) \<Rightarrow>
          (if f64_is_finite f \<and> f64_value f \<ge> 0 \<and> f64_integral f then Inr (f64_as_u64 f)
           else Inl (BadDocShape ''invalid schema version''))
      | _ \<Rightarrow> Inl (BadDocShape ''invalid schema version'')))"

definition validate_schema_metadata ::
  "('d, 'u, 's) yrs \<Rightarrow> 'd \<Rightarrow> u64 \<Rightarrow> model_error + unit" where
  "validate_schema_metadata Y d envelope_schema =
     bindE (ok_orE (BadDocShape ''missing meta root'') (y_meta Y d)) (\<lambda>meta.
     bindE (doc_schema_version Y d) (\<lambda>schema.
     if schema \<noteq> envelope_schema \<or> schema \<noteq> SCHEMA_VERSION
     then Inl (BadDocShape ''envelope/Doc schema mismatch'')
     else
       bindE (case map_of meta ''min_writer_version'' of
                Some (OAny (ANumber f)) \<Rightarrow>
                  (if f64_is_finite f \<and> f64_integral f then Inr (f64_as_u64 f)
                   else Inl (BadDocShape ''invalid min writer version''))
              | _ \<Rightarrow> Inl (BadDocShape ''invalid min writer version'')) (\<lambda>minimum.
       if minimum \<noteq> schema then Inl (BadDocShape ''schema/min writer mismatch'') else Inr ())))"


subsection \<open>Reading back what was written\<close>

text \<open>
  A map read from a document has the entries written to it, each read the same way, in an unspecified
  order: this is what the code relies on in the crate, with the fact that a fresh document is empty
  and that the two roots are independent.
\<close>

inductive reads_as :: "yout \<Rightarrow> yout \<Rightarrow> bool" where
  reads_any: "reads_as (OAny a) (OAny a)"
| reads_map: "list_all2 (\<lambda>p q. fst p = fst q \<and> reads_as (snd p) (snd q)) m n \<Longrightarrow>
    mset n' = mset n \<Longrightarrow> reads_as (OMap m) (OMap n')"
| reads_xml: "reads_as (OXmlFragment xs) (OXmlFragment xs)"
| reads_other: "reads_as OOther OOther"

inductive_cases reads_as_OMapE: "reads_as (OMap m) y"
inductive_cases reads_as_OAnyE: "reads_as (OAny a) y"

definition yrs_reads_writes :: "('d, 'u, 's) yrs \<Rightarrow> bool" where
  "yrs_reads_writes Y \<longleftrightarrow>
     (\<forall>i. y_entities Y (y_bind Y (y_new Y i)) = Some [])
   \<and> (\<forall>k v d. y_entities Y (y_insert_meta Y k v d) = y_entities Y d)
   \<and> (\<forall>k v d es. y_entities Y d = Some es \<longrightarrow> k \<notin> fst ` set es \<longrightarrow>
        (\<exists>v' es'. reads_as v v' \<and> y_entities Y (y_insert_entity Y k v d) = Some es'
           \<and> mset es' = mset ((k, v') # es)))"

lemma reads_as_map_of:
  assumes "reads_as (OMap m) (OMap n)" "distinct (map fst m)"
  shows "distinct (map fst n) \<and> fst ` set n = fst ` set m
    \<and> (\<forall>k v. map_of m k = Some v \<longrightarrow> (\<exists>v'. map_of n k = Some v' \<and> reads_as v v'))"
proof -
  obtain n0 where 1: "list_all2 (\<lambda>p q. fst p = fst q \<and> reads_as (snd p) (snd q)) m n0"
    "mset n = mset n0"
    using assms(1) by (auto elim: reads_as_OMapE)
  have fsts: "map fst n0 = map fst m" using 1(1) by (induction rule: list_all2_induct) simp_all
  have mf: "mset (map fst n) = mset (map fst n0)" using 1(2) by simp
  then have dn: "distinct (map fst n)" using assms(2) fsts by (metis mset_eq_imp_distinct_iff)
  have sn: "set n = set n0" using 1(2) by (rule mset_eq_setD)
  have "\<exists>v'. map_of n k = Some v' \<and> reads_as v v'" if "map_of m k = Some v" for k v
  proof -
    from that have "(k, v) \<in> set m" by (rule map_of_SomeD)
    then obtain i where i: "i < length m" "m ! i = (k, v)" by (auto simp: in_set_conv_nth)
    then have n0: "n0 ! i \<in> set n0" "fst (n0 ! i) = k" "reads_as v (snd (n0 ! i))"
      using 1(1) by (auto simp: list_all2_conv_all_nth)
    then have "(k, snd (n0 ! i)) \<in> set n" by (metis prod.collapse sn)
    with n0(3) dn show ?thesis by auto
  qed
  moreover have "fst ` set n = fst ` set m" by (metis fsts list.set_map sn)
  ultimately show ?thesis using dn by blast
qed

lemma project_fields_ok:
  assumes "sorted_keys obj" "\<forall>p \<in> set flds. \<exists>a. snd p = OAny a \<and> any_to_json a = Inr (g (fst p))"
  shows "\<exists>obj'. project_fields flds obj = Inr obj' \<and> sorted_keys obj'
    \<and> map_of obj' = (\<lambda>k. if k \<in> fst ` set flds then Some (g k) else map_of obj k)"
  using assms
proof (induction flds arbitrary: obj)
  case (Cons p flds)
  obtain k a where p: "p = (k, OAny a)" "any_to_json a = Inr (g k)" using Cons.prems(2) by (cases p) auto
  from Cons.IH [of "obj_insert k (g k) obj"] Cons.prems
  obtain obj' where "project_fields flds (obj_insert k (g k) obj) = Inr obj'" "sorted_keys obj'"
    "map_of obj' = (\<lambda>x. if x \<in> fst ` set flds then Some (g x) else map_of (obj_insert k (g k) obj) x)"
    by auto
  then show ?case using Cons.prems(1) by (auto simp: p fun_eq_iff)
qed auto

lemma sort_key_perm:
  assumes "mset xs = mset ys" "sorted (map f ys)" "distinct (map f ys)"
  shows "sort_key f xs = ys"
proof (rule sort_key_inj_key_eq [OF assms(1) _ assms(2)])
  show "inj_on f (set xs)" using assms by (metis distinct_map mset_eq_setD)
qed

subsection \<open>Canonical values and components\<close>

definition canonical :: "json \<Rightarrow> bool" where
  "canonical v \<longleftrightarrow> json_wf v \<and> (\<exists>a. json_to_any v = Inr a \<and> any_to_json a = Inr v)"

lemma canon_value_canonical:
  assumes "json_wf v" "canon_value v = Inr w"
  shows "w = json_norm v \<and> canonical w"
proof -
  obtain a where a: "json_to_any v = Inr a" "any_to_json a = Inr w"
    using assms(2) by (auto simp: canon_value_def bindE_Inr_iff)
  have w: "w = json_norm v" using json_roundtrip_aux [OF assms(1) a(1)] a(2) by simp
  have "json_safe v" using json_to_any_ok_iff [OF assms(1)] a(1) by blast
  then have ws: "json_wf w" "json_safe w" using json_norm_wf_safe [OF assms(1)] w by simp_all
  then obtain b where b: "json_to_any w = Inr b" using json_to_any_ok_iff by blast
  from json_roundtrip_aux [OF ws(1) b] have "any_to_json b = Inr w" by (simp add: w json_norm_idem)
  with ws b w show ?thesis by (auto simp: canonical_def)
qed

lemma map_of_map_snd: "map_of (map (\<lambda>p. (fst p, g (snd p))) m) k = map_option g (map_of m k)"
  by (induction m) auto

lemma component_type_norm: "component_type (json_norm c) = component_type c"
proof (cases c)
  case (JObj m)
  have "as_str (json_norm x) = as_str x" for x by (cases x) (simp_all add: as_str_def)
  then show ?thesis by (cases "map_of m ''type''") (simp_all add: JObj component_type_def map_of_map_snd)
qed (simp_all add: component_type_def json_get_def)

lemma canonical_field:
  assumes "canonical (JObj m)" "(k, v) \<in> set m"
  shows "\<exists>a. json_to_any v = Inr a \<and> any_to_json a = Inr v"
proof -
  obtain qs where qs: "mapE (\<lambda>p. bindE (json_to_any (snd p)) (\<lambda>a. Inr (fst p, a))) m = Inr qs"
    and bk: "any_to_json (AMap qs) = Inr (JObj m)" and wf: "json_wf (JObj m)"
    using assms(1) by (auto simp: canonical_def bindE_Inr_iff)
  obtain a where a: "json_to_any v = Inr a"
    using list_all2_in1 [OF qs [unfolded mapE_pairs_iff] assms(2)] by auto
  have "json_wf v" using wf assms(2) by auto
  note nv = json_roundtrip_aux [OF this a]
  have "json_to_any (JObj m) = Inr (AMap qs)" using qs by simp
  from json_roundtrip_aux [OF wf this] bk
  have "map (\<lambda>p. (fst p, json_norm (snd p))) m = m" by simp
  then have "(\<lambda>p. (fst p, json_norm (snd p))) (k, v) = (k, v)" using assms(2)
    using map_eq_conv [of "\<lambda>p. (fst p, json_norm (snd p))" m id] by fastforce
  then show ?thesis using a nv by simp
qed

definition component_reads :: "('d, 'u, 's) yrs \<Rightarrow> string \<times> yout \<Rightarrow> string \<times> json \<Rightarrow> bool" where
  "component_reads Y p q \<longleftrightarrow> fst p = fst q \<and> (\<exists>inst. snd p = OMap inst \<and> alive_checked inst = Inr True
     \<and> materialize_component Y (fst q) inst = Inr (snd q))"

lemma reads_any_of: "map_of m k = Some (OAny a) \<Longrightarrow> reads_as (OMap m) (OMap n) \<Longrightarrow>
    distinct (map fst m) \<Longrightarrow> map_of n k = Some (OAny a)"
  by (drule (1) reads_as_map_of) (blast elim: reads_as_OAnyE)

lemma alive_reads: "map_of m ''alive'' = Some (OAny (ABool True)) \<Longrightarrow> reads_as (OMap m) (OMap n) \<Longrightarrow>
    distinct (map fst m) \<Longrightarrow> alive_checked n = Inr True"
  using reads_any_of [of m "''alive''" "ABool True" n] by (simp add: alive_checked_def)

lemma reads_map_of_map: "map_of m k = Some (OMap f) \<Longrightarrow> reads_as (OMap m) (OMap n) \<Longrightarrow>
    distinct (map fst m) \<Longrightarrow> \<exists>f'. map_of n k = Some (OMap f') \<and> reads_as (OMap f) (OMap f')"
  by (drule (1) reads_as_map_of) (metis reads_as_OMapE)

lemma field_lww_reads:
  assumes can: "canonical (JObj obj)" and ty: "map_of obj ''type'' = Some (JStr ty)"
    and w: "mapE (\<lambda>p. bindE (map_errE Mapping (json_to_any (snd p))) (\<lambda>a. Inr (fst p, OAny a)))
              (filter (\<lambda>p. fst p \<noteq> ''type'') obj) = Inr flds"
    and r: "reads_as (OMap flds) (OMap flds')"
  shows "project_fields flds' (obj_insert ''type'' (JStr ty) []) = Inr obj"
proof -
  let ?fs = "filter (\<lambda>p. fst p \<noteq> ''type'') obj"
  have so: "sorted_keys obj" using can by (simp add: canonical_def)
  then have dobj: "distinct (map fst obj)" by (simp add: sorted_keys_def strict_sorted_iff)
  have l2: "list_all2 (\<lambda>p q. fst q = fst p \<and> (\<exists>a. snd q = OAny a \<and> json_to_any (snd p) = Inr a)) ?fs flds"
    using w unfolding mapE_Inr_iff by (rule list_all2_mono) (auto simp: result_simps)
  then have fsts: "map fst flds = map fst ?fs" by (induction rule: list_all2_induct) simp_all
  have "distinct (map fst ?fs)" using dobj by (simp add: distinct_map_filter)
  then have dfl: "distinct (map fst flds)" by (simp only: fsts)
  have field: "\<exists>a. x = OAny a \<and> any_to_json a = Inr (the (map_of obj k))" if kx: "(k, x) \<in> set flds" for k x
  proof -
    obtain v a where v: "(k, v) \<in> set ?fs" "x = OAny a" "json_to_any v = Inr a"
      using list_all2_in2 [OF l2 kx] by force
    then have "map_of obj k = Some v" "\<exists>a. json_to_any v = Inr a \<and> any_to_json a = Inr v"
      using canonical_field [OF can, of k v] map_of_sorted_in [OF so] by auto
    with v show ?thesis by auto
  qed
  have r': "distinct (map fst flds')" "fst ` set flds' = fst ` set flds"
    using reads_as_map_of [OF r dfl] by blast+
  have keys: "fst ` set flds' = {k. k \<noteq> ''type'' \<and> map_of obj k \<noteq> None}"
    unfolding r'(2) using arg_cong [OF fsts, of set] by (auto simp: map_of_eq_None_iff)
  have "\<exists>a. snd p = OAny a \<and> any_to_json a = Inr (the (map_of obj (fst p)))" if p: "p \<in> set flds'" for p
  proof -
    obtain k x where kx: "p = (k, x)" by force
    have "k \<in> fst ` set flds" using p kx r'(2) by force
    then obtain y where y: "(k, y) \<in> set flds" by force
    from field [OF y] obtain a where a: "y = OAny a" "any_to_json a = Inr (the (map_of obj k))" by blast
    have "map_of flds k = Some (OAny a)" using y a(1) dfl by simp
    from reads_any_of [OF this r dfl] have "map_of flds' k = Some (OAny a)" .
    moreover have "map_of flds' k = Some x" using p kx r'(1) by simp
    ultimately show ?thesis using a(2) kx by simp
  qed
  then obtain obj' where obj': "project_fields flds' (obj_insert ''type'' (JStr ty) []) = Inr obj'"
    "sorted_keys obj'" "map_of obj' = (\<lambda>k. if k \<in> fst ` set flds' then Some (the (map_of obj k))
       else map_of (obj_insert ''type'' (JStr ty) []) k)"
    using project_fields_ok [of "obj_insert ''type'' (JStr ty) []" flds' "\<lambda>k. the (map_of obj k)"]
    by auto
  have "obj' = obj"
  proof (rule sorted_keys_eqI [OF obj'(2) so])
    show "map_of obj' = map_of obj" unfolding obj'(3) keys by (auto simp: fun_eq_iff ty)
  qed
  with obj'(1) show ?thesis by simp
qed

lemma write_instance_reads:
  assumes "canonical v" "component_type v = Some ty" "ty \<noteq> COMPONENT"
  shows "\<exists>inst. populate_component Y v = Inr (ty, OMap inst)
    \<and> (\<forall>y. reads_as (OMap inst) y \<longrightarrow> component_reads Y (ty, y) (ty, v))"
proof -
  obtain obj where v: "v = JObj obj" and ty: "map_of obj ''type'' = Some (JStr ty)"
    using assms(2) by (cases v) (auto simp: component_type_def json_get_def Option.bind_eq_Some_conv)
  obtain a where a: "json_to_any v = Inr a" "any_to_json a = Inr v" using assms(1) by (auto simp: canonical_def)
  show ?thesis
  proof (cases "strategy_for ty")
    case Opaque
    let ?i = "[(''alive'', OAny (ABool True)), (''mode'', OAny (AString ''opaque'')), (''value'', OAny a)]"
    have w: "write_instance Y ty obj v = Inr ?i" using assms(3) Opaque a by (simp add: write_instance_def)
    have "component_reads Y (ty, y) (ty, v)" if r: "reads_as (OMap ?i) y" for y
    proof -
      obtain i where y: "y = OMap i" using r by (blast elim: reads_as_OMapE)
      note g = reads_any_of [OF _ r [unfolded y]]
      show ?thesis
        using g [of "''alive''"] g [of "''mode''"] g [of "''value''"] a(2) assms(2)
        by (simp add: y component_reads_def alive_checked_def materialize_component_def)
    qed
    then show ?thesis
      using w assms(2) by (intro exI [of _ ?i]) (simp add: populate_component_def v)
  next
    case FieldLww
    obtain flds where fl: "mapE (\<lambda>p. bindE (map_errE Mapping (json_to_any (snd p))) (\<lambda>a. Inr (fst p, OAny a)))
        (filter (\<lambda>p. fst p \<noteq> ''type'') obj) = Inr flds"
    proof -
      have "\<exists>y. bindE (map_errE Mapping (json_to_any (snd p))) (\<lambda>a. Inr (fst p, OAny a)) = Inr y"
        if "p \<in> set obj" for p
        using canonical_field [of obj "fst p" "snd p"] assms(1) that by (auto simp: v)
      then have "\<exists>y. mapE (\<lambda>p. bindE (map_errE Mapping (json_to_any (snd p))) (\<lambda>a. Inr (fst p, OAny a)))
        (filter (\<lambda>p. fst p \<noteq> ''type'') obj) = Inr y"
        unfolding mapE_ok_iff by simp
      then show thesis using that by blast
    qed
    let ?i = "[(''alive'', OAny (ABool True)), (''mode'', OAny (AString ''field_lww'')), (''fields'', OMap flds)]"
    have w: "write_instance Y ty obj v = Inr ?i" using assms(3) FieldLww fl by (simp add: write_instance_def)
    have "component_reads Y (ty, y) (ty, v)" if r: "reads_as (OMap ?i) y" for y
    proof -
      obtain i where y: "y = OMap i" using r by (blast elim: reads_as_OMapE)
      note g = reads_any_of [OF _ r [unfolded y]]
      obtain f' where f': "map_of i ''fields'' = Some (OMap f')" "reads_as (OMap flds) (OMap f')"
        using reads_map_of_map [OF _ r [unfolded y], of "''fields''" flds] by auto
      have "project_fields f' (obj_insert ''type'' (JStr ty) []) = Inr obj"
        by (rule field_lww_reads [OF assms(1) [unfolded v] ty fl f'(2)])
      then show ?thesis
        using g [of "''alive''"] g [of "''mode''"] f'(1)
        by (simp add: y v component_reads_def alive_checked_def materialize_component_def)
    qed
    then show ?thesis
      using w assms(2) by (intro exI [of _ ?i]) (simp add: populate_component_def v)
  qed
qed

lemma project_components_reads:
  "list_all2 (component_reads Y) ps out \<Longrightarrow> project_components Y ps = Inr out"
proof (induction rule: list_all2_induct)
  case (Cons p ps q out)
  then show ?case by (cases p; cases q) (auto simp: component_reads_def)
qed simp

lemma components_read:
  assumes "\<forall>c \<in> set cs. canonical (snd c) \<and> component_type (snd c) = Some (fst c) \<and> fst c \<noteq> COMPONENT"
    and "sorted (map fst cs)" "distinct (map fst cs)"
  shows "\<exists>comps. mapE (populate_component Y) (map snd cs) = Inr comps
    \<and> (\<forall>comps'. reads_as (OMap comps) (OMap comps') \<longrightarrow>
         (\<exists>out. project_components Y comps' = Inr out \<and> sort_key fst out = cs))"
proof -
  have "\<exists>comps. mapE (populate_component Y) (map snd cs) = Inr comps
    \<and> list_all2 (\<lambda>p c. fst p = fst c \<and> (\<forall>y. reads_as (snd p) y \<longrightarrow> component_reads Y (fst p, y) c)) comps cs"
    using assms(1)
  proof (induction cs)
    case (Cons c cs)
    then obtain comps where IH: "mapE (populate_component Y) (map snd cs) = Inr comps"
      "list_all2 (\<lambda>p c. fst p = fst c \<and> (\<forall>y. reads_as (snd p) y \<longrightarrow> component_reads Y (fst p, y) c)) comps cs"
      by auto
    obtain inst where "populate_component Y (snd c) = Inr (fst c, OMap inst)"
      "\<forall>y. reads_as (OMap inst) y \<longrightarrow> component_reads Y (fst c, y) (fst c, snd c)"
      using write_instance_reads [of "snd c" "fst c" Y] Cons.prems by auto
    with IH show ?case by (intro exI [of _ "(fst c, OMap inst) # comps"]) simp
  qed simp
  then obtain comps where comps: "mapE (populate_component Y) (map snd cs) = Inr comps"
    "list_all2 (\<lambda>p c. fst p = fst c \<and> (\<forall>y. reads_as (snd p) y \<longrightarrow> component_reads Y (fst p, y) c)) comps cs"
    by blast
  have "\<exists>out. project_components Y comps' = Inr out \<and> sort_key fst out = cs"
    if r: "reads_as (OMap comps) (OMap comps')" for comps'
  proof -
    obtain n where n: "list_all2 (\<lambda>p q. fst p = fst q \<and> reads_as (snd p) (snd q)) comps n"
      "mset comps' = mset n"
      using r by (auto elim: reads_as_OMapE)
    have "list_all2 (component_reads Y) n cs"
      using n(1) comps(2) by (auto simp: list_all2_conv_all_nth) (metis prod.collapse)
    from list_all2_reorder_left_invariance [OF this n(2)]
    obtain out where out: "list_all2 (component_reads Y) comps' out" "mset out = mset cs" by blast
    show ?thesis
      using project_components_reads [OF out(1)] sort_key_perm [OF out(2) assms(2,3)] by blast
  qed
  with comps(1) show ?thesis by blast
qed

definition entity_reads :: "('d, 'u, 's) yrs \<Rightarrow> string \<times> yout \<Rightarrow> u64 \<times> json \<Rightarrow> bool" where
  "entity_reads Y p q \<longleftrightarrow> parse_uint (2 ^ 64 - 1) (fst p) = Some (unat (fst q))
     \<and> (\<exists>ent comps out. snd p = OMap ent \<and> alive_checked ent = Inr True
          \<and> map_of ent ''components'' = Some (OMap comps) \<and> project_components Y comps = Inr out
          \<and> snd q = entity_json (fst q) (map snd (sort_key fst out)))"

lemma project_entities_reads:
  "list_all2 (entity_reads Y) ps out \<Longrightarrow> project_entities Y ps = Inr out"
proof (induction rule: list_all2_induct)
  case (Cons p ps q out)
  then show ?case by (cases p; cases q) (auto simp: entity_reads_def)
qed simp

lemma entity_json_simps [simp]:
  "entity_id (entity_json i cs) = Some i" "entity_components (entity_json i cs) = cs"
  by (simp_all add: entity_id_def entity_components_def entity_json_def)

definition canonical_entity :: "u64 \<times> json \<Rightarrow> bool" where
  "canonical_entity p \<longleftrightarrow> (\<exists>cs. snd p = entity_json (fst p) (map snd cs)
     \<and> sorted (map fst cs) \<and> distinct (map fst cs)
     \<and> (\<forall>c \<in> set cs. canonical (snd c) \<and> component_type (snd c) = Some (fst c) \<and> fst c \<noteq> COMPONENT))"

lemma populate_entity_reads:
  assumes Y: "yrs_reads_writes Y" and d: "y_entities Y d = Some es"
    and es: "list_all2 (entity_reads Y) es out"
    and p: "canonical_entity p" "fst p \<notin> fst ` set out"
  shows "\<exists>d' es' out'. populate_entity Y (snd p) d = Inr d' \<and> y_entities Y d' = Some es'
    \<and> list_all2 (entity_reads Y) es' out' \<and> mset out' = mset (p # out)"
proof -
  obtain i j where ij: "p = (i, j)" by force
  obtain cs where cs: "j = entity_json i (map snd cs)" "sorted (map fst cs)" "distinct (map fst cs)"
    "\<forall>c \<in> set cs. canonical (snd c) \<and> component_type (snd c) = Some (fst c) \<and> fst c \<noteq> COMPONENT"
    using p(1) by (auto simp: canonical_entity_def ij)
  obtain comps where comps: "mapE (populate_component Y) (map snd cs) = Inr comps"
    "\<forall>comps'. reads_as (OMap comps) (OMap comps') \<longrightarrow>
       (\<exists>out. project_components Y comps' = Inr out \<and> sort_key fst out = cs)"
    using components_read [OF cs(4,2,3), of Y] by blast
  let ?k = "nat_str (unat i)" and ?e = "[(''alive'', OAny (ABool True)), (''components'', OMap comps)]"
  have key: "parse_uint (2 ^ 64 - 1) ?k = Some (unat i)"
    using unsigned_less [where 'a = nat, of i] by (intro parse_nat_str) simp
  have "?k \<notin> fst ` set es"
  proof
    assume "?k \<in> fst ` set es"
    then obtain x where x: "x \<in> set es" "fst x = ?k" by force
    then obtain q where "q \<in> set out" "entity_reads Y x q" using list_all2_in1 [OF es] by blast
    with x key have q: "q \<in> set out" "unat (fst q) = unat i" by (simp_all add: entity_reads_def)
    from q(2) have "fst q = i" by (rule word_unat_eq_iff [THEN iffD2])
    with p(2) q(1) show False by (auto simp: ij)
  qed
  then obtain v' es' where e': "reads_as (OMap ?e) v'" "y_entities Y (y_insert_entity Y ?k (OMap ?e) d) = Some es'"
    "mset es' = mset ((?k, v') # es)"
    using Y d unfolding yrs_reads_writes_def by blast
  obtain e where v': "v' = OMap e" using e'(1) by (blast elim: reads_as_OMapE)
  note g = reads_any_of [OF _ e'(1) [unfolded v'], of "''alive''"]
  obtain comps' where c': "map_of e ''components'' = Some (OMap comps')" "reads_as (OMap comps) (OMap comps')"
    using reads_map_of_map [OF _ e'(1) [unfolded v'], of "''components''" comps] by auto
  obtain o' where o': "project_components Y comps' = Inr o'" "sort_key fst o' = cs" using comps(2) c'(2) by blast
  have "alive_checked e = Inr True" using g by (simp add: alive_checked_def)
  then have "entity_reads Y (?k, v') p"
    unfolding entity_reads_def using key c'(1) o' cs(1) by (simp add: ij v')
  then have "list_all2 (entity_reads Y) ((?k, v') # es) (p # out)" using es by simp
  from list_all2_reorder_left_invariance [OF this e'(3)] obtain out' where
    "list_all2 (entity_reads Y) es' out'" "mset out' = mset (p # out)" by blast
  moreover have "populate_entity Y (snd p) d = Inr (y_insert_entity Y ?k (OMap ?e) d)"
    by (simp add: populate_entity_def ij cs(1) comps(1))
  ultimately show ?thesis using e'(2) by blast
qed

lemma populate_entities_read:
  assumes Y: "yrs_reads_writes Y"
  shows "y_entities Y d = Some es \<Longrightarrow> list_all2 (entity_reads Y) es out \<Longrightarrow>
    \<forall>p \<in> set ps. canonical_entity p \<Longrightarrow> distinct (map fst (ps @ out)) \<Longrightarrow>
    \<exists>d' es' out'. foldE (populate_entity Y) (map snd ps) d = Inr d' \<and> y_entities Y d' = Some es'
      \<and> list_all2 (entity_reads Y) es' out' \<and> mset out' = mset (ps @ out)"
proof (induction ps arbitrary: d es out)
  case (Cons p ps)
  obtain d1 es1 out1 where 1: "populate_entity Y (snd p) d = Inr d1" "y_entities Y d1 = Some es1"
    "list_all2 (entity_reads Y) es1 out1" "mset out1 = mset (p # out)"
    using populate_entity_reads [OF Y Cons.prems(1,2), of p] Cons.prems(3,4) by auto
  have "mset (map fst (ps @ out1)) = mset (map fst ((p # ps) @ out))" using 1(4) by simp
  then have "distinct (map fst (ps @ out1))" using Cons.prems(4) mset_eq_imp_distinct_iff by blast
  with Cons.IH [OF 1(2,3)] Cons.prems(3) 1(1,4) show ?case by auto
qed auto

subsection \<open>What canonicalisation returns\<close>

definition plain_flat :: "json \<Rightarrow> bool" where
  "plain_flat flat \<longleftrightarrow> (case Option.bind (json_get ''entities'' flat) as_array of
      Some ents \<Rightarrow> list_all (\<lambda>e. list_all (\<lambda>c. component_type c \<noteq> Some COMPONENT) (entity_components e)) ents
    | None \<Rightarrow> True)"

lemma json_wf_get: "json_wf v \<Longrightarrow> json_get k v = Some w \<Longrightarrow> json_wf w"
  by (cases v) (force simp: json_get_def dest: map_of_SomeD)+

lemma canon_components_out:
  assumes "canon_components seen cs = Inr out" "\<forall>c \<in> set cs. json_wf c \<and> component_type c \<noteq> Some COMPONENT"
  shows "distinct (map fst out) \<and> set seen \<inter> fst ` set out = {}
    \<and> (\<forall>c \<in> set out. canonical (snd c) \<and> component_type (snd c) = Some (fst c) \<and> fst c \<noteq> COMPONENT)"
  using assms
proof (induction seen cs arbitrary: out rule: canon_components.induct)
  case (2 seen c cs)
  obtain m ty v rest where 1: "component_type c = Some ty" "ty \<notin> set seen" "canon_value c = Inr v"
    "canon_components (ty # seen) cs = Inr rest" "out = (ty, v) # rest" "c = JObj m"
    "validate_component_refs ty c = Inr ()"
    using "2.prems"(1) by (auto simp: result_simps split: if_splits)
  have "canonical v" "component_type v = Some ty"
    using canon_value_canonical [OF _ 1(3)] "2.prems"(2) 1(1) by (auto simp: component_type_norm)
  moreover have "distinct (map fst rest) \<and> set (ty # seen) \<inter> fst ` set rest = {}
    \<and> (\<forall>c \<in> set rest. canonical (snd c) \<and> component_type (snd c) = Some (fst c) \<and> fst c \<noteq> COMPONENT)"
    by (rule "2.IH" [of m ty "()" v rest]) (use 1 "2.prems"(2) in auto)
  moreover have "ty \<noteq> COMPONENT" using 1(1) "2.prems"(2) by auto
  ultimately show ?case using 1(2) by (simp add: 1(5))
qed auto

lemma canon_entities_out:
  assumes "canon_entities seen ents = Inr out"
    and "\<forall>e \<in> set ents. json_wf e \<and> (\<forall>c \<in> set (entity_components e). component_type c \<noteq> Some COMPONENT)"
  shows "distinct (map fst out) \<and> set seen \<inter> fst ` set out = {} \<and> (\<forall>p \<in> set out. canonical_entity p)"
  using assms
proof (induction seen ents arbitrary: out rule: canon_entities.induct)
  case (2 seen e ents)
  obtain i comp_out rest where 1: "entity_id e = Some i" "\<not> unat i > MAX_SYNCED_ID" "i \<notin> set seen"
    "canon_components [] (entity_components e) = Inr comp_out"
    "canon_entities (i # seen) ents = Inr rest"
    "out = (i, entity_json i (map snd (sort_key fst comp_out))) # rest"
    using "2.prems"(1) by (auto simp: result_simps split: if_splits)
  have "json_wf c" if c: "c \<in> set (entity_components e)" for c
  proof -
    have "json_wf e" using "2.prems"(2) by simp
    moreover obtain xs where "json_get ''components'' e = Some (JArr xs)" "c \<in> set xs"
      using c unfolding entity_components_def
      by (cases "json_get ''components'' e"; cases "the (json_get ''components'' e)")
        (simp_all add: as_array_def)
    ultimately show ?thesis using json_wf_get [of e "''components''" "JArr xs"] by simp
  qed
  then have co: "distinct (map fst comp_out)" "\<forall>c \<in> set comp_out. canonical (snd c)
      \<and> component_type (snd c) = Some (fst c) \<and> fst c \<noteq> COMPONENT"
    using canon_components_out [OF 1(4)] "2.prems"(2) by auto
  have "distinct (map fst (sort_key fst comp_out))"
    using co(1) by (metis mset_map mset_sort mset_eq_imp_distinct_iff)
  then have "canonical_entity (i, entity_json i (map snd (sort_key fst comp_out)))"
    unfolding canonical_entity_def using co(2)
    by (intro exI [of _ "sort_key fst comp_out"]) simp
  moreover have "distinct (map fst rest) \<and> set (i # seen) \<inter> fst ` set rest = {} \<and> (\<forall>p \<in> set rest. canonical_entity p)"
    using "2.IH" [of i comp_out rest] 1 "2.prems"(2) by auto
  ultimately show ?case using 1 by auto
qed auto

lemma y_entities_insert_meta: "yrs_reads_writes Y \<Longrightarrow> y_entities Y (insert_meta Y d) = y_entities Y d"
  by (simp add: yrs_reads_writes_def insert_meta_def)

text \<open>C30: Seeding a document from a flat board projection and projecting it back is lossless: whenever the
  canonicalizer accepts a well-formed snapshot without structural text and the client id is in the
  server band, a document is built and its projection is the canonical snapshot itself, whatever
  order the document's maps are iterated in.\<close>

theorem snapshot_doc_roundtrip:
  assumes "yrs_reads_writes Y" "json_wf flat" "plain_flat flat"
    and "canonicalize_flat flat = Inr snap" "server_id_in_band i"
  shows "\<exists>d. snapshot_to_doc_with_client_id Y snap i = Inr d \<and> doc_to_snapshot Y d = Inr (as_value snap)"
proof -
  obtain ents out where ents: "json_get ''entities'' flat = Some (JArr ents)"
    and out: "canon_entities [] ents = Inr out"
    and snap: "as_value snap = root_json (map snd (sort_key fst out))"
    using assms(4) by (auto simp: canonicalize_flat_def result_simps Option.bind_eq_Some_conv)
  have "json_wf (JArr ents)" by (rule json_wf_get [OF assms(2) ents])
  then have o: "distinct (map fst out)" "\<forall>p \<in> set out. canonical_entity p"
    using canon_entities_out [OF out] assms(3) by (auto simp: plain_flat_def ents list_all_iff)
  let ?ps = "sort_key fst out"
  have m: "mset ?ps = mset out" by simp
  have ps: "distinct (map fst ?ps)" "\<forall>p \<in> set ?ps. canonical_entity p"
    using o by (simp_all, metis mset_map mset_sort mset_eq_imp_distinct_iff)
  have d0: "y_entities Y (insert_meta Y (y_bind Y (y_new Y i))) = Some []"
    using assms(1) y_entities_insert_meta [OF assms(1)] by (simp add: yrs_reads_writes_def)
  obtain d es' out' where d: "foldE (populate_entity Y) (map snd ?ps) (insert_meta Y (y_bind Y (y_new Y i))) = Inr d"
    "y_entities Y d = Some es'" "list_all2 (entity_reads Y) es' out'" "mset out' = mset ?ps"
    using populate_entities_read [OF assms(1) d0, of "[]" ?ps] ps by auto
  have "project_entities Y es' = Inr out'" by (rule project_entities_reads [OF d(3)])
  moreover have "sort_key fst out' = ?ps" by (rule sort_key_perm [OF d(4) _ ps(1)]) simp
  ultimately have "doc_to_snapshot Y d = Inr (as_value snap)"
    by (simp add: doc_to_snapshot_def d(2) snap)
  moreover have "snapshot_to_doc_with_client_id Y snap i = Inr d"
    using d(1) assms(5)
    by (simp add: snapshot_to_doc_with_client_id_def populate_doc_def snap root_json_def)
  ultimately show ?thesis by blast
qed

text \<open>
  A replica that keeps its two roots as lists, and its updates as sets of entity writes: the smallest
  instance of the crate's interface, on which the theorems of this development are applied.
\<close>

type_synonym toy_doc = "u64 \<times> (string \<times> yout) list \<times> (string \<times> yout) list"

definition toy_yrs :: "(toy_doc, bytes, unit) yrs" where
  "toy_yrs = \<lparr>y_new = (\<lambda>i. (i, [], [])), y_client = fst, y_bind = (\<lambda>d. d),
     y_decode_update = Some,
     y_apply_update = (\<lambda>u d. Some d),
     y_decode_sv = (\<lambda>b. Some ((), [])), y_state_vector = (\<lambda>d. ()), y_sv_encode = (\<lambda>s. []),
     y_sv_default = (), y_encode_diff = (\<lambda>d s. []),
     y_meta = (\<lambda>d. Some (fst (snd d))), y_entities = (\<lambda>d. Some (snd (snd d))),
     y_insert_meta = (\<lambda>k v d. (fst d, (k, v) # fst (snd d), snd (snd d))),
     y_insert_entity = (\<lambda>k v d. (fst d, fst (snd d), (k, v) # snd (snd d))),
     y_text_diff = (\<lambda>ins. map (\<lambda>i. (OAny (AString (fst (snd i))), Some (snd (snd i)))) ins),
     y_json_print = (\<lambda>m. None), y_json_parse = (\<lambda>s. None)\<rparr>"

lemma reads_as_refl: "reads_as v v"
proof (induction v rule: yout.induct [where ?P2.0 = "\<lambda>_. True"])
  case (OMap m)
  then have "list_all2 (\<lambda>p q. fst p = fst q \<and> reads_as (snd p) (snd q)) m m"
    by (auto simp: list_all2_same snds.simps)
  then show ?case by (rule reads_map) simp
qed (auto intro: reads_any reads_xml reads_other)

lemma toy_reads_writes: "yrs_reads_writes toy_yrs"
  using reads_as_refl by (auto simp: yrs_reads_writes_def toy_yrs_def)

definition sample_flat :: json where
  "sample_flat = JObj [(''entities'', JArr
     [JObj [(''components'', JArr [JObj [(''type'', JStr ''parent''), (''z'', JNum (Float (Fin 2)))]]),
            (''id'', JNum (PosInt 7))],
      JObj [(''id'', JNum (PosInt 3))]])]"

theorem snapshot_doc_roundtrip_witness:
  "\<exists>snap d. canonicalize_flat sample_flat = Inr snap
    \<and> snapshot_to_doc_with_client_id toy_yrs snap (2 ^ 52) = Inr d
    \<and> doc_to_snapshot toy_yrs d = Inr (as_value snap)"
proof -
  have can: "\<exists>snap. canonicalize_flat sample_flat = Inr snap"
    by (simp add: sample_flat_def canonicalize_flat_def entity_id_def entity_components_def component_type_def
        validate_component_refs_def ref_fields_def canon_value_def number_to_any_def json_access
        MAX_SYNCED_ID_def number_to_json_def f64_integral_def SAFE_INT_def validate_ref_path_def resolve_path_def)
  then obtain snap where snap: "canonicalize_flat sample_flat = Inr snap" ..
  have "\<exists>d. snapshot_to_doc_with_client_id toy_yrs snap (2 ^ 52) = Inr d
    \<and> doc_to_snapshot toy_yrs d = Inr (as_value snap)"
  proof (rule snapshot_doc_roundtrip [OF toy_reads_writes _ _ snap])
    show "json_wf sample_flat" by (simp add: sample_flat_def)
    show "plain_flat sample_flat"
      by (simp add: sample_flat_def plain_flat_def entity_components_def component_type_def COMPONENT_def)
    show "server_id_in_band (2 ^ 52)" by (simp add: server_id_in_band_def SERVER_ID_LO_def SERVER_ID_HI_def)
  qed
  with snap show ?thesis by blast
qed

end
