(* ===== verification/Coordinator.thy ===== *)
theory Coordinator
  imports Yrs_Model
begin

text \<open>
  The per-board coordinator of \<open>src/src/state/yrs_coordinator.rs\<close> and the durable bases of
  \<open>src/src/state/canonical_base.rs\<close>.  Database integers (\<open>i64\<close> sequences and generations) are
  unbounded integers here.
\<close>

record canonical_base =
  cb_state_update :: bytes
  cb_state_vector :: bytes
  cb_base_seq :: int
  cb_server_client_id :: u64
  cb_base_generation :: int

text \<open>The random draw is the argument.\<close>

definition random_server_client_id :: "u64 \<Rightarrow> u64" where
  "random_server_client_id r = word_of_nat (SERVER_ID_LO + unat r mod SERVER_ID_LO)"

definition from_flat_projection ::
  "('d, 'u, 's) yrs \<Rightarrow> u64 \<Rightarrow> json \<Rightarrow> int \<Rightarrow> model_error + canonical_base" where
  "from_flat_projection Y r state base_seq =
     bindE (canonicalize_flat state) (\<lambda>can.
     (let i = random_server_client_id r in
      bindE (snapshot_to_doc_with_client_id Y can i) (\<lambda>doc.
      Inr \<lparr>cb_state_update = fst (encode_base Y doc), cb_state_vector = snd (encode_base Y doc),
           cb_base_seq = base_seq, cb_server_client_id = i, cb_base_generation = 1\<rparr>)))"

record prepared_commit =
  pc_seq :: int
  pc_base_update :: bytes
  pc_base_state_vector :: bytes
  pc_yupdate :: bytes
  pc_schema_version :: u32
  pc_expected_projection :: json

record 'd board_coordinator =
  bc_doc :: 'd
  bc_server_client_id :: u64
  bc_base_generation :: int
  bc_processed_seq :: int

definition from_base ::
  "('d, 'u, 's) yrs \<Rightarrow> canonical_base \<Rightarrow> int \<Rightarrow> model_error + 'd board_coordinator" where
  "from_base Y base processed_seq =
     (if \<not> server_id_in_band (cb_server_client_id base)
      then Inl (ServerClientIdOutOfBand (cb_server_client_id base))
      else
        bindE (doc_from_base Y (cb_state_update base) (cb_state_vector base) (cb_server_client_id base)) (\<lambda>d.
        Inr \<lparr>bc_doc = d, bc_server_client_id = cb_server_client_id base,
             bc_base_generation = cb_base_generation base, bc_processed_seq = processed_seq\<rparr>))"

definition schema_version :: "('d, 'u, 's) yrs \<Rightarrow> 'd board_coordinator \<Rightarrow> model_error + u64" where
  "schema_version Y c = doc_schema_version Y (bc_doc c)"

definition resident_base :: "('d, 'u, 's) yrs \<Rightarrow> 'd board_coordinator \<Rightarrow> bytes \<times> bytes" where
  "resident_base Y c = encode_base Y (bc_doc c)"

definition resident_snapshot :: "('d, 'u, 's) yrs \<Rightarrow> 'd board_coordinator \<Rightarrow> model_error + json" where
  "resident_snapshot Y c = doc_to_snapshot Y (bc_doc c)"

text \<open>Decode an update and integrate it, with the two error messages of the caller.\<close>

definition apply_bytes ::
  "('d, 'u, 's) yrs \<Rightarrow> string \<Rightarrow> string \<Rightarrow> bytes \<Rightarrow> 'd \<Rightarrow> model_error + 'd" where
  "apply_bytes Y decode_msg apply_msg bs d =
     bindE (ok_orE (BadDocShape decode_msg) (y_decode_update Y bs)) (\<lambda>u.
     ok_orE (BadDocShape apply_msg) (y_apply_update Y u d))"

definition validate_candidate_schema ::
  "('d, 'u, 's) yrs \<Rightarrow> 'd board_coordinator \<Rightarrow> bytes \<Rightarrow> u64 \<Rightarrow> model_error + unit" where
  "validate_candidate_schema Y c candidate_update envelope_schema =
     bindE (schema_version Y c) (\<lambda>current.
     if current \<noteq> SCHEMA_VERSION \<or> envelope_schema \<noteq> current
     then Inl (BadDocShape ''invalid canonical schema'')
     else
       (case encode_base Y (bc_doc c) of (base, vector) \<Rightarrow>
        bindE (doc_from_base Y base vector (bc_server_client_id c)) (\<lambda>candidate.
        bindE (apply_bytes Y ''decode candidate schema'' ''apply candidate schema'' candidate_update candidate)
          (\<lambda>candidate'. validate_schema_metadata Y candidate' envelope_schema))))"

subsection \<open>Normalising text payloads\<close>

definition is_text :: "json \<Rightarrow> bool" where
  "is_text cmp \<longleftrightarrow> component_type cmp = Some ''text.content''"

definition command_entity :: "json \<Rightarrow> u64 option" where
  "command_entity command = Option.bind (json_get ''entity'' command) as_u64"

definition direct_text :: "json \<Rightarrow> bool" where
  "direct_text command \<longleftrightarrow> Option.bind (json_get ''component'' command) component_type = Some ''text.content''"

definition spawned_text :: "json \<Rightarrow> bool" where
  "spawned_text command =
     (case Option.bind (json_get ''components'' command) as_array of
        Some components \<Rightarrow> list_ex is_text components | None \<Rightarrow> False)"

definition collect_text_command_entity :: "json \<Rightarrow> u64 list \<Rightarrow> u64 list" where
  "collect_text_command_entity command affected =
     (case command_entity command of
        None \<Rightarrow> affected
      | Some entity \<Rightarrow>
          (if direct_text command \<or> spawned_text command then List.insert entity affected else affected))"

definition forward_commands :: "json \<Rightarrow> json list" where
  "forward_commands payload =
     (case Option.bind (json_get ''actions'' payload) as_array of
        None \<Rightarrow> []
      | Some actions \<Rightarrow>
          concat (map (\<lambda>action. case Option.bind (json_get ''forward'' action) as_array of
                                   Some cmds \<Rightarrow> cmds | None \<Rightarrow> []) actions))"

fun canonical_text_entities ::
  "u64 list \<Rightarrow> json list \<Rightarrow> (u64 \<times> json) list \<Rightarrow> model_error + (u64 \<times> json) list" where
  "canonical_text_entities affected [] out = Inr out"
| "canonical_text_entities affected (entity # entities) out =
     (case entity_id entity of
        None \<Rightarrow> canonical_text_entities affected entities out
      | Some i \<Rightarrow>
          (if i \<notin> set affected then canonical_text_entities affected entities out
           else
             bindE (ok_orE (BadTextShape ''candidate projection is missing affected text component'')
                      (find is_text (entity_components entity)))
               (\<lambda>cmp. canonical_text_entities affected entities (obj_insert i cmp out))))"

definition canonical_text_components :: "json \<Rightarrow> u64 list \<Rightarrow> model_error + (u64 \<times> json) list" where
  "canonical_text_components projection affected =
     bindE (ok_orE BadRoot (Option.bind (json_get ''entities'' projection) as_array)) (\<lambda>entities.
     bindE (canonical_text_entities affected entities []) (\<lambda>out.
     if length out \<noteq> length affected
     then Inl (BadTextShape ''candidate projection is missing affected text entity'')
     else Inr out))"

text \<open>\<open>get_mut\<close> on an object field, and \<open>as_array_mut\<close>.\<close>

definition json_update :: "string \<Rightarrow> (json \<Rightarrow> json) \<Rightarrow> json \<Rightarrow> json" where
  "json_update k f v =
     (case v of JObj m \<Rightarrow> JObj (map (\<lambda>p. (fst p, if fst p = k then f (snd p) else snd p)) m) | _ \<Rightarrow> v)"

definition map_array :: "(json \<Rightarrow> json) \<Rightarrow> json \<Rightarrow> json" where
  "map_array f v = (case v of JArr xs \<Rightarrow> JArr (map f xs) | _ \<Rightarrow> v)"

definition rewrite_text_command :: "(u64 \<times> json) list \<Rightarrow> json \<Rightarrow> json" where
  "rewrite_text_command can command =
     (case Option.bind (command_entity command) (map_of can) of
        None \<Rightarrow> command
      | Some cmp \<Rightarrow>
          json_update ''components'' (map_array (\<lambda>v. if is_text v then cmp else v))
            (if direct_text command then json_update ''component'' (\<lambda>_. cmp) command else command))"

definition normalize_structural_text_projection :: "json \<Rightarrow> json \<Rightarrow> model_error + json" where
  "normalize_structural_text_projection payload candidate_projection =
     (let affected = foldl (\<lambda>a c. collect_text_command_entity c a) [] (forward_commands payload) in
      if affected = [] then Inr payload
      else
        bindE (canonical_text_components candidate_projection affected) (\<lambda>can.
        Inr (json_update ''actions''
               (map_array (json_update ''forward'' (map_array (rewrite_text_command can)))) payload)))"

subsection \<open>Preparing and applying commits\<close>

definition prepare_external ::
  "('d, 'u, 's) yrs \<Rightarrow> 'd board_coordinator \<Rightarrow> int \<Rightarrow> json \<Rightarrow> bytes \<Rightarrow> model_error + prepared_commit \<times> json" where
  "prepare_external Y c seq event_payload candidate_update =
     (case encode_base Y (bc_doc c) of (base_update, base_state_vector) \<Rightarrow>
      bindE (doc_from_base Y base_update base_state_vector (bc_server_client_id c)) (\<lambda>candidate0.
      bindE (apply_bytes Y ''decode external candidate'' ''apply external candidate'' candidate_update candidate0)
        (\<lambda>candidate.
      bindE (doc_to_snapshot Y candidate) (\<lambda>projection.
      bindE (normalize_structural_text_projection event_payload projection) (\<lambda>persisted_payload.
      bindE (doc_schema_version Y candidate) (\<lambda>schema.
      Inr (\<lparr>pc_seq = seq, pc_base_update = base_update, pc_base_state_vector = base_state_vector,
            pc_yupdate = candidate_update, pc_schema_version = ucast schema,
            pc_expected_projection = projection\<rparr>, persisted_payload)))))))"

definition prepare_noop ::
  "('d, 'u, 's) yrs \<Rightarrow> 'd board_coordinator \<Rightarrow> int \<Rightarrow> json \<Rightarrow> model_error + prepared_commit \<times> json" where
  "prepare_noop Y c seq event_payload =
     (case encode_base Y (bc_doc c) of (base_update, base_state_vector) \<Rightarrow>
      bindE (ok_orE (BadDocShape ''decode resident state vector'') (y_decode_sv Y base_state_vector)) (\<lambda>(vector, _).
      bindE (doc_to_snapshot Y (bc_doc c)) (\<lambda>projection.
      bindE (schema_version Y c) (\<lambda>schema.
      Inr (\<lparr>pc_seq = seq, pc_base_update = base_update, pc_base_state_vector = base_state_vector,
            pc_yupdate = y_encode_diff Y (bc_doc c) vector, pc_schema_version = ucast schema,
            pc_expected_projection = projection\<rparr>, event_payload)))))"

definition apply_persisted_update ::
  "('d, 'u, 's) yrs \<Rightarrow> bytes \<Rightarrow> 'd board_coordinator \<Rightarrow> model_error + 'd board_coordinator" where
  "apply_persisted_update Y yupdate c =
     bindE (apply_bytes Y ''decode persisted yupdate'' ''apply persisted yupdate'' yupdate (bc_doc c))
       (\<lambda>d. Inr (c\<lparr>bc_doc := d\<rparr>))"

definition apply_committed ::
  "('d, 'u, 's) yrs \<Rightarrow> prepared_commit \<Rightarrow> 'd board_coordinator \<Rightarrow> model_error + 'd board_coordinator" where
  "apply_committed Y p c =
     bindE (apply_persisted_update Y (pc_yupdate p) c) (\<lambda>c'. Inr (c'\<lparr>bc_processed_seq := pc_seq p\<rparr>))"

definition catch_up_persisted ::
  "('d, 'u, 's) yrs \<Rightarrow> int \<Rightarrow> bytes \<Rightarrow> 'd board_coordinator \<Rightarrow> model_error + 'd board_coordinator" where
  "catch_up_persisted Y seq yupdate c =
     bindE (apply_persisted_update Y yupdate c)
       (\<lambda>c'. Inr (c'\<lparr>bc_processed_seq := max (bc_processed_seq c') seq\<rparr>))"

definition assert_valid_projection :: "('d, 'u, 's) yrs \<Rightarrow> 'd board_coordinator \<Rightarrow> model_error + unit" where
  "assert_valid_projection Y c = bindE (doc_to_snapshot Y (bc_doc c)) (\<lambda>_. Inr ())"

subsection \<open>What the crate guarantees of replicas\<close>

text \<open>
  A replica rebuilt under its client id from its own full state is that replica, updates keep the
  client id, a state vector decodes to itself, and the difference of a replica to its own state
  vector changes nothing.
\<close>

definition yrs_replicas :: "('d, 'u, 's) yrs \<Rightarrow> bool" where
  "yrs_replicas Y \<longleftrightarrow>
     (\<forall>i. y_client Y (y_bind Y (y_new Y i)) = i)
   \<and> (\<forall>u d d'. y_apply_update Y u d = Some d' \<longrightarrow> y_client Y d' = y_client Y d)
   \<and> (\<forall>s. y_decode_sv Y (y_sv_encode Y s) = Some (s, []))
   \<and> (\<forall>d. \<exists>u. y_decode_update Y (y_encode_diff Y d (y_sv_default Y)) = Some u
          \<and> y_apply_update Y u (y_bind Y (y_new Y (y_client Y d))) = Some d)
   \<and> (\<forall>d. \<exists>u. y_decode_update Y (y_encode_diff Y d (y_state_vector Y d)) = Some u
          \<and> y_apply_update Y u d = Some d)"

definition coordinator_ok :: "('d, 'u, 's) yrs \<Rightarrow> 'd board_coordinator \<Rightarrow> bool" where
  "coordinator_ok Y c \<longleftrightarrow> server_id_in_band (bc_server_client_id c)
     \<and> y_client Y (bc_doc c) = bc_server_client_id c"

lemma doc_from_base_encode:
  assumes "yrs_replicas Y" "server_id_in_band (y_client Y d)"
  shows "doc_from_base Y (fst (encode_base Y d)) (snd (encode_base Y d)) (y_client Y d) = Inr d"
proof -
  obtain u where "y_decode_update Y (y_encode_diff Y d (y_sv_default Y)) = Some u"
    "y_apply_update Y u (y_bind Y (y_new Y (y_client Y d))) = Some d"
    using assms(1) unfolding yrs_replicas_def by blast
  moreover have "y_decode_sv Y (y_sv_encode Y s) = Some (s, [])" for s
    using assms(1) by (simp add: yrs_replicas_def)
  ultimately show ?thesis using assms(2) by (simp add: doc_from_base_def encode_base_def)
qed

lemma apply_bytes_client:
  "yrs_replicas Y \<Longrightarrow> apply_bytes Y a b u d = Inr d' \<Longrightarrow> y_client Y d' = y_client Y d"
  by (auto simp: apply_bytes_def result_simps yrs_replicas_def)

lemma apply_bytes_msgs: "apply_bytes Y a b u d = Inr d' \<Longrightarrow> apply_bytes Y a' b' u d = Inr d'"
  by (auto simp: apply_bytes_def result_simps)

lemma from_base_ok:
  assumes "yrs_replicas Y" "from_base Y base n = Inr c"
  shows "coordinator_ok Y c \<and> bc_base_generation c = cb_base_generation base \<and> bc_processed_seq c = n
    \<and> doc_from_base Y (cb_state_update base) (cb_state_vector base) (cb_server_client_id base) = Inr (bc_doc c)"
  using assms
  by (auto simp: from_base_def doc_from_base_def coordinator_ok_def yrs_replicas_def result_simps split: if_splits)

lemma apply_persisted_update_ok:
  "yrs_replicas Y \<Longrightarrow> coordinator_ok Y c \<Longrightarrow> apply_persisted_update Y u c = Inr c' \<Longrightarrow> coordinator_ok Y c'"
  by (auto simp: apply_persisted_update_def result_simps coordinator_ok_def dest: apply_bytes_client)

lemma apply_committed_ok:
  "yrs_replicas Y \<Longrightarrow> coordinator_ok Y c \<Longrightarrow> apply_committed Y p c = Inr c' \<Longrightarrow> coordinator_ok Y c'"
  using apply_persisted_update_ok [of Y c] by (fastforce simp: apply_committed_def result_simps coordinator_ok_def)

lemma catch_up_persisted_ok:
  "yrs_replicas Y \<Longrightarrow> coordinator_ok Y c \<Longrightarrow> catch_up_persisted Y s u c = Inr c' \<Longrightarrow> coordinator_ok Y c'"
  using apply_persisted_update_ok [of Y c] by (fastforce simp: catch_up_persisted_def result_simps coordinator_ok_def)

lemma prepare_external_candidate:
  assumes "yrs_replicas Y" "coordinator_ok Y c" "prepare_external Y c seq payload u = Inr (p, payload')"
  shows "pc_yupdate p = u \<and> pc_seq p = seq \<and> (\<exists>d. apply_bytes Y ''decode persisted yupdate'' ''apply persisted yupdate'' u (bc_doc c) = Inr d
    \<and> doc_to_snapshot Y d = Inr (pc_expected_projection p)
    \<and> normalize_structural_text_projection payload (pc_expected_projection p) = Inr payload')"
proof -
  have "doc_from_base Y (fst (encode_base Y (bc_doc c))) (snd (encode_base Y (bc_doc c))) (bc_server_client_id c)
      = Inr (bc_doc c)"
    using doc_from_base_encode [OF assms(1), of "bc_doc c"] assms(2) by (simp add: coordinator_ok_def)
  with assms(3) show ?thesis
    by (cases "encode_base Y (bc_doc c)")
      (auto simp: prepare_external_def result_simps dest: apply_bytes_msgs)
qed

lemma prepare_noop_candidate:
  assumes "yrs_replicas Y" "prepare_noop Y c seq payload = Inr (p, payload')"
  shows "payload' = payload \<and> pc_seq p = seq
    \<and> apply_bytes Y ''decode persisted yupdate'' ''apply persisted yupdate'' (pc_yupdate p) (bc_doc c) = Inr (bc_doc c)
    \<and> doc_to_snapshot Y (bc_doc c) = Inr (pc_expected_projection p)"
proof -
  have sv: "y_decode_sv Y (y_sv_encode Y s) = Some (s, [])" for s
    using assms(1) by (simp add: yrs_replicas_def)
  obtain u where "y_decode_update Y (y_encode_diff Y (bc_doc c) (y_state_vector Y (bc_doc c))) = Some u"
    "y_apply_update Y u (bc_doc c) = Some (bc_doc c)"
    using assms(1) unfolding yrs_replicas_def by blast
  with assms(2) sv show ?thesis
    by (auto simp: prepare_noop_def encode_base_def result_simps apply_bytes_def)
qed

text \<open>C29: What the coordinator validated is what it becomes: applying a commit that was prepared on the
  resident document never fails, moves the cursor to the commit's sequence, and leaves the resident
  document projecting exactly to the projection announced for the commit; a metadata commit
  leaves the document's projection unchanged.\<close>

theorem committed_projection:
  assumes "yrs_replicas Y" "coordinator_ok Y c"
    and "prepare_external Y c seq payload u = Inr (p, payload') \<or> prepare_noop Y c seq payload = Inr (p, payload')"
  shows "\<exists>c'. apply_committed Y p c = Inr c' \<and> coordinator_ok Y c' \<and> bc_processed_seq c' = seq
    \<and> resident_snapshot Y c' = Inr (pc_expected_projection p)"
proof -
  obtain d where d: "apply_bytes Y ''decode persisted yupdate'' ''apply persisted yupdate'' (pc_yupdate p) (bc_doc c) = Inr d"
    "doc_to_snapshot Y d = Inr (pc_expected_projection p)" "pc_seq p = seq"
    using assms(3)
  proof
    assume "prepare_external Y c seq payload u = Inr (p, payload')"
    from prepare_external_candidate [OF assms(1,2) this] show ?thesis using that by blast
  next
    assume "prepare_noop Y c seq payload = Inr (p, payload')"
    from prepare_noop_candidate [OF assms(1) this] show ?thesis using that by blast
  qed
  then have "apply_committed Y p c = Inr (c\<lparr>bc_doc := d, bc_processed_seq := seq\<rparr>)"
    by (simp add: apply_committed_def apply_persisted_update_def)
  moreover from apply_committed_ok [OF assms(1,2) this]
  have "coordinator_ok Y (c\<lparr>bc_doc := d, bc_processed_seq := seq\<rparr>)" .
  ultimately show ?thesis using d(2) by (simp add: resident_snapshot_def)
qed

text \<open>
  The smallest replica that merges: its state is one byte, an update joins a byte by maximum, and the
  state vector is the state.  It shows that the guarantees above can hold, with updates that matter.
\<close>

definition join_yrs :: "(u64 \<times> byte, byte, byte) yrs" where
  "join_yrs = \<lparr>y_new = (\<lambda>i. (i, 0)), y_client = fst, y_bind = (\<lambda>d. d),
     y_decode_update = (\<lambda>bs. case bs of [b] \<Rightarrow> Some b | _ \<Rightarrow> None),
     y_apply_update = (\<lambda>u d. Some (fst d, max (snd d) u)),
     y_decode_sv = (\<lambda>bs. case bs of b # r \<Rightarrow> Some (b, r) | [] \<Rightarrow> None),
     y_state_vector = snd, y_sv_encode = (\<lambda>s. [s]), y_sv_default = 0,
     y_encode_diff = (\<lambda>d s. [snd d]),
     y_meta = (\<lambda>d. Some [(''schema_version'', OAny (ANumber (Fin 2))),
                          (''min_writer_version'', OAny (ANumber (Fin 2)))]),
     y_entities = (\<lambda>d. Some (if snd d = 0 then [] else
        [(''1'', OMap [(''alive'', OAny (ABool True)), (''components'', OMap [])])])),
     y_insert_meta = (\<lambda>k v d. d), y_insert_entity = (\<lambda>k v d. d),
     y_text_diff = (\<lambda>ins. []), y_json_print = (\<lambda>m. None), y_json_parse = (\<lambda>s. None)\<rparr>"

lemma join_replicas: "yrs_replicas join_yrs"
proof -
  have "max (0 :: byte) x = x" for x by (simp add: max_def)
  then show ?thesis by (auto simp: yrs_replicas_def join_yrs_def)
qed

definition join_coordinator :: "byte \<Rightarrow> (u64 \<times> byte) board_coordinator" where
  "join_coordinator b = \<lparr>bc_doc = (2 ^ 52, b), bc_server_client_id = 2 ^ 52, bc_base_generation = 1,
     bc_processed_seq = 4\<rparr>"

lemma join_coordinator_ok: "coordinator_ok join_yrs (join_coordinator b)"
  by (simp add: coordinator_ok_def join_coordinator_def join_yrs_def server_id_in_band_def
      SERVER_ID_LO_def SERVER_ID_HI_def)

theorem committed_projection_witness:
  "\<exists>p payload' c'. prepare_external join_yrs (join_coordinator 0) 5 JNull [3] = Inr (p, payload')
    \<and> apply_committed join_yrs p (join_coordinator 0) = Inr c' \<and> bc_processed_seq c' = 5
    \<and> resident_snapshot join_yrs c' = Inr (root_json [entity_json 1 []])"
proof -
  have "\<exists>p payload'. prepare_external join_yrs (join_coordinator 0) 5 JNull [3] = Inr (p, payload')
      \<and> pc_expected_projection p = root_json [entity_json 1 []]"
    by (simp add: prepare_external_def encode_base_def doc_from_base_def join_yrs_def join_coordinator_def
        server_id_in_band_def SERVER_ID_LO_def SERVER_ID_HI_def apply_bytes_def doc_to_snapshot_def
        alive_checked_def parse_uint_def is_ascii_digit_def digit_value_def entity_json_def root_json_def
        normalize_structural_text_projection_def forward_commands_def json_access
        doc_schema_version_def f64_integral_def max_def)
  then obtain p payload' where p: "prepare_external join_yrs (join_coordinator 0) 5 JNull [3] = Inr (p, payload')"
    "pc_expected_projection p = root_json [entity_json 1 []]" by blast
  from committed_projection [OF join_replicas join_coordinator_ok, of 0 5 JNull "[3]" p payload'] p
  show ?thesis by auto
qed

end
