(* ===== verification/Paging.thy ===== *)
theory Paging
  imports Prelude "HOL-Library.Multiset"
begin

text \<open>
  Ordered pages of a table: \<open>SELECT ... WHERE P ORDER BY key ASC LIMIT n\<close>.  The locale \<open>paged_log\<close> is
  the contract every reader of the journal relies on (fan-out, activation, compaction): a page is the next
  stretch of the log after the cursor.  Its lemma \<open>split\<close> is what makes page-by-page loops correct.
\<close>

definition select_page :: "('r \<Rightarrow> int) \<Rightarrow> ('r \<Rightarrow> bool) \<Rightarrow> int \<Rightarrow> 'r list \<Rightarrow> 'r list" where
  "select_page key P limit rows = take (nat limit) (sort_key key (filter P rows))"

text \<open>The log after a cursor, in order.\<close>

definition log_after :: "('r \<Rightarrow> int) \<Rightarrow> 'r list \<Rightarrow> int \<Rightarrow> 'r list" where
  "log_after key rows since = sort_key key (filter (\<lambda>r. since < key r) rows)"

lemma set_log_after [simp]: "set (log_after key rows since) = {r \<in> set rows. since < key r}"
  by (auto simp: log_after_def)

lemma sorted_log_after:
  "distinct (map key rows) \<Longrightarrow> sorted_wrt (\<lambda>a b. key a < key b) (log_after key rows since)"
proof -
  assume d: "distinct (map key rows)"
  have "mset (map key (log_after key rows since)) = mset (map key (filter (\<lambda>r. since < key r) rows))"
    by (simp add: log_after_def)
  then have "distinct (map key (log_after key rows since))"
    using d by (metis distinct_map_filter mset_eq_imp_distinct_iff)
  then have "sorted_wrt (<) (map key (log_after key rows since))"
    by (simp add: strict_sorted_iff log_after_def)
  then show ?thesis by (simp add: sorted_wrt_map)
qed

text \<open>Strictly ordered lists with the same elements are equal.\<close>

lemma ordered_eqI:
  fixes key :: "'r \<Rightarrow> int"
  assumes "sorted_wrt (\<lambda>a b. key a < key b) xs" "sorted_wrt (\<lambda>a b. key a < key b) ys" "set xs = set ys"
  shows "xs = ys"
proof -
  have l: "sorted_wrt (<) (map key zs) \<and> distinct zs" if "sorted_wrt (\<lambda>a b. key a < key b) zs" for zs
    using that by (induction zs) auto
  have "map key xs = map key ys"
    using l [OF assms(1)] l [OF assms(2)] assms(3)
    by (intro strict_sorted_equal) (auto simp: image_image)
  moreover have "inj_on key (set xs)"
    using l [OF assms(1)] by (simp add: strict_sorted_iff distinct_map)
  ultimately show ?thesis using assms(3)
    by (simp add: inj_on_map_eq_map)
qed

lemma log_after_log_after:
  "distinct (map key rows) \<Longrightarrow> since \<le> t \<Longrightarrow>
   filter (\<lambda>r. t < key r) (log_after key rows since) = log_after key rows t"
  by (intro ordered_eqI [where key = key] sorted_wrt_filter sorted_log_after) auto

lemma ordered_le_last:
  fixes key :: "'r \<Rightarrow> int"
  assumes "sorted_wrt (\<lambda>a b. key a < key b) xs" "p \<in> set xs"
  shows "key p \<le> key (last xs)"
  using assms by (induction xs rule: rev_induct) (auto simp: sorted_wrt_append)

locale paged_log =
  fixes page :: "'db \<Rightarrow> int \<Rightarrow> nat \<Rightarrow> 'r list"
    and rows :: "'db \<Rightarrow> 'r list"
    and key :: "'r \<Rightarrow> int"
  assumes page_sorted: "distinct (map key (rows db)) \<Longrightarrow>
      sorted_wrt (\<lambda>a b. key a < key b) (page db since limit)"
    and page_sound: "r \<in> set (page db since limit) \<Longrightarrow> r \<in> set (rows db) \<and> since < key r"
    and page_complete: "r \<in> set (rows db) \<Longrightarrow> since < key r \<Longrightarrow> distinct (map key (rows db)) \<Longrightarrow>
      r \<in> set (page db since limit)
      \<or> (length (page db since limit) = limit \<and> (\<forall>p \<in> set (page db since limit). key p < key r))"
begin

definition next_cursor :: "'db \<Rightarrow> int \<Rightarrow> nat \<Rightarrow> int" where
  "next_cursor db since limit =
     (if page db since limit = [] then since else key (last (page db since limit)))"

lemma key_le_last:
  "distinct (map key (rows db)) \<Longrightarrow> p \<in> set (page db since limit) \<Longrightarrow> key p \<le> key (last (page db since limit))"
  by (rule ordered_le_last [OF page_sorted])

lemma next_cursor_ge: "since \<le> next_cursor db since limit"
  using page_sound [of "last (page db since limit)" db since limit] by (auto simp: next_cursor_def)

lemma next_cursor_gt: "page db since limit \<noteq> [] \<Longrightarrow> since < next_cursor db since limit"
  using page_sound [of "last (page db since limit)" db since limit] by (auto simp: next_cursor_def)

lemma split:
  assumes d: "distinct (map key (rows db))" and l: "0 < limit"
  shows "log_after key (rows db) since = page db since limit @ log_after key (rows db) (next_cursor db since limit)"
proof (rule ordered_eqI [where key = key])
  let ?p = "page db since limit" and ?n = "next_cursor db since limit"
  have last: "p \<in> set ?p \<Longrightarrow> key p \<le> ?n" for p
    using key_le_last [OF d] by (auto simp: next_cursor_def)
  show "sorted_wrt (\<lambda>a b. key a < key b) (?p @ log_after key (rows db) ?n)"
    using page_sorted [OF d] sorted_log_after [OF d] last by (fastforce simp: sorted_wrt_append)
  show "set (log_after key (rows db) since) = set (?p @ log_after key (rows db) ?n)"
  proof safe
    fix r assume "r \<in> set (log_after key (rows db) since)"
    then have r: "r \<in> set (rows db)" "since < key r" by auto
    show "r \<in> set (?p @ log_after key (rows db) ?n)"
    proof (cases "r \<in> set ?p")
      case False
      then have "length ?p = limit" "\<forall>p \<in> set ?p. key p < key r" using page_complete [OF r d] by blast+
      then have "?n < key r" using l by (auto simp: next_cursor_def)
      with r show ?thesis by simp
    qed simp
  next
    fix r assume "r \<in> set (?p @ log_after key (rows db) ?n)"
    then show "r \<in> set (log_after key (rows db) since)"
      using page_sound [of r db since limit] next_cursor_ge [of since db limit] by auto
  qed
  show "sorted_wrt (\<lambda>a b. key a < key b) (log_after key (rows db) since)" by (rule sorted_log_after [OF d])
qed

lemma empty_page:
  "distinct (map key (rows db)) \<Longrightarrow> 0 < limit \<Longrightarrow> page db since limit = [] \<Longrightarrow> log_after key (rows db) since = []"
  using page_complete [of _ db since limit] by (fastforce simp: filter_empty_conv log_after_def)

lemma short_page:
  assumes d: "distinct (map key (rows db))" and "length (page db since limit) < limit"
  shows "log_after key (rows db) (next_cursor db since limit) = []"
proof -
  have "r \<in> set (page db since limit)" if r: "r \<in> set (rows db)" "since < key r" for r
    using page_complete [OF r d, of limit] assms(2) by auto
  moreover have "key r \<le> next_cursor db since limit" if "r \<in> set (page db since limit)" for r
    using key_le_last [OF d that] that by (auto simp: next_cursor_def)
  ultimately have "\<not> next_cursor db since limit < key r" if "r \<in> set (rows db)" for r
    using that next_cursor_ge [of since db limit] by force
  then show ?thesis by (auto simp: log_after_def filter_empty_conv)
qed

end

lemma select_page_set: "r \<in> set (select_page key P limit rows) \<Longrightarrow> r \<in> set rows \<and> P r"
  by (auto simp: select_page_def dest!: in_set_takeD)

lemma select_page_sorted:
  "distinct (map key rows) \<Longrightarrow> sorted_wrt (\<lambda>a b. key a < key b) (select_page key P limit rows)"
proof -
  assume d: "distinct (map key rows)"
  have "mset (map key (sort_key key (filter P rows))) = mset (map key (filter P rows))" by simp
  then have "distinct (map key (sort_key key (filter P rows)))"
    using d by (metis distinct_map_filter mset_eq_imp_distinct_iff)
  then have "sorted_wrt (<) (map key (sort_key key (filter P rows)))" by (simp add: strict_sorted_iff)
  then have "sorted_wrt (<) (take (nat limit) (map key (sort_key key (filter P rows))))" by (rule sorted_wrt_take)
  then show ?thesis by (simp only: select_page_def take_map sorted_wrt_map)
qed

lemma select_page_complete:
  assumes "r \<in> set rows" "P r" "distinct (map key rows)"
  shows "r \<in> set (select_page key P limit rows)
    \<or> (length (select_page key P limit rows) = nat limit
       \<and> (\<forall>p \<in> set (select_page key P limit rows). key p < key r))"
proof (cases "r \<in> set (select_page key P limit rows)")
  case False
  let ?s = "sort_key key (filter P rows)"
  have s: "sorted_wrt (\<lambda>a b. key a < key b) ?s"
    using select_page_sorted [OF assms(3), of P "int (length ?s)"] by (simp add: select_page_def)
  have "r \<in> set ?s" using assms(1,2) by simp
  then have "r \<in> set (drop (nat limit) ?s)"
    using False by (metis UnE append_take_drop_id select_page_def set_append)
  moreover have "sorted_wrt (\<lambda>a b. key a < key b) (take (nat limit) ?s @ drop (nat limit) ?s)" using s by simp
  ultimately have "\<forall>p \<in> set (take (nat limit) ?s). key p < key r" "nat limit \<le> length ?s"
    by (auto simp only: sorted_wrt_append) (metis drop_all empty_iff empty_set linorder_le_cases)
  then show ?thesis by (auto simp: select_page_def)
qed simp

text \<open>Every such statement satisfies the contract.\<close>

lemma select_page_paged:
  "paged_log (\<lambda>db since limit. select_page key (\<lambda>r. since < key r) (int limit) (rows db)) rows key"
proof (unfold_locales, goal_cases)
  case (1 db since limit)
  then show ?case by (rule select_page_sorted)
next
  case (2 r db since limit)
  then show ?case by (rule select_page_set)
next
  case (3 r db since limit)
  from select_page_complete [OF 3(1), of "\<lambda>r. since < key r", OF 3(2,3), of "int limit"] show ?case by simp
qed

end
