(* ===== verification/Journal.thy ===== *)
theory Journal
  imports Coordinator Paging "HOL-Library.Product_Lexorder"
begin

text \<open>
  The durable tables of one board and the statements of \<open>src/src/database\<close> that read and write them:
  \<open>yrs_heads.rs\<close>, \<open>yrs_updates.rs\<close>, \<open>yrs_snapshots.rs\<close>, \<open>yrs_canonical_bases.rs\<close>, \<open>yrs_assets.rs\<close>,
  \<open>events.rs\<close> and the board columns of \<open>boards.rs\<close>.  Every table is keyed by board, so a \<open>bdb\<close> holds
  the rows of one board and \<open>WHERE board_id = $1\<close> is the choice of it; the database is a list of boards.
  A statement that fails (a violated constraint of the migrations) returns \<open>Inl\<close>; the transaction is then
  rolled back by its caller.  Times are seconds.
\<close>

type_synonym uuid = "128 word"

datatype db_error = RowNotFound | UniqueViolation string | DbProtocol string

record board_row =
  b_next_event_seq :: int
  b_grid_type :: string
  b_background_color :: string
  b_privacy_mode :: bool
  b_sticker_authors :: bool

record event_record =
  e_id :: uuid
  e_board_id :: uuid
  e_seq :: int
  e_user_id :: uuid
  e_event_type :: string
  e_payload :: json
  e_session_id :: "string option"
  e_created_at :: int

record yrs_update_row =
  u_board_id :: uuid
  u_seq :: int
  u_event_id :: "uuid option"
  u_client_event_id :: string
  u_payload_hash :: bytes
  u_base_generation :: int
  u_schema_version :: u32
  u_protocol_version :: u16
  u_source :: string
  u_writer_client_id :: "u64 option"
  u_update_hash :: bytes
  u_yupdate :: bytes
  u_created_at :: int

datatype canonical_state = Activating | Ready | Quarantined

fun state_str :: "canonical_state \<Rightarrow> string" where
  "state_str Activating = ''activating''"
| "state_str Ready = ''ready''"
| "state_str Quarantined = ''quarantined''"

definition state_from_str :: "string \<Rightarrow> canonical_state option" where
  "state_from_str s =
     (if s = ''activating'' then Some Activating
      else if s = ''ready'' then Some Ready
      else if s = ''quarantined'' then Some Quarantined
      else None)"

record yrs_head =
  h_processed_seq :: int
  h_base_generation :: int
  h_writer_epoch :: int
  h_state :: canonical_state

record yrs_head_row =
  hr_processed_seq :: int
  hr_base_generation :: int
  hr_writer_epoch :: int
  hr_state :: string

definition head_to_domain :: "yrs_head_row \<Rightarrow> yrs_head" where
  "head_to_domain r = \<lparr>h_processed_seq = hr_processed_seq r, h_base_generation = hr_base_generation r,
     h_writer_epoch = hr_writer_epoch r,
     h_state = (case state_from_str (hr_state r) of Some s \<Rightarrow> s | None \<Rightarrow> Quarantined)\<rparr>"

record canonical_base_row =
  cr_state_update :: bytes
  cr_state_vector :: bytes
  cr_base_seq :: int
  cr_protocol_version :: u32
  cr_schema_version :: u32
  cr_min_writer_version :: u32
  cr_server_client_id :: u64
  cr_base_generation :: int
  cr_abandoned_at :: "int option"

definition base_to_domain :: "canonical_base_row \<Rightarrow> canonical_base" where
  "base_to_domain r = \<lparr>cb_state_update = cr_state_update r, cb_state_vector = cr_state_vector r,
     cb_base_seq = cr_base_seq r, cb_server_client_id = cr_server_client_id r,
     cb_base_generation = cr_base_generation r\<rparr>"

record yrs_snapshot_row =
  s_base_generation :: int
  s_last_event_seq :: int
  s_state_update :: bytes
  s_state_vector :: bytes
  s_protocol_version :: u16
  s_schema_version :: u32
  s_server_client_id :: u64
  s_source :: string
  s_output_bytes :: int
  s_state_sha256 :: bytes
  s_input_update_count :: int
  s_input_tail_bytes :: int

record asset_head =
  ah_last_event_seq :: int
  ah_base_generation :: int
  ah_status :: string
  ah_blocker_code :: "string option"

record bdb =
  d_board :: board_row
  d_events :: "event_record list"
  d_updates :: "yrs_update_row list"
  d_head :: "yrs_head_row option"
  d_base :: "canonical_base_row option"
  d_snapshots :: "yrs_snapshot_row list"
  d_asset_head :: "asset_head option"
  d_asset_refs :: "(string \<times> string \<times> int \<times> int) list"

subsection \<open>The advisory lock key\<close>

definition advisory_key :: "bytes \<Rightarrow> u64" where
  "advisory_key b = word_of_nat (le_value (take 8 b))"

subsection \<open>Heads\<close>

definition read_head :: "bdb \<Rightarrow> yrs_head option" where
  "read_head d = map_option head_to_domain (d_head d)"

definition begin_activation :: "bdb \<Rightarrow> int \<Rightarrow> yrs_head \<times> bdb" where
  "begin_activation d base_generation =
     (let row = (case d_head d of
          None \<Rightarrow> \<lparr>hr_processed_seq = 0, hr_base_generation = base_generation, hr_writer_epoch = 1,
                   hr_state = ''activating''\<rparr>
        | Some r \<Rightarrow> r\<lparr>hr_state := ''activating'', hr_base_generation := base_generation,
                       hr_writer_epoch := hr_writer_epoch r + 1\<rparr>)
      in (head_to_domain row, d\<lparr>d_head := Some row\<rparr>))"

definition mark_ready :: "bdb \<Rightarrow> int \<Rightarrow> int \<Rightarrow> bool \<times> bdb" where
  "mark_ready d expected_writer_epoch processed_seq =
     (case d_head d of
        Some r \<Rightarrow>
          (if hr_writer_epoch r = expected_writer_epoch \<and> hr_state r = ''activating''
           then (True, d\<lparr>d_head := Some (r\<lparr>hr_state := ''ready'', hr_processed_seq := processed_seq\<rparr>)\<rparr>)
           else (False, d))
      | None \<Rightarrow> (False, d))"

definition advance_processed_seq :: "bdb \<Rightarrow> int \<Rightarrow> int \<Rightarrow> int \<Rightarrow> bool \<times> bdb" where
  "advance_processed_seq d expected_writer_epoch expected_processed_seq new_processed_seq =
     (case d_head d of
        Some r \<Rightarrow>
          (if hr_writer_epoch r = expected_writer_epoch \<and> hr_processed_seq r = expected_processed_seq
              \<and> hr_state r = ''ready''
           then (True, d\<lparr>d_head := Some (r\<lparr>hr_processed_seq := new_processed_seq\<rparr>)\<rparr>)
           else (False, d))
      | None \<Rightarrow> (False, d))"

subsection \<open>Events and updates\<close>

definition reserve_next_event_seq_tx :: "bdb \<Rightarrow> int \<times> bdb" where
  "reserve_next_event_seq_tx d =
     (b_next_event_seq (d_board d),
      d\<lparr>d_board := (d_board d)\<lparr>b_next_event_seq := b_next_event_seq (d_board d) + 1\<rparr>\<rparr>)"

definition insert_event ::
  "uuid \<Rightarrow> int \<Rightarrow> bdb \<Rightarrow> uuid \<Rightarrow> int \<Rightarrow> uuid \<Rightarrow> string \<Rightarrow> json \<Rightarrow> string option \<Rightarrow> db_error + event_record \<times> bdb" where
  "insert_event new_id now d board_id seq user_id event_type payload session_id =
     (if seq \<in> e_seq ` set (d_events d) then Inl (UniqueViolation ''board_events_board_id_seq'')
      else if new_id \<in> e_id ` set (d_events d) then Inl (UniqueViolation ''board_events_pkey'')
      else
        (let e = \<lparr>e_id = new_id, e_board_id = board_id, e_seq = seq, e_user_id = user_id,
                  e_event_type = event_type, e_payload = payload, e_session_id = session_id,
                  e_created_at = now\<rparr>
         in Inr (e, d\<lparr>d_events := d_events d @ [e]\<rparr>)))"

definition list_events_since :: "bdb \<Rightarrow> int \<Rightarrow> nat \<Rightarrow> event_record list" where
  "list_events_since d since_seq limit =
     select_page e_seq (\<lambda>e. since_seq < e_seq e) (int limit) (d_events d)"

definition read_event_by_id :: "bdb \<Rightarrow> uuid \<Rightarrow> event_record option" where
  "read_event_by_id d event_id = find (\<lambda>e. e_id e = event_id) (d_events d)"

definition min_event_seq :: "bdb \<Rightarrow> int option" where
  "min_event_seq d = (if d_events d = [] then None else Some (Min (set (map e_seq (d_events d)))))"

definition list_events_by_user_session :: "bdb \<Rightarrow> uuid \<Rightarrow> string \<Rightarrow> event_record list" where
  "list_events_by_user_session d user_id session_id =
     sort_key e_seq (filter (\<lambda>e. e_user_id e = user_id \<and> e_session_id e = Some session_id) (d_events d))"

definition insert_update :: "int \<Rightarrow> bdb \<Rightarrow> yrs_update_row \<Rightarrow> db_error + bdb" where
  "insert_update now d row =
     (if u_seq row \<in> u_seq ` set (d_updates d) then Inl (UniqueViolation ''board_yrs_updates_pkey'')
      else if u_client_event_id row \<in> u_client_event_id ` set (d_updates d)
      then Inl (UniqueViolation ''board_yrs_updates_client_event_id'')
      else Inr (d\<lparr>d_updates := d_updates d @ [row\<lparr>u_created_at := now\<rparr>]\<rparr>))"

definition read_by_client_event_id :: "bdb \<Rightarrow> string \<Rightarrow> yrs_update_row option" where
  "read_by_client_event_id d client_event_id = find (\<lambda>u. u_client_event_id u = client_event_id) (d_updates d)"

definition read_by_seq :: "bdb \<Rightarrow> int \<Rightarrow> yrs_update_row option" where
  "read_by_seq d seq = find (\<lambda>u. u_seq u = seq) (d_updates d)"

definition list_updates_since :: "bdb \<Rightarrow> int \<Rightarrow> nat \<Rightarrow> yrs_update_row list" where
  "list_updates_since d since_seq limit =
     select_page u_seq (\<lambda>u. since_seq < u_seq u) (int limit) (d_updates d)"

definition list_updates_page :: "bdb \<Rightarrow> int \<Rightarrow> int \<Rightarrow> int \<Rightarrow> nat \<Rightarrow> yrs_update_row list" where
  "list_updates_page d since_seq through_seq base_generation limit =
     select_page u_seq (\<lambda>u. since_seq < u_seq u \<and> u_seq u \<le> through_seq \<and> u_base_generation u = base_generation)
       (int limit) (d_updates d)"

definition tail_rows :: "bdb \<times> int \<times> int \<Rightarrow> yrs_update_row list" where
  "tail_rows q = filter (\<lambda>u. u_seq u \<le> fst (snd q) \<and> u_base_generation u = snd (snd q)) (d_updates (fst q))"

interpretation events_log: paged_log list_events_since d_events e_seq
  using select_page_paged [of e_seq d_events] by (simp add: list_events_since_def [abs_def])

interpretation updates_log: paged_log list_updates_since d_updates u_seq
  using select_page_paged [of u_seq d_updates] by (simp add: list_updates_since_def [abs_def])

lemma list_updates_page_alt:
  "list_updates_page d since through gen limit =
   select_page u_seq (\<lambda>u. since < u_seq u) (int limit) (tail_rows (d, through, gen))"
  by (simp add: list_updates_page_def select_page_def tail_rows_def conj_commute conj_left_commute)

interpretation tail_log: paged_log "\<lambda>q since limit. list_updates_page (fst q) since (fst (snd q)) (snd (snd q)) limit"
  tail_rows u_seq
  using select_page_paged [of u_seq tail_rows] by (simp add: list_updates_page_alt)

subsection \<open>Bases and snapshots\<close>

definition read_base :: "bdb \<Rightarrow> canonical_base_row option" where
  "read_base d = d_base d"

definition upsert_base_cas :: "bool \<Rightarrow> bdb \<Rightarrow> canonical_base \<Rightarrow> (int \<times> int) option \<Rightarrow> bool \<times> bdb" where
  "upsert_base_cas locked d candidate expected =
     (if \<not> locked then (False, d)
      else if map_option (\<lambda>r. (cr_base_seq r, cr_base_generation r)) (d_base d) \<noteq> expected then (False, d)
      else (True, d\<lparr>d_base := Some \<lparr>cr_state_update = cb_state_update candidate,
             cr_state_vector = cb_state_vector candidate, cr_base_seq = cb_base_seq candidate,
             cr_protocol_version = ucast PROTOCOL_VERSION, cr_schema_version = ucast SCHEMA_VERSION,
             cr_min_writer_version = ucast MIN_WRITER_VERSION,
             cr_server_client_id = cb_server_client_id candidate,
             cr_base_generation = cb_base_generation candidate, cr_abandoned_at = None\<rparr>\<rparr>))"

definition content_hash_matches :: "(bytes \<Rightarrow> bytes) \<Rightarrow> yrs_snapshot_row \<Rightarrow> bool" where
  "content_hash_matches sha s \<longleftrightarrow> sha (s_state_update s) = s_state_sha256 s"

definition lineage_snapshots :: "bdb \<Rightarrow> int \<Rightarrow> u64 \<Rightarrow> yrs_snapshot_row list" where
  "lineage_snapshots d base_generation server_client_id =
     filter (\<lambda>s. s_base_generation s = base_generation \<and> s_server_client_id s = server_client_id
       \<and> s_source s = ''canonical_compaction'') (d_snapshots d)"

text \<open>\<open>ORDER BY last_event_seq DESC\<close>\<close>

definition newest_first :: "yrs_snapshot_row list \<Rightarrow> yrs_snapshot_row list" where
  "newest_first ss = rev (sort_key s_last_event_seq ss)"

definition read_latest_at_or_before :: "bdb \<Rightarrow> int \<Rightarrow> u64 \<Rightarrow> int \<Rightarrow> yrs_snapshot_row option" where
  "read_latest_at_or_before d base_generation server_client_id through_seq =
     (case newest_first (filter (\<lambda>s. s_last_event_seq s \<le> through_seq)
             (lineage_snapshots d base_generation server_client_id)) of
        [] \<Rightarrow> None | s # _ \<Rightarrow> Some s)"

record compacted_binary_snapshot =
  k_state_update :: bytes
  k_state_vector :: bytes
  k_last_event_seq :: int
  k_base_generation :: int
  k_server_client_id :: u64
  k_protocol_version :: u16
  k_schema_version :: u32
  k_input_update_count :: int
  k_input_tail_bytes :: int
  k_output_bytes :: int
  k_state_sha256 :: bytes

definition snapshot_row :: "string \<Rightarrow> compacted_binary_snapshot \<Rightarrow> yrs_snapshot_row" where
  "snapshot_row source k = \<lparr>s_base_generation = k_base_generation k, s_last_event_seq = k_last_event_seq k,
     s_state_update = k_state_update k, s_state_vector = k_state_vector k,
     s_protocol_version = k_protocol_version k, s_schema_version = k_schema_version k,
     s_server_client_id = k_server_client_id k, s_source = source, s_output_bytes = k_output_bytes k,
     s_state_sha256 = k_state_sha256 k, s_input_update_count = k_input_update_count k,
     s_input_tail_bytes = k_input_tail_bytes k\<rparr>"

definition snapshot_key :: "yrs_snapshot_row \<Rightarrow> u64 \<times> int \<times> int" where
  "snapshot_key s = (s_server_client_id s, s_base_generation s, s_last_event_seq s)"

definition insert_snapshot :: "bdb \<Rightarrow> string \<Rightarrow> compacted_binary_snapshot \<Rightarrow> bool \<times> bdb" where
  "insert_snapshot d source k =
     (if snapshot_key (snapshot_row source k) \<in> snapshot_key ` set (d_snapshots d) then (False, d)
      else (True, d\<lparr>d_snapshots := d_snapshots d @ [snapshot_row source k]\<rparr>))"

definition exact_snapshot_exists :: "bdb \<Rightarrow> compacted_binary_snapshot \<Rightarrow> bool" where
  "exact_snapshot_exists d k \<longleftrightarrow>
     list_ex (\<lambda>r. snapshot_key r = (k_server_client_id k, k_base_generation k, k_last_event_seq k)
       \<and> s_state_sha256 r = k_state_sha256 k \<and> s_state_update r = k_state_update k
       \<and> s_state_vector r = k_state_vector k) (d_snapshots d)"

record compaction_candidate =
  cc_board_id :: uuid
  cc_processed_seq :: int
  cc_base_generation :: int
  cc_writer_epoch :: int
  cc_server_client_id :: u64

definition publish_snapshot_cas ::
  "bdb \<Rightarrow> compaction_candidate \<Rightarrow> compacted_binary_snapshot \<Rightarrow> db_error + bool \<times> bdb" where
  "publish_snapshot_cas d candidate snapshot =
     (case read_head d of
        Some head \<Rightarrow>
          (if h_state head = Ready \<and> h_processed_seq head = cc_processed_seq candidate
              \<and> h_base_generation head = cc_base_generation candidate
              \<and> h_writer_epoch head = cc_writer_epoch candidate
           then
             (case insert_snapshot d ''canonical_compaction'' snapshot of (inserted, d') \<Rightarrow>
                if \<not> inserted \<and> \<not> exact_snapshot_exists d' snapshot
                then Inl (DbProtocol ''canonical snapshot key collided with different bytes'')
                else Inr (True, d'))
           else Inr (False, d))
      | None \<Rightarrow> Inr (False, d))"

subsection \<open>Compaction candidates and retention\<close>

definition compaction_candidate_of :: "int \<Rightarrow> int \<Rightarrow> uuid \<times> bdb \<Rightarrow> (int \<times> uuid \<times> compaction_candidate) list" where
  "compaction_candidate_of min_updates min_bytes bd =
     (case (d_head (snd bd), d_base (snd bd)) of
        (Some h, Some c) \<Rightarrow>
          (let checkpoint = map_option s_last_event_seq (read_latest_at_or_before (snd bd)
                 (hr_base_generation h) (cr_server_client_id c) (hr_processed_seq h));
               start = (case checkpoint of Some q \<Rightarrow> q | None \<Rightarrow> cr_base_seq c);
               tail = filter (\<lambda>u. u_base_generation u = hr_base_generation h \<and> start < u_seq u
                  \<and> u_seq u \<le> hr_processed_seq h) (d_updates (snd bd))
           in if cr_base_generation c = hr_base_generation h \<and> cr_abandoned_at c = None
                 \<and> hr_state h = ''ready''
                 \<and> (checkpoint = None \<or> int (length tail) \<ge> max 1 min_updates
                     \<or> int (sum_list (map (length \<circ> u_yupdate) tail)) \<ge> max 1 min_bytes)
              then [(start, fst bd, \<lparr>cc_board_id = fst bd, cc_processed_seq = hr_processed_seq h,
                      cc_base_generation = hr_base_generation h, cc_writer_epoch = hr_writer_epoch h,
                      cc_server_client_id = cr_server_client_id c\<rparr>)]
              else [])
      | _ \<Rightarrow> [])"

definition list_compaction_candidates ::
  "(uuid \<times> bdb) list \<Rightarrow> int \<Rightarrow> int \<Rightarrow> int \<Rightarrow> compaction_candidate list" where
  "list_compaction_candidates db min_updates min_bytes limit =
     map (snd \<circ> snd) (take (nat (max 1 (min 1000 limit)))
       (sort_key (\<lambda>p. (fst p, fst (snd p))) (concat (map (compaction_candidate_of min_updates min_bytes) db))))"

text \<open>The older of the two newest checkpoints of a ready board: what retention may delete up to.\<close>

definition barrier :: "bdb \<Rightarrow> (int \<times> int) option" where
  "barrier d =
     (case (d_head d, d_base d) of
        (Some h, Some c) \<Rightarrow>
          (if cr_abandoned_at c = None \<and> hr_state h = ''ready'' \<and> hr_base_generation h = cr_base_generation c
           then
             (case newest_first (lineage_snapshots d (cr_base_generation c) (cr_server_client_id c)) of
                _ # s # _ \<Rightarrow> Some (cr_base_generation c, s_last_event_seq s)
              | _ \<Rightarrow> None)
           else None)
      | _ \<Rightarrow> None)"

type_synonym victim = "int \<times> uuid \<times> int"

definition update_victims :: "int \<Rightarrow> int \<Rightarrow> uuid \<times> bdb \<Rightarrow> victim list" where
  "update_victims now retention_days bd =
     (case barrier (snd bd) of
        None \<Rightarrow> []
      | Some (gen, seq) \<Rightarrow>
          map (\<lambda>u. (u_created_at u, fst bd, u_seq u))
            (filter (\<lambda>u. u_base_generation u = gen \<and> u_seq u \<le> seq
                \<and> u_created_at u < now - retention_days * 86400) (d_updates (snd bd))))"

definition event_victims :: "int \<Rightarrow> int \<Rightarrow> uuid \<times> bdb \<Rightarrow> victim list" where
  "event_victims now retention_days bd =
     (case barrier (snd bd) of
        None \<Rightarrow> []
      | Some (gen, seq) \<Rightarrow>
          map (\<lambda>e. (e_created_at e, fst bd, e_seq e))
            (filter (\<lambda>e. e_seq e \<le> seq \<and> e_created_at e < now - retention_days * 86400
                \<and> e_seq e \<notin> u_seq ` set (d_updates (snd bd))) (d_events (snd bd))))"

definition delete_updates :: "victim set \<Rightarrow> uuid \<times> bdb \<Rightarrow> uuid \<times> bdb" where
  "delete_updates vs bd = (fst bd, (snd bd)\<lparr>d_updates :=
     filter (\<lambda>u. (u_created_at u, fst bd, u_seq u) \<notin> vs) (d_updates (snd bd))\<rparr>)"

definition delete_events :: "victim set \<Rightarrow> uuid \<times> bdb \<Rightarrow> uuid \<times> bdb" where
  "delete_events vs bd = (fst bd, (snd bd)\<lparr>d_events :=
     filter (\<lambda>e. (e_created_at e, fst bd, e_seq e) \<notin> vs) (d_events (snd bd))\<rparr>)"

record prune_result =
  pr_update_rows :: nat
  pr_event_rows :: nat

definition prune_compacted_batch ::
  "int \<Rightarrow> (uuid \<times> bdb) list \<Rightarrow> int \<Rightarrow> int \<Rightarrow> prune_result \<times> (uuid \<times> bdb) list" where
  "prune_compacted_batch now db retention_days0 limit0 =
     (let retention_days = max 7 (min 3650 retention_days0);
          limit = nat (max 1 (min 10000 limit0));
          uv = take limit (sort (concat (map (update_victims now retention_days) db)));
          db1 = map (delete_updates (set uv)) db;
          ev = take limit (sort (concat (map (event_victims now retention_days) db1)));
          db2 = map (delete_events (set ev)) db1
      in (\<lparr>pr_update_rows = length uv, pr_event_rows = length ev\<rparr>, db2))"

subsection \<open>Board configuration and the asset read model\<close>

definition update_board_config ::
  "bdb \<Rightarrow> string option \<Rightarrow> string option \<Rightarrow> bool option \<Rightarrow> bool option \<Rightarrow> bdb" where
  "update_board_config d grid_type background_color privacy_mode sticker_authors =
     (let b = d_board d in
      d\<lparr>d_board := b\<lparr>b_grid_type := (case grid_type of Some v \<Rightarrow> v | None \<Rightarrow> b_grid_type b),
           b_background_color := (case background_color of Some v \<Rightarrow> v | None \<Rightarrow> b_background_color b),
           b_privacy_mode := (case privacy_mode of Some v \<Rightarrow> v | None \<Rightarrow> b_privacy_mode b),
           b_sticker_authors := (case sticker_authors of Some v \<Rightarrow> v | None \<Rightarrow> b_sticker_authors b)\<rparr>\<rparr>)"

definition replace_projection_tx ::
  "bdb \<Rightarrow> int \<Rightarrow> int \<Rightarrow> string list \<Rightarrow> string list \<Rightarrow> string option \<Rightarrow> bdb" where
  "replace_projection_tx d last_event_seq base_generation object_keys pdf_doc_ids blocker_code =
     d\<lparr>d_asset_refs := (if blocker_code = None
          then map (\<lambda>r. (''object_key'', r, last_event_seq, base_generation)) object_keys
             @ map (\<lambda>r. (''pdf_doc'', r, last_event_seq, base_generation)) pdf_doc_ids
          else []),
       d_asset_head := Some \<lparr>ah_last_event_seq = last_event_seq, ah_base_generation = base_generation,
          ah_status = (if blocker_code \<noteq> None then ''blocked'' else ''ready''),
          ah_blocker_code = blocker_code\<rparr>\<rparr>"

fun split_refs :: "(string \<times> string \<times> int \<times> int) list \<Rightarrow> string list \<Rightarrow> string list \<Rightarrow> (string list \<times> string list) option" where
  "split_refs [] object_keys pdf_doc_ids = Some (object_keys, pdf_doc_ids)"
| "split_refs ((k, r, _) # rest) object_keys pdf_doc_ids =
     (if k = ''object_key'' then split_refs rest (List.insert r object_keys) pdf_doc_ids
      else if k = ''pdf_doc'' then split_refs rest object_keys (List.insert r pdf_doc_ids)
      else None)"

definition read_if_fresh_tx :: "bdb \<Rightarrow> (string list \<times> string list) option" where
  "read_if_fresh_tx d =
     (case (d_asset_head d, d_head d) of
        (Some ah, Some h) \<Rightarrow>
          (if ah_status ah = ''ready'' \<and> hr_state h = ''ready''
              \<and> ah_last_event_seq ah = hr_processed_seq h \<and> ah_base_generation ah = hr_base_generation h
           then split_refs (d_asset_refs d) [] [] else None)
      | _ \<Rightarrow> None)"

end
