(* ===== verification/Compaction.thy ===== *)
theory Compaction
  imports Journal
begin

text \<open>
  Compaction of the update journal: the pure core of \<open>src/src/state/yrs_compaction.rs\<close> and the optimistic
  job of \<open>src/src/jobs/yrs_compaction.rs\<close>.  \<open>sha\<close> is the SHA-256 of the \<open>sha2\<close> crate.
\<close>

record binary_snapshot_base =
  bs_state_update :: bytes
  bs_state_vector :: bytes
  bs_last_event_seq :: int
  bs_base_generation :: int
  bs_server_client_id :: u64

record binary_tail_update =
  bt_seq :: int
  bt_yupdate :: bytes

datatype compaction_error =
    BarrierBeforeBase
  | TailOrder
  | TailBytesOverflow
  | DecodeTail int
  | ApplyTail int
  | InvalidBase model_error
  | Reload model_error
  | InvalidSchema model_error

definition I64_MAX :: int where "I64_MAX = 2 ^ 63 - 1"

fun check_tail :: "int \<Rightarrow> int \<Rightarrow> int \<Rightarrow> binary_tail_update list \<Rightarrow> compaction_error + int" where
  "check_tail target prior_seq input_tail_bytes [] = Inr input_tail_bytes"
| "check_tail target prior_seq input_tail_bytes (t # tail) =
     (if bt_seq t \<le> prior_seq \<or> bt_seq t > target then Inl TailOrder
      else if int (length (bt_yupdate t)) > I64_MAX then Inl TailBytesOverflow
      else if input_tail_bytes + int (length (bt_yupdate t)) > I64_MAX then Inl TailBytesOverflow
      else check_tail target (bt_seq t) (input_tail_bytes + int (length (bt_yupdate t))) tail)"

definition apply_tail_update ::
  "('d, 'u, 's) yrs \<Rightarrow> binary_tail_update \<Rightarrow> 'd \<Rightarrow> compaction_error + 'd" where
  "apply_tail_update Y t d =
     bindE (ok_orE (DecodeTail (bt_seq t)) (y_decode_update Y (bt_yupdate t))) (\<lambda>u.
     ok_orE (ApplyTail (bt_seq t)) (y_apply_update Y u d))"

definition compact_binary_snapshot ::
  "('d, 'u, 's) yrs \<Rightarrow> (bytes \<Rightarrow> bytes) \<Rightarrow> binary_snapshot_base \<Rightarrow> int \<Rightarrow> binary_tail_update list \<Rightarrow>
   compaction_error + compacted_binary_snapshot" where
  "compact_binary_snapshot Y sha base target_event_seq tail =
     (if target_event_seq < bs_last_event_seq base then Inl BarrierBeforeBase
      else
        bindE (check_tail target_event_seq (bs_last_event_seq base) 0 tail) (\<lambda>input_tail_bytes.
        bindE (map_errE InvalidBase
                 (doc_from_base Y (bs_state_update base) (bs_state_vector base) (bs_server_client_id base))) (\<lambda>doc0.
        bindE (foldE (apply_tail_update Y) tail doc0) (\<lambda>doc.
        bindE (map_errE InvalidSchema (doc_schema_version Y doc)) (\<lambda>schema.
        bindE (map_errE InvalidSchema (validate_schema_metadata Y doc schema)) (\<lambda>_.
        (case encode_base Y doc of (state_update, state_vector) \<Rightarrow>
        bindE (map_errE Reload (doc_from_base Y state_update state_vector (bs_server_client_id base))) (\<lambda>reloaded.
        bindE (map_errE InvalidSchema (validate_schema_metadata Y reloaded schema)) (\<lambda>_.
        if int (length state_update) > I64_MAX then Inl TailBytesOverflow
        else Inr \<lparr>k_state_update = state_update, k_state_vector = state_vector,
               k_last_event_seq = target_event_seq, k_base_generation = bs_base_generation base,
               k_server_client_id = bs_server_client_id base, k_protocol_version = ucast PROTOCOL_VERSION,
               k_schema_version = ucast schema, k_input_update_count = int (length tail),
               k_input_tail_bytes = input_tail_bytes, k_output_bytes = int (length state_update),
               k_state_sha256 = sha state_update\<rparr>)))))))))"

subsection \<open>The job\<close>

definition UPDATE_PAGE :: nat where "UPDATE_PAGE = 1000"

definition tail_of_row :: "yrs_update_row \<Rightarrow> binary_tail_update" where
  "tail_of_row row = \<lparr>bt_seq = u_seq row, bt_yupdate = u_yupdate row\<rparr>"

function read_tail :: "bdb \<Rightarrow> int \<Rightarrow> int \<Rightarrow> int \<Rightarrow> binary_tail_update list" where
  "read_tail d gen through cursor =
     (if cursor < through then
        (let page = list_updates_page d cursor through gen UPDATE_PAGE in
         if page = [] then []
         else if length page < UPDATE_PAGE then map tail_of_row page
         else map tail_of_row page @ read_tail d gen through (u_seq (last page)))
      else [])"
  by pat_completeness auto
termination
proof (relation "measure (\<lambda>(d, gen, through, cursor). nat (through - cursor))", goal_cases)
  case (2 d gen through cursor page)
  then have "cursor < u_seq (last page)"
    using tail_log.page_sound [of "last page" "(d, through, gen)" cursor UPDATE_PAGE] by simp
  with 2(1) show ?case by simp
qed simp

definition compaction_base :: "canonical_base_row \<Rightarrow> yrs_snapshot_row option \<Rightarrow> binary_snapshot_base" where
  "compaction_base can checkpoint =
     (case checkpoint of
        None \<Rightarrow> \<lparr>bs_state_update = cr_state_update can, bs_state_vector = cr_state_vector can,
                 bs_last_event_seq = cr_base_seq can, bs_base_generation = cr_base_generation can,
                 bs_server_client_id = cr_server_client_id can\<rparr>
      | Some s \<Rightarrow> \<lparr>bs_state_update = s_state_update s, bs_state_vector = s_state_vector s,
                   bs_last_event_seq = s_last_event_seq s, bs_base_generation = s_base_generation s,
                   bs_server_client_id = s_server_client_id s\<rparr>)"

datatype job_error = JobMissing string | JobCompact compaction_error | JobPublish db_error

text \<open>
  The reads of the job see the database \<open>d\<close>; the publishing transaction sees \<open>d'\<close>, which any number
  of other transactions may have changed in between.
\<close>

definition compact_one ::
  "('d, 'u, 's) yrs \<Rightarrow> (bytes \<Rightarrow> bytes) \<Rightarrow> bdb \<Rightarrow> bdb \<Rightarrow> compaction_candidate \<Rightarrow> job_error + bool \<times> bdb" where
  "compact_one Y sha d d' candidate =
     bindE (ok_orE (JobMissing ''canonical head disappeared'') (read_head d)) (\<lambda>head.
     if h_state head \<noteq> Ready \<or> h_processed_seq head \<noteq> cc_processed_seq candidate
        \<or> h_base_generation head \<noteq> cc_base_generation candidate
        \<or> h_writer_epoch head \<noteq> cc_writer_epoch candidate
     then Inr (False, d')
     else
       bindE (ok_orE (JobMissing ''canonical base disappeared'') (read_base d)) (\<lambda>can.
       (let base = compaction_base can (read_latest_at_or_before d (cc_base_generation candidate)
                     (cc_server_client_id candidate) (cc_processed_seq candidate));
            tail = read_tail d (cc_base_generation candidate) (cc_processed_seq candidate) (bs_last_event_seq base)
        in bindE (map_errE JobCompact (compact_binary_snapshot Y sha base (cc_processed_seq candidate) tail)) (\<lambda>snapshot.
           map_errE JobPublish (publish_snapshot_cas d' candidate snapshot)))))"

subsection \<open>Paging is exact\<close>

lemma log_after_none: "\<forall>r \<in> set rows. key r \<le> c \<Longrightarrow> log_after key rows c = []"
proof -
  assume "\<forall>r \<in> set rows. key r \<le> c"
  then have "filter (\<lambda>r. c < key r) rows = []" by (auto simp: filter_empty_conv)
  then show ?thesis by (simp add: log_after_def)
qed

lemma read_tail_exact:
  assumes "distinct (map u_seq (tail_rows (d, through, gen)))"
  shows "read_tail d gen through cursor = map tail_of_row (log_after u_seq (tail_rows (d, through, gen)) cursor)"
  using assms
proof (induction d gen through cursor rule: read_tail.induct)
  case (1 d gen through cursor)
  let ?q = "(d, through, gen)" and ?p = "list_updates_page d cursor through gen UPDATE_PAGE"
  have pos: "0 < UPDATE_PAGE" by (simp add: UPDATE_PAGE_def)
  show ?case
  proof (cases "cursor < through")
    case False
    then show ?thesis by (auto simp: tail_rows_def intro!: log_after_none)
  next
    case lt: True
    have split: "log_after u_seq (tail_rows ?q) cursor
        = ?p @ log_after u_seq (tail_rows ?q) (tail_log.next_cursor ?q cursor UPDATE_PAGE)"
      using tail_log.split [OF 1(2) pos, of cursor] by simp
    show ?thesis
    proof (cases "?p = []")
      case True
      then show ?thesis
        using tail_log.empty_page [OF 1(2) pos, of cursor] lt by (simp add: Let_def)
    next
      case ne: False
      then have nc: "tail_log.next_cursor ?q cursor UPDATE_PAGE = u_seq (last ?p)"
        by (simp add: tail_log.next_cursor_def)
      show ?thesis
      proof (cases "length ?p < UPDATE_PAGE")
        case True
        then have "log_after u_seq (tail_rows ?q) (u_seq (last ?p)) = []"
          using tail_log.short_page [OF 1(2), of cursor UPDATE_PAGE] nc by simp
        then show ?thesis using split nc lt ne True by (simp add: Let_def)
      next
        case False
        then show ?thesis using "1.IH" [OF lt refl ne False "1.prems"] split nc lt ne
          by (simp add: Let_def)
      qed
    qed
  qed
qed

declare read_tail.simps [simp del]

end
