(* ===== verification/Assets.thy ===== *)
theory Assets
  imports Json Rust_Str
begin

text \<open>
  The stable-reference projection of \<open>src/src/state/yrs_assets.rs\<close>: which stored objects a board
  snapshot refers to, and whether some internal URL has no stable reference (garbage collection then
  fails closed).  Sets are lists without duplicates.
\<close>

record stable_asset_refs =
  ar_object_keys :: "string list"
  ar_pdf_doc_ids :: "string list"
  ar_unstable :: bool

definition no_refs :: stable_asset_refs where
  "no_refs = \<lparr>ar_object_keys = [], ar_pdf_doc_ids = [], ar_unstable = False\<rparr>"

text \<open>
  \<open>char::to_lowercase\<close> after dropping underscores.  Besides the ASCII letters only U+212A and U+0130 have
  lower-case forms with an ASCII letter; every other character keeps its bytes here, since the
  result is only searched for ASCII text.
\<close>

fun normalized :: "string \<Rightarrow> string" where
  "normalized [] = []"
| "normalized (c # cs) =
     (if c = CHR ''_'' then normalized cs
      else if c = CHR 0xE2 \<and> take 2 cs = [CHR 0x84, CHR 0xAA] then CHR ''k'' # normalized (drop 2 cs)
      else if c = CHR 0xC4 \<and> take 1 cs = [CHR 0xB0] then CHR ''i'' # CHR 0xCC # CHR 0x87 # normalized (drop 1 cs)
      else ascii_lower c # normalized cs)"

definition nonempty_str :: "json \<Rightarrow> string option" where
  "nonempty_str v = (case as_str v of Some s \<Rightarrow> (if s \<noteq> [] then Some s else None) | None \<Rightarrow> None)"

definition is_object_key :: "string \<Rightarrow> bool" where
  "is_object_key key \<longleftrightarrow> str_contains (normalized key) ''objectkey''"

definition is_url_key :: "string \<Rightarrow> bool" where
  "is_url_key key \<longleftrightarrow> \<not> is_object_key key \<and> str_contains (normalized key) ''url''"

definition has_object_key :: "(string \<times> json) list \<Rightarrow> bool" where
  "has_object_key m \<longleftrightarrow> list_ex (\<lambda>p. is_object_key (fst p) \<and> nonempty_str (snd p) \<noteq> None) m"

definition pdf_doc :: "(string \<times> json) list \<Rightarrow> string option" where
  "pdf_doc m =
     (if Option.bind (map_of m ''type'') as_str = Some ''pdf.page''
      then Option.bind (map_of m ''docId'') nonempty_str else None)"

text \<open>What one object entry contributes, given what its siblings provide.\<close>

definition visit_entry :: "string \<Rightarrow> bool \<Rightarrow> string \<times> json \<Rightarrow> stable_asset_refs \<Rightarrow> stable_asset_refs" where
  "visit_entry board_marker sibling p r =
     (if is_object_key (fst p) then
        (case nonempty_str (snd p) of
           Some k \<Rightarrow> r\<lparr>ar_object_keys := List.insert k (ar_object_keys r)\<rparr> | None \<Rightarrow> r)
      else if str_contains (normalized (fst p)) ''url'' then
        (case as_str (snd p) of
           Some url \<Rightarrow> (if str_contains url board_marker \<and> \<not> sibling then r\<lparr>ar_unstable := True\<rparr> else r)
         | None \<Rightarrow> r)
      else r)"

definition visit_pdf :: "(string \<times> json) list \<Rightarrow> stable_asset_refs \<Rightarrow> stable_asset_refs" where
  "visit_pdf m r =
     (case pdf_doc m of
        Some doc_id \<Rightarrow> r\<lparr>ar_pdf_doc_ids := List.insert doc_id (ar_pdf_doc_ids r)\<rparr> | None \<Rightarrow> r)"

fun walk :: "string \<Rightarrow> json \<Rightarrow> stable_asset_refs \<Rightarrow> stable_asset_refs" where
  "walk board_marker (JObj m) r =
     fold (\<lambda>p r. walk board_marker (snd p)
             (visit_entry board_marker (has_object_key m \<or> pdf_doc m \<noteq> None) p r)) m (visit_pdf m r)"
| "walk board_marker (JArr items) r = fold (walk board_marker) items r"
| "walk board_marker _ r = r"

definition project_stable_refs :: "json \<Rightarrow> string \<Rightarrow> stable_asset_refs" where
  "project_stable_refs state board_id =
     walk (''/boards/'' @ board_id @ ''/'') state no_refs"

subsection \<open>What the projection finds\<close>

text \<open>The objects nested in a value, the value itself included.\<close>

fun objects_in :: "json \<Rightarrow> (string \<times> json) list list" where
  "objects_in (JObj m) = m # concat (map (\<lambda>p. objects_in (snd p)) m)"
| "objects_in (JArr items) = concat (map objects_in items)"
| "objects_in _ = []"

definition refs_le :: "stable_asset_refs \<Rightarrow> stable_asset_refs \<Rightarrow> bool" where
  "refs_le r r' \<longleftrightarrow> set (ar_object_keys r) \<subseteq> set (ar_object_keys r')
     \<and> set (ar_pdf_doc_ids r) \<subseteq> set (ar_pdf_doc_ids r') \<and> (ar_unstable r \<longrightarrow> ar_unstable r')"

lemma refs_le_refl [simp]: "refs_le r r" by (simp add: refs_le_def)
lemma refs_le_trans: "refs_le a b \<Longrightarrow> refs_le b c \<Longrightarrow> refs_le a c" by (auto simp: refs_le_def)

lemma visit_entry_le: "refs_le r (visit_entry b st p r)"
  by (auto simp: visit_entry_def refs_le_def split: option.splits)

lemma visit_pdf_le: "refs_le r (visit_pdf m r)"
  by (auto simp: visit_pdf_def refs_le_def split: option.splits)

lemma fold_le: "(\<And>x r. x \<in> set xs \<Longrightarrow> refs_le r (f x r)) \<Longrightarrow> refs_le r (fold f xs r)"
proof (induction xs arbitrary: r)
  case (Cons x xs)
  have "refs_le r (f x r)" using Cons.prems by simp
  moreover have "refs_le (f x r) (fold f xs (f x r))" using Cons by simp
  ultimately show ?case using refs_le_trans by simp
qed simp

lemma walk_le: "refs_le r (walk b v r)"
proof (induction b v r rule: walk.induct)
  case (1 b m r)
  have "refs_le (visit_pdf m r) (walk b (JObj m) r)"
    unfolding walk.simps by (rule fold_le) (blast intro: refs_le_trans visit_entry_le 1)
  then show ?case by (rule refs_le_trans [OF visit_pdf_le])
next
  case (2 b items r)
  then show ?case unfolding walk.simps by (intro fold_le) auto
qed simp_all

lemma fold_visits:
  assumes "x \<in> set xs" "\<And>y r. y \<in> set xs \<Longrightarrow> refs_le r (f y r)" "\<And>r. refs_le q (f x r)"
  shows "refs_le q (fold f xs r)"
proof -
  obtain ys zs where xs: "xs = ys @ x # zs" using assms(1) by (meson split_list)
  have "refs_le (f x (fold f ys r)) (fold f zs (f x (fold f ys r)))"
    using assms(2) by (intro fold_le) (simp add: xs)
  then show ?thesis using assms(3) refs_le_trans by (fastforce simp: xs)
qed

definition entry_refs :: "string \<Rightarrow> (string \<times> json) list \<Rightarrow> string \<times> json \<Rightarrow> stable_asset_refs" where
  "entry_refs b m p = visit_entry b (has_object_key m \<or> pdf_doc m \<noteq> None) p no_refs"

lemma entry_refs_le: "refs_le (entry_refs b m p) (visit_entry b (has_object_key m \<or> pdf_doc m \<noteq> None) p r)"
  by (auto simp: entry_refs_def visit_entry_def refs_le_def no_refs_def split: option.splits)

lemma walk_object_le:
  assumes "m \<in> set (objects_in v)"
  shows "refs_le (visit_pdf m no_refs) (walk b v r) \<and> (\<forall>p \<in> set m. refs_le (entry_refs b m p) (walk b v r))"
  using assms
proof (induction v arbitrary: r rule: objects_in.induct)
  case (1 m0)
  let ?f = "\<lambda>p r. walk b (snd p) (visit_entry b (has_object_key m0 \<or> pdf_doc m0 \<noteq> None) p r)"
  have mono: "refs_le r (?f y r)" for y r by (rule refs_le_trans [OF visit_entry_le walk_le])
  show ?case
  proof (cases "m = m0")
    case True
    have "refs_le (visit_pdf m no_refs) (visit_pdf m0 r)"
      by (auto simp: True visit_pdf_def refs_le_def no_refs_def split: option.splits)
    then have "refs_le (visit_pdf m no_refs) (walk b (JObj m0) r)"
      unfolding walk.simps by (rule refs_le_trans) (rule fold_le, rule mono)
    moreover have "refs_le (entry_refs b m p) (walk b (JObj m0) r)" if p: "p \<in> set m" for p
      unfolding walk.simps
    proof (rule fold_visits [where f = ?f])
      show "p \<in> set m0" using p True by simp
      show "refs_le r (?f y r)" for y r by (rule mono)
      show "refs_le (entry_refs b m p) (?f p r)" for r
        unfolding True by (rule refs_le_trans [OF entry_refs_le walk_le])
    qed
    ultimately show ?thesis by blast
  next
    case False
    then obtain p where p: "p \<in> set m0" "m \<in> set (objects_in (snd p))" using 1(2) by auto
    note IH = 1(1) [OF p]
    have "refs_le q (walk b (JObj m0) r)" if "\<And>r. refs_le q (walk b (snd p) r)" for q
      unfolding walk.simps by (rule fold_visits [OF p(1)]) (use that mono in auto)
    with IH show ?thesis by blast
  qed
next
  case (2 items)
  then obtain x where x: "x \<in> set items" "m \<in> set (objects_in x)" by auto
  have "refs_le q (walk b (JArr items) r)" if "\<And>r. refs_le q (walk b x r)" for q
    unfolding walk.simps by (rule fold_visits [OF x(1)]) (use that walk_le in auto)
  with 2(1) [OF x] show ?case by blast
qed simp_all

text \<open>C37: The asset projection is complete, so garbage collection never loses a referenced object: for every
  object at any depth of the snapshot, each non-empty object key and the PDF document it names are
  collected, and an internal URL without a stable sibling blocks collection.\<close>

theorem stable_refs_complete:
  assumes "m \<in> set (objects_in state)"
  shows "(case pdf_doc m of Some doc_id \<Rightarrow> doc_id \<in> set (ar_pdf_doc_ids (project_stable_refs state board)) | None \<Rightarrow> True)
    \<and> (\<forall>p \<in> set m. is_object_key (fst p) \<longrightarrow> (\<forall>k. snd p = JStr k \<longrightarrow> k \<noteq> [] \<longrightarrow>
         k \<in> set (ar_object_keys (project_stable_refs state board))))
    \<and> (\<forall>p \<in> set m. is_url_key (fst p) \<longrightarrow> (\<forall>u. snd p = JStr u \<longrightarrow> str_contains u (''/boards/'' @ board @ ''/'') \<longrightarrow>
         \<not> has_object_key m \<longrightarrow> pdf_doc m = None \<longrightarrow> ar_unstable (project_stable_refs state board)))"
proof -
  let ?b = "''/boards/'' @ board @ ''/''"
  let ?w = "walk ?b state no_refs"
  have w: "refs_le (visit_pdf m no_refs) ?w" "\<And>p. p \<in> set m \<Longrightarrow> refs_le (entry_refs ?b m p) ?w"
    using walk_object_le [OF assms, of ?b no_refs] by blast+
  have "case pdf_doc m of Some doc_id \<Rightarrow> doc_id \<in> set (ar_pdf_doc_ids ?w) | None \<Rightarrow> True"
    using w(1) by (auto simp: visit_pdf_def refs_le_def split: option.splits)
  moreover have "k \<in> set (ar_object_keys ?w)" if "p \<in> set m" "is_object_key (fst p)" "snd p = JStr k" "k \<noteq> []" for p k
    using w(2) [OF that(1)] that by (simp add: entry_refs_def visit_entry_def nonempty_str_def refs_le_def)
  moreover have "ar_unstable ?w" if "p \<in> set m" "is_url_key (fst p)" "snd p = JStr u" "str_contains u ?b"
    "\<not> has_object_key m" "pdf_doc m = None" for p u
    using w(2) [OF that(1)] that by (simp add: entry_refs_def visit_entry_def is_url_key_def refs_le_def)
  ultimately show ?thesis unfolding project_stable_refs_def by blast
qed

theorem stable_refs_complete_witness:
  "''k/1'' \<in> set (ar_object_keys (project_stable_refs (JArr [JObj [(''Object_Key'', JStr ''k/1'')]]) ''b''))"
proof -
  have "is_object_key ''Object_Key''" by code_simp
  then show ?thesis
    using stable_refs_complete [of "[(''Object_Key'', JStr ''k/1'')]" "JArr [JObj [(''Object_Key'', JStr ''k/1'')]]" "''b''"]
    by simp
qed

end
