(* ===== verification/Registry.thy ===== *)
theory Registry
  imports Compaction Assets
begin

text \<open>
  The resident coordinator registry of \<open>src/src/state/coordinator_registry.rs\<close>: activation from the
  durable checkpoint and journal, and the commit path with its fences, validation and transaction.  The
  isolated validator, the hashes, base64, the JSON printer and the error texts are parameters (\<open>env\<close>).
\<close>

record validate_request =
  vr_seq :: int
  vr_base_seq :: int
  vr_base_generation :: int
  vr_writer_client_id :: u64
  vr_base_update :: bytes
  vr_base_state_vector :: bytes
  vr_candidate :: bytes
  vr_expected_projection :: bytes

record env =
  v_validate :: "validate_request \<Rightarrow> string + unit"
  v_sha :: "bytes \<Rightarrow> bytes"
  v_payload_hash :: "json \<Rightarrow> bytes"
  v_b64_decode :: "string \<Rightarrow> bytes option"
  v_b64_encode :: "bytes \<Rightarrow> string"
  v_json_to_vec :: "json \<Rightarrow> bytes option"
  v_model_text :: "model_error \<Rightarrow> string"
  v_board_text :: "uuid \<Rightarrow> string"
  v_uuid_text :: "uuid \<Rightarrow> string"

record 'd resident_board =
  rb_coord :: "'d board_coordinator"
  rb_writer_epoch :: int
  rb_state :: canonical_state

record client_yrs_update =
  cy_encoding :: string
  cy_protocol_version :: int
  cy_schema_version :: int
  cy_base_generation :: int
  cy_observed_seq :: int
  cy_writer_client_id :: u64
  cy_update_b64 :: string
  cy_update_bytes :: "bytes option"

datatype commit_error =
    ProtocolConflict
  | ClientUpdateRejected string
  | ValidationFailed string
  | StaleRevision
  | CommitModel string
  | CommitDb string

definition commit_code :: "commit_error \<Rightarrow> string" where
  "commit_code e =
     (case e of
        ProtocolConflict \<Rightarrow> ''PROTOCOL_CONFLICT''
      | ClientUpdateRejected reason \<Rightarrow>
          (if str_contains reason ''CANONICAL_REBASE_REQUIRED'' then ''CANONICAL_REBASE_REQUIRED''
           else if str_contains reason ''WRITER_UPGRADE_REQUIRED'' then ''WRITER_UPGRADE_REQUIRED''
           else ''CLIENT_UPDATE_REJECTED'')
      | ValidationFailed _ \<Rightarrow> ''CLIENT_UPDATE_VALIDATION_FAILED''
      | StaleRevision \<Rightarrow> ''CANONICAL_REVISION_RETRY''
      | CommitModel _ \<Rightarrow> ''CANONICAL_MODEL_ERROR''
      | CommitDb _ \<Rightarrow> ''CANONICAL_DB_ERROR'')"

definition commit_retryable :: "commit_error \<Rightarrow> bool" where
  "commit_retryable e =
     (case e of
        StaleRevision \<Rightarrow> True
      | CommitDb _ \<Rightarrow> True
      | ValidationFailed reason \<Rightarrow>
          str_contains reason ''timeout'' \<or> str_contains reason ''spawn'' \<or> str_contains reason ''io error''
          \<or> str_contains reason ''pool closed'' \<or> str_contains reason ''dropped reply''
      | _ \<Rightarrow> False)"

record commit_result =
  res_seq :: int
  res_server_event_id :: uuid
  res_client_event_id :: "string option"
  res_schema_version :: u32
  res_yupdate_b64 :: string
  res_event_payload :: json

subsection \<open>Fences and decoding\<close>

definition enforce_writer_fence :: "string \<Rightarrow> u64 \<Rightarrow> u64 option \<Rightarrow> commit_error + unit" where
  "enforce_writer_fence event_type current_schema candidate_schema =
     (if event_type \<noteq> ''world_commit'' \<or> current_schema < SCHEMA_VERSION then Inr ()
      else if (case candidate_schema of Some s \<Rightarrow> s \<ge> current_schema | None \<Rightarrow> False) then Inr ()
      else Inl (ClientUpdateRejected (''WRITER_UPGRADE_REQUIRED: writer schema ''
             @ nat_str (unat (case candidate_schema of Some s \<Rightarrow> s | None \<Rightarrow> 0))
             @ '' is below required schema '' @ nat_str (unat current_schema))))"

definition enforce_canonical_payload :: "string \<Rightarrow> json \<Rightarrow> commit_error + unit" where
  "enforce_canonical_payload event_type payload =
     (if event_type = ''world_commit'' \<and> json_get ''ops'' payload \<noteq> None
      then Inl (ClientUpdateRejected ''FIELD_OPS_UNSUPPORTED'') else Inr ())"

record decoded_client_candidate =
  dc_bytes :: bytes
  dc_protocol_version :: u16
  dc_writer_client_id :: u64
  dc_update_hash :: bytes
  dc_schema_version :: int

definition MAX_UPDATE_BYTES :: nat where "MAX_UPDATE_BYTES = 8 * 1024 * 1024"

definition decode_client_candidate ::
  "env \<Rightarrow> client_yrs_update \<Rightarrow> string \<Rightarrow> commit_error + decoded_client_candidate" where
  "decode_client_candidate E envelope event_type =
     (if event_type \<noteq> ''world_commit''
      then Inl (ClientUpdateRejected ''only world_commit may carry yrs'')
      else if cy_encoding envelope \<noteq> ''yrs-v1'' \<or> cy_protocol_version envelope \<noteq> uint PROTOCOL_VERSION
              \<or> cy_schema_version envelope \<noteq> uint SCHEMA_VERSION
      then Inl (ClientUpdateRejected ''unsupported encoding/protocol/schema'')
      else if \<not> (1 \<le> unat (cy_writer_client_id envelope) \<and> unat (cy_writer_client_id envelope) < SERVER_ID_LO)
      then Inl (ClientUpdateRejected ''writer client id outside CLIENT band'')
      else if cy_update_bytes envelope = None
              \<and> length (cy_update_b64 envelope) > MAX_UPDATE_BYTES * 4 div 3 + 8
      then Inl (ClientUpdateRejected ''update too large'')
      else
        bindE (case cy_update_bytes envelope of
                 Some bs \<Rightarrow> Inr bs
               | None \<Rightarrow> ok_orE (ClientUpdateRejected ''invalid update base64'')
                           (v_b64_decode E (cy_update_b64 envelope))) (\<lambda>bs.
        if length bs > MAX_UPDATE_BYTES then Inl (ClientUpdateRejected ''update too large'')
        else Inr \<lparr>dc_bytes = bs, dc_protocol_version = word_of_int (cy_protocol_version envelope),
               dc_writer_client_id = cy_writer_client_id envelope, dc_update_hash = v_sha E bs,
               dc_schema_version = cy_schema_version envelope\<rparr>))"

definition first_of :: "string \<Rightarrow> string \<Rightarrow> json \<Rightarrow> json option" where
  "first_of a b payload = (case json_get a payload of Some v \<Rightarrow> Some v | None \<Rightarrow> json_get b payload)"

definition apply_board_config :: "bdb \<Rightarrow> json \<Rightarrow> bdb" where
  "apply_board_config d payload =
     update_board_config d
       (Option.bind (first_of ''gridType'' ''grid_type'' payload) as_str)
       (Option.bind (first_of ''backgroundColor'' ''background_color'' payload) as_str)
       (Option.bind (first_of ''privacyMode'' ''privacy_mode'' payload) as_bool)
       (Option.bind (first_of ''stickerAuthors'' ''sticker_authors'' payload) as_bool)"

subsection \<open>Activation\<close>

definition catch_up_one ::
  "('d, 'u, 's) yrs \<Rightarrow> bdb \<Rightarrow> 'd board_coordinator \<Rightarrow> event_record \<Rightarrow> string + 'd board_coordinator" where
  "catch_up_one Y d coord ev =
     (case read_by_seq d (e_seq ev) of
        Some row \<Rightarrow> map_errE (\<lambda>_. ''apply persisted'') (catch_up_persisted Y (e_seq ev) (u_yupdate row) coord)
      | None \<Rightarrow> Inl ''canonical journal gap: no Yrs update exists'')"

text \<open>One batch: the coordinator, the cursor, and whether the head was passed.\<close>

fun catch_up_batch ::
  "('d, 'u, 's) yrs \<Rightarrow> bdb \<Rightarrow> int \<Rightarrow> event_record list \<Rightarrow> 'd board_coordinator \<Rightarrow> int \<Rightarrow>
   string + 'd board_coordinator \<times> int \<times> bool" where
  "catch_up_batch Y d head [] coord cursor = Inr (coord, cursor, False)"
| "catch_up_batch Y d head (ev # batch) coord cursor =
     (if e_seq ev > head then Inr (coord, cursor, True)
      else bindE (catch_up_one Y d coord ev) (\<lambda>coord'. catch_up_batch Y d head batch coord' (e_seq ev)))"

definition CATCH_UP_BATCH :: nat where "CATCH_UP_BATCH = 512"

lemma catch_up_batch_cursor:
  "catch_up_batch Y d head batch coord cursor = Inr (coord', cursor', stop) \<Longrightarrow>
   sorted_wrt (<) (cursor # map e_seq batch) \<Longrightarrow>
   cursor \<le> cursor' \<and> (batch \<noteq> [] \<longrightarrow> \<not> stop \<longrightarrow> cursor < cursor')"
proof (induction Y d head batch coord cursor rule: catch_up_batch.induct)
  case (2 Y d head ev batch coord cursor)
  show ?case
  proof (cases "e_seq ev > head")
    case False
    then obtain c1 where "catch_up_one Y d coord ev = Inr c1"
      "catch_up_batch Y d head batch c1 (e_seq ev) = Inr (coord', cursor', stop)"
      using 2(2) by (auto simp: result_simps)
    then show ?thesis using 2(1) [OF False] 2(3) by fastforce
  qed (use 2 in auto)
qed auto

text \<open>The loop has at most one iteration per sequence number, which is its fuel.\<close>

fun catch_up_loop ::
  "nat \<Rightarrow> ('d, 'u, 's) yrs \<Rightarrow> bdb \<Rightarrow> int \<Rightarrow> 'd board_coordinator \<Rightarrow> int \<Rightarrow> string + 'd board_coordinator" where
  "catch_up_loop 0 Y d head coord cursor = Inr coord"
| "catch_up_loop (Suc n) Y d head coord cursor =
     (if cursor < head then
        (let batch = list_events_since d cursor CATCH_UP_BATCH in
         if batch = [] then Inr coord
         else
           bindE (catch_up_batch Y d head batch coord cursor) (\<lambda>(coord', cursor', stop).
           if stop then Inr coord' else catch_up_loop n Y d head coord' cursor'))
      else Inr coord)"

definition catch_up_all ::
  "('d, 'u, 's) yrs \<Rightarrow> bdb \<Rightarrow> int \<Rightarrow> 'd board_coordinator \<Rightarrow> int \<Rightarrow> string + 'd board_coordinator" where
  "catch_up_all Y d head coord cursor = catch_up_loop (nat (head - cursor)) Y d head coord cursor"

definition preferred_activation_base ::
  "('d, 'u, 's) yrs \<Rightarrow> (bytes \<Rightarrow> bytes) \<Rightarrow> bdb \<Rightarrow> canonical_base \<Rightarrow> int \<Rightarrow> string + canonical_base" where
  "preferred_activation_base Y sha d can activation_head =
     (case read_latest_at_or_before d (cb_base_generation can) (cb_server_client_id can) activation_head of
        None \<Rightarrow> Inr can
      | Some snapshot \<Rightarrow>
          (if \<not> content_hash_matches sha snapshot
              \<or> s_output_bytes snapshot \<noteq> int (length (s_state_update snapshot))
              \<or> s_protocol_version snapshot \<noteq> ucast PROTOCOL_VERSION
           then Inl ''binary activation snapshot metadata/hash mismatch''
           else
             bindE (map_errE (\<lambda>_. ''reload activation binary snapshot'')
                      (doc_from_base Y (s_state_update snapshot) (s_state_vector snapshot) (s_server_client_id snapshot))) (\<lambda>doc.
             bindE (map_errE (\<lambda>_. ''read activation binary schema'') (doc_schema_version Y doc)) (\<lambda>schema.
             if (ucast schema :: u32) \<noteq> s_schema_version snapshot
             then Inl ''binary activation snapshot schema mismatch''
             else
               bindE (map_errE (\<lambda>_. ''project activation binary snapshot'') (doc_to_snapshot Y doc)) (\<lambda>_.
               Inr \<lparr>cb_state_update = s_state_update snapshot, cb_state_vector = s_state_vector snapshot,
                    cb_base_seq = s_last_event_seq snapshot, cb_server_client_id = s_server_client_id snapshot,
                    cb_base_generation = s_base_generation snapshot\<rparr>)))))"

definition head_is_ready :: "bdb \<Rightarrow> canonical_base \<Rightarrow> bool" where
  "head_is_ready d can =
     (case read_head d of
        Some head \<Rightarrow> h_state head = Ready \<and> h_base_generation head = cb_base_generation can
           \<and> h_processed_seq head \<ge> cb_base_seq can
      | None \<Rightarrow> False)"

definition max_event_seq :: "bdb \<Rightarrow> int \<Rightarrow> int" where
  "max_event_seq d dflt = (if d_events d = [] then dflt else Max (set (map e_seq (d_events d))))"

text \<open>The first transaction: the owner epoch, the head to replay to, and the new rows.\<close>

definition activation_tx1 :: "bdb \<Rightarrow> canonical_base \<Rightarrow> string + (int \<times> int \<times> bool) \<times> bdb" where
  "activation_tx1 d can =
     (if (case read_head d of Some head \<Rightarrow> h_state head = Quarantined | None \<Rightarrow> False)
      then Inl ''canonical board is quarantined''
      else
        (case read_head d of
           Some head \<Rightarrow>
             (if head_is_ready d can then Inr ((h_writer_epoch head, h_processed_seq head, True), d)
              else (case begin_activation d (cb_base_generation can) of (head', d') \<Rightarrow>
                Inr ((h_writer_epoch head', max_event_seq d' (cb_base_seq can), False), d')))
         | None \<Rightarrow>
             (case begin_activation d (cb_base_generation can) of (head', d') \<Rightarrow>
                Inr ((h_writer_epoch head', max_event_seq d' (cb_base_seq can), False), d'))))"

text \<open>
  Activation is two transactions with the replay in between; \<open>later\<close> is what other transactions do to the
  database before the second.  Here the replay reads what the first transaction left: this is the run in which
  nothing interferes with the replay.  Theory \<open>Activation\<close> has the same operation one statement at a time, with other
  transactions between any two, and shows that this function is its run without interference.
\<close>

definition activate ::
  "('d, 'u, 's) yrs \<Rightarrow> (bytes \<Rightarrow> bytes) \<Rightarrow> (bdb \<Rightarrow> bdb) \<Rightarrow> bdb \<Rightarrow> string + 'd resident_board \<times> bdb" where
  "activate Y sha later d =
     bindE (ok_orE ''canonical base is missing'' (read_base d)) (\<lambda>base_row.
     if cr_abandoned_at base_row \<noteq> None then Inl ''yrs base is abandoned; cannot activate''
     else
       bindE (activation_tx1 d (base_to_domain base_row)) (\<lambda>((writer_epoch, activation_head, ready), d1).
       bindE (preferred_activation_base Y sha d1 (base_to_domain base_row) activation_head) (\<lambda>base.
       bindE (map_errE (\<lambda>_. ''from_base'') (from_base Y base (cb_base_seq base))) (\<lambda>coord0.
       bindE (catch_up_all Y d1 activation_head coord0 (cb_base_seq base)) (\<lambda>coord.
       bindE (map_errE (\<lambda>_. ''activation assert'') (assert_valid_projection Y coord)) (\<lambda>_.
       let rb = \<lparr>rb_coord = coord, rb_writer_epoch = writer_epoch, rb_state = Ready\<rparr> in
       if ready then Inr (rb, later d1)
       else
         (case mark_ready (later d1) writer_epoch activation_head of (ok, d2) \<Rightarrow>
            if \<not> ok then Inl ''mark_ready CAS failed'' else Inr (rb, d2))))))))"

subsection \<open>The commit path\<close>

record commit_request =
  cq_board_id :: uuid
  cq_actor_user_id :: uuid
  cq_event_type :: string
  cq_payload :: json
  cq_client_event_id :: "string option"
  cq_session_id :: "string option"
  cq_client_yrs :: "client_yrs_update option"

definition from_persisted :: "env \<Rightarrow> yrs_update_row \<Rightarrow> json \<Rightarrow> commit_result" where
  "from_persisted E row event_payload =
     \<lparr>res_seq = u_seq row, res_server_event_id = 0, res_client_event_id = Some (u_client_event_id row),
      res_schema_version = u_schema_version row, res_yupdate_b64 = v_b64_encode E (u_yupdate row),
      res_event_payload = event_payload\<rparr>"

text \<open>The durable deduplication: \<open>Inr None\<close> when the id is new.\<close>

definition dedup ::
  "env \<Rightarrow> bdb \<Rightarrow> commit_request \<Rightarrow> decoded_client_candidate option \<Rightarrow> commit_error + commit_result option" where
  "dedup E d q client_candidate =
     (case Option.bind (cq_client_event_id q) (read_by_client_event_id d) of
        None \<Rightarrow> Inr None
      | Some existing \<Rightarrow>
          (let update_matches = (case client_candidate of
                 None \<Rightarrow> u_source existing = ''server''
               | Some c \<Rightarrow> u_source existing = ''client'' \<and> u_update_hash existing = dc_update_hash c)
           in if u_payload_hash existing = v_payload_hash E (cq_payload q) \<and> update_matches
              then Inr (Some (from_persisted E existing
                     (case Option.bind (u_event_id existing) (read_event_by_id d) of
                        Some ev \<Rightarrow> e_payload ev | None \<Rightarrow> cq_payload q)))
              else Inl ProtocolConflict))"

definition check_revision :: "int \<Rightarrow> int \<Rightarrow> client_yrs_update option \<Rightarrow> commit_error + unit" where
  "check_revision base_generation processed_before client_yrs =
     (case client_yrs of
        None \<Rightarrow> Inr ()
      | Some envelope \<Rightarrow>
          (if cy_base_generation envelope \<noteq> base_generation
           then Inl (ClientUpdateRejected ''CANONICAL_REBASE_REQUIRED: base generation changed'')
           else if cy_observed_seq envelope < 0 \<or> cy_observed_seq envelope > processed_before
           then Inl (ClientUpdateRejected ''invalid observed_seq'')
           else Inr ()))"

record pending_commit =
  pn_prepared :: prepared_commit
  pn_payload :: json
  pn_source :: string
  pn_protocol_version :: u16
  pn_writer_id :: u64
  pn_update_hash :: bytes
  pn_assets :: stable_asset_refs

definition prepare_candidate ::
  "('d, 'u, 's) yrs \<Rightarrow> env \<Rightarrow> 'd board_coordinator \<Rightarrow> json \<Rightarrow> decoded_client_candidate option \<Rightarrow>
   commit_error + prepared_commit \<times> json" where
  "prepare_candidate Y E coord payload client_candidate =
     (case client_candidate of
        Some c \<Rightarrow>
          bindE (map_errE (\<lambda>e. ClientUpdateRejected (''schema fence: '' @ v_model_text E e))
                   (validate_candidate_schema Y coord (dc_bytes c) (word_of_int (dc_schema_version c)))) (\<lambda>_.
          map_errE (\<lambda>e. CommitModel (''prepare external: '' @ v_model_text E e))
            (prepare_external Y coord 0 payload (dc_bytes c)))
      | None \<Rightarrow>
          map_errE (\<lambda>e. CommitModel (''prepare metadata event: '' @ v_model_text E e))
            (prepare_noop Y coord 0 payload))"

text \<open>What follows deduplication: the fences, the candidate, and its validation.\<close>

definition prepare_fresh ::
  "('d, 'u, 's) yrs \<Rightarrow> env \<Rightarrow> 'd board_coordinator \<Rightarrow> commit_request \<Rightarrow> decoded_client_candidate option \<Rightarrow>
   commit_error + pending_commit" where
  "prepare_fresh Y E coord q client_candidate =
     bindE (map_errE (\<lambda>e. CommitModel (''read writer fence: '' @ v_model_text E e)) (schema_version Y coord)) (\<lambda>current_schema.
     bindE (enforce_writer_fence (cq_event_type q) current_schema
              (map_option (\<lambda>c. word_of_int (dc_schema_version c)) client_candidate)) (\<lambda>_.
     bindE (enforce_canonical_payload (cq_event_type q) (cq_payload q)) (\<lambda>_.
     bindE (check_revision (bc_base_generation coord) (bc_processed_seq coord) (cq_client_yrs q)) (\<lambda>_.
     bindE (prepare_candidate Y E coord (cq_payload q) client_candidate) (\<lambda>(prepared, persisted_payload).
     bindE (ok_orE (CommitModel ''encode expected projection'') (v_json_to_vec E (pc_expected_projection prepared))) (\<lambda>expected.
     (let writer_id = (case client_candidate of Some c \<Rightarrow> dc_writer_client_id c | None \<Rightarrow> bc_server_client_id coord);
          request = \<lparr>vr_seq = 0, vr_base_seq = bc_processed_seq coord,
             vr_base_generation = bc_base_generation coord, vr_writer_client_id = writer_id,
             vr_base_update = pc_base_update prepared, vr_base_state_vector = pc_base_state_vector prepared,
             vr_candidate = pc_yupdate prepared, vr_expected_projection = expected\<rparr>
      in bindE (map_errE ValidationFailed (v_validate E request)) (\<lambda>_.
         Inr \<lparr>pn_prepared = prepared, pn_payload = persisted_payload,
           pn_source = (if client_candidate = None then ''server'' else ''client''),
           pn_protocol_version = (case client_candidate of Some c \<Rightarrow> dc_protocol_version c
                                  | None \<Rightarrow> ucast PROTOCOL_VERSION),
           pn_writer_id = writer_id,
           pn_update_hash = (case client_candidate of Some c \<Rightarrow> dc_update_hash c
                             | None \<Rightarrow> v_sha E (pc_yupdate prepared)),
           pn_assets = project_stable_refs (pc_expected_projection prepared)
                         (v_board_text E (cq_board_id q))\<rparr>))))))))"

definition decode_candidate :: "env \<Rightarrow> commit_request \<Rightarrow> commit_error + decoded_client_candidate option" where
  "decode_candidate E q =
     (case cq_client_yrs q of
        Some envelope \<Rightarrow> bindE (decode_client_candidate E envelope (cq_event_type q)) (\<lambda>c. Inr (Some c))
      | None \<Rightarrow> Inr None)"

definition commit_prepare ::
  "('d, 'u, 's) yrs \<Rightarrow> env \<Rightarrow> 'd resident_board \<Rightarrow> bdb \<Rightarrow> commit_request \<Rightarrow>
   commit_error + (commit_result + pending_commit)" where
  "commit_prepare Y E rb d q =
     (if rb_state rb \<noteq> Ready
      then Inl (ClientUpdateRejected (''board writes fenced: '' @ state_str (rb_state rb)))
      else
        bindE (decode_candidate E q) (\<lambda>client_candidate.
        bindE (dedup E d q client_candidate) (\<lambda>ack.
        (case ack of
           Some result \<Rightarrow> Inr (Inl result)
         | None \<Rightarrow> bindE (prepare_fresh Y E (rb_coord rb) q client_candidate) (\<lambda>pn. Inr (Inr pn))))))"

definition db_text :: "db_error \<Rightarrow> commit_error" where
  "db_text e = CommitDb (case e of RowNotFound \<Rightarrow> ''row not found''
     | UniqueViolation c \<Rightarrow> ''unique violation: '' @ c | DbProtocol m \<Rightarrow> m)"

definition event_cid :: "env \<Rightarrow> commit_request \<Rightarrow> event_record \<Rightarrow> string" where
  "event_cid E q event =
     (case cq_client_event_id q of Some c \<Rightarrow> c | None \<Rightarrow> ''live:'' @ v_uuid_text E (e_id event))"

definition update_row ::
  "env \<Rightarrow> int \<Rightarrow> commit_request \<Rightarrow> 'd resident_board \<Rightarrow> pending_commit \<Rightarrow> int \<Rightarrow> event_record \<Rightarrow> yrs_update_row" where
  "update_row E now q rb pn seq event =
     \<lparr>u_board_id = cq_board_id q, u_seq = seq, u_event_id = Some (e_id event),
      u_client_event_id = event_cid E q event, u_payload_hash = v_payload_hash E (cq_payload q),
      u_base_generation = bc_base_generation (rb_coord rb),
      u_schema_version = pc_schema_version (pn_prepared pn),
      u_protocol_version = pn_protocol_version pn, u_source = pn_source pn,
      u_writer_client_id = Some (pn_writer_id pn), u_update_hash = pn_update_hash pn,
      u_yupdate = pc_yupdate (pn_prepared pn), u_created_at = now\<rparr>"

definition write_assets :: "'d resident_board \<Rightarrow> pending_commit \<Rightarrow> int \<Rightarrow> bdb \<Rightarrow> bdb" where
  "write_assets rb pn seq d =
     replace_projection_tx d seq (bc_base_generation (rb_coord rb))
       (ar_object_keys (pn_assets pn)) (ar_pdf_doc_ids (pn_assets pn))
       (if ar_unstable (pn_assets pn) then Some ''unrecognized_internal_url'' else None)"

text \<open>
  The transaction, on the database it finds.  \<open>new_id\<close> and \<open>now\<close> are what the server generates; the returned
  database is the committed one, or the unchanged one when the transaction is rolled back.
\<close>

definition commit_tx ::
  "env \<Rightarrow> uuid \<Rightarrow> int \<Rightarrow> commit_request \<Rightarrow> 'd resident_board \<Rightarrow> pending_commit \<Rightarrow> bdb \<Rightarrow>
   commit_error + (int \<times> uuid \<times> string) \<times> bdb" where
  "commit_tx E new_id now q rb pn d =
     (case reserve_next_event_seq_tx d of (seq, d1) \<Rightarrow>
      bindE (map_errE db_text (insert_event new_id now d1 (cq_board_id q) seq (cq_actor_user_id q)
               (cq_event_type q) (pn_payload pn) (cq_session_id q))) (\<lambda>(event, d2).
      bindE (map_errE db_text (insert_update now
               (if cq_event_type q = ''board_commit'' then apply_board_config d2 (pn_payload pn) else d2)
               (update_row E now q rb pn seq event))) (\<lambda>d4.
      (case advance_processed_seq d4 (rb_writer_epoch rb) (bc_processed_seq (rb_coord rb)) seq of (ok, d5) \<Rightarrow>
         if \<not> ok then Inl StaleRevision
         else Inr ((seq, e_id event, event_cid E q event), write_assets rb pn seq d5)))))"

datatype 'd residency = Keep "'d resident_board" | Evict

text \<open>
  One attempt: the deduplication reads \<open>d0\<close>; the transaction runs on \<open>d\<close>, which other instances may
  have changed in between.  The resident mutex is held throughout, so \<open>rb\<close> is the same.
\<close>

definition commit_once ::
  "('d, 'u, 's) yrs \<Rightarrow> env \<Rightarrow> uuid \<Rightarrow> int \<Rightarrow> commit_request \<Rightarrow> bdb \<Rightarrow> bdb \<Rightarrow> 'd resident_board \<Rightarrow>
   (commit_error + commit_result) \<times> 'd residency \<times> bdb" where
  "commit_once Y E new_id now q d0 d rb =
     (case commit_prepare Y E rb d0 q of
        Inl e \<Rightarrow> (Inl e, Keep rb, d)
      | Inr (Inl ack) \<Rightarrow> (Inr ack, Keep rb, d)
      | Inr (Inr pn) \<Rightarrow>
          (case commit_tx E new_id now q rb pn d of
             Inl StaleRevision \<Rightarrow> (Inl StaleRevision, Evict, d)
           | Inl e \<Rightarrow> (Inl e, Keep rb, d)
           | Inr ((seq, event_id, cid), d') \<Rightarrow>
               (let prepared = (pn_prepared pn)\<lparr>pc_seq := seq\<rparr>;
                    result = \<lparr>res_seq = seq, res_server_event_id = event_id, res_client_event_id = Some cid,
                       res_schema_version = pc_schema_version prepared,
                       res_yupdate_b64 = v_b64_encode E (pc_yupdate prepared),
                       res_event_payload = pn_payload pn\<rparr>
                in (case apply_committed Y prepared (rb_coord rb) of
                      Inl _ \<Rightarrow> (Inr result, Evict, d')
                    | Inr coord \<Rightarrow> (Inr result, Keep (rb\<lparr>rb_coord := coord\<rparr>), d')))))"

text \<open>The retry: a stale revision rebuilds the resident from the journal and tries once more.\<close>

definition commit ::
  "('d, 'u, 's) yrs \<Rightarrow> env \<Rightarrow> uuid \<Rightarrow> int \<Rightarrow> commit_request \<Rightarrow> bdb \<Rightarrow> bdb \<Rightarrow> (bdb \<Rightarrow> bdb) \<Rightarrow> 'd resident_board \<Rightarrow>
   (commit_error + commit_result) \<times> 'd residency \<times> bdb" where
  "commit Y E new_id now q d0 d later rb =
     (case commit_once Y E new_id now q d0 d rb of
        (Inl StaleRevision, _, d1) \<Rightarrow>
          (case activate Y (v_sha E) (\<lambda>x. x) (later d1) of
             Inl e \<Rightarrow> (Inl (CommitDb (''rebuild resident: '' @ e)), Evict, later d1)
           | Inr (rb', d2) \<Rightarrow> commit_once Y E new_id now q d2 d2 rb')
      | r \<Rightarrow> r)"

subsection \<open>The registry of one server instance\<close>

text \<open>A handle stands for the shared pointer; the map holds at most one resident per board.\<close>

record 'd registry =
  reg_boards :: "uuid \<Rightarrow> nat option"
  reg_residents :: "nat \<Rightarrow> 'd resident_board option"
  reg_fresh :: nat

definition get_resident :: "'d registry \<Rightarrow> uuid \<Rightarrow> nat option" where
  "get_resident r board_id = reg_boards r board_id"

definition evict_if_same :: "uuid \<Rightarrow> nat \<Rightarrow> 'd registry \<Rightarrow> 'd registry" where
  "evict_if_same board_id handle r =
     (if reg_boards r board_id = Some handle then r\<lparr>reg_boards := (reg_boards r)(board_id := None)\<rparr> else r)"

definition install :: "uuid \<Rightarrow> 'd resident_board \<Rightarrow> 'd registry \<Rightarrow> nat \<times> 'd registry" where
  "install board_id rb r = (reg_fresh r, r\<lparr>reg_boards := (reg_boards r)(board_id \<mapsto> reg_fresh r),
     reg_residents := (reg_residents r)(reg_fresh r \<mapsto> rb), reg_fresh := reg_fresh r + 1\<rparr>)"

definition ensure_active ::
  "('d, 'u, 's) yrs \<Rightarrow> (bytes \<Rightarrow> bytes) \<Rightarrow> (bdb \<Rightarrow> bdb) \<Rightarrow> uuid \<Rightarrow> 'd registry \<Rightarrow> bdb \<Rightarrow>
   (string + nat) \<times> 'd registry \<times> bdb" where
  "ensure_active Y sha later board_id r d =
     (case get_resident r board_id of
        Some h \<Rightarrow> (Inr h, r, d)
      | None \<Rightarrow>
          (case activate Y sha later d of
             Inl e \<Rightarrow> (Inl e, r, d)
           | Inr (rb, d') \<Rightarrow> (case install board_id rb r of (h, r') \<Rightarrow> (Inr h, r', d'))))"

definition current_canonical_state ::
  "('d, 'u, 's) yrs \<Rightarrow> 'd resident_board \<Rightarrow> string + json \<times> int" where
  "current_canonical_state Y rb =
     bindE (map_errE (\<lambda>_. ''canonical projection'') (resident_snapshot Y (rb_coord rb))) (\<lambda>state.
     Inr (state, bc_processed_seq (rb_coord rb)))"

record canonical_export_state =
  ce_projection :: json
  ce_last_event_seq :: int
  ce_state_update :: bytes
  ce_state_vector :: bytes
  ce_base_generation :: int
  ce_server_client_id :: u64
  ce_schema_version :: u64

definition current_canonical_export ::
  "('d, 'u, 's) yrs \<Rightarrow> 'd resident_board \<Rightarrow> string + canonical_export_state" where
  "current_canonical_export Y rb =
     bindE (map_errE (\<lambda>_. ''canonical export projection'') (resident_snapshot Y (rb_coord rb))) (\<lambda>state.
     bindE (map_errE (\<lambda>_. ''canonical export schema'') (schema_version Y (rb_coord rb))) (\<lambda>schema.
     (case resident_base Y (rb_coord rb) of (state_update, state_vector) \<Rightarrow>
        Inr \<lparr>ce_projection = state, ce_last_event_seq = bc_processed_seq (rb_coord rb),
             ce_state_update = state_update, ce_state_vector = state_vector,
             ce_base_generation = bc_base_generation (rb_coord rb),
             ce_server_client_id = bc_server_client_id (rb_coord rb), ce_schema_version = schema\<rparr>)))"

end
