(* ===== verification/Durable.thy ===== *)
theory Durable
  imports Registry
begin

text \<open>
  The abstract specification of the journal: a board is its canonical base and the history of committed
  updates, and its document after sequence \<open>n\<close> is the base with every update up to \<open>n\<close> applied in
  order.  \<open>journal_ok\<close> relates the tables to a history (some of whose rows retention may have deleted);
  the lemmas show that activation rebuilds the history's document and that commits, checkpoints,
  retention and activation keep the relation.
\<close>

subsection \<open>The specification\<close>

type_synonym history = "(int \<times> bytes) list"

definition replay :: "('d, 'u, 's) yrs \<Rightarrow> bytes list \<Rightarrow> 'd \<Rightarrow> model_error + 'd" where
  "replay Y = foldE (apply_bytes Y ''decode persisted yupdate'' ''apply persisted yupdate'')"

definition base_doc :: "('d, 'u, 's) yrs \<Rightarrow> canonical_base_row \<Rightarrow> model_error + 'd" where
  "base_doc Y c = doc_from_base Y (cr_state_update c) (cr_state_vector c) (cr_server_client_id c)"

definition upto :: "int \<Rightarrow> history \<Rightarrow> history" where
  "upto n hist = filter (\<lambda>p. fst p \<le> n) hist"

definition hist_doc :: "('d, 'u, 's) yrs \<Rightarrow> canonical_base_row \<Rightarrow> history \<Rightarrow> int \<Rightarrow> model_error + 'd" where
  "hist_doc Y c hist n = bindE (base_doc Y c) (replay Y (map snd (upto n hist)))"

definition hist_top :: "canonical_base_row \<Rightarrow> history \<Rightarrow> int" where
  "hist_top c hist = (if hist = [] then cr_base_seq c else fst (last hist))"

definition lineage :: "bdb \<Rightarrow> canonical_base_row \<Rightarrow> yrs_snapshot_row list" where
  "lineage d c = lineage_snapshots d (cr_base_generation c) (cr_server_client_id c)"

text \<open>A row is needed while fewer than two checkpoints cover it.\<close>

definition needed :: "bdb \<Rightarrow> canonical_base_row \<Rightarrow> int \<Rightarrow> bool" where
  "needed d c n \<longleftrightarrow> length (filter (\<lambda>s. n \<le> s_last_event_seq s) (lineage d c)) < 2"

definition hist_ok :: "('d, 'u, 's) yrs \<Rightarrow> canonical_base_row \<Rightarrow> history \<Rightarrow> bool" where
  "hist_ok Y c hist \<longleftrightarrow> cr_abandoned_at c = None
     \<and> sorted_wrt (\<lambda>p q. fst p < fst q) hist \<and> (\<forall>p \<in> set hist. cr_base_seq c < fst p)
     \<and> (\<forall>n. \<exists>doc j. hist_doc Y c hist n = Inr doc \<and> doc_to_snapshot Y doc = Inr j
            \<and> y_client Y doc = cr_server_client_id c)"

definition snapshot_ok ::
  "('d, 'u, 's) yrs \<Rightarrow> (bytes \<Rightarrow> bytes) \<Rightarrow> canonical_base_row \<Rightarrow> history \<Rightarrow> yrs_snapshot_row \<Rightarrow> bool" where
  "snapshot_ok Y sha c hist s \<longleftrightarrow> cr_base_seq c \<le> s_last_event_seq s \<and> s_last_event_seq s \<le> hist_top c hist
     \<and> content_hash_matches sha s \<and> s_output_bytes s = int (length (s_state_update s))
     \<and> s_protocol_version s = ucast PROTOCOL_VERSION
     \<and> (\<exists>doc v. hist_doc Y c hist (s_last_event_seq s) = Inr doc
          \<and> doc_from_base Y (s_state_update s) (s_state_vector s) (s_server_client_id s) = Inr doc
          \<and> doc_schema_version Y doc = Inr v \<and> s_schema_version s = ucast v)"

definition rows_ok :: "canonical_base_row \<Rightarrow> history \<Rightarrow> bdb \<Rightarrow> bool" where
  "rows_ok c hist d \<longleftrightarrow> cr_base_seq c < b_next_event_seq (d_board d)
     \<and> (\<forall>p \<in> set hist. fst p < b_next_event_seq (d_board d))
     \<and> distinct (map u_seq (d_updates d)) \<and> distinct (map e_seq (d_events d))
     \<and> (\<forall>u \<in> set (d_updates d). (u_seq u, u_yupdate u) \<in> set hist \<and> u_base_generation u = cr_base_generation c)
     \<and> (\<forall>e \<in> set (d_events d). e_seq e \<in> fst ` set hist)
     \<and> (\<forall>p \<in> set hist. needed d c (fst p) \<longrightarrow> fst p \<in> u_seq ` set (d_updates d) \<and> fst p \<in> e_seq ` set (d_events d))"

definition head_ok :: "canonical_base_row \<Rightarrow> history \<Rightarrow> bdb \<Rightarrow> bool" where
  "head_ok c hist d \<longleftrightarrow> (\<forall>r. d_head d = Some r \<longrightarrow> hr_base_generation r = cr_base_generation c
     \<and> (hr_state r = ''ready'' \<longrightarrow> hr_processed_seq r = hist_top c hist))"

definition journal_ok ::
  "('d, 'u, 's) yrs \<Rightarrow> (bytes \<Rightarrow> bytes) \<Rightarrow> canonical_base_row \<Rightarrow> history \<Rightarrow> bdb \<Rightarrow> bool" where
  "journal_ok Y sha c hist d \<longleftrightarrow> d_base d = Some c \<and> hist_ok Y c hist \<and> rows_ok c hist d \<and> head_ok c hist d
     \<and> (\<forall>s \<in> set (d_snapshots d). s_source s = ''canonical_compaction'')
     \<and> distinct (map s_last_event_seq (lineage d c)) \<and> (\<forall>s \<in> set (lineage d c). snapshot_ok Y sha c hist s)"

definition resident_ok ::
  "('d, 'u, 's) yrs \<Rightarrow> canonical_base_row \<Rightarrow> history \<Rightarrow> 'd resident_board \<Rightarrow> bool" where
  "resident_ok Y c hist rb \<longleftrightarrow> coordinator_ok Y (rb_coord rb)
     \<and> bc_server_client_id (rb_coord rb) = cr_server_client_id c
     \<and> bc_base_generation (rb_coord rb) = cr_base_generation c
     \<and> cr_base_seq c \<le> bc_processed_seq (rb_coord rb) \<and> bc_processed_seq (rb_coord rb) \<le> hist_top c hist
     \<and> hist_doc Y c hist (bc_processed_seq (rb_coord rb)) = Inr (bc_doc (rb_coord rb))"

subsection \<open>Histories\<close>

lemma upto_split: "sorted_wrt (\<lambda>p q. fst p < fst q) hist \<Longrightarrow>
    upto n hist @ filter (\<lambda>p. n < fst p) hist = hist"
proof (induction hist)
  case (Cons p hist)
  show ?case
  proof (cases "fst p \<le> n")
    case False
    then have "upto n hist = []" "filter (\<lambda>p. n < fst p) hist = hist"
      using Cons.prems by (auto simp: upto_def filter_empty_conv filter_id_conv)
    then show ?thesis using False by (simp add: upto_def)
  qed (use Cons in \<open>simp add: upto_def\<close>)
qed (simp add: upto_def)

lemma hist_top_ge: "sorted_wrt (\<lambda>p q. fst p < fst q) hist \<Longrightarrow> p \<in> set hist \<Longrightarrow> fst p \<le> hist_top c hist"
  using ordered_le_last [of fst hist p] by (auto simp: hist_top_def)

lemma hist_top_base: "(\<forall>p \<in> set hist. cr_base_seq c < fst p) \<Longrightarrow> cr_base_seq c \<le> hist_top c hist"
  by (auto simp: hist_top_def intro: less_imp_le)

lemma upto_top: "sorted_wrt (\<lambda>p q. fst p < fst q) hist \<Longrightarrow> upto (hist_top c hist) hist = hist"
  using hist_top_ge by (simp add: upto_def filter_id_conv)

lemma hist_doc_tail:
  assumes "sorted_wrt (\<lambda>p q. fst p < fst q) hist"
  shows "hist_doc Y c hist (hist_top c hist)
    = bindE (hist_doc Y c hist n) (replay Y (map snd (filter (\<lambda>p. n < fst p) hist)))"
proof -
  have "hist_doc Y c hist (hist_top c hist)
      = bindE (base_doc Y c) (replay Y (map snd (upto n hist @ filter (\<lambda>p. n < fst p) hist)))"
    unfolding hist_doc_def upto_top [OF assms] upto_split [OF assms] ..
  then show ?thesis
    by (cases "base_doc Y c") (simp_all add: hist_doc_def replay_def foldE_append)
qed

lemma hist_doc_append_old:
  "n < q \<Longrightarrow> hist_doc Y c (hist @ [(q, b)]) n = hist_doc Y c hist n"
  by (simp add: hist_doc_def upto_def)

lemma hist_doc_append_new:
  assumes "\<forall>p \<in> set hist. fst p < q" "sorted_wrt (\<lambda>p q. fst p < fst q) hist" "q \<le> n"
  shows "hist_doc Y c (hist @ [(q, b)]) n = bindE (hist_doc Y c hist (hist_top c hist)) (replay Y [b])"
proof -
  have "upto n hist = hist" using assms by (force simp: upto_def filter_id_conv)
  then show ?thesis using assms(3) upto_top [OF assms(2)]
    by (cases "base_doc Y c") (simp_all add: hist_doc_def upto_def replay_def foldE_append)
qed

lemma hist_top_append [simp]: "hist_top c (hist @ [(q, b)]) = q"
  by (simp add: hist_top_def)

subsection \<open>Replay is exact\<close>

definition catch_up_fold ::
  "('d, 'u, 's) yrs \<Rightarrow> bdb \<Rightarrow> event_record list \<Rightarrow> 'd board_coordinator \<Rightarrow> string + 'd board_coordinator" where
  "catch_up_fold Y d = foldE (\<lambda>ev c. catch_up_one Y d c ev)"

lemma catch_up_batch_fold:
  "\<forall>e \<in> set batch. e_seq e \<le> head \<Longrightarrow>
   catch_up_batch Y d head batch coord cursor =
   bindE (catch_up_fold Y d batch coord)
     (\<lambda>c. Inr (c, if batch = [] then cursor else e_seq (last batch), False))"
proof (induction Y d head batch coord cursor rule: catch_up_batch.induct)
  case (2 Y d head ev batch coord cursor)
  then have le: "\<not> e_seq ev > head" by simp
  show ?case
  proof (cases "catch_up_one Y d coord ev")
    case (Inr c1)
    then show ?thesis using 2 le by (simp add: catch_up_fold_def)
  qed (use le in \<open>simp add: catch_up_fold_def\<close>)
qed (simp add: catch_up_fold_def)

lemma catch_up_loop_fold:
  assumes d: "distinct (map e_seq (d_events d))" and all: "\<forall>e \<in> set (d_events d). e_seq e \<le> head"
  shows "nat (head - cursor) \<le> n \<Longrightarrow>
    catch_up_loop n Y d head coord cursor = catch_up_fold Y d (log_after e_seq (d_events d) cursor) coord"
proof (induction n arbitrary: coord cursor)
  case 0
  then have "log_after e_seq (d_events d) cursor = []" using all by (intro log_after_none) force
  then show ?case by (simp add: catch_up_fold_def)
next
  case (Suc n)
  let ?p = "list_events_since d cursor CATCH_UP_BATCH"
  have pos: "0 < CATCH_UP_BATCH" by (simp add: CATCH_UP_BATCH_def)
  show ?case
  proof (cases "cursor < head")
    case False
    then have "log_after e_seq (d_events d) cursor = []" using all by (intro log_after_none) force
    then show ?thesis using False by (simp add: catch_up_fold_def)
  next
    case lt: True
    note sp = events_log.split [OF d pos, of cursor]
    show ?thesis
    proof (cases "?p = []")
      case True
      then show ?thesis using events_log.empty_page [OF d pos True] lt by (simp add: Let_def catch_up_fold_def)
    next
      case False
      then have nc: "events_log.next_cursor d cursor CATCH_UP_BATCH = e_seq (last ?p)"
        by (simp add: events_log.next_cursor_def)
      have "\<forall>e \<in> set ?p. e_seq e \<le> head" using all events_log.page_sound by blast
      note b = catch_up_batch_fold [OF this, of Y d coord cursor]
      have "cursor < e_seq (last ?p)" using events_log.next_cursor_gt [OF False] nc by simp
      then have "nat (head - e_seq (last ?p)) \<le> n" using Suc.prems lt by simp
      note IH = Suc.IH [OF this]
      show ?thesis
        using lt False b IH unfolding sp nc
        by (cases "catch_up_fold Y d ?p coord") (simp_all add: Let_def catch_up_fold_def foldE_append)
    qed
  qed
qed

lemma catch_up_all_fold:
  "distinct (map e_seq (d_events d)) \<Longrightarrow> \<forall>e \<in> set (d_events d). e_seq e \<le> head \<Longrightarrow>
   catch_up_all Y d head coord cursor = catch_up_fold Y d (log_after e_seq (d_events d) cursor) coord"
  by (simp add: catch_up_all_def catch_up_loop_fold)

lemma catch_up_fold_replay:
  "list_all2 (\<lambda>e p. e_seq e = fst p \<and> (\<exists>row. read_by_seq d (e_seq e) = Some row \<and> u_yupdate row = snd p)) evs ps \<Longrightarrow>
   replay Y (map snd ps) (bc_doc coord) = Inr doc \<Longrightarrow>
   \<exists>coord'. catch_up_fold Y d evs coord = Inr coord' \<and> bc_doc coord' = doc
     \<and> bc_server_client_id coord' = bc_server_client_id coord
     \<and> bc_base_generation coord' = bc_base_generation coord
     \<and> bc_processed_seq coord' = fold max (map e_seq evs) (bc_processed_seq coord)"
proof (induction evs ps arbitrary: coord rule: list_all2_induct)
  case Nil
  then show ?case by (simp add: catch_up_fold_def replay_def)
next
  case (Cons e evs p ps)
  obtain row where row: "read_by_seq d (e_seq e) = Some row" "u_yupdate row = snd p" using Cons.hyps(1) by blast
  obtain d1 where d1: "apply_bytes Y ''decode persisted yupdate'' ''apply persisted yupdate'' (snd p) (bc_doc coord) = Inr d1"
    "replay Y (map snd ps) d1 = Inr doc"
    using Cons.prems by (auto simp: replay_def result_simps)
  let ?c1 = "coord\<lparr>bc_doc := d1, bc_processed_seq := max (bc_processed_seq coord) (e_seq e)\<rparr>"
  have one: "catch_up_one Y d coord e = Inr ?c1"
    using row d1(1) by (simp add: catch_up_one_def catch_up_persisted_def apply_persisted_update_def)
  obtain coord' where "catch_up_fold Y d evs ?c1 = Inr coord'" "bc_doc coord' = doc"
    "bc_server_client_id coord' = bc_server_client_id coord"
    "bc_base_generation coord' = bc_base_generation coord"
    "bc_processed_seq coord' = fold max (map e_seq evs) (max (bc_processed_seq coord) (e_seq e))"
    using Cons.IH [of ?c1] d1(2) by auto
  then show ?case using one by (simp add: catch_up_fold_def max.commute)
qed

lemma read_by_seq_in:
  "distinct (map u_seq (d_updates d)) \<Longrightarrow> u \<in> set (d_updates d) \<Longrightarrow> read_by_seq d (u_seq u) = Some u"
  unfolding read_by_seq_def
proof (induction "d_updates d" arbitrary: d)
  case (Cons x xs)
  then show ?case using Cons.hyps(1) [of "d\<lparr>d_updates := xs\<rparr>"] by (auto simp flip: Cons.hyps(2))
qed simp

text \<open>The rows after a covering checkpoint are the history after it.\<close>

lemma rows_after:
  assumes rows: "rows_ok c hist d" and s: "sorted_wrt (\<lambda>p q. fst p < fst q) hist"
    and nd: "\<forall>p \<in> set hist. n < fst p \<longrightarrow> needed d c (fst p)"
  shows "list_all2 (\<lambda>e p. e_seq e = fst p \<and> (\<exists>row. read_by_seq d (e_seq e) = Some row \<and> u_yupdate row = snd p))
      (log_after e_seq (d_events d) n) (filter (\<lambda>p. n < fst p) hist)"
    and "map tail_of_row (log_after u_seq (d_updates d) n)
      = map (\<lambda>p. \<lparr>bt_seq = fst p, bt_yupdate = snd p\<rparr>) (filter (\<lambda>p. n < fst p) hist)"
proof -
  let ?h = "filter (\<lambda>p. n < fst p) hist"
  let ?ev = "log_after e_seq (d_events d) n" and ?up = "log_after u_seq (d_updates d) n"
  have r: "distinct (map u_seq (d_updates d))" "distinct (map e_seq (d_events d))"
    and upd: "\<And>u. u \<in> set (d_updates d) \<Longrightarrow> (u_seq u, u_yupdate u) \<in> set hist"
    and evs: "\<And>e. e \<in> set (d_events d) \<Longrightarrow> e_seq e \<in> fst ` set hist"
    and need: "\<And>p. p \<in> set hist \<Longrightarrow> needed d c (fst p) \<Longrightarrow>
      fst p \<in> u_seq ` set (d_updates d) \<and> fst p \<in> e_seq ` set (d_events d)"
    using rows unfolding rows_ok_def by blast+
  have cov: "fst p \<in> u_seq ` set (d_updates d)" "fst p \<in> e_seq ` set (d_events d)" if "p \<in> set ?h" for p
    using need [of p] nd that by auto
  have sh: "sorted_wrt (<) (map fst ?h)" using s by (simp add: sorted_wrt_map sorted_wrt_filter)
  have uniq: "snd p = snd q" if "p \<in> set hist" "q \<in> set hist" "fst p = fst q" for p q
    using that s by (induction hist) auto
  have sev: "sorted_wrt (<) (map e_seq ?ev)" and sup: "sorted_wrt (<) (map u_seq ?up)"
    using r by (auto simp: sorted_wrt_map intro: sorted_log_after)
  have updf: "u_seq u \<in> fst ` set hist" if "u \<in> set (d_updates d)" for u
    using image_eqI [OF _ upd [OF that], of _ fst] by simp
  have seqs: "x \<in> fst ` set hist" if "x \<in> e_seq ` set (d_events d) \<or> x \<in> u_seq ` set (d_updates d)" for x
    using that evs updf by blast
  have inh: "x \<in> fst ` set ?h \<longleftrightarrow> x \<in> fst ` set hist \<and> n < x" for x by auto
  have "x \<in> set (map e_seq ?ev) \<longleftrightarrow> x \<in> set (map fst ?h)" for x
    using seqs [of x] inh [of x] cov(2) by (auto simp: image_iff) blast
  then have "set (map e_seq ?ev) = set (map fst ?h)" by blast
  then have ev: "map e_seq ?ev = map fst ?h"
    using sev sh by (simp add: strict_sorted_iff strict_sorted_equal)
  have "x \<in> set (map u_seq ?up) \<longleftrightarrow> x \<in> set (map fst ?h)" for x
    using seqs [of x] inh [of x] cov(1) by (auto simp: image_iff) blast
  then have "set (map u_seq ?up) = set (map fst ?h)" by blast
  then have up: "map u_seq ?up = map fst ?h"
    using sup sh by (simp add: strict_sorted_iff strict_sorted_equal)
  have row: "\<exists>row. read_by_seq d (fst p) = Some row \<and> u_yupdate row = snd p" if p: "p \<in> set ?h" for p
  proof -
    obtain u where u: "u \<in> set (d_updates d)" "u_seq u = fst p" using cov(1) [OF p] by auto
    then have "(u_seq u, u_yupdate u) \<in> set hist" using upd by blast
    then have "u_yupdate u = snd p" using uniq [of "(u_seq u, u_yupdate u)" p] u(2) p by simp
    then show ?thesis using read_by_seq_in [OF r(1) u(1)] u(2) by auto
  qed
  have len: "length ?ev = length ?h" using ev by (metis length_map)
  show "list_all2 (\<lambda>e p. e_seq e = fst p \<and> (\<exists>row. read_by_seq d (e_seq e) = Some row \<and> u_yupdate row = snd p)) ?ev ?h"
  proof (rule list_all2_all_nthI [OF len])
    fix i assume i: "i < length ?ev"
    then have "e_seq (?ev ! i) = fst (?h ! i)" using ev len by (metis nth_map)
    then show "e_seq (?ev ! i) = fst (?h ! i) \<and> (\<exists>row. read_by_seq d (e_seq (?ev ! i)) = Some row \<and> u_yupdate row = snd (?h ! i))"
      using row [OF nth_mem [of i ?h]] i len by (simp only: simp_thms)
  qed
  have lu: "length ?up = length ?h" using up by (metis length_map)
  show "map tail_of_row ?up = map (\<lambda>p. \<lparr>bt_seq = fst p, bt_yupdate = snd p\<rparr>) ?h"
  proof (rule nth_equalityI)
    fix i assume "i < length (map tail_of_row ?up)"
    then have i: "i < length ?up" by simp
    then have f: "u_seq (?up ! i) = fst (?h ! i)" using up lu by (metis nth_map)
    have "?up ! i \<in> set (d_updates d)" using nth_mem [OF i] by simp
    then have "(u_seq (?up ! i), u_yupdate (?up ! i)) \<in> set hist" by (rule upd)
    moreover have "?h ! i \<in> set hist" using nth_mem [of i ?h] i lu by simp
    ultimately have "u_yupdate (?up ! i) = snd (?h ! i)" using uniq f by fastforce
    then show "map tail_of_row ?up ! i = map (\<lambda>p. \<lparr>bt_seq = fst p, bt_yupdate = snd p\<rparr>) ?h ! i"
      using i lu f by (simp add: tail_of_row_def)
  qed (simp add: lu)
qed

subsection \<open>Activation rebuilds the history's document\<close>

lemma sorted_map_le_last:
  "sorted (map (f :: _ \<Rightarrow> int) xs) \<Longrightarrow> t \<in> set xs \<Longrightarrow> f t \<le> f (last xs)"
  by (induction xs rule: rev_induct) (auto simp: sorted_append)

lemma newest_latest:
  assumes "read_latest_at_or_before d (cr_base_generation c) (cr_server_client_id c) n = Some s"
  shows "s \<in> set (lineage d c) \<and> s_last_event_seq s \<le> n
    \<and> (\<forall>t \<in> set (lineage d c). s_last_event_seq t \<le> n \<longrightarrow> s_last_event_seq t \<le> s_last_event_seq s)"
proof -
  let ?f = "filter (\<lambda>s. s_last_event_seq s \<le> n) (lineage d c)"
  let ?l = "sort_key s_last_event_seq ?f"
  have ne: "?l \<noteq> []" "s = last ?l"
    using assms by (auto simp: read_latest_at_or_before_def newest_first_def lineage_def hd_rev [symmetric]
        split: list.splits)
  have srt: "sorted (map s_last_event_seq ?l)" by simp
  have "\<forall>t \<in> set ?l. s_last_event_seq t \<le> s_last_event_seq (last ?l)"
    using sorted_map_le_last [OF srt] by blast
  moreover have "last ?l \<in> set ?l" using ne(1) by (rule last_in_set)
  ultimately show ?thesis using ne(2) by auto
qed

lemma no_latest:
  "read_latest_at_or_before d (cr_base_generation c) (cr_server_client_id c) n = None \<Longrightarrow>
   t \<in> set (lineage d c) \<Longrightarrow> n < s_last_event_seq t"
proof (rule ccontr)
  assume a: "read_latest_at_or_before d (cr_base_generation c) (cr_server_client_id c) n = None"
    "t \<in> set (lineage d c)" "\<not> n < s_last_event_seq t"
  then have "t \<in> set (newest_first (filter (\<lambda>s. s_last_event_seq s \<le> n) (lineage d c)))"
    by (simp add: newest_first_def)
  then show False using a(1) by (auto simp: read_latest_at_or_before_def lineage_def split: list.splits)
qed

text \<open>The checkpoint and the rows after it suffice to rebuild the document at the top of the history.\<close>

lemma checkpoint_covers:
  assumes "journal_ok Y sha c hist d"
  shows "\<exists>b doc. preferred_activation_base Y sha d (base_to_domain c) (hist_top c hist) = Inr b
    \<and> cb_base_generation b = cr_base_generation c \<and> cb_server_client_id b = cr_server_client_id c
    \<and> cr_base_seq c \<le> cb_base_seq b \<and> cb_base_seq b \<le> hist_top c hist
    \<and> doc_from_base Y (cb_state_update b) (cb_state_vector b) (cb_server_client_id b) = Inr doc
    \<and> hist_doc Y c hist (cb_base_seq b) = Inr doc
    \<and> (\<forall>p \<in> set hist. cb_base_seq b < fst p \<longrightarrow> needed d c (fst p))"
proof -
  note j = assms [unfolded journal_ok_def]
  have h: "\<forall>p \<in> set hist. cr_base_seq c < fst p" "sorted_wrt (\<lambda>p q. fst p < fst q) hist"
    and docs: "\<And>n. \<exists>doc j. hist_doc Y c hist n = Inr doc \<and> doc_to_snapshot Y doc = Inr j
      \<and> y_client Y doc = cr_server_client_id c"
    using j unfolding hist_ok_def by blast+
  have top: "s_last_event_seq t \<le> hist_top c hist" if "t \<in> set (lineage d c)" for t
    using j that by (auto simp: snapshot_ok_def)
  show ?thesis
  proof (cases "read_latest_at_or_before d (cr_base_generation c) (cr_server_client_id c) (hist_top c hist)")
    case None
    have e: "lineage d c = []"
    proof (rule ccontr)
      assume "lineage d c \<noteq> []"
      then obtain t where "t \<in> set (lineage d c)" by (cases "lineage d c") auto
      with top no_latest [OF None] show False by force
    qed
    have "upto (cr_base_seq c) hist = []" using h(1) by (auto simp: upto_def filter_empty_conv)
    then have b: "hist_doc Y c hist (cr_base_seq c) = base_doc Y c"
      by (cases "base_doc Y c") (simp_all add: hist_doc_def replay_def)
    show ?thesis
      using docs [of "cr_base_seq c"] hist_top_base [OF h(1)] None
      by (intro exI [of _ "base_to_domain c"])
        (auto simp: preferred_activation_base_def base_to_domain_def b base_doc_def needed_def e)
  next
    case (Some s)
    note l = newest_latest [OF Some]
    have sin: "s \<in> set (lineage d c)" using l by blast
    then have ids: "s_server_client_id s = cr_server_client_id c" "s_base_generation s = cr_base_generation c"
      by (simp_all add: lineage_def lineage_snapshots_def)
    have so: "snapshot_ok Y sha c hist s" using j sin by blast
    then obtain doc v where dv: "hist_doc Y c hist (s_last_event_seq s) = Inr doc"
      "doc_from_base Y (s_state_update s) (s_state_vector s) (s_server_client_id s) = Inr doc"
      "doc_schema_version Y doc = Inr v" "s_schema_version s = ucast v"
      by (auto simp: snapshot_ok_def)
    obtain jd where jd: "doc_to_snapshot Y doc = Inr jd" using docs [of "s_last_event_seq s"] dv(1) by auto
    have nd: "needed d c (fst p)" if p: "s_last_event_seq s < fst p" for p :: "int \<times> bytes"
    proof -
      have "s_last_event_seq t < fst p" if "t \<in> set (lineage d c)" for t
        using l top [OF that] that p by fastforce
      then have "filter (\<lambda>s. fst p \<le> s_last_event_seq s) (lineage d c) = []"
        by (auto simp: filter_empty_conv not_le)
      then show ?thesis by (simp add: needed_def)
    qed
    have "preferred_activation_base Y sha d (base_to_domain c) (hist_top c hist) =
      Inr \<lparr>cb_state_update = s_state_update s, cb_state_vector = s_state_vector s,
           cb_base_seq = s_last_event_seq s, cb_server_client_id = s_server_client_id s,
           cb_base_generation = s_base_generation s\<rparr>"
      using Some so dv jd
      by (simp add: preferred_activation_base_def base_to_domain_def snapshot_ok_def)
    then show ?thesis using dv nd so ids by (auto simp: snapshot_ok_def)
  qed
qed

lemma fold_max_last:
  "sorted_wrt (<) (n # xs) \<Longrightarrow> fold max xs n = (if xs = [] then n else last (xs :: int list))"
proof (induction xs arbitrary: n)
  case (Cons x xs)
  then have "fold max xs x = (if xs = [] then x else last xs)" by simp
  moreover have "max x n = x" using Cons.prems by simp
  ultimately show ?case by simp
qed simp

lemma rebuild:
  assumes Y: "yrs_replicas Y" and j: "journal_ok Y sha c hist d"
  shows "\<exists>b coord0 coord. preferred_activation_base Y sha d (base_to_domain c) (hist_top c hist) = Inr b
    \<and> from_base Y b (cb_base_seq b) = Inr coord0
    \<and> catch_up_all Y d (hist_top c hist) coord0 (cb_base_seq b) = Inr coord
    \<and> assert_valid_projection Y coord = Inr ()
    \<and> coordinator_ok Y coord \<and> bc_server_client_id coord = cr_server_client_id c
    \<and> bc_base_generation coord = cr_base_generation c \<and> bc_processed_seq coord = hist_top c hist
    \<and> hist_doc Y c hist (hist_top c hist) = Inr (bc_doc coord)"
proof -
  obtain b doc where b: "preferred_activation_base Y sha d (base_to_domain c) (hist_top c hist) = Inr b"
    "cb_base_generation b = cr_base_generation c" "cb_server_client_id b = cr_server_client_id c"
    "cr_base_seq c \<le> cb_base_seq b" "cb_base_seq b \<le> hist_top c hist"
    "doc_from_base Y (cb_state_update b) (cb_state_vector b) (cb_server_client_id b) = Inr doc"
    "hist_doc Y c hist (cb_base_seq b) = Inr doc"
    "\<forall>p \<in> set hist. cb_base_seq b < fst p \<longrightarrow> needed d c (fst p)"
    using checkpoint_covers [OF j] by blast
  have s: "sorted_wrt (\<lambda>p q. fst p < fst q) hist" and rows: "rows_ok c hist d"
    using j by (simp_all add: journal_ok_def hist_ok_def)
  have band: "server_id_in_band (cb_server_client_id b)"
    using b(6) by (auto simp: doc_from_base_def split: if_splits)
  define coord0 where "coord0 = \<lparr>bc_doc = doc, bc_server_client_id = cb_server_client_id b,
    bc_base_generation = cb_base_generation b, bc_processed_seq = cb_base_seq b\<rparr>"
  have c0: "from_base Y b (cb_base_seq b) = Inr coord0" using b(6) band by (simp add: from_base_def coord0_def)
  let ?h = "filter (\<lambda>p. cb_base_seq b < fst p) hist"
  let ?ev = "log_after e_seq (d_events d) (cb_base_seq b)"
  obtain doc' jd where doc': "hist_doc Y c hist (hist_top c hist) = Inr doc'" "doc_to_snapshot Y doc' = Inr jd"
    "y_client Y doc' = cr_server_client_id c"
    using j unfolding journal_ok_def hist_ok_def by blast
  have rep: "replay Y (map snd ?h) (bc_doc coord0) = Inr doc'"
    using hist_doc_tail [OF s, of Y c "cb_base_seq b"] b(7) doc'(1) by (simp add: coord0_def)
  note rw = rows_after [OF rows s b(8)]
  obtain coord where coord: "catch_up_fold Y d ?ev coord0 = Inr coord" "bc_doc coord = doc'"
    "bc_server_client_id coord = bc_server_client_id coord0" "bc_base_generation coord = bc_base_generation coord0"
    "bc_processed_seq coord = fold max (map e_seq ?ev) (bc_processed_seq coord0)"
    using catch_up_fold_replay [OF rw(1) rep] by blast
  have evs: "map e_seq ?ev = map fst ?h" using rw(1) by (induction rule: list_all2_induct) simp_all
  have "\<forall>e \<in> set (d_events d). e_seq e \<le> hist_top c hist"
    using rows hist_top_ge [OF s] by (fastforce simp: rows_ok_def)
  moreover have de: "distinct (map e_seq (d_events d))" using rows by (simp add: rows_ok_def)
  ultimately have all: "catch_up_all Y d (hist_top c hist) coord0 (cb_base_seq b) = Inr coord"
    using coord(1) by (simp add: catch_up_all_fold)
  have "sorted_wrt (<) (cb_base_seq b # map fst ?h)"
    using s by (auto simp: sorted_wrt_map sorted_wrt_filter)
  then have "bc_processed_seq coord = (if ?h = [] then cb_base_seq b else last (map fst ?h))"
    using coord(5) fold_max_last [of "cb_base_seq b" "map fst ?h"] by (simp add: evs coord0_def)
  also have "\<dots> = hist_top c hist"
  proof (cases "?h = []")
    case True
    then have "hist \<noteq> [] \<Longrightarrow> fst (last hist) \<le> cb_base_seq b"
      by (auto simp: filter_empty_conv not_less)
    then show ?thesis using b(4,5) True by (auto simp: hist_top_def)
  next
    case False
    then have "last ?h = last hist" using upto_split [OF s, of "cb_base_seq b"] by (metis last_appendR)
    moreover have "hist \<noteq> []" using False by auto
    ultimately show ?thesis using False by (simp add: hist_top_def last_map)
  qed
  finally have pr: "bc_processed_seq coord = hist_top c hist" .
  have "coordinator_ok Y coord"
    using coord doc'(3) band b(3) by (simp add: coordinator_ok_def coord0_def)
  moreover have "assert_valid_projection Y coord = Inr ()"
    using coord(2) doc'(2) by (simp add: assert_valid_projection_def)
  ultimately show ?thesis using b c0 all pr coord doc' by (auto simp: coord0_def)
qed

end
