(* ===== verification/Commit_Safety.thy ===== *)
theory Commit_Safety
  imports Durable
begin

text \<open>
  The commit path against the journal: what a transaction changes, and that a commit acknowledged as new was
  validated against exactly the durable document it extends.
\<close>

subsection \<open>The transaction\<close>

lemma insert_event_effect:
  "insert_event i now d b seq usr ty p sess = Inr (ev, d') \<Longrightarrow>
   d' = d\<lparr>d_events := d_events d @ [ev]\<rparr> \<and> e_seq ev = seq \<and> e_id ev = i \<and> e_payload ev = p
   \<and> seq \<notin> e_seq ` set (d_events d) \<and> i \<notin> e_id ` set (d_events d)"
  by (auto simp: insert_event_def Let_def split: if_splits)

lemma insert_update_effect:
  "insert_update now d row = Inr d' \<Longrightarrow>
   d' = d\<lparr>d_updates := d_updates d @ [row\<lparr>u_created_at := now\<rparr>]\<rparr>
   \<and> u_seq row \<notin> u_seq ` set (d_updates d) \<and> u_client_event_id row \<notin> u_client_event_id ` set (d_updates d)"
  by (auto simp: insert_update_def split: if_splits)

lemma advance_effect:
  "advance_processed_seq d ep p n = (True, d') \<Longrightarrow>
   \<exists>r. d_head d = Some r \<and> hr_writer_epoch r = ep \<and> hr_processed_seq r = p \<and> hr_state r = ''ready''
     \<and> d' = d\<lparr>d_head := Some (r\<lparr>hr_processed_seq := n\<rparr>)\<rparr>"
  by (auto simp: advance_processed_seq_def split: option.splits if_splits)

lemma config_keeps [simp]:
  "d_events (apply_board_config d p) = d_events d" "d_updates (apply_board_config d p) = d_updates d"
  "d_head (apply_board_config d p) = d_head d" "d_base (apply_board_config d p) = d_base d"
  "d_snapshots (apply_board_config d p) = d_snapshots d"
  "b_next_event_seq (d_board (apply_board_config d p)) = b_next_event_seq (d_board d)"
  by (simp_all add: apply_board_config_def update_board_config_def Let_def)

lemma projection_keeps [simp]:
  "d_events (replace_projection_tx d n g ks ps bl) = d_events d"
  "d_updates (replace_projection_tx d n g ks ps bl) = d_updates d"
  "d_head (replace_projection_tx d n g ks ps bl) = d_head d"
  "d_base (replace_projection_tx d n g ks ps bl) = d_base d"
  "d_snapshots (replace_projection_tx d n g ks ps bl) = d_snapshots d"
  "d_board (replace_projection_tx d n g ks ps bl) = d_board d"
  by (simp_all add: replace_projection_tx_def)

lemma commit_tx_effect:
  assumes "commit_tx E new_id now q rb pn d = Inr ((seq, eid, cid), d')"
  shows "seq = b_next_event_seq (d_board d) \<and> b_next_event_seq (d_board d') = seq + 1
    \<and> (\<exists>ev. d_events d' = d_events d @ [ev] \<and> e_seq ev = seq \<and> e_id ev = eid \<and> e_payload ev = pn_payload pn
          \<and> e_id ev \<notin> e_id ` set (d_events d))
    \<and> (\<exists>row. d_updates d' = d_updates d @ [row] \<and> u_seq row = seq \<and> u_client_event_id row = cid
          \<and> u_event_id row = Some eid \<and> u_payload_hash row = v_payload_hash E (cq_payload q)
          \<and> u_base_generation row = bc_base_generation (rb_coord rb) \<and> u_source row = pn_source pn
          \<and> u_update_hash row = pn_update_hash pn \<and> u_yupdate row = pc_yupdate (pn_prepared pn))
    \<and> seq \<notin> u_seq ` set (d_updates d) \<and> seq \<notin> e_seq ` set (d_events d)
    \<and> cid \<notin> u_client_event_id ` set (d_updates d)
    \<and> (\<forall>k. cq_client_event_id q = Some k \<longrightarrow> cid = k)
    \<and> d_base d' = d_base d \<and> d_snapshots d' = d_snapshots d
    \<and> (\<exists>r. d_head d = Some r \<and> hr_writer_epoch r = rb_writer_epoch rb
          \<and> hr_processed_seq r = bc_processed_seq (rb_coord rb) \<and> hr_state r = ''ready''
          \<and> d_head d' = Some (r\<lparr>hr_processed_seq := seq\<rparr>))"
proof -
  let ?d1 = "snd (reserve_next_event_seq_tx d)" and ?seq = "b_next_event_seq (d_board d)"
  obtain ev d2 where ev: "insert_event new_id now ?d1 (cq_board_id q) ?seq (cq_actor_user_id q)
      (cq_event_type q) (pn_payload pn) (cq_session_id q) = Inr (ev, d2)"
    using assms by (auto simp: commit_tx_def reserve_next_event_seq_tx_def bindE_Inr_iff map_errE_Inr_iff)
  define d3 where "d3 = (if cq_event_type q = ''board_commit'' then apply_board_config d2 (pn_payload pn) else d2)"
  define k where "k = event_cid E q ev"
  define row where "row = update_row E now q rb pn ?seq ev"
  have red: "commit_tx E new_id now q rb pn d =
      bindE (map_errE db_text (insert_update now d3 row)) (\<lambda>d4.
          (case advance_processed_seq d4 (rb_writer_epoch rb) (bc_processed_seq (rb_coord rb)) ?seq of (ok, d5) \<Rightarrow>
             if \<not> ok then Inl StaleRevision else Inr ((?seq, e_id ev, k), write_assets rb pn ?seq d5)))"
    using ev by (simp only: commit_tx_def reserve_next_event_seq_tx_def prod.case snd_conv map_errE_simps
        bindE_simps d3_def k_def row_def)
  obtain d4 where d4: "insert_update now d3 row = Inr d4"
    using assms unfolding red by (auto simp only: bindE_Inr_iff map_errE_Inr_iff)
  obtain ok d5 where d5: "advance_processed_seq d4 (rb_writer_epoch rb) (bc_processed_seq (rb_coord rb)) ?seq = (ok, d5)"
    by force
  have "(if \<not> ok then Inl StaleRevision else Inr ((?seq, e_id ev, k), write_assets rb pn ?seq d5)) = Inr ((seq, eid, cid), d')"
    using assms unfolding red d4 by (simp add: d5)
  then have fin: "ok" "seq = ?seq" "eid = e_id ev" "cid = k" "d' = write_assets rb pn ?seq d5"
    by (auto split: if_splits)
  note e1 = insert_event_effect [OF ev] and e2 = insert_update_effect [OF d4]
  obtain r where r: "d_head d4 = Some r" "hr_writer_epoch r = rb_writer_epoch rb"
    "hr_processed_seq r = bc_processed_seq (rb_coord rb)" "hr_state r = ''ready''"
    "d5 = d4\<lparr>d_head := Some (r\<lparr>hr_processed_seq := ?seq\<rparr>)\<rparr>"
    using advance_effect [OF d5 [unfolded eqTrueI [OF fin(1)]]] by blast
  have d1: "d_events ?d1 = d_events d" "d_updates ?d1 = d_updates d" "d_head ?d1 = d_head d" "d_base ?d1 = d_base d"
    "d_snapshots ?d1 = d_snapshots d" "b_next_event_seq (d_board ?d1) = ?seq + 1"
    by (simp_all add: reserve_next_event_seq_tx_def)
  have d3: "d_events d3 = d_events d @ [ev]" "d_updates d3 = d_updates d" "d_head d3 = d_head d"
    "d_base d3 = d_base d" "d_snapshots d3 = d_snapshots d" "b_next_event_seq (d_board d3) = ?seq + 1"
    using e1 d1 by (simp_all add: d3_def)
  have d4': "d_events d4 = d_events d @ [ev]" "d_updates d4 = d_updates d @ [row\<lparr>u_created_at := now\<rparr>]" "d_head d4 = d_head d"
    "d_base d4 = d_base d" "d_snapshots d4 = d_snapshots d" "b_next_event_seq (d_board d4) = ?seq + 1"
    "u_seq row \<notin> u_seq ` set (d_updates d)" "u_client_event_id row \<notin> u_client_event_id ` set (d_updates d)"
    using e2 d3 by simp_all
  have d': "d_events d' = d_events d4" "d_updates d' = d_updates d4" "d_head d' = Some (r\<lparr>hr_processed_seq := ?seq\<rparr>)"
    "d_base d' = d_base d4" "d_snapshots d' = d_snapshots d4" "d_board d' = d_board d4"
    by (simp_all add: fin(5) write_assets_def r(5))
  have rw: "u_seq row = ?seq" "u_client_event_id row = k" "u_event_id row = Some (e_id ev)"
    "u_payload_hash row = v_payload_hash E (cq_payload q)"
    "u_base_generation row = bc_base_generation (rb_coord rb)" "u_source row = pn_source pn"
    "u_update_hash row = pn_update_hash pn" "u_yupdate row = pc_yupdate (pn_prepared pn)"
    by (simp_all add: row_def update_row_def k_def)
  have k: "\<forall>x. cq_client_event_id q = Some x \<longrightarrow> k = x" by (simp add: k_def event_cid_def)
  have h: "d_head d = Some r" using r(1) d4'(3) by simp
  show ?thesis
    unfolding fin(2-4) using d4' d' r(2-4) e1 d1(1) rw k h by simp
qed

lemma lineage_cong: "d_snapshots d' = d_snapshots d \<Longrightarrow> lineage d' c = lineage d c"
  by (simp add: lineage_def lineage_snapshots_def)

lemma needed_cong: "d_snapshots d' = d_snapshots d \<Longrightarrow> needed d' c n = needed d c n"
  by (simp only: needed_def lineage_cong [of d' d])

lemma snapshot_ok_append:
  assumes "snapshot_ok Y sha c hist s" "hist_top c hist < q"
  shows "snapshot_ok Y sha c (hist @ [(q, b)]) s"
proof -
  have "s_last_event_seq s < q" using assms by (simp add: snapshot_ok_def)
  then show ?thesis using assms by (auto simp: snapshot_ok_def hist_doc_append_old)
qed

lemma resident_ok_append:
  assumes "resident_ok Y c hist rb" "hist_top c hist < q"
  shows "resident_ok Y c (hist @ [(q, b)]) rb"
  using assms by (auto simp: resident_ok_def hist_doc_append_old)

lemma hist_ok_append:
  assumes ok: "hist_ok Y c hist" and Y: "yrs_replicas Y" and q: "hist_top c hist < q"
    and doc: "hist_doc Y c hist (hist_top c hist) = Inr doc"
    and app: "apply_bytes Y ''decode persisted yupdate'' ''apply persisted yupdate'' b doc = Inr doc'"
    and proj: "doc_to_snapshot Y doc' = Inr j"
  shows "hist_ok Y c (hist @ [(q, b)]) \<and> hist_doc Y c (hist @ [(q, b)]) q = Inr doc'"
proof -
  have s: "sorted_wrt (\<lambda>p q. fst p < fst q) hist" and base: "\<forall>p \<in> set hist. cr_base_seq c < fst p"
    using ok by (simp_all add: hist_ok_def)
  have lt: "\<forall>p \<in> set hist. fst p < q" using hist_top_ge [OF s, of _ c] q by fastforce
  have new: "hist_doc Y c (hist @ [(q, b)]) n = Inr doc'" if "q \<le> n" for n
    using hist_doc_append_new [OF lt s that, of Y c b] doc app by (simp add: replay_def)
  have cl: "y_client Y doc = cr_server_client_id c"
    using ok doc unfolding hist_ok_def by (metis Inr_inject)
  have "\<exists>doc j. hist_doc Y c (hist @ [(q, b)]) n = Inr doc \<and> doc_to_snapshot Y doc = Inr j
      \<and> y_client Y doc = cr_server_client_id c" for n
  proof (cases "n < q")
    case True
    then show ?thesis
      using ok unfolding hist_ok_def hist_doc_append_old [OF True] by blast
  next
    case False
    then show ?thesis using new [of n] proj apply_bytes_client [OF Y app] cl by simp
  qed
  moreover have "sorted_wrt (\<lambda>p q. fst p < fst q) (hist @ [(q, b)])" using s lt by (simp add: sorted_wrt_append)
  moreover have "cr_base_seq c < q" using hist_top_base [OF base] q by simp
  ultimately show ?thesis using ok new [of q] by (auto simp: hist_ok_def)
qed

lemma journal_ok_append:
  assumes j: "journal_ok Y sha c hist d" and tx: "commit_tx E new_id now q rb pn d = Inr ((seq, eid, cid), d')"
    and gen: "bc_base_generation (rb_coord rb) = cr_base_generation c"
    and h: "hist_ok Y c (hist @ [(seq, pc_yupdate (pn_prepared pn))])"
  shows "journal_ok Y sha c (hist @ [(seq, pc_yupdate (pn_prepared pn))]) d'"
proof -
  let ?h = "hist @ [(seq, pc_yupdate (pn_prepared pn))]"
  note e = commit_tx_effect [OF tx]
  have rows: "rows_ok c hist d" using j by (simp add: journal_ok_def)
  have seq: "seq = b_next_event_seq (d_board d)" "b_next_event_seq (d_board d') = seq + 1" using e by blast+
  obtain ev where ev: "d_events d' = d_events d @ [ev]" "e_seq ev = seq" using e by blast
  obtain row where row: "d_updates d' = d_updates d @ [row]" "u_seq row = seq"
    "u_base_generation row = bc_base_generation (rb_coord rb)" "u_yupdate row = pc_yupdate (pn_prepared pn)"
    using e by blast
  have snap: "d_snapshots d' = d_snapshots d" "d_base d' = d_base d" using e by blast+
  have new: "seq \<notin> u_seq ` set (d_updates d)" "seq \<notin> e_seq ` set (d_events d)" using e by blast+
  have top: "hist_top c hist < seq"
    using rows unfolding rows_ok_def seq(1) hist_top_def by (auto simp: last_in_set)
  have "rows_ok c ?h d'"
    unfolding rows_ok_def
  proof (intro conjI)
    show "cr_base_seq c < b_next_event_seq (d_board d')" using rows seq by (simp add: rows_ok_def)
    show "\<forall>p \<in> set ?h. fst p < b_next_event_seq (d_board d')" using rows seq by (auto simp: rows_ok_def)
    show "distinct (map u_seq (d_updates d'))" using rows new(1) row by (auto simp: rows_ok_def)
    show "distinct (map e_seq (d_events d'))" using rows new(2) ev by (auto simp: rows_ok_def)
    show "\<forall>u \<in> set (d_updates d'). (u_seq u, u_yupdate u) \<in> set ?h \<and> u_base_generation u = cr_base_generation c"
      using rows row gen by (auto simp: rows_ok_def)
    show "\<forall>e \<in> set (d_events d'). e_seq e \<in> fst ` set ?h" using rows ev by (auto simp: rows_ok_def)
    show "\<forall>p \<in> set ?h. needed d' c (fst p) \<longrightarrow>
        fst p \<in> u_seq ` set (d_updates d') \<and> fst p \<in> e_seq ` set (d_events d')"
      using rows ev row by (auto simp: rows_ok_def needed_cong [OF snap(1)])
  qed
  moreover have "head_ok c ?h d'" using e j by (auto simp: head_ok_def journal_ok_def)
  moreover have "\<forall>s \<in> set (lineage d' c). snapshot_ok Y sha c ?h s"
    using j snapshot_ok_append [OF _ top, of Y sha] by (auto simp: journal_ok_def lineage_cong [OF snap(1)])
  ultimately show ?thesis using j h snap by (auto simp: journal_ok_def lineage_cong [OF snap(1)])
qed

subsection \<open>What a prepared commit knows\<close>

lemma prepare_external_base:
  "prepare_external Y co n payload u = Inr (p, payload') \<Longrightarrow>
   pc_base_update p = fst (encode_base Y (bc_doc co)) \<and> pc_base_state_vector p = snd (encode_base Y (bc_doc co))"
  by (auto simp: prepare_external_def result_simps split: prod.splits)

lemma prepare_noop_base:
  "prepare_noop Y co n payload = Inr (p, payload') \<Longrightarrow>
   pc_base_update p = fst (encode_base Y (bc_doc co)) \<and> pc_base_state_vector p = snd (encode_base Y (bc_doc co))"
  by (auto simp: prepare_noop_def result_simps split: prod.splits)

definition validated ::
  "('d, 'u, 's) yrs \<Rightarrow> env \<Rightarrow> 'd \<Rightarrow> bytes \<Rightarrow> 'd \<Rightarrow> bool" where
  "validated Y E doc yupdate doc' \<longleftrightarrow> (\<exists>request j.
     v_validate E request = Inr ()
   \<and> doc_from_base Y (vr_base_update request) (vr_base_state_vector request) (y_client Y doc) = Inr doc
   \<and> vr_candidate request = yupdate \<and> doc_to_snapshot Y doc' = Inr j
   \<and> v_json_to_vec E j = Some (vr_expected_projection request))"

lemma prepare_candidate_cases:
  assumes "prepare_candidate Y E co payload cand = Inr (p, payload')"
  shows "(\<exists>u. prepare_external Y co 0 payload u = Inr (p, payload')) \<or> prepare_noop Y co 0 payload = Inr (p, payload')"
  using assms by (cases cand) (auto simp: prepare_candidate_def result_simps)

lemma commit_prepare_cases:
  "commit_prepare Y E rb d q = Inr r \<Longrightarrow> rb_state rb = Ready \<and> (\<exists>cand. decode_candidate E q = Inr cand
     \<and> ((\<exists>ack. r = Inl ack \<and> dedup E d q cand = Inr (Some ack))
        \<or> (\<exists>pn. r = Inr pn \<and> dedup E d q cand = Inr None \<and> prepare_fresh Y E (rb_coord rb) q cand = Inr pn)))"
  by (auto simp: commit_prepare_def bindE_Inr_iff split: if_splits option.splits)

lemma prepare_fresh_cases:
  assumes "prepare_fresh Y E co q cand = Inr pn"
  shows "prepare_candidate Y E co (cq_payload q) cand = Inr (pn_prepared pn, pn_payload pn)
    \<and> pn_source pn = (if cand = None then ''server'' else ''client'')
    \<and> (\<forall>x. cand = Some x \<longrightarrow> pn_update_hash pn = dc_update_hash x)
    \<and> enforce_canonical_payload (cq_event_type q) (cq_payload q) = Inr ()
    \<and> check_revision (bc_base_generation co) (bc_processed_seq co) (cq_client_yrs q) = Inr ()
    \<and> (\<exists>request. v_validate E request = Inr ()
       \<and> vr_base_update request = pc_base_update (pn_prepared pn)
       \<and> vr_base_state_vector request = pc_base_state_vector (pn_prepared pn)
       \<and> vr_candidate request = pc_yupdate (pn_prepared pn)
       \<and> v_json_to_vec E (pc_expected_projection (pn_prepared pn)) = Some (vr_expected_projection request))"
proof -
  obtain p payload' where p: "prepare_candidate Y E co (cq_payload q) cand = Inr (p, payload')"
    "check_revision (bc_base_generation co) (bc_processed_seq co) (cq_client_yrs q) = Inr ()"
    "enforce_canonical_payload (cq_event_type q) (cq_payload q) = Inr ()"
    using assms by (auto simp: prepare_fresh_def bindE_Inr_iff)
  obtain ex where ex: "v_json_to_vec E (pc_expected_projection p) = Some ex"
    using assms by (auto simp: prepare_fresh_def bindE_Inr_iff p ok_orE_Inr_iff)
  define req where "req = \<lparr>vr_seq = 0, vr_base_seq = bc_processed_seq co,
     vr_base_generation = bc_base_generation co,
     vr_writer_client_id = (case cand of Some c \<Rightarrow> dc_writer_client_id c | None \<Rightarrow> bc_server_client_id co),
     vr_base_update = pc_base_update p, vr_base_state_vector = pc_base_state_vector p,
     vr_candidate = pc_yupdate p, vr_expected_projection = ex\<rparr>"
  have v: "v_validate E req = Inr ()" "pn_prepared pn = p" "pn_payload pn = payload'"
    "pn_source pn = (if cand = None then ''server'' else ''client'')"
    "\<forall>x. cand = Some x \<longrightarrow> pn_update_hash pn = dc_update_hash x"
    using assms by (auto simp: prepare_fresh_def Let_def bindE_Inr_iff map_errE_Inr_iff p ex req_def)
  have "vr_base_update req = pc_base_update p" "vr_base_state_vector req = pc_base_state_vector p"
    "vr_candidate req = pc_yupdate p" "vr_expected_projection req = ex"
    by (simp_all add: req_def)
  with p ex v show ?thesis by auto
qed

lemma commit_prepare_fresh:
  assumes "commit_prepare Y E rb d q = Inr (Inr pn)"
  shows "\<exists>cand. decode_candidate E q = Inr cand \<and> dedup E d q cand = Inr None
    \<and> prepare_fresh Y E (rb_coord rb) q cand = Inr pn"
  using commit_prepare_cases [OF assms] by auto

lemma fresh_commit_document:
  assumes Y: "yrs_replicas Y" and j: "journal_ok Y sha c hist d" and r: "resident_ok Y c hist rb"
    and head: "d_head d = Some row" "hr_processed_seq row = bc_processed_seq (rb_coord rb)" "hr_state row = ''ready''"
    and prep: "commit_prepare Y E rb d0 q = Inr (Inr pn)"
  shows "hist_doc Y c hist (hist_top c hist) = Inr (bc_doc (rb_coord rb))
    \<and> (\<exists>doc'. apply_bytes Y ''decode persisted yupdate'' ''apply persisted yupdate''
               (pc_yupdate (pn_prepared pn)) (bc_doc (rb_coord rb)) = Inr doc'
          \<and> doc_to_snapshot Y doc' = Inr (pc_expected_projection (pn_prepared pn))
          \<and> validated Y E (bc_doc (rb_coord rb)) (pc_yupdate (pn_prepared pn)) doc')"
proof -
  let ?co = "rb_coord rb" and ?p = "pn_prepared pn"
  have co: "coordinator_ok Y ?co" using r by (simp add: resident_ok_def)
  have top: "hist_doc Y c hist (hist_top c hist) = Inr (bc_doc ?co)"
    using r j head by (simp add: resident_ok_def journal_ok_def head_ok_def)
  obtain cand request where req: "prepare_candidate Y E ?co (cq_payload q) cand = Inr (?p, pn_payload pn)"
    "v_validate E request = Inr ()" "vr_base_update request = pc_base_update ?p"
    "vr_base_state_vector request = pc_base_state_vector ?p" "vr_candidate request = pc_yupdate ?p"
    "v_json_to_vec E (pc_expected_projection ?p) = Some (vr_expected_projection request)"
    using commit_prepare_fresh [OF prep] prepare_fresh_cases [of Y E ?co q _ pn] by blast
  have "(\<exists>doc'. apply_bytes Y ''decode persisted yupdate'' ''apply persisted yupdate'' (pc_yupdate ?p) (bc_doc ?co) = Inr doc'
      \<and> doc_to_snapshot Y doc' = Inr (pc_expected_projection ?p))
    \<and> pc_base_update ?p = fst (encode_base Y (bc_doc ?co)) \<and> pc_base_state_vector ?p = snd (encode_base Y (bc_doc ?co))"
    using prepare_candidate_cases [OF req(1)]
  proof
    assume "\<exists>u. prepare_external Y ?co 0 (cq_payload q) u = Inr (?p, pn_payload pn)"
    then obtain u where u: "prepare_external Y ?co 0 (cq_payload q) u = Inr (?p, pn_payload pn)" ..
    from prepare_external_candidate [OF Y co u] prepare_external_base [OF u] show ?thesis by auto
  next
    assume n: "prepare_noop Y ?co 0 (cq_payload q) = Inr (?p, pn_payload pn)"
    from prepare_noop_candidate [OF Y n] prepare_noop_base [OF n] show ?thesis by auto
  qed
  then have app: "\<exists>doc'. apply_bytes Y ''decode persisted yupdate'' ''apply persisted yupdate'' (pc_yupdate ?p) (bc_doc ?co) = Inr doc'
      \<and> doc_to_snapshot Y doc' = Inr (pc_expected_projection ?p)"
    and base: "pc_base_update ?p = fst (encode_base Y (bc_doc ?co))"
      "pc_base_state_vector ?p = snd (encode_base Y (bc_doc ?co))" by blast+
  obtain doc' where doc': "apply_bytes Y ''decode persisted yupdate'' ''apply persisted yupdate'' (pc_yupdate ?p) (bc_doc ?co) = Inr doc'"
    "doc_to_snapshot Y doc' = Inr (pc_expected_projection ?p)" using app by blast
  have "doc_from_base Y (vr_base_update request) (vr_base_state_vector request) (y_client Y (bc_doc ?co)) = Inr (bc_doc ?co)"
    using doc_from_base_encode [OF Y, of "bc_doc ?co"] co req base by (simp add: coordinator_ok_def)
  then have "validated Y E (bc_doc ?co) (pc_yupdate ?p) doc'"
    unfolding validated_def using req doc'(2) by blast
  with top doc' show ?thesis by blast
qed

lemma commit_once_effect:
  assumes Y: "yrs_replicas Y" and j: "journal_ok Y sha c hist d" and r: "resident_ok Y c hist rb"
    and once: "commit_once Y E new_id now q d0 d rb = (Inr result, keep, d')" and changed: "d' \<noteq> d"
  shows "\<exists>yupdate doc doc' rb'. hist_top c hist < res_seq result
    \<and> journal_ok Y sha c (hist @ [(res_seq result, yupdate)]) d'
    \<and> hist_doc Y c hist (hist_top c hist) = Inr doc \<and> validated Y E doc yupdate doc'
    \<and> hist_doc Y c (hist @ [(res_seq result, yupdate)]) (res_seq result) = Inr doc'
    \<and> keep = Keep rb' \<and> resident_ok Y c (hist @ [(res_seq result, yupdate)]) rb'
    \<and> bc_processed_seq (rb_coord rb') = res_seq result"
proof -
  obtain pn where pn: "commit_prepare Y E rb d0 q = Inr (Inr pn)"
    using once changed by (auto simp: commit_once_def split: sum.splits)
  obtain seq eid cid where tx: "commit_tx E new_id now q rb pn d = Inr ((seq, eid, cid), d')"
    and res: "res_seq result = seq"
    using once by (auto simp: commit_once_def pn Let_def split: sum.splits commit_error.splits)
  let ?co = "rb_coord rb" and ?b = "pc_yupdate (pn_prepared pn)"
  note e = commit_tx_effect [OF tx]
  obtain row where row: "d_head d = Some row" "hr_processed_seq row = bc_processed_seq ?co" "hr_state row = ''ready''"
    using e by blast
  obtain doc' where doc: "hist_doc Y c hist (hist_top c hist) = Inr (bc_doc ?co)"
    and doc': "apply_bytes Y ''decode persisted yupdate'' ''apply persisted yupdate'' ?b (bc_doc ?co) = Inr doc'"
      "doc_to_snapshot Y doc' = Inr (pc_expected_projection (pn_prepared pn))" "validated Y E (bc_doc ?co) ?b doc'"
    using fresh_commit_document [OF Y j r row pn] by blast
  have "rows_ok c hist d" using j by (simp add: journal_ok_def)
  then have top: "hist_top c hist < seq"
    using e unfolding rows_ok_def hist_top_def by (auto simp: last_in_set)
  have hok: "hist_ok Y c hist" using j by (simp add: journal_ok_def)
  note happ = hist_ok_append [OF hok Y top doc doc'(1,2)]
  have jok: "journal_ok Y sha c (hist @ [(seq, ?b)]) d'"
    by (rule journal_ok_append [OF j tx]) (use r happ in \<open>simp_all add: resident_ok_def\<close>)
  let ?rb = "rb\<lparr>rb_coord := ?co\<lparr>bc_doc := doc', bc_processed_seq := seq\<rparr>\<rparr>"
  have ac: "apply_committed Y ((pn_prepared pn)\<lparr>pc_seq := seq\<rparr>) ?co = Inr (?co\<lparr>bc_doc := doc', bc_processed_seq := seq\<rparr>)"
    using doc'(1) by (simp add: apply_committed_def apply_persisted_update_def)
  have keep: "keep = Keep ?rb" using once by (simp add: commit_once_def pn tx ac Let_def)
  have "coordinator_ok Y (?co\<lparr>bc_doc := doc', bc_processed_seq := seq\<rparr>)"
    using apply_committed_ok [OF Y _ ac] r by (simp add: resident_ok_def)
  moreover have "cr_base_seq c \<le> seq" using r top by (simp add: resident_ok_def)
  ultimately have "resident_ok Y c (hist @ [(seq, ?b)]) ?rb"
    using r happ by (simp add: resident_ok_def)
  then show ?thesis using res top jok doc doc'(3) happ keep by auto
qed

text \<open>C1: A commit that is acknowledged as new is safe across instances: its sequence is above everything in the
  journal, the validator accepted exactly the update stored, applied to exactly the durable document the
  journal held when the transaction ran (whatever other instances did since the candidate was built),
  and afterwards the journal, extended by this update, and the resident agree; it is never
  acknowledged with the resident lost.\<close>

theorem commit_validated_durable:
  assumes Y: "yrs_replicas Y" and j: "journal_ok Y sha c hist d" and r: "resident_ok Y c hist rb"
    and once: "commit_once Y E new_id now q d0 d rb = (Inr result, keep, d')" and changed: "d' \<noteq> d"
  shows "\<exists>yupdate doc doc' rb'. hist_top c hist < res_seq result
    \<and> journal_ok Y sha c (hist @ [(res_seq result, yupdate)]) d'
    \<and> hist_doc Y c hist (hist_top c hist) = Inr doc \<and> validated Y E doc yupdate doc'
    \<and> hist_doc Y c (hist @ [(res_seq result, yupdate)]) (res_seq result) = Inr doc'
    \<and> keep = Keep rb' \<and> resident_ok Y c (hist @ [(res_seq result, yupdate)]) rb'
    \<and> bc_processed_seq (rb_coord rb') = res_seq result"
  using commit_once_effect [OF assms] .

subsection \<open>Errors and retries\<close>

lemma find_append_new:
  "x \<notin> f ` set xs \<Longrightarrow> f y = x \<Longrightarrow> find (\<lambda>u. f u = x) (xs @ [y]) = Some y"
  by (induction xs) auto

lemma dedup_fresh_row:
  assumes prep: "commit_prepare Y E rb d0 q = Inr (Inr pn)" and tx: "commit_tx E new_id now q rb pn d = Inr ((seq, eid, cid), d')"
    and k: "cq_client_event_id q = Some k"
    and row: "read_by_client_event_id d2 k = read_by_client_event_id d' k"
  shows "\<exists>cand ack. decode_candidate E q = Inr cand \<and> dedup E d2 q cand = Inr (Some ack) \<and> res_seq ack = seq
    \<and> res_yupdate_b64 ack = v_b64_encode E (pc_yupdate (pn_prepared pn))"
proof -
  note e = commit_tx_effect [OF tx]
  obtain u where u: "d_updates d' = d_updates d @ [u]" "u_seq u = seq" "u_client_event_id u = cid"
    "u_payload_hash u = v_payload_hash E (cq_payload q)" "u_source u = pn_source pn"
    "u_update_hash u = pn_update_hash pn" "u_yupdate u = pc_yupdate (pn_prepared pn)" using e by blast
  have cid: "cid = k" "cid \<notin> u_client_event_id ` set (d_updates d)" using e k by blast+
  have rd: "read_by_client_event_id d2 k = Some u"
    unfolding row
    unfolding read_by_client_event_id_def u(1)
    by (rule find_append_new) (use cid u(3) in simp_all)
  obtain cand where cand: "decode_candidate E q = Inr cand" "prepare_fresh Y E (rb_coord rb) q cand = Inr pn"
    using commit_prepare_fresh [OF prep] by blast
  have src: "pn_source pn = (if cand = None then ''server'' else ''client'')"
    "\<forall>x. cand = Some x \<longrightarrow> pn_update_hash pn = dc_update_hash x"
    using prepare_fresh_cases [OF cand(2)] by blast+
  then have "(case cand of None \<Rightarrow> u_source u = ''server''
      | Some x \<Rightarrow> u_source u = ''client'' \<and> u_update_hash u = dc_update_hash x)"
    using u by (cases cand) simp_all
  then show ?thesis
    using cand(1) rd k u by (auto simp: dedup_def Let_def from_persisted_def)
qed

text \<open>C7: Commits are idempotent: once a request with a client event id has been committed, sending it again to any
  ready resident of any instance is acknowledged with the same sequence and the same update bytes and
  changes nothing, whatever was committed, compacted or re-based in the meantime, as long as the
  journal still has the row.\<close>

theorem commit_retry_idempotent:
  assumes "commit_once Y E new_id now q d0 d rb = (Inr result, keep, d')" and "d' \<noteq> d"
    and "cq_client_event_id q = Some k"
    and "read_by_client_event_id d2 k = read_by_client_event_id d' k" and "rb_state rb2 = Ready"
  shows "\<exists>ack. commit_once Y E new_id2 now2 q d2 d3 rb2 = (Inr ack, Keep rb2, d3)
    \<and> res_seq ack = res_seq result \<and> res_yupdate_b64 ack = res_yupdate_b64 result"
proof -
  obtain pn where pn: "commit_prepare Y E rb d0 q = Inr (Inr pn)"
    using assms(1,2) by (auto simp: commit_once_def split: sum.splits)
  obtain seq eid cid where tx: "commit_tx E new_id now q rb pn d = Inr ((seq, eid, cid), d')"
    and res: "res_seq result = seq" "res_yupdate_b64 result = v_b64_encode E (pc_yupdate (pn_prepared pn))"
    using assms(1) by (auto simp: commit_once_def pn Let_def split: sum.splits commit_error.splits)
  obtain cand ack where "decode_candidate E q = Inr cand" "dedup E d2 q cand = Inr (Some ack)" "res_seq ack = seq"
    "res_yupdate_b64 ack = v_b64_encode E (pc_yupdate (pn_prepared pn))"
    using dedup_fresh_row [OF pn tx assms(3,4)] by blast
  then show ?thesis using assms(5) res by (simp add: commit_once_def commit_prepare_def)
qed

subsection \<open>Activation\<close>

lemma state_from_str_Ready: "(case state_from_str s of Some x \<Rightarrow> x | None \<Rightarrow> Quarantined) = Ready \<longleftrightarrow> s = ''ready''"
  by (auto simp: state_from_str_def)

lemma top_needed:
  assumes j: "journal_ok Y sha c hist d"
  shows "needed d c (hist_top c hist)"
proof -
  let ?f = "filter (\<lambda>s. hist_top c hist \<le> s_last_event_seq s) (lineage d c)"
  have "s_last_event_seq s = hist_top c hist" if "s \<in> set ?f" for s
    using j that by (fastforce simp: journal_ok_def snapshot_ok_def)
  moreover have "distinct (map s_last_event_seq ?f)" using j by (simp add: journal_ok_def distinct_map_filter)
  ultimately have "card (set (map s_last_event_seq ?f)) = length ?f" "set (map s_last_event_seq ?f) \<subseteq> {hist_top c hist}"
    by (auto dest: distinct_card)
  then have "length ?f \<le> 1" by (metis card_mono finite.emptyI finite.insertI is_singletonI is_singleton_altdef)
  then show ?thesis by (simp add: needed_def)
qed

lemma max_event_top:
  assumes j: "journal_ok Y sha c hist d"
  shows "max_event_seq d (cr_base_seq c) = hist_top c hist"
proof -
  have rows: "rows_ok c hist d" and s: "sorted_wrt (\<lambda>p q. fst p < fst q) hist"
    using j by (simp_all add: journal_ok_def hist_ok_def)
  show ?thesis
  proof (cases "hist = []")
    case True
    then have "d_events d = []" using rows by (cases "d_events d") (auto simp: rows_ok_def)
    then show ?thesis by (simp add: max_event_seq_def hist_top_def True)
  next
    case False
    then have "last hist \<in> set hist" "fst (last hist) = hist_top c hist" by (simp_all add: hist_top_def)
    then have "hist_top c hist \<in> e_seq ` set (d_events d)"
      using rows top_needed [OF j] unfolding rows_ok_def by (metis)
    moreover have "x \<le> hist_top c hist" if "x \<in> e_seq ` set (d_events d)" for x
      using that rows hist_top_ge [OF s, of _ c] by (fastforce simp: rows_ok_def)
    ultimately have "Max (e_seq ` set (d_events d)) = hist_top c hist" "d_events d \<noteq> []"
      by (auto intro: Max_eqI)
    then show ?thesis by (simp add: max_event_seq_def)
  qed
qed

lemma rows_ok_head: "rows_ok c hist (d\<lparr>d_head := r\<rparr>) = rows_ok c hist d"
  by (simp add: rows_ok_def needed_def lineage_def lineage_snapshots_def)

lemma lineage_head: "lineage (d\<lparr>d_head := r\<rparr>) c = lineage d c"
  by (simp add: lineage_def lineage_snapshots_def)

lemma journal_ok_head:
  "journal_ok Y sha c hist d \<Longrightarrow> (hr_base_generation r = cr_base_generation c
     \<and> (hr_state r = ''ready'' \<longrightarrow> hr_processed_seq r = hist_top c hist)) \<Longrightarrow>
   journal_ok Y sha c hist (d\<lparr>d_head := Some r\<rparr>)"
  by (simp add: journal_ok_def rows_ok_head lineage_head head_ok_def)

lemma tx1_journal:
  assumes j: "journal_ok Y sha c hist d" and q: "\<forall>h. read_head d = Some h \<longrightarrow> h_state h \<noteq> Quarantined"
  shows "\<exists>epoch ready d1 r. activation_tx1 d (base_to_domain c) = Inr ((epoch, hist_top c hist, ready), d1)
    \<and> journal_ok Y sha c hist d1 \<and> d_head d1 = Some r \<and> hr_writer_epoch r = epoch
    \<and> hr_state r = (if ready then ''ready'' else ''activating'')
    \<and> (\<forall>r0. d_head d = Some r0 \<longrightarrow> hr_writer_epoch r0 \<le> epoch)"
proof -
  have hd: "head_ok c hist d" and base: "cr_base_seq c \<le> hist_top c hist"
    using j hist_top_base by (auto simp: journal_ok_def hist_ok_def)
  let ?act = "\<lambda>r. d\<lparr>d_head := Some r\<rparr>"
  have mx: "max_event_seq (?act r) (cr_base_seq c) = hist_top c hist" for r
    using max_event_top [OF j] by (simp add: max_event_seq_def split: if_splits)
  show ?thesis
  proof (cases "d_head d")
    case None
    let ?r = "\<lparr>hr_processed_seq = 0, hr_base_generation = cr_base_generation c, hr_writer_epoch = 1,
                   hr_state = ''activating''\<rparr>"
    have "journal_ok Y sha c hist (?act ?r)" by (rule journal_ok_head [OF j]) simp
    then show ?thesis
      using None mx [of ?r]
      by (intro exI [of _ 1] exI [of _ False] exI [of _ "?act ?r"] exI [of _ ?r])
        (simp add: activation_tx1_def read_head_def begin_activation_def Let_def base_to_domain_def head_to_domain_def)
  next
    case (Some r0)
    show ?thesis
    proof (cases "hr_state r0 = ''ready''")
      case True
      then have "hr_processed_seq r0 = hist_top c hist" "hr_base_generation r0 = cr_base_generation c"
        using hd Some by (simp_all add: head_ok_def)
      then show ?thesis
        using Some True base j
        by (intro exI [of _ "hr_writer_epoch r0"] exI [of _ True] exI [of _ d] exI [of _ r0])
          (simp add: activation_tx1_def read_head_def head_is_ready_def base_to_domain_def head_to_domain_def
            state_from_str_def)
    next
      case False
      let ?r = "r0\<lparr>hr_state := ''activating'', hr_base_generation := cr_base_generation c,
                       hr_writer_epoch := hr_writer_epoch r0 + 1\<rparr>"
      have "journal_ok Y sha c hist (?act ?r)" by (rule journal_ok_head [OF j]) simp
      moreover have "h_state (head_to_domain r0) \<noteq> Ready"
        using False state_from_str_Ready by (simp add: head_to_domain_def)
      ultimately show ?thesis
        using Some mx [of ?r] q
        by (intro exI [of _ "hr_writer_epoch r0 + 1"] exI [of _ False] exI [of _ "?act ?r"] exI [of _ ?r])
          (simp add: activation_tx1_def read_head_def begin_activation_def head_is_ready_def Let_def
            base_to_domain_def head_to_domain_def)
    qed
  qed
qed

lemma activation_recovers:
  assumes Y: "yrs_replicas Y" and j: "journal_ok Y sha c hist d"
    and q: "\<forall>h. read_head d = Some h \<longrightarrow> h_state h \<noteq> Quarantined"
  shows "\<exists>rb d' r. activate Y sha (\<lambda>x. x) d = Inr (rb, d') \<and> resident_ok Y c hist rb
    \<and> bc_processed_seq (rb_coord rb) = hist_top c hist \<and> journal_ok Y sha c hist d'
    \<and> d_head d' = Some r \<and> hr_state r = ''ready'' \<and> hr_processed_seq r = hist_top c hist
    \<and> hr_writer_epoch r = rb_writer_epoch rb"
proof -
  obtain epoch ready d1 r where t: "activation_tx1 d (base_to_domain c) = Inr ((epoch, hist_top c hist, ready), d1)"
    "journal_ok Y sha c hist d1" "d_head d1 = Some r" "hr_writer_epoch r = epoch"
    "hr_state r = (if ready then ''ready'' else ''activating'')"
    using tx1_journal [OF j q] by blast
  obtain b coord0 coord where b: "preferred_activation_base Y sha d1 (base_to_domain c) (hist_top c hist) = Inr b"
    "from_base Y b (cb_base_seq b) = Inr coord0"
    "catch_up_all Y d1 (hist_top c hist) coord0 (cb_base_seq b) = Inr coord"
    "assert_valid_projection Y coord = Inr ()" "coordinator_ok Y coord"
    "bc_server_client_id coord = cr_server_client_id c"
    "bc_base_generation coord = cr_base_generation c" "bc_processed_seq coord = hist_top c hist"
    "hist_doc Y c hist (hist_top c hist) = Inr (bc_doc coord)"
    using rebuild [OF Y t(2)] by blast
  let ?rb = "\<lparr>rb_coord = coord, rb_writer_epoch = epoch, rb_state = Ready\<rparr>"
  let ?r = "if ready then r else r\<lparr>hr_state := ''ready'', hr_processed_seq := hist_top c hist\<rparr>"
  let ?d = "if ready then d1 else d1\<lparr>d_head := Some ?r\<rparr>"
  have base: "d_base d = Some c" "cr_abandoned_at c = None" "cr_base_seq c \<le> hist_top c hist"
    using j hist_top_base by (auto simp: journal_ok_def hist_ok_def)
  have hd: "head_ok c hist d1" using t(2) by (simp add: journal_ok_def)
  have act: "activate Y sha (\<lambda>x. x) d = Inr (?rb, ?d)"
    using base t b by (simp add: activate_def read_base_def Let_def mark_ready_def)
  have "journal_ok Y sha c hist (d1\<lparr>d_head := Some (r\<lparr>hr_state := ''ready'', hr_processed_seq := hist_top c hist\<rparr>)\<rparr>)"
    by (rule journal_ok_head [OF t(2)]) (use hd t(3) in \<open>simp add: head_ok_def\<close>)
  then have "journal_ok Y sha c hist ?d" using t(2) by simp
  moreover have "d_head ?d = Some ?r \<and> hr_state ?r = ''ready'' \<and> hr_processed_seq ?r = hist_top c hist
      \<and> hr_writer_epoch ?r = epoch"
    using t hd by (auto simp: head_ok_def)
  moreover have "resident_ok Y c hist ?rb" using b base by (simp add: resident_ok_def)
  ultimately show ?thesis using act b(8)
    by (intro exI [of _ ?rb] exI [of _ ?d] exI [of _ ?r]) simp
qed

text \<open>C3: Recovery is exact and never gets stuck: from any consistent journal whose board is not quarantined, whatever
  crashed or was evicted before, activation succeeds and installs a resident that holds exactly the
  document of the full history (although retention may have deleted most of it), at its top,
  owning the head's writer epoch, with the journal still consistent and ready.\<close>

theorem activation_recovers_history:
  assumes Y: "yrs_replicas Y" and j: "journal_ok Y sha c hist d"
    and q: "\<forall>h. read_head d = Some h \<longrightarrow> h_state h \<noteq> Quarantined"
  shows "\<exists>rb d' r. activate Y sha (\<lambda>x. x) d = Inr (rb, d') \<and> resident_ok Y c hist rb
    \<and> bc_processed_seq (rb_coord rb) = hist_top c hist \<and> journal_ok Y sha c hist d'
    \<and> d_head d' = Some r \<and> hr_state r = ''ready'' \<and> hr_processed_seq r = hist_top c hist
    \<and> hr_writer_epoch r = rb_writer_epoch rb"
  using activation_recovers [OF assms] .

end
