(* ===== verification/Retention.thy ===== *)
theory Retention
  imports Commit_Safety
begin

text \<open>
  Compaction and retention keep the journal faithful: a published checkpoint is the history's document at its
  barrier, and pruning deletes only rows that two checkpoints cover.
\<close>

subsection \<open>Compaction\<close>


lemma apply_tail_replay:
  "foldE (apply_tail_update Y) tail d = Inr d' \<longleftrightarrow> replay Y (map bt_yupdate tail) d = Inr d'"
proof (induction tail arbitrary: d)
  case (Cons t tail)
  have "apply_tail_update Y t d = Inr x
      \<longleftrightarrow> apply_bytes Y ''decode persisted yupdate'' ''apply persisted yupdate'' (bt_yupdate t) d = Inr x" for x
    by (simp add: apply_tail_update_def apply_bytes_def result_simps)
  then show ?case using Cons by (simp add: replay_def result_simps)
qed (simp add: replay_def)

lemma replay_client: "yrs_replicas Y \<Longrightarrow> replay Y bs d = Inr d' \<Longrightarrow> y_client Y d' = y_client Y d"
proof (induction bs arbitrary: d)
  case (Cons b bs)
  then show ?case using apply_bytes_client by (fastforce simp: replay_def result_simps)
qed (simp add: replay_def)

lemma doc_from_base_client:
  "yrs_replicas Y \<Longrightarrow> doc_from_base Y u v i = Inr d \<Longrightarrow> y_client Y d = i \<and> server_id_in_band i"
  by (auto simp: doc_from_base_def yrs_replicas_def result_simps split: if_splits)

lemma compact_exact:
  assumes Y: "yrs_replicas Y" and k: "compact_binary_snapshot Y sha base target tail = Inr k"
  shows "\<exists>doc0 doc v. doc_from_base Y (bs_state_update base) (bs_state_vector base) (bs_server_client_id base) = Inr doc0
    \<and> replay Y (map bt_yupdate tail) doc0 = Inr doc
    \<and> doc_from_base Y (k_state_update k) (k_state_vector k) (k_server_client_id k) = Inr doc
    \<and> doc_schema_version Y doc = Inr v \<and> k_schema_version k = ucast v
    \<and> k_last_event_seq k = target \<and> k_base_generation k = bs_base_generation base
    \<and> k_server_client_id k = bs_server_client_id base \<and> k_protocol_version k = ucast PROTOCOL_VERSION
    \<and> k_output_bytes k = int (length (k_state_update k)) \<and> k_state_sha256 k = sha (k_state_update k)
    \<and> bs_last_event_seq base \<le> target"
proof -
  have t: "\<not> target < bs_last_event_seq base"
    using k by (auto simp: compact_binary_snapshot_def split: if_splits)
  obtain doc0 where doc0: "doc_from_base Y (bs_state_update base) (bs_state_vector base) (bs_server_client_id base) = Inr doc0"
    using k by (auto simp: compact_binary_snapshot_def bindE_Inr_iff map_errE_Inr_iff t)
  obtain doc where doc: "foldE (apply_tail_update Y) tail doc0 = Inr doc"
    using k by (auto simp: compact_binary_snapshot_def bindE_Inr_iff map_errE_Inr_iff t doc0)
  obtain v where v: "doc_schema_version Y doc = Inr v"
    using k by (auto simp: compact_binary_snapshot_def bindE_Inr_iff map_errE_Inr_iff t doc0 doc)
  have rp: "replay Y (map bt_yupdate tail) doc0 = Inr doc" using doc by (simp add: apply_tail_replay)
  have cl: "y_client Y doc = bs_server_client_id base" "server_id_in_band (bs_server_client_id base)"
    using replay_client [OF Y rp] doc_from_base_client [OF Y doc0] by simp_all
  obtain su sv where e: "encode_base Y doc = (su, sv)" by force
  have kk: "k_state_update k = fst (encode_base Y doc)" "k_state_vector k = snd (encode_base Y doc)"
    "k_last_event_seq k = target" "k_base_generation k = bs_base_generation base"
    "k_server_client_id k = bs_server_client_id base" "k_protocol_version k = ucast PROTOCOL_VERSION"
    "k_schema_version k = ucast v" "k_output_bytes k = int (length (k_state_update k))"
    "k_state_sha256 k = sha (k_state_update k)"
    using k by (auto simp: compact_binary_snapshot_def bindE_Inr_iff map_errE_Inr_iff t doc0 doc v e
        split: if_splits)
  have "doc_from_base Y (k_state_update k) (k_state_vector k) (k_server_client_id k) = Inr doc"
    using doc_from_base_encode [OF Y, of doc] cl by (simp add: kk)
  with doc0 rp v kk t show ?thesis by (auto simp: not_less)
qed

lemma read_base_tail:
  assumes j: "journal_ok Y sha c hist d" and b: "bs_last_event_seq base = n"
    and nd: "\<forall>p \<in> set hist. n < fst p \<longrightarrow> needed d c (fst p)"
  shows "map bt_yupdate (read_tail d (cr_base_generation c) (hist_top c hist) n)
    = map snd (filter (\<lambda>p. n < fst p) hist)"
proof -
  have rows: "rows_ok c hist d" and s: "sorted_wrt (\<lambda>p q. fst p < fst q) hist"
    using j by (simp_all add: journal_ok_def hist_ok_def)
  have "(\<lambda>u. u_seq u \<le> hist_top c hist \<and> u_base_generation u = cr_base_generation c) u" if "u \<in> set (d_updates d)" for u
    using that rows hist_top_ge [OF s, of "(u_seq u, u_yupdate u)" c] by (simp add: rows_ok_def)
  then have tr: "tail_rows (d, hist_top c hist, cr_base_generation c) = d_updates d"
    by (simp add: tail_rows_def filter_id_conv)
  have "distinct (map u_seq (d_updates d))" using rows by (simp add: rows_ok_def)
  then have "read_tail d (cr_base_generation c) (hist_top c hist) n = map tail_of_row (log_after u_seq (d_updates d) n)"
    using read_tail_exact [of d "hist_top c hist" "cr_base_generation c" n] by (simp add: tr)
  then show ?thesis using rows_after(2) [OF rows s nd] by (simp add: comp_def)
qed

lemma insert_snapshot_needed:
  "insert_snapshot d src k = (b, d') \<Longrightarrow> needed d' c n \<Longrightarrow> needed d c n"
  by (auto simp: insert_snapshot_def needed_def lineage_def lineage_snapshots_def split: if_splits)

lemma head_ready_top:
  "journal_ok Y sha c hist d \<Longrightarrow> read_head d = Some h \<Longrightarrow> h_state h = Ready \<Longrightarrow> h_processed_seq h = hist_top c hist"
  using state_from_str_Ready
  by (fastforce simp: journal_ok_def head_ok_def read_head_def head_to_domain_def)

lemma insert_snapshot_journal:
  assumes j: "journal_ok Y sha c hist d" and s: "snapshot_ok Y sha c hist (snapshot_row ''canonical_compaction'' k)"
    and ids: "k_server_client_id k = cr_server_client_id c" "k_base_generation k = cr_base_generation c"
    and ins: "insert_snapshot d ''canonical_compaction'' k = (b, d')"
  shows "journal_ok Y sha c hist d'"
proof (cases b)
  case False
  then show ?thesis using ins j by (auto simp: insert_snapshot_def split: if_splits)
next
  case True
  let ?s = "snapshot_row ''canonical_compaction'' k"
  have new: "snapshot_key ?s \<notin> snapshot_key ` set (d_snapshots d)" and d': "d' = d\<lparr>d_snapshots := d_snapshots d @ [?s]\<rparr>"
    using ins True by (auto simp: insert_snapshot_def split: if_splits)
  have lin: "lineage d' c = lineage d c @ [?s]"
    using ids by (simp add: d' lineage_def lineage_snapshots_def snapshot_row_def)
  have "s_last_event_seq ?s \<notin> s_last_event_seq ` set (lineage d c)"
  proof
    assume "s_last_event_seq ?s \<in> s_last_event_seq ` set (lineage d c)"
    then obtain t where t: "t \<in> set (lineage d c)" "s_last_event_seq t = s_last_event_seq ?s" by auto
    then have "snapshot_key t = snapshot_key ?s" "t \<in> set (d_snapshots d)"
      using ids by (auto simp: lineage_def lineage_snapshots_def snapshot_key_def snapshot_row_def)
    then show False using new by (metis image_eqI)
  qed
  moreover have "rows_ok c hist d'"
    using j insert_snapshot_needed [OF ins, of c] by (auto simp: journal_ok_def rows_ok_def d')
  ultimately show ?thesis
    using j s unfolding journal_ok_def lin by (simp add: d' head_ok_def) (simp add: snapshot_row_def)
qed

lemma sorted_append_top:
  "sorted_wrt (\<lambda>p q. fst p < fst q) (hist @ later) \<Longrightarrow> \<forall>p \<in> set (hist @ later). cr_base_seq c < fst p \<Longrightarrow>
   hist_top c (hist @ later) = hist_top c hist \<Longrightarrow> later = []"
  by (cases later rule: rev_cases; cases hist rule: rev_cases) (auto simp: hist_top_def sorted_wrt_append)

lemma compact_one_effect:
  assumes Y: "yrs_replicas Y" and j: "journal_ok Y sha c hist d" and j': "journal_ok Y sha c (hist @ later) d'"
    and cand: "cc_server_client_id cand = cr_server_client_id c" "cc_base_generation cand = cr_base_generation c"
    and run: "compact_one Y sha d d' cand = Inr (published, d'')"
  shows "journal_ok Y sha c (hist @ later) d'' \<and> (published \<longrightarrow> later = [] \<and>
    (\<exists>s doc. s \<in> set (lineage d'' c) \<and> s_last_event_seq s = hist_top c hist
       \<and> doc_from_base Y (s_state_update s) (s_state_vector s) (s_server_client_id s) = Inr doc
       \<and> hist_doc Y c hist (hist_top c hist) = Inr doc))"
proof -
  obtain h where h: "read_head d = Some h" using run by (auto simp: compact_one_def result_simps)
  show ?thesis
  proof (cases "h_state h \<noteq> Ready \<or> h_processed_seq h \<noteq> cc_processed_seq cand
        \<or> h_base_generation h \<noteq> cc_base_generation cand \<or> h_writer_epoch h \<noteq> cc_writer_epoch cand")
    case True
    then have "published = False" "d'' = d'" using run h by (auto simp: compact_one_def)
    then show ?thesis using j' by simp
  next
    case False
    then have top: "cc_processed_seq cand = hist_top c hist" using head_ready_top [OF j h] by simp
    have base: "d_base d = Some c" using j by (simp add: journal_ok_def)
    let ?chk = "read_latest_at_or_before d (cr_base_generation c) (cr_server_client_id c) (hist_top c hist)"
    let ?b = "compaction_base c ?chk"
    let ?tail = "read_tail d (cr_base_generation c) (hist_top c hist) (bs_last_event_seq ?b)"
    obtain k where k: "compact_binary_snapshot Y sha ?b (hist_top c hist) ?tail = Inr k"
      and pub: "publish_snapshot_cas d' cand k = Inr (published, d'')"
      using run False by (auto simp: compact_one_def h read_base_def base Let_def cand top result_simps)
    obtain b doc0 where b: "preferred_activation_base Y sha d (base_to_domain c) (hist_top c hist) = Inr b"
      "cb_base_generation b = cr_base_generation c" "cb_server_client_id b = cr_server_client_id c"
      "hist_doc Y c hist (cb_base_seq b) = Inr doc0"
      "doc_from_base Y (cb_state_update b) (cb_state_vector b) (cb_server_client_id b) = Inr doc0"
      "\<forall>p \<in> set hist. cb_base_seq b < fst p \<longrightarrow> needed d c (fst p)" "cr_base_seq c \<le> cb_base_seq b"
      using checkpoint_covers [OF j] by blast
    have same: "bs_state_update ?b = cb_state_update b" "bs_state_vector ?b = cb_state_vector b"
      "bs_last_event_seq ?b = cb_base_seq b" "bs_base_generation ?b = cb_base_generation b"
      "bs_server_client_id ?b = cb_server_client_id b"
      using b(1) by (auto simp: preferred_activation_base_def base_to_domain_def compaction_base_def result_simps
          split: option.splits if_splits)
    obtain doc1 doc v where ex: "doc_from_base Y (cb_state_update b) (cb_state_vector b) (cb_server_client_id b) = Inr doc1"
      "replay Y (map bt_yupdate ?tail) doc1 = Inr doc"
      "doc_from_base Y (k_state_update k) (k_state_vector k) (k_server_client_id k) = Inr doc"
      "doc_schema_version Y doc = Inr v" "k_schema_version k = ucast v" "k_last_event_seq k = hist_top c hist"
      "k_base_generation k = cb_base_generation b" "k_server_client_id k = cb_server_client_id b"
      "k_protocol_version k = ucast PROTOCOL_VERSION" "k_output_bytes k = int (length (k_state_update k))"
      "k_state_sha256 k = sha (k_state_update k)" "cb_base_seq b \<le> hist_top c hist"
      using compact_exact [OF Y k] unfolding same by blast
    have s: "sorted_wrt (\<lambda>p q. fst p < fst q) hist" using j by (simp add: journal_ok_def hist_ok_def)
    have "hist_doc Y c hist (hist_top c hist) = Inr doc"
      using hist_doc_tail [OF s, of Y c "cb_base_seq b"] b(4,5) ex(1,2) read_base_tail [OF j same(3) b(6)]
      by (simp add: same)
    note hd = this
    show ?thesis
    proof (cases "\<exists>h'. read_head d' = Some h' \<and> h_state h' = Ready \<and> h_processed_seq h' = cc_processed_seq cand
              \<and> h_base_generation h' = cc_base_generation cand \<and> h_writer_epoch h' = cc_writer_epoch cand")
      case False
      then have "published = False" "d'' = d'" using pub by (auto simp: publish_snapshot_cas_def split: option.splits if_splits)
      then show ?thesis using j' by simp
    next
      case True
      then obtain h' where h': "read_head d' = Some h'" "h_state h' = Ready" "h_processed_seq h' = hist_top c hist"
        using top by auto
      then have "hist_top c (hist @ later) = hist_top c hist" using head_ready_top [OF j'] by simp
      moreover have "hist_ok Y c (hist @ later)" using j' by (simp add: journal_ok_def)
      ultimately have later: "later = []" using sorted_append_top [of hist later c] by (simp add: hist_ok_def)
      obtain ins where ins: "insert_snapshot d' ''canonical_compaction'' k = (ins, d'')" "published"
        "\<not> ins \<longrightarrow> exact_snapshot_exists d'' k"
        using pub True by (auto simp: publish_snapshot_cas_def split: prod.splits if_splits)
      have ok: "snapshot_ok Y sha c hist (snapshot_row ''canonical_compaction'' k)"
        using ex b(2,3,7) hd by (auto simp: snapshot_ok_def snapshot_row_def content_hash_matches_def)
      have ids: "k_server_client_id k = cr_server_client_id c" "k_base_generation k = cr_base_generation c"
        using ex(7,8) b(2,3) by simp_all
      have jj: "journal_ok Y sha c hist d''"
        using insert_snapshot_journal [OF _ ok ids ins(1)] j' later by simp
      have "\<exists>t \<in> set (lineage d'' c). s_last_event_seq t = hist_top c hist"
      proof (cases ins)
        case True
        then have "snapshot_row ''canonical_compaction'' k \<in> set (lineage d'' c)"
          using ins(1) ids by (auto simp: insert_snapshot_def lineage_def lineage_snapshots_def snapshot_row_def
              split: if_splits)
        then show ?thesis using ex(6) by (force simp: snapshot_row_def)
      next
        case False
        then obtain t where t: "t \<in> set (d_snapshots d'')"
          "snapshot_key t = (k_server_client_id k, k_base_generation k, k_last_event_seq k)"
          using ins(3) by (auto simp: exact_snapshot_exists_def list_ex_iff)
        moreover have "s_source t = ''canonical_compaction''" using jj t(1) by (simp add: journal_ok_def)
        ultimately have "t \<in> set (lineage d'' c)"
          using ids by (simp add: lineage_def lineage_snapshots_def snapshot_key_def)
        then show ?thesis using t(2) ex(6) by (auto simp: snapshot_key_def)
      qed
      then obtain t where t: "t \<in> set (lineage d'' c)" "s_last_event_seq t = hist_top c hist" by blast
      then have "snapshot_ok Y sha c hist t" using jj by (simp add: journal_ok_def)
      then show ?thesis using t jj later hd by (auto simp: snapshot_ok_def)
    qed
  qed
qed

text \<open>C5: Compaction is faithful under concurrency: if the job read a journal with history \<open>hist\<close> and publishes into
  a database that other instances may have advanced by \<open>later\<close>, the journal stays consistent; and when
  it reports a publication, nothing was committed in between and the stored checkpoint reloads to exactly the
  document of the whole history, at its top.\<close>

theorem compaction_faithful:
  assumes Y: "yrs_replicas Y" and j: "journal_ok Y sha c hist d" and j': "journal_ok Y sha c (hist @ later) d'"
    and cand: "cc_server_client_id cand = cr_server_client_id c" "cc_base_generation cand = cr_base_generation c"
    and run: "compact_one Y sha d d' cand = Inr (published, d'')"
  shows "journal_ok Y sha c (hist @ later) d'' \<and> (published \<longrightarrow> later = [] \<and>
    (\<exists>s doc. s \<in> set (lineage d'' c) \<and> s_last_event_seq s = hist_top c hist
       \<and> doc_from_base Y (s_state_update s) (s_state_vector s) (s_server_client_id s) = Inr doc
       \<and> hist_doc Y c hist (hist_top c hist) = Inr doc))"
  using compact_one_effect [OF assms] .

end
