(* ===== verification/Pruning.thy ===== *)
theory Pruning
  imports Retention
begin

text \<open>
  Retention: \<open>prune_compacted_batch\<close> deletes only journal and event rows that two checkpoints of the current
  lineage cover, so every board keeps the document of its whole history, and it never removes the event of
  an update it keeps.
\<close>

subsection \<open>The barrier covers what it deletes\<close>

lemma newest_first_filter: "length (filter P (newest_first ss)) = length (filter P ss)"
  by (simp add: newest_first_def flip: size_mset)

lemma newest_first_two:
  assumes "newest_first ss = s1 # s # rest"
  shows "s_last_event_seq s \<le> s_last_event_seq s1"
proof -
  have "sort_key s_last_event_seq ss = rev rest @ [s, s1]"
    using arg_cong [OF assms, of rev] by (simp add: newest_first_def)
  then have "sorted (map s_last_event_seq (rev rest @ [s, s1]))" using sorted_sort_key [of s_last_event_seq ss] by simp
  then show ?thesis by (simp add: sorted_append)
qed

lemma barrier_covers:
  assumes b: "barrier d = Some (gen, seq)" and c: "d_base d = Some c" and n: "n \<le> seq"
  shows "\<not> needed d c n"
proof -
  obtain s1 s rest where l: "newest_first (lineage d c) = s1 # s # rest" "seq = s_last_event_seq s"
    using b c by (auto simp: barrier_def lineage_def split: option.splits list.splits if_splits)
  have "2 \<le> length (filter (\<lambda>s. n \<le> s_last_event_seq s) (newest_first (lineage d c)))"
    using newest_first_two [OF l(1)] n l(2) by (simp add: l(1))
  then show ?thesis by (simp add: needed_def newest_first_filter)
qed

text \<open>Dropping rows that are not needed keeps the journal.\<close>

definition drop_rows :: "(yrs_update_row \<Rightarrow> bool) \<Rightarrow> (event_record \<Rightarrow> bool) \<Rightarrow> bdb \<Rightarrow> bdb" where
  "drop_rows P Q d = d\<lparr>d_updates := filter P (d_updates d), d_events := filter Q (d_events d)\<rparr>"

lemma drop_rows_journal:
  assumes j: "journal_ok Y sha c hist d"
    and P: "\<And>u. u \<in> set (d_updates d) \<Longrightarrow> needed d c (u_seq u) \<Longrightarrow> P u"
    and Q: "\<And>e. e \<in> set (d_events d) \<Longrightarrow> needed d c (e_seq e) \<Longrightarrow> Q e"
  shows "journal_ok Y sha c hist (drop_rows P Q d)"
proof -
  let ?d = "drop_rows P Q d"
  have lin: "lineage ?d c = lineage d c" by (simp add: lineage_def lineage_snapshots_def drop_rows_def)
  then have nd: "needed ?d c n = needed d c n" for n by (simp add: needed_def)
  have rows: "rows_ok c hist d" using j by (simp add: journal_ok_def)
  have "rows_ok c hist ?d"
    unfolding rows_ok_def nd
  proof (intro conjI ballI impI)
    fix p assume p: "p \<in> set hist" "needed d c (fst p)"
    then have "fst p \<in> u_seq ` set (d_updates d)" "fst p \<in> e_seq ` set (d_events d)"
      using rows by (auto simp: rows_ok_def)
    then show "fst p \<in> u_seq ` set (d_updates ?d)" "fst p \<in> e_seq ` set (d_events ?d)"
      using P Q p(2) by (auto simp: drop_rows_def)
  qed (use rows in \<open>auto simp: rows_ok_def drop_rows_def distinct_map_filter\<close>)
  then show ?thesis using j unfolding journal_ok_def lin by (simp add: drop_rows_def head_ok_def)
qed

subsection \<open>The batch\<close>

definition pruned_board :: "victim set \<Rightarrow> victim set \<Rightarrow> uuid \<times> bdb \<Rightarrow> uuid \<times> bdb" where
  "pruned_board uv ev bd = (fst bd, drop_rows (\<lambda>u. (u_created_at u, fst bd, u_seq u) \<notin> uv)
     (\<lambda>e. (e_created_at e, fst bd, e_seq e) \<notin> ev) (snd bd))"

lemma delete_both: "delete_events ev (delete_updates uv bd) = pruned_board uv ev bd"
  by (simp add: delete_events_def delete_updates_def pruned_board_def drop_rows_def)

lemma barrier_delete_updates: "barrier (snd (delete_updates uv bd)) = barrier (snd bd)"
proof -
  have "lineage_snapshots (snd (delete_updates uv bd)) = lineage_snapshots (snd bd)"
    by (intro ext) (simp add: lineage_snapshots_def delete_updates_def)
  moreover have "d_head (snd (delete_updates uv bd)) = d_head (snd bd)" "d_base (snd (delete_updates uv bd)) = d_base (snd bd)"
    by (simp_all add: delete_updates_def)
  ultimately show ?thesis by (simp only: barrier_def)
qed

lemma update_victim_covered:
  assumes "(t, b, n) \<in> set (update_victims now days bd)" "d_base (snd bd) = Some c"
  shows "b = fst bd \<and> \<not> needed (snd bd) c n"
proof (cases "barrier (snd bd)")
  case (Some g)
  then obtain gen seq where "barrier (snd bd) = Some (gen, seq)" by (cases g) simp
  then show ?thesis using assms barrier_covers [of "snd bd" gen seq c] by (auto simp: update_victims_def)
qed (use assms in \<open>simp add: update_victims_def\<close>)

lemma event_victim_covered:
  assumes "(t, b, n) \<in> set (event_victims now days (delete_updates uv bd))" "d_base (snd bd) = Some c"
  shows "b = fst bd \<and> \<not> needed (snd bd) c n \<and> n \<notin> u_seq ` set (d_updates (snd (delete_updates uv bd)))"
proof (cases "barrier (snd bd)")
  case (Some g)
  then obtain gen seq where "barrier (snd bd) = Some (gen, seq)" by (cases g) simp
  then show ?thesis
    using assms barrier_covers [of "snd bd" gen seq c]
    by (auto simp: event_victims_def barrier_delete_updates) (auto simp: delete_updates_def)
qed (use assms in \<open>simp add: event_victims_def barrier_delete_updates\<close>)

lemma same_board:
  "distinct (map fst db) \<Longrightarrow> bd \<in> set db \<Longrightarrow> bd' \<in> set db \<Longrightarrow> fst bd = fst bd' \<Longrightarrow> bd = bd'"
  using eq_key_imp_eq_value by (metis prod.collapse)

lemma prune_effect:
  assumes dist: "distinct (map fst db)"
    and ok: "\<forall>bd \<in> set db. journal_ok Y sha (base (fst bd)) (hist (fst bd)) (snd bd)"
    and run: "prune_compacted_batch now db days limit = (res, db')"
  shows "map fst db' = map fst db
    \<and> (\<forall>bd \<in> set db'. journal_ok Y sha (base (fst bd)) (hist (fst bd)) (snd bd))
    \<and> (\<forall>(b, d) \<in> set db. \<exists>d'. (b, d') \<in> set db' \<and> set (d_updates d') \<subseteq> set (d_updates d)
         \<and> set (d_events d') \<subseteq> set (d_events d)
         \<and> (\<forall>e \<in> set (d_events d). e_seq e \<in> u_seq ` set (d_updates d') \<longrightarrow> e \<in> set (d_events d')))"
proof -
  let ?days = "max 7 (min 3650 days)" and ?limit = "nat (max 1 (min 10000 limit))"
  define uv where "uv = set (take ?limit (sort (concat (map (update_victims now ?days) db))))"
  define ev where "ev = set (take ?limit (sort (concat (map (event_victims now ?days) (map (delete_updates uv) db)))))"
  have uv: "\<exists>bd \<in> set db. v \<in> set (update_victims now ?days bd)" if "v \<in> uv" for v
    using that by (auto simp: uv_def dest!: in_set_takeD)
  have ev: "\<exists>bd \<in> set db. v \<in> set (event_victims now ?days (delete_updates uv bd))" if "v \<in> ev" for v
    using that by (auto simp: ev_def dest!: in_set_takeD)
  have db': "db' = map (pruned_board uv ev) db"
    using run by (auto simp: prune_compacted_batch_def Let_def uv_def ev_def delete_both)
  have base: "d_base (snd bd) = Some (base (fst bd))" if "bd \<in> set db" for bd
    using ok that by (simp add: journal_ok_def)
  have u: "\<not> needed (snd bd) (base (fst bd)) n" if "bd \<in> set db" "(t, fst bd, n) \<in> uv" for bd t n
    using uv [OF that(2)] update_victim_covered base same_board [OF dist] that(1) by metis
  have e: "\<not> needed (snd bd) (base (fst bd)) n \<and> n \<notin> u_seq ` set (d_updates (snd (delete_updates uv bd)))"
    if "bd \<in> set db" "(t, fst bd, n) \<in> ev" for bd t n
    using ev [OF that(2)] event_victim_covered base same_board [OF dist] that(1) by metis
  have "journal_ok Y sha (base (fst bd)) (hist (fst bd)) (snd (pruned_board uv ev bd))" if "bd \<in> set db" for bd
    unfolding pruned_board_def snd_conv
  proof (rule drop_rows_journal)
    show "journal_ok Y sha (base (fst bd)) (hist (fst bd)) (snd bd)" using ok that by blast
  qed (use u [OF that] e [OF that] in blast)+
  note ok' = this
  have kept: "e' \<in> set (d_events (snd (pruned_board uv ev bd)))"
    if "bd \<in> set db" "e' \<in> set (d_events (snd bd))" "e_seq e' \<in> u_seq ` set (d_updates (snd (pruned_board uv ev bd)))" for bd e'
    using e [OF that(1)] that(2,3) by (auto simp: pruned_board_def drop_rows_def delete_updates_def)
  have "map fst db' = map fst db" by (simp add: db' pruned_board_def comp_def)
  moreover have "\<forall>bd \<in> set db'. journal_ok Y sha (base (fst bd)) (hist (fst bd)) (snd bd)"
    using ok' by (auto simp: db' pruned_board_def)
  moreover have "\<exists>d'. (b, d') \<in> set db' \<and> set (d_updates d') \<subseteq> set (d_updates d) \<and> set (d_events d') \<subseteq> set (d_events d)
      \<and> (\<forall>e \<in> set (d_events d). e_seq e \<in> u_seq ` set (d_updates d') \<longrightarrow> e \<in> set (d_events d'))"
    if "(b, d) \<in> set db" for b d
  proof -
    let ?d = "snd (pruned_board uv ev (b, d))"
    have "(b, ?d) \<in> set db'" using that by (force simp: db' pruned_board_def)
    moreover have "set (d_updates ?d) \<subseteq> set (d_updates d)" "set (d_events ?d) \<subseteq> set (d_events d)"
      by (auto simp: pruned_board_def drop_rows_def)
    ultimately show ?thesis using kept [OF that] by auto
  qed
  ultimately show ?thesis by blast
qed

text \<open>C4: Retention is safe on every board of the database: each keeps its id and stays consistent with its whole
  history (activation still rebuilds the same document), no row is altered, only deleted, and no update is kept
  whose event was deleted.\<close>

theorem prune_keeps_history:
  assumes dist: "distinct (map fst db)"
    and ok: "\<forall>bd \<in> set db. journal_ok Y sha (base (fst bd)) (hist (fst bd)) (snd bd)"
    and run: "prune_compacted_batch now db days limit = (res, db')"
  shows "map fst db' = map fst db
    \<and> (\<forall>bd \<in> set db'. journal_ok Y sha (base (fst bd)) (hist (fst bd)) (snd bd))
    \<and> (\<forall>(b, d) \<in> set db. \<exists>d'. (b, d') \<in> set db' \<and> set (d_updates d') \<subseteq> set (d_updates d)
         \<and> set (d_events d') \<subseteq> set (d_events d)
         \<and> (\<forall>e \<in> set (d_events d). e_seq e \<in> u_seq ` set (d_updates d') \<longrightarrow> e \<in> set (d_events d')))"
  using prune_effect [OF assms] .

end
