(* ===== verification/Activation.thy ===== *)
theory Activation
  imports Commit_Safety
begin

text \<open>
  Activation in the order the database sees it: one step for each transaction or query of \<open>activate\<close> (the base row,
  the head transaction, the checkpoint, each batch of events, each update row, the final \<open>mark_ready\<close>), so that
  other transactions may run between any two of them.  Without interference the steps are \<open>activate\<close>; the
  invariant \<open>pending_ok\<close> says what a half-done activation knows of the history, and each step keeps it.
\<close>

subsection \<open>Activation, statement by statement\<close>

datatype 'd activation =
    is_Checked: Checked canonical_base_row
  | Fenced canonical_base int int bool
  | Replaying int int bool "'d board_coordinator" int "event_record list"
  | Rebuilt "'d resident_board" int bool
  | Installed "'d resident_board"

definition activation_start :: "bdb \<Rightarrow> string + canonical_base_row" where
  "activation_start d =
     bindE (ok_orE ''canonical base is missing'' (read_base d)) (\<lambda>base_row.
     if cr_abandoned_at base_row \<noteq> None then Inl ''yrs base is abandoned; cannot activate'' else Inr base_row)"

text \<open>The end of the replay: the projection is checked before the resident is published.\<close>

definition activation_replayed ::
  "('d, 'u, 's) yrs \<Rightarrow> int \<Rightarrow> int \<Rightarrow> bool \<Rightarrow> 'd board_coordinator \<Rightarrow> bdb \<Rightarrow> string + 'd activation \<times> bdb" where
  "activation_replayed Y epoch head ready coord d =
     bindE (map_errE (\<lambda>_. ''activation assert'') (assert_valid_projection Y coord)) (\<lambda>_.
     Inr (Rebuilt \<lparr>rb_coord = coord, rb_writer_epoch = epoch, rb_state = Ready\<rparr> head ready, d))"

fun activation_next ::
  "('d, 'u, 's) yrs \<Rightarrow> (bytes \<Rightarrow> bytes) \<Rightarrow> bdb \<Rightarrow> 'd activation \<Rightarrow> string + 'd activation \<times> bdb" where
  "activation_next Y sha d (Checked base_row) =
     bindE (activation_tx1 d (base_to_domain base_row)) (\<lambda>((epoch, head, ready), d1).
     Inr (Fenced (base_to_domain base_row) epoch head ready, d1))"
| "activation_next Y sha d (Fenced can epoch head ready) =
     bindE (preferred_activation_base Y sha d can head) (\<lambda>base.
     bindE (map_errE (\<lambda>_. ''from_base'') (from_base Y base (cb_base_seq base))) (\<lambda>coord.
     Inr (Replaying epoch head ready coord (cb_base_seq base) [], d)))"
| "activation_next Y sha d (Replaying epoch head ready coord cursor []) =
     (let batch = (if cursor < head then list_events_since d cursor CATCH_UP_BATCH else []) in
      if batch = [] then activation_replayed Y epoch head ready coord d
      else Inr (Replaying epoch head ready coord cursor batch, d))"
| "activation_next Y sha d (Replaying epoch head ready coord cursor (ev # batch)) =
     (if e_seq ev > head then activation_replayed Y epoch head ready coord d
      else bindE (catch_up_one Y d coord ev) (\<lambda>coord'.
           Inr (Replaying epoch head ready coord' (e_seq ev) batch, d)))"
| "activation_next Y sha d (Rebuilt rb head ready) =
     (if ready then Inr (Installed rb, d)
      else (case mark_ready d (rb_writer_epoch rb) head of (ok, d2) \<Rightarrow>
              if \<not> ok then Inl ''mark_ready CAS failed'' else Inr (Installed rb, d2)))"
| "activation_next Y sha d (Installed rb) = Inr (Installed rb, d)"

lemma tx1_keeps:
  "activation_tx1 d can = Inr (x, d1) \<Longrightarrow> d_events d1 = d_events d \<and> d_updates d1 = d_updates d
     \<and> d_snapshots d1 = d_snapshots d \<and> d_base d1 = d_base d"
  by (auto simp: activation_tx1_def begin_activation_def Let_def split: option.splits if_splits)

text \<open>Run without interference, the steps are \<open>activate\<close>.\<close>

inductive activation_run ::
  "('d, 'u, 's) yrs \<Rightarrow> (bytes \<Rightarrow> bytes) \<Rightarrow> bdb \<Rightarrow> 'd activation \<Rightarrow> bdb \<Rightarrow> 'd activation \<Rightarrow> bool" for Y sha where
  run_refl: "activation_run Y sha d p d p"
| run_step: "activation_next Y sha d p = Inr (p1, d1) \<Longrightarrow> activation_run Y sha d1 p1 d2 p2 \<Longrightarrow>
    activation_run Y sha d p d2 p2"

lemma run_trans: "activation_run Y sha d p d1 p1 \<Longrightarrow> activation_run Y sha d1 p1 d2 p2 \<Longrightarrow> activation_run Y sha d p d2 p2"
  by (induction rule: activation_run.induct) (auto intro: activation_run.intros)

lemma run_one: "activation_next Y sha d p = Inr (p1, d1) \<Longrightarrow> activation_run Y sha d p d1 p1"
  by (blast intro: activation_run.intros)

lemma run_batch:
  assumes "catch_up_batch Y d head batch coord cursor = Inr (coord', cursor', stop)"
  shows "\<exists>rest. activation_run Y sha d (Replaying epoch head ready coord cursor batch) d
      (Replaying epoch head ready coord' cursor' rest)
    \<and> (if stop then \<exists>ev more. rest = ev # more \<and> head < e_seq ev else rest = [])"
  using assms
proof (induction Y d head batch coord cursor rule: catch_up_batch.induct)
  case (2 Y d head ev batch coord cursor)
  show ?case
  proof (cases "e_seq ev > head")
    case True
    then show ?thesis using 2(2) by (auto intro: run_refl)
  next
    case False
    then obtain c1 where c1: "catch_up_one Y d coord ev = Inr c1"
      "catch_up_batch Y d head batch c1 (e_seq ev) = Inr (coord', cursor', stop)"
      using 2(2) by (auto simp: result_simps)
    have "activation_run Y sha d (Replaying epoch head ready coord cursor (ev # batch)) d
        (Replaying epoch head ready c1 (e_seq ev) batch)"
      using False c1(1) by (intro run_one) simp
    then show ?thesis using 2(1) [OF False c1] run_trans by blast
  qed
qed (auto intro: run_refl)

lemma run_loop:
  assumes "catch_up_loop n Y d head coord cursor = Inr coord'" "nat (head - cursor) \<le> n"
    "assert_valid_projection Y coord' = Inr ()" "distinct (map e_seq (d_events d))"
  shows "activation_run Y sha d (Replaying epoch head ready coord cursor []) d
    (Rebuilt \<lparr>rb_coord = coord', rb_writer_epoch = epoch, rb_state = Ready\<rparr> head ready)"
  using assms
proof (induction n Y d head coord cursor rule: catch_up_loop.induct)
  case (1 Y d head coord cursor)
  then show ?case by (intro run_one) (simp add: activation_replayed_def)
next
  case (2 n Y d head coord cursor)
  let ?b = "list_events_since d cursor CATCH_UP_BATCH"
  show ?case
  proof (cases "cursor < head \<and> ?b \<noteq> []")
    case False
    then show ?thesis using 2(2,4) by (intro run_one) (auto simp: activation_replayed_def Let_def split: if_splits)
  next
    case True
    then obtain c1 cur1 stop where b: "catch_up_batch Y d head ?b coord cursor = Inr (c1, cur1, stop)"
      "(if stop then Inr c1 else catch_up_loop n Y d head c1 cur1) = Inr coord'"
      using 2(2) by (auto simp: Let_def bindE_Inr_iff)
    obtain rest where r: "activation_run Y sha d (Replaying epoch head ready coord cursor ?b) d
        (Replaying epoch head ready c1 cur1 rest)"
      "if stop then \<exists>ev more. rest = ev # more \<and> head < e_seq ev else rest = []"
      using run_batch [OF b(1)] by blast
    have first: "activation_run Y sha d (Replaying epoch head ready coord cursor []) d (Replaying epoch head ready coord cursor ?b)"
      using True by (intro run_one) simp
    have "activation_run Y sha d (Replaying epoch head ready c1 cur1 rest) d
      (Rebuilt \<lparr>rb_coord = coord', rb_writer_epoch = epoch, rb_state = Ready\<rparr> head ready)"
    proof (cases stop)
      case True
      then show ?thesis using r(2) b(2) 2(4) by (intro run_one) (auto simp: activation_replayed_def)
    next
      case go: False
      have "sorted_wrt (<) (cursor # map e_seq ?b)"
        using events_log.page_sorted [OF 2(5)] events_log.page_sound by (fastforce simp: sorted_wrt_map)
      from catch_up_batch_cursor [OF b(1) this] True go have "cursor < cur1" by blast
      then have "nat (head - cur1) \<le> n" using 2(3) True by linarith
      then show ?thesis using 2(1) [OF _ refl _ b(1) refl refl go] True go b(2) r(2) 2(4,5) by simp
    qed
    then show ?thesis using first r(1) run_trans by blast
  qed
qed

lemma activate_is_run:
  assumes a: "activate Y sha (\<lambda>x. x) d = Inr (rb, d')" and dist: "distinct (map e_seq (d_events d))"
  shows "\<exists>b. activation_start d = Inr b \<and> activation_run Y sha d (Checked b) d' (Installed rb)"
proof -
  obtain b where b: "read_base d = Some b" "cr_abandoned_at b = None"
    using a by (auto simp: activate_def result_simps split: if_splits)
  obtain epoch head ready d1 where t: "activation_tx1 d (base_to_domain b) = Inr ((epoch, head, ready), d1)"
    using a b by (auto simp: activate_def result_simps)
  obtain base coord0 coord where c: "preferred_activation_base Y sha d1 (base_to_domain b) head = Inr base"
    "from_base Y base (cb_base_seq base) = Inr coord0"
    "catch_up_all Y d1 head coord0 (cb_base_seq base) = Inr coord"
    "assert_valid_projection Y coord = Inr ()"
    using a b t by (auto simp: activate_def result_simps)
  have ev: "distinct (map e_seq (d_events d1))" using tx1_keeps [OF t] dist by simp
  let ?rb = "\<lparr>rb_coord = coord, rb_writer_epoch = epoch, rb_state = Ready\<rparr>"
  have "activation_run Y sha d (Checked b) d1 (Fenced (base_to_domain b) epoch head ready)"
    using t by (intro run_one) simp
  moreover have "activation_run Y sha d1 (Fenced (base_to_domain b) epoch head ready) d1
      (Replaying epoch head ready coord0 (cb_base_seq base) [])"
    using c by (intro run_one) simp
  moreover have "activation_run Y sha d1 (Replaying epoch head ready coord0 (cb_base_seq base) []) d1 (Rebuilt ?rb head ready)"
    using run_loop [OF c(3) [unfolded catch_up_all_def] _ c(4) ev] by simp
  moreover have "activation_run Y sha d1 (Rebuilt ?rb head ready) d' (Installed rb)"
    using a b t c by (intro run_one) (auto simp: activate_def Let_def split: if_splits prod.splits)
  ultimately have "activation_run Y sha d (Checked b) d' (Installed rb)" using run_trans by metis
  then show ?thesis using b by (simp add: activation_start_def)
qed

subsection \<open>What a half-done activation knows\<close>

text \<open>The owner epoch it was given, unless a later owner has taken over, is still waiting for exactly this head.\<close>

definition fence_ok :: "canonical_base_row \<Rightarrow> history \<Rightarrow> bdb \<Rightarrow> int \<Rightarrow> int \<Rightarrow> bool \<Rightarrow> bool" where
  "fence_ok c hist d epoch head ready \<longleftrightarrow> ready \<or> (\<exists>r. d_head d = Some r \<and> epoch \<le> hr_writer_epoch r
     \<and> (epoch = hr_writer_epoch r \<longrightarrow> hr_state r = ''activating'' \<longrightarrow> head = hist_top c hist))"

text \<open>At most as many checkpoints lie above \<open>n\<close> as were published since there were \<open>k\<close>.\<close>

definition covered :: "canonical_base_row \<Rightarrow> bdb \<Rightarrow> nat \<Rightarrow> int \<Rightarrow> bool" where
  "covered c d k n \<longleftrightarrow> length (filter (\<lambda>s. n < s_last_event_seq s) (lineage d c)) + k \<le> length (d_snapshots d)"

definition seqs_between :: "history \<Rightarrow> int \<Rightarrow> int \<Rightarrow> int list" where
  "seqs_between hist n head = filter (\<lambda>x. n < x \<and> x \<le> head) (map fst hist)"

text \<open>The batch in hand is the next stretch of the history, and the events after it are still stored.\<close>

definition batch_ok :: "history \<Rightarrow> bdb \<Rightarrow> int \<Rightarrow> int \<Rightarrow> event_record list \<Rightarrow> bool" where
  "batch_ok hist d head cursor batch \<longleftrightarrow> sorted_wrt (<) (map e_seq batch) \<and> (\<forall>e \<in> set batch. cursor < e_seq e)
     \<and> (\<exists>rest. seqs_between hist cursor head = filter (\<lambda>x. x \<le> head) (map e_seq batch) @ rest
          \<and> (rest = [] \<or> (\<forall>e \<in> set batch. e_seq e \<le> head)) \<and> set rest \<subseteq> e_seq ` set (d_events d))"

definition coord_ok :: "('d, 'u, 's) yrs \<Rightarrow> canonical_base_row \<Rightarrow> history \<Rightarrow> int \<Rightarrow> 'd board_coordinator \<Rightarrow> bool" where
  "coord_ok Y c hist epoch coord \<longleftrightarrow> resident_ok Y c hist \<lparr>rb_coord = coord, rb_writer_epoch = epoch, rb_state = Ready\<rparr>"

fun pending_ok ::
  "('d, 'u, 's) yrs \<Rightarrow> canonical_base_row \<Rightarrow> history \<Rightarrow> nat \<Rightarrow> bdb \<Rightarrow> 'd activation \<Rightarrow> bool" where
  "pending_ok Y c hist k d (Checked b) \<longleftrightarrow> b = c"
| "pending_ok Y c hist k d (Fenced can epoch head ready) \<longleftrightarrow> can = base_to_domain c
     \<and> fence_ok c hist d epoch head ready \<and> cr_base_seq c \<le> head \<and> head \<le> hist_top c hist
     \<and> (\<exists>n \<le> head. (n = cr_base_seq c \<or> n \<in> s_last_event_seq ` set (lineage d c)) \<and> covered c d k n
          \<and> set (seqs_between hist n head) \<subseteq> e_seq ` set (d_events d))"
| "pending_ok Y c hist k d (Replaying epoch head ready coord cursor batch) \<longleftrightarrow>
     fence_ok c hist d epoch head ready \<and> head \<le> hist_top c hist \<and> coord_ok Y c hist epoch coord
     \<and> bc_processed_seq coord = cursor \<and> covered c d k cursor \<and> batch_ok hist d head cursor batch"
| "pending_ok Y c hist k d (Rebuilt rb head ready) \<longleftrightarrow>
     resident_ok Y c hist rb \<and> fence_ok c hist d (rb_writer_epoch rb) head ready"
| "pending_ok Y c hist k d (Installed rb) \<longleftrightarrow> resident_ok Y c hist rb"

subsection \<open>Stability under the steps of others\<close>

fun reads_journal :: "'d activation \<Rightarrow> bool" where
  "reads_journal (Fenced can epoch head ready) = True"
| "reads_journal (Replaying epoch head ready coord cursor batch) = True"
| "reads_journal p = False"

lemma covered_mono: "covered c d k n \<Longrightarrow> n \<le> m \<Longrightarrow> covered c d k m"
proof -
  assume a: "covered c d k n" "n \<le> m"
  have "length (filter (\<lambda>s. m < s_last_event_seq s) xs) \<le> length (filter (\<lambda>s. n < s_last_event_seq s) xs)" for xs
    using a(2) by (induction xs) auto
  from this [of "lineage d c"] a(1) show ?thesis by (simp add: covered_def)
qed

lemma pending_ok_stable:
  assumes p: "pending_ok Y c hist k d p"
    and fence: "\<And>e h r. fence_ok c hist d e h r \<Longrightarrow> fence_ok c hist' d' e h r"
    and res: "\<And>rb. resident_ok Y c hist rb \<Longrightarrow> resident_ok Y c hist' rb"
    and btw: "\<And>n h. h \<le> hist_top c hist \<Longrightarrow> seqs_between hist' n h = seqs_between hist n h"
    and top: "hist_top c hist \<le> hist_top c hist'"
    and lin: "set (lineage d c) \<subseteq> set (lineage d' c)"
    and cov: "\<And>n. covered c d k n \<Longrightarrow> covered c d' k n"
    and ev: "\<And>n x. reads_journal p \<Longrightarrow> covered c d k n \<Longrightarrow> n < x \<Longrightarrow> x \<in> fst ` set hist \<Longrightarrow>
      x \<in> e_seq ` set (d_events d) \<Longrightarrow> x \<in> e_seq ` set (d_events d')"
  shows "pending_ok Y c hist' k d' p"
proof (cases p)
  case (Fenced can epoch head ready)
  then obtain n where n: "n \<le> head" "n = cr_base_seq c \<or> n \<in> s_last_event_seq ` set (lineage d c)" "covered c d k n"
    "set (seqs_between hist n head) \<subseteq> e_seq ` set (d_events d)" and h: "head \<le> hist_top c hist"
    using p by auto
  have "set (seqs_between hist n head) \<subseteq> e_seq ` set (d_events d')"
    using n(4) ev [OF _ n(3)] Fenced by (auto simp: seqs_between_def)
  moreover have "n = cr_base_seq c \<or> n \<in> s_last_event_seq ` set (lineage d' c)" using n(2) lin by auto
  moreover have "covered c d' k n" using cov n(3) .
  ultimately have "\<exists>n \<le> head. (n = cr_base_seq c \<or> n \<in> s_last_event_seq ` set (lineage d' c)) \<and> covered c d' k n
      \<and> set (seqs_between hist' n head) \<subseteq> e_seq ` set (d_events d')"
    using n(1) unfolding btw [OF h] by blast
  moreover have "can = base_to_domain c" "fence_ok c hist d epoch head ready" "cr_base_seq c \<le> head" using p Fenced by auto
  ultimately show ?thesis using Fenced fence h top by simp
next
  case (Replaying epoch head ready coord cursor batch)
  then have r: "covered c d k cursor" "batch_ok hist d head cursor batch" "head \<le> hist_top c hist" using p by auto
  then obtain rest where rest: "seqs_between hist cursor head = filter (\<lambda>x. x \<le> head) (map e_seq batch) @ rest"
    "rest = [] \<or> (\<forall>e \<in> set batch. e_seq e \<le> head)" "set rest \<subseteq> e_seq ` set (d_events d)"
    by (auto simp: batch_ok_def)
  have "x \<in> e_seq ` set (d_events d')" if x: "x \<in> set rest" for x
  proof -
    have "x \<in> set (seqs_between hist cursor head)" using x rest(1) by simp
    then show ?thesis using ev [OF _ r(1), of x] rest(3) x Replaying by (auto simp: seqs_between_def)
  qed
  then have "batch_ok hist' d' head cursor batch"
    using r(2) rest btw [OF r(3)] by (auto simp: batch_ok_def intro!: exI [of _ rest])
  then show ?thesis using p Replaying fence res top cov by (auto simp: coord_ok_def)
qed (use p fence res in auto)

subsection \<open>Each step keeps it\<close>

lemma tx1_head:
  assumes "activation_tx1 d can = Inr ((epoch, head, ready), d1)"
  shows "(ready \<longrightarrow> d1 = d) \<and> (\<not> ready \<longrightarrow> (\<exists>r. d_head d1 = Some r \<and> hr_writer_epoch r = epoch
    \<and> (\<forall>r0. d_head d = Some r0 \<longrightarrow> hr_writer_epoch r0 < epoch)))
    \<and> (\<forall>h. read_head d = Some h \<longrightarrow> h_state h \<noteq> Quarantined)"
  using assms
  by (auto simp: activation_tx1_def begin_activation_def read_head_def head_to_domain_def Let_def
      split: option.splits if_splits)

lemma newest_covered:
  assumes j: "journal_ok Y sha c hist d"
  shows "\<exists>n \<le> hist_top c hist. (n = cr_base_seq c \<or> n \<in> s_last_event_seq ` set (lineage d c))
    \<and> covered c d (length (d_snapshots d)) n
    \<and> set (seqs_between hist n (hist_top c hist)) \<subseteq> e_seq ` set (d_events d)"
proof -
  let ?S = "insert (cr_base_seq c) (s_last_event_seq ` set (lineage d c))"
  define n where "n = Max ?S"
  have n: "n \<in> ?S" unfolding n_def by (rule Max_in) auto
  have le: "x \<le> n" if "x \<in> ?S" for x unfolding n_def using that by (intro Max_ge) auto
  have base: "cr_base_seq c \<le> hist_top c hist" using j hist_top_base by (auto simp: journal_ok_def hist_ok_def)
  have top: "n \<le> hist_top c hist" using n base j by (auto simp: journal_ok_def snapshot_ok_def)
  have none: "filter (\<lambda>s. m \<le> s_last_event_seq s) (lineage d c) = []" if "n < m" for m
  proof -
    have "\<not> m \<le> s_last_event_seq s" if "s \<in> set (lineage d c)" for s
      using le [of "s_last_event_seq s"] that \<open>n < m\<close> by simp
    then show ?thesis by (simp add: filter_empty_conv)
  qed
  have "filter (\<lambda>s. n < s_last_event_seq s) (lineage d c) = []"
    using le by (fastforce simp: filter_empty_conv not_less)
  then have "covered c d (length (d_snapshots d)) n" by (simp add: covered_def)
  moreover have "set (seqs_between hist n (hist_top c hist)) \<subseteq> e_seq ` set (d_events d)"
  proof
    fix x assume "x \<in> set (seqs_between hist n (hist_top c hist))"
    then have x: "x \<in> fst ` set hist" "n < x" by (auto simp: seqs_between_def)
    have "needed d c x" using none [OF x(2)] by (simp add: needed_def)
    then show "x \<in> e_seq ` set (d_events d)" using x(1) j by (auto simp: journal_ok_def rows_ok_def)
  qed
  ultimately show ?thesis using n top by (intro exI [of _ n]) auto
qed

lemma fence_tx1:
  assumes "activation_tx1 d can = Inr ((epoch, head, ready), d1)"
  shows "(head = hist_top c hist \<longrightarrow> fence_ok c hist d1 epoch head ready) \<and> (fence_ok c hist d e h r \<longrightarrow> fence_ok c hist d1 e h r)"
proof (cases ready)
  case True
  then show ?thesis using tx1_head [OF assms] by (simp add: fence_ok_def)
next
  case False
  then obtain q where q: "d_head d1 = Some q" "hr_writer_epoch q = epoch"
    "\<forall>r0. d_head d = Some r0 \<longrightarrow> hr_writer_epoch r0 < epoch"
    using tx1_head [OF assms] by blast
  then show ?thesis by (fastforce simp: fence_ok_def)
qed

lemma checked_step:
  assumes j: "journal_ok Y sha c hist d" and t: "activation_tx1 d (base_to_domain c) = Inr ((epoch, head, ready), d1)"
  shows "journal_ok Y sha c hist d1
    \<and> pending_ok Y c hist (length (d_snapshots d)) d1 (Fenced (base_to_domain c) epoch head ready)"
proof -
  have q: "\<forall>h. read_head d = Some h \<longrightarrow> h_state h \<noteq> Quarantined" using tx1_head [OF t] by blast
  have t1: "head = hist_top c hist" "journal_ok Y sha c hist d1" using tx1_journal [OF j q] t by auto
  have keep: "d_events d1 = d_events d" "d_snapshots d1 = d_snapshots d" using tx1_keeps [OF t] by auto
  obtain n where "n \<le> hist_top c hist" "n = cr_base_seq c \<or> n \<in> s_last_event_seq ` set (lineage d1 c)"
    "covered c d1 (length (d_snapshots d1)) n"
    "set (seqs_between hist n (hist_top c hist)) \<subseteq> e_seq ` set (d_events d1)"
    using newest_covered [OF t1(2)] by blast
  moreover have "cr_base_seq c \<le> hist_top c hist" using j hist_top_base by (auto simp: journal_ok_def hist_ok_def)
  ultimately show ?thesis using t1 fence_tx1 [OF t, of c hist] keep by auto
qed

text \<open>The checkpoint chosen for a head of the past is the newest at or below it, and holds its document.\<close>

lemma checkpoint_at:
  assumes j: "journal_ok Y sha c hist d" and p: "preferred_activation_base Y sha d (base_to_domain c) head = Inr b"
    and h: "cr_base_seq c \<le> head"
  shows "cb_base_generation b = cr_base_generation c \<and> cb_server_client_id b = cr_server_client_id c
    \<and> cr_base_seq c \<le> cb_base_seq b \<and> cb_base_seq b \<le> head
    \<and> (\<exists>doc. doc_from_base Y (cb_state_update b) (cb_state_vector b) (cb_server_client_id b) = Inr doc
          \<and> hist_doc Y c hist (cb_base_seq b) = Inr doc)
    \<and> (\<forall>t \<in> set (lineage d c). s_last_event_seq t \<le> head \<longrightarrow> s_last_event_seq t \<le> cb_base_seq b)"
proof (cases "read_latest_at_or_before d (cr_base_generation c) (cr_server_client_id c) head")
  case None
  have base: "\<forall>p \<in> set hist. cr_base_seq c < fst p" using j by (simp add: journal_ok_def hist_ok_def)
  then have "upto (cr_base_seq c) hist = []" by (auto simp: upto_def filter_empty_conv)
  then have hd: "hist_doc Y c hist (cr_base_seq c) = base_doc Y c"
    by (cases "base_doc Y c") (simp_all add: hist_doc_def replay_def)
  obtain doc where doc: "hist_doc Y c hist (cr_base_seq c) = Inr doc"
    using j unfolding journal_ok_def hist_ok_def by blast
  then have dfb: "doc_from_base Y (cr_state_update c) (cr_state_vector c) (cr_server_client_id c) = Inr doc"
    using hd by (simp add: base_doc_def)
  have "b = base_to_domain c"
    using p None by (simp add: preferred_activation_base_def base_to_domain_def)
  moreover have "\<not> s_last_event_seq t \<le> head" if "t \<in> set (lineage d c)" for t
    using no_latest [OF None that] by simp
  ultimately show ?thesis using h doc dfb by (simp add: base_to_domain_def)
next
  case (Some s)
  note l = newest_latest [OF Some]
  then have s: "s_server_client_id s = cr_server_client_id c" "s_base_generation s = cr_base_generation c"
    "snapshot_ok Y sha c hist s"
    using j by (auto simp: lineage_def lineage_snapshots_def journal_ok_def)
  moreover have "b = \<lparr>cb_state_update = s_state_update s, cb_state_vector = s_state_vector s,
      cb_base_seq = s_last_event_seq s, cb_server_client_id = s_server_client_id s,
      cb_base_generation = s_base_generation s\<rparr>"
    using p Some by (auto simp: preferred_activation_base_def base_to_domain_def result_simps split: if_splits)
  ultimately show ?thesis using l by (auto simp: snapshot_ok_def)
qed

lemma fenced_step:
  assumes j: "journal_ok Y sha c hist d" and p: "pending_ok Y c hist k d (Fenced (base_to_domain c) epoch head ready)"
    and b: "preferred_activation_base Y sha d (base_to_domain c) head = Inr b" and f: "from_base Y b (cb_base_seq b) = Inr coord"
    and Y: "yrs_replicas Y"
  shows "pending_ok Y c hist k d (Replaying epoch head ready coord (cb_base_seq b) [])"
proof -
  have h: "cr_base_seq c \<le> head" "head \<le> hist_top c hist" "fence_ok c hist d epoch head ready" using p by auto
  obtain n where n: "n \<le> head" "n = cr_base_seq c \<or> n \<in> s_last_event_seq ` set (lineage d c)" "covered c d k n"
    "set (seqs_between hist n head) \<subseteq> e_seq ` set (d_events d)"
    using p by auto
  note at = checkpoint_at [OF j b h(1)]
  have le: "n \<le> cb_base_seq b" using n(1,2) at by auto
  obtain doc where doc: "doc_from_base Y (cb_state_update b) (cb_state_vector b) (cb_server_client_id b) = Inr doc"
    "hist_doc Y c hist (cb_base_seq b) = Inr doc" using at by blast
  have coord: "coord = \<lparr>bc_doc = doc, bc_server_client_id = cb_server_client_id b,
      bc_base_generation = cb_base_generation b, bc_processed_seq = cb_base_seq b\<rparr>" "server_id_in_band (cb_server_client_id b)"
    using f doc by (auto simp: from_base_def split: if_splits)
  have "y_client Y doc = cb_server_client_id b"
    using doc(1) Y by (auto simp: doc_from_base_def yrs_replicas_def result_simps split: if_splits)
  then have "coord_ok Y c hist epoch coord"
    using at doc coord h by (simp add: coord_ok_def resident_ok_def coordinator_ok_def)
  moreover have "covered c d k (cb_base_seq b)" using covered_mono [OF n(3) le] .
  moreover have "batch_ok hist d head (cb_base_seq b) []"
    using n(4) le by (auto simp: batch_ok_def seqs_between_def)
  ultimately show ?thesis using h coord by simp
qed

lemma between_events:
  assumes j: "journal_ok Y sha c hist d" and sub: "set (seqs_between hist cursor head) \<subseteq> e_seq ` set (d_events d)"
  shows "seqs_between hist cursor head = filter (\<lambda>x. x \<le> head) (map e_seq (log_after e_seq (d_events d) cursor))"
proof -
  have rows: "rows_ok c hist d" and s: "sorted_wrt (\<lambda>p q. fst p < fst q) hist"
    using j by (simp_all add: journal_ok_def hist_ok_def)
  let ?l = "map e_seq (log_after e_seq (d_events d) cursor)"
  have "sorted_wrt (<) (map fst hist)" using s by (simp add: sorted_wrt_map)
  then have a: "sorted_wrt (<) (seqs_between hist cursor head)" by (simp add: seqs_between_def sorted_wrt_filter)
  have "sorted_wrt (<) ?l" using rows sorted_log_after by (auto simp: sorted_wrt_map rows_ok_def)
  then have b: "sorted_wrt (<) (filter (\<lambda>x. x \<le> head) ?l)" by (rule sorted_wrt_filter)
  have "x \<in> fst ` set hist" if "x \<in> e_seq ` set (d_events d)" for x
    using rows that by (auto simp: rows_ok_def)
  then have "set (seqs_between hist cursor head) = set (filter (\<lambda>x. x \<le> head) ?l)"
    using sub by (auto simp: seqs_between_def)
  then show ?thesis using a b by (simp add: strict_sorted_iff strict_sorted_equal)
qed

lemma page_step:
  assumes j: "journal_ok Y sha c hist d" and b: "batch_ok hist d head cursor []"
  shows "batch_ok hist d head cursor (list_events_since d cursor CATCH_UP_BATCH)
    \<and> (list_events_since d cursor CATCH_UP_BATCH = [] \<longrightarrow> seqs_between hist cursor head = [])"
proof -
  let ?p = "list_events_since d cursor CATCH_UP_BATCH"
  let ?r = "map e_seq (log_after e_seq (d_events d) (events_log.next_cursor d cursor CATCH_UP_BATCH))"
  have sub: "set (seqs_between hist cursor head) \<subseteq> e_seq ` set (d_events d)" using b by (auto simp: batch_ok_def)
  have dist: "distinct (map e_seq (d_events d))" using j by (simp add: journal_ok_def rows_ok_def)
  have pos: "0 < CATCH_UP_BATCH" by (simp add: CATCH_UP_BATCH_def)
  note sp = events_log.split [OF dist pos, of cursor]
  have eq: "seqs_between hist cursor head = filter (\<lambda>x. x \<le> head) (map e_seq ?p) @ filter (\<lambda>x. x \<le> head) ?r"
    using between_events [OF j sub] unfolding sp by simp
  have srt: "sorted_wrt (<) (map e_seq ?p @ ?r)"
    using sorted_log_after [OF dist, of cursor] unfolding sp by (simp add: sorted_wrt_map flip: map_append)
  have "filter (\<lambda>x. x \<le> head) ?r = [] \<or> (\<forall>e \<in> set ?p. e_seq e \<le> head)"
    using srt by (fastforce simp: sorted_wrt_append filter_empty_conv)
  moreover have "set (filter (\<lambda>x. x \<le> head) ?r) \<subseteq> e_seq ` set (d_events d)" by auto
  moreover have "sorted_wrt (<) (map e_seq ?p)" using srt by (simp add: sorted_wrt_append)
  moreover have "\<forall>e \<in> set ?p. cursor < e_seq e" using events_log.page_sound by blast
  moreover have "?p = [] \<longrightarrow> ?r = []"
    using events_log.empty_page [OF dist pos] by (auto simp: events_log.next_cursor_def)
  ultimately show ?thesis using eq unfolding batch_ok_def by auto
qed

text \<open>Nothing of the history lies between where the replay stopped and the head it was to reach.\<close>

lemma batch_over:
  assumes "batch_ok hist d head cursor batch" "batch = [] \<longrightarrow> seqs_between hist cursor head = []"
    "\<forall>ev more. batch = ev # more \<longrightarrow> head < e_seq ev"
  shows "seqs_between hist cursor head = []"
proof (cases batch)
  case (Cons ev more)
  then have "sorted_wrt (<) (map e_seq (ev # more))" "head < e_seq ev" using assms by (auto simp: batch_ok_def)
  then have "filter (\<lambda>x. x \<le> head) (map e_seq batch) = []" by (fastforce simp: Cons filter_empty_conv)
  moreover obtain rest where "seqs_between hist cursor head = filter (\<lambda>x. x \<le> head) (map e_seq batch) @ rest"
    "rest = [] \<or> (\<forall>e \<in> set batch. e_seq e \<le> head)"
    using assms(1) by (auto simp: batch_ok_def)
  ultimately show ?thesis using Cons \<open>head < e_seq ev\<close> by auto
qed (use assms in simp)

lemma row_step:
  assumes j: "journal_ok Y sha c hist d" and Y: "yrs_replicas Y"
    and p: "pending_ok Y c hist k d (Replaying epoch head ready coord cursor (ev # batch))"
    and le: "e_seq ev \<le> head" and one: "catch_up_one Y d coord ev = Inr coord'"
  shows "pending_ok Y c hist k d (Replaying epoch head ready coord' (e_seq ev) batch)"
proof -
  have b: "batch_ok hist d head cursor (ev # batch)" and co: "coord_ok Y c hist epoch coord" "bc_processed_seq coord = cursor"
    and rest0: "fence_ok c hist d epoch head ready" "head \<le> hist_top c hist" "covered c d k cursor"
    using p by auto
  have s: "sorted_wrt (\<lambda>p q. fst p < fst q) hist" and rows: "rows_ok c hist d"
    using j by (simp_all add: journal_ok_def hist_ok_def)
  obtain rest where r: "seqs_between hist cursor head = e_seq ev # filter (\<lambda>x. x \<le> head) (map e_seq batch) @ rest"
    "rest = [] \<or> (\<forall>e \<in> set batch. e_seq e \<le> head)" "set rest \<subseteq> e_seq ` set (d_events d)"
    and srt: "sorted_wrt (<) (map e_seq (ev # batch))" and gt: "cursor < e_seq ev"
    using b le by (auto simp: batch_ok_def)
  have "sorted_wrt (<) (seqs_between hist cursor head)"
    using s by (simp add: seqs_between_def sorted_wrt_filter sorted_wrt_map)
  then have after: "\<forall>x \<in> set (filter (\<lambda>x. x \<le> head) (map e_seq batch) @ rest). e_seq ev < x" unfolding r(1) by simp
  have "seqs_between hist (e_seq ev) head = filter (\<lambda>x. e_seq ev < x) (seqs_between hist cursor head)"
    using gt by (auto simp: seqs_between_def intro: filter_cong)
  also have "\<dots> = filter (\<lambda>x. x \<le> head) (map e_seq batch) @ rest"
    using after unfolding r(1) by (simp add: filter_id_conv del: filter_append)
  finally have bk: "batch_ok hist d head (e_seq ev) batch"
    using r(2,3) srt by (auto simp: batch_ok_def)
  obtain row where row: "read_by_seq d (e_seq ev) = Some row" "catch_up_persisted Y (e_seq ev) (u_yupdate row) coord = Inr coord'"
    using one by (auto simp: catch_up_one_def result_simps split: option.splits)
  have "row \<in> set (d_updates d)" "u_seq row = e_seq ev"
    using row(1) by (auto simp: read_by_seq_def find_Some_iff in_set_conv_nth)
  then have inh: "(e_seq ev, u_yupdate row) \<in> set hist" using rows by (auto simp: rows_ok_def)
  have "filter (\<lambda>x. cursor < fst x \<and> fst x \<le> e_seq ev) hist = [(e_seq ev, u_yupdate row)]"
  proof -
    let ?f = "filter (\<lambda>x. cursor < fst x \<and> fst x \<le> e_seq ev) hist"
    have "map fst ?f = filter (\<lambda>x. x \<le> e_seq ev) (seqs_between hist cursor head)"
    proof -
      have "filter (\<lambda>x. cursor < fst x \<and> fst x \<le> head \<and> fst x \<le> e_seq ev) hist = ?f"
        by (rule filter_cong) (use le in auto)
      then show ?thesis by (simp add: seqs_between_def filter_map comp_def conj_assoc)
    qed
    also have "\<dots> = [e_seq ev]"
      using filter_False [of "filter (\<lambda>x. x \<le> head) (map e_seq batch) @ rest" "\<lambda>x. x \<le> e_seq ev"] after
      unfolding r(1) by (simp add: not_le)
    finally obtain q where q: "?f = [q]" by (cases ?f) auto
    moreover have "(e_seq ev, u_yupdate row) \<in> set ?f" using inh gt by simp
    ultimately show ?thesis by simp
  qed
  note here = this
  have "upto (e_seq ev) hist = upto cursor hist @ [(e_seq ev, u_yupdate row)]"
  proof -
    have "upto (e_seq ev) hist = upto cursor (upto (e_seq ev) hist) @ filter (\<lambda>p. cursor < fst p) (upto (e_seq ev) hist)"
      using upto_split [of "upto (e_seq ev) hist" cursor] s by (simp add: upto_def sorted_wrt_filter)
    moreover have "upto cursor (upto (e_seq ev) hist) = upto cursor hist"
      using gt by (auto simp: upto_def intro: filter_cong)
    moreover have "filter (\<lambda>p. cursor < fst p) (upto (e_seq ev) hist) = [(e_seq ev, u_yupdate row)]"
      using here by (simp add: upto_def conj_commute)
    ultimately show ?thesis by simp
  qed
  note up = this
  have doc: "hist_doc Y c hist cursor = Inr (bc_doc coord)" using co by (simp add: coord_ok_def resident_ok_def)
  obtain doc' where doc': "apply_bytes Y ''decode persisted yupdate'' ''apply persisted yupdate'' (u_yupdate row) (bc_doc coord) = Inr doc'"
    "coord' = coord\<lparr>bc_doc := doc', bc_processed_seq := max (bc_processed_seq coord) (e_seq ev)\<rparr>"
    using row(2) by (auto simp: catch_up_persisted_def apply_persisted_update_def result_simps)
  have "hist_doc Y c hist (e_seq ev) = Inr doc'"
    using doc doc'(1) unfolding hist_doc_def up
    by (cases "base_doc Y c") (simp_all add: replay_def foldE_append)
  moreover have "max cursor (e_seq ev) = e_seq ev" using gt by simp
  ultimately have "coord_ok Y c hist epoch coord'" "bc_processed_seq coord' = e_seq ev"
    using co doc' le rest0(2) gt apply_bytes_client [OF Y doc'(1)]
    by (auto simp: coord_ok_def resident_ok_def coordinator_ok_def)
  then show ?thesis using rest0 bk covered_mono [OF rest0(3)] gt by simp
qed

end
