(* ===== verification/Cluster.thy ===== *)
theory Cluster
  imports Pruning Activation
begin

text \<open>
  Several server instances on one board: each may activate, commit, crash or run the background jobs, in any
  interleaving of their transactions and of the single queries of an activation, on the shared database.  The
  invariant relates the database, every resident and every activation under way to one growing history.
\<close>

subsection \<open>The cluster\<close>

text \<open>\<open>cl_seen i\<close> is a history variable: how many checkpoints the board had when the activation of instance \<open>i\<close> ran
  its head transaction.\<close>

record 'd cluster =
  cl_db :: bdb
  cl_res :: "nat \<Rightarrow> 'd resident_board option"
  cl_pending :: "nat \<Rightarrow> 'd activation option"
  cl_seen :: "nat \<Rightarrow> nat"
  cl_jobs :: "nat \<Rightarrow> (bdb \<times> compaction_candidate) option"

definition after_commit :: "'d residency \<Rightarrow> 'd resident_board option" where
  "after_commit k = (case k of Keep rb \<Rightarrow> Some rb | Evict \<Rightarrow> None)"

inductive cluster_step ::
  "('d, 'u, 's) yrs \<Rightarrow> (bytes \<Rightarrow> bytes) \<Rightarrow> 'd cluster \<Rightarrow> 'd cluster \<Rightarrow> bool" for Y sha where
  act_start: "activation_start (cl_db s) = Inr b \<Longrightarrow>
    cluster_step Y sha s (s\<lparr>cl_pending := (cl_pending s)(i \<mapsto> Checked b)\<rparr>)"
| act_next: "cl_pending s i = Some p \<Longrightarrow> activation_next Y sha (cl_db s) p = Inr (p', d') \<Longrightarrow>
    cluster_step Y sha s (s\<lparr>cl_db := d', cl_pending := (cl_pending s)(i \<mapsto> p'),
      cl_seen := (if is_Checked p then (cl_seen s)(i := length (d_snapshots (cl_db s))) else cl_seen s)\<rparr>)"
| act_install: "cl_pending s i = Some (Installed rb) \<Longrightarrow>
    cluster_step Y sha s (s\<lparr>cl_pending := (cl_pending s)(i := None), cl_res := (cl_res s)(i \<mapsto> rb)\<rparr>)"
| act_abort: "cluster_step Y sha s (s\<lparr>cl_pending := (cl_pending s)(i := None)\<rparr>)"
| crash: "cluster_step Y sha s (s\<lparr>cl_res := (cl_res s)(i := None)\<rparr>)"
| commit_one: "cl_res s i = Some rb \<Longrightarrow> commit_once Y E new_id now q d0 (cl_db s) rb = (out, keep, d') \<Longrightarrow>
    cluster_step Y sha s (s\<lparr>cl_db := d', cl_res := (cl_res s)(i := after_commit keep)\<rparr>)"
| job_start: "cand \<in> set (list_compaction_candidates [(b, cl_db s)] min_updates min_bytes limit) \<Longrightarrow>
    cluster_step Y sha s (s\<lparr>cl_jobs := (cl_jobs s)(j \<mapsto> (cl_db s, cand))\<rparr>)"
| job_publish: "cl_jobs s j = Some (d, cand) \<Longrightarrow> compact_one Y sha d (cl_db s) cand = Inr (published, d') \<Longrightarrow>
    cluster_step Y sha s (s\<lparr>cl_db := d', cl_jobs := (cl_jobs s)(j := None)\<rparr>)"
| job_abort: "cluster_step Y sha s (s\<lparr>cl_jobs := (cl_jobs s)(j := None)\<rparr>)"
| prune: "prune_compacted_batch now [(b, cl_db s)] days limit = (res, [(b', d')]) \<Longrightarrow>
    cluster_step Y sha s (s\<lparr>cl_db := d'\<rparr>)"

inductive_cases cluster_stepE: "cluster_step Y sha s s'"

definition cluster_init :: "bdb \<Rightarrow> 'd cluster" where
  "cluster_init d = \<lparr>cl_db = d, cl_res = Map.empty, cl_pending = Map.empty, cl_seen = (\<lambda>_. 0), cl_jobs = Map.empty\<rparr>"

text \<open>
  The replay does not check that the events it reads are contiguous, so it is exact only if retention does not
  overtake it.  Retention removes what the second newest checkpoint covers; the condition is that event rows are
  removed only while no activation is reading the journal that began two or more checkpoints ago.
\<close>

definition unhurried :: "'d cluster \<Rightarrow> bool" where
  "unhurried s \<longleftrightarrow> (\<forall>i p. cl_pending s i = Some p \<longrightarrow> reads_journal p \<longrightarrow> length (d_snapshots (cl_db s)) \<le> cl_seen s i + 1)"

definition paced_step :: "('d, 'u, 's) yrs \<Rightarrow> (bytes \<Rightarrow> bytes) \<Rightarrow> 'd cluster \<Rightarrow> 'd cluster \<Rightarrow> bool" where
  "paced_step Y sha s s' \<longleftrightarrow> cluster_step Y sha s s'
     \<and> (set (d_events (cl_db s)) \<subseteq> set (d_events (cl_db s')) \<or> unhurried s)"

subsection \<open>The invariant\<close>

definition job_ok ::
  "('d, 'u, 's) yrs \<Rightarrow> (bytes \<Rightarrow> bytes) \<Rightarrow> canonical_base_row \<Rightarrow> history \<Rightarrow> bdb \<times> compaction_candidate \<Rightarrow> bool" where
  "job_ok Y sha c hist j \<longleftrightarrow> (\<exists>h1 h2. hist = h1 @ h2 \<and> journal_ok Y sha c h1 (fst j))
     \<and> cc_server_client_id (snd j) = cr_server_client_id c \<and> cc_base_generation (snd j) = cr_base_generation c"

definition cluster_inv ::
  "('d, 'u, 's) yrs \<Rightarrow> (bytes \<Rightarrow> bytes) \<Rightarrow> canonical_base_row \<Rightarrow> history \<Rightarrow> 'd cluster \<Rightarrow> bool" where
  "cluster_inv Y sha c hist s \<longleftrightarrow> journal_ok Y sha c hist (cl_db s)
     \<and> (\<forall>i rb. cl_res s i = Some rb \<longrightarrow> resident_ok Y c hist rb)
     \<and> (\<forall>i p. cl_pending s i = Some p \<longrightarrow> pending_ok Y c hist (cl_seen s i) (cl_db s) p)
     \<and> (\<forall>j x. cl_jobs s j = Some x \<longrightarrow> job_ok Y sha c hist x)"

lemma cluster_inv_init: "journal_ok Y sha c hist d \<Longrightarrow> cluster_inv Y sha c hist (cluster_init d)"
  by (simp add: cluster_inv_def cluster_init_def)

lemma cluster_inv_db:
  assumes s: "cluster_inv Y sha c hist s" and j: "journal_ok Y sha c hist d'"
    and p: "\<And>i p. cl_pending s i = Some p \<Longrightarrow> pending_ok Y c hist (cl_seen s i) d' p"
  shows "cluster_inv Y sha c hist (s\<lparr>cl_db := d'\<rparr>)"
  using assms by (simp add: cluster_inv_def)

lemma job_ok_append: "job_ok Y sha c hist x \<Longrightarrow> job_ok Y sha c (hist @ h) x"
  by (fastforce simp: job_ok_def)

text \<open>A step of another party that keeps the rows an activation reads keeps what the activation knows.\<close>

lemma pending_ok_db:
  assumes "pending_ok Y c hist k d p"
    and "\<And>e h r. fence_ok c hist d e h r \<Longrightarrow> fence_ok c hist d' e h r"
    and "d_snapshots d' = d_snapshots d" "d_events d' = d_events d"
  shows "pending_ok Y c hist k d' p"
  by (rule pending_ok_stable [OF assms(1,2)])
    (use lineage_cong [OF assms(3), of c] assms(3,4) in \<open>simp_all add: covered_def\<close>)

subsection \<open>Every step keeps it\<close>

lemma next_effect:
  assumes Y: "yrs_replicas Y" and j: "journal_ok Y sha c hist d" and p: "pending_ok Y c hist k d p"
    and n: "activation_next Y sha d p = Inr (p', d')"
  shows "journal_ok Y sha c hist d'
    \<and> pending_ok Y c hist (if is_Checked p then length (d_snapshots d) else k) d' p'
    \<and> (\<forall>e h r. fence_ok c hist d e h r \<longrightarrow> fence_ok c hist d' e h r)
    \<and> d_snapshots d' = d_snapshots d \<and> d_events d' = d_events d"
proof (cases p)
  case (Checked b)
  then have b: "b = c" using p by simp
  obtain epoch head ready where t: "activation_tx1 d (base_to_domain c) = Inr ((epoch, head, ready), d')"
    "p' = Fenced (base_to_domain c) epoch head ready"
    using n Checked b by (auto simp: result_simps)
  then show ?thesis
    using checked_step [OF j t(1)] fence_tx1 [OF t(1)] tx1_keeps [OF t(1)] Checked by simp
next
  case (Fenced can epoch head ready)
  then have can: "can = base_to_domain c" using p by simp
  obtain b coord where b: "preferred_activation_base Y sha d can head = Inr b" "from_base Y b (cb_base_seq b) = Inr coord"
    "p' = Replaying epoch head ready coord (cb_base_seq b) []" "d' = d"
    using n Fenced by (auto simp: result_simps)
  then show ?thesis using fenced_step [OF j p [unfolded Fenced can] _ _ Y] j Fenced can by simp
next
  case (Replaying epoch head ready coord cursor batch)
  have over: ?thesis if "activation_replayed Y epoch head ready coord d = Inr (p', d')"
    using that p j Replaying by (auto simp: activation_replayed_def coord_ok_def result_simps)
  show ?thesis
  proof (cases batch)
    case Nil
    show ?thesis
    proof (cases "cursor < head \<and> list_events_since d cursor CATCH_UP_BATCH \<noteq> []")
      case True
      then show ?thesis using n p j page_step [OF j, of head cursor] by (auto simp: Replaying Nil Let_def)
    next
      case False
      then show ?thesis using n over by (auto simp: Replaying Nil Let_def split: if_splits)
    qed
  next
    case (Cons ev more)
    show ?thesis
    proof (cases "e_seq ev > head")
      case True
      then show ?thesis using n over by (simp add: Replaying Cons)
    next
      case False
      then obtain coord' where c: "catch_up_one Y d coord ev = Inr coord'"
        "p' = Replaying epoch head ready coord' (e_seq ev) more" "d' = d"
        using n by (auto simp: Replaying Cons result_simps)
      then show ?thesis using row_step [OF j Y p [unfolded Replaying Cons] _ c(1)] False j Replaying by simp
    qed
  qed
next
  case (Rebuilt rb head ready)
  show ?thesis
  proof (cases ready)
    case True
    then show ?thesis using n p j by (auto simp: Rebuilt)
  next
    case False
    then obtain r where r: "d_head d = Some r" "hr_writer_epoch r = rb_writer_epoch rb" "hr_state r = ''activating''"
      "d' = d\<lparr>d_head := Some (r\<lparr>hr_state := ''ready'', hr_processed_seq := head\<rparr>)\<rparr>" "p' = Installed rb"
      using n by (auto simp: Rebuilt mark_ready_def split: option.splits if_splits)
    then have "head = hist_top c hist" using p False by (simp add: Rebuilt fence_ok_def)
    then have "journal_ok Y sha c hist d'"
      unfolding r(4) using j r(1) by (intro journal_ok_head) (simp_all add: journal_ok_def head_ok_def)
    then show ?thesis using r p Rebuilt by (auto simp: fence_ok_def)
  qed
next
  case (Installed rb)
  then show ?thesis using n p j by auto
qed

lemma inv_next:
  assumes Y: "yrs_replicas Y" and s: "cluster_inv Y sha c hist s" and p: "cl_pending s i = Some p"
    and n: "activation_next Y sha (cl_db s) p = Inr (p', d')"
  shows "cluster_inv Y sha c hist (s\<lparr>cl_db := d', cl_pending := (cl_pending s)(i \<mapsto> p'),
    cl_seen := (if is_Checked p then (cl_seen s)(i := length (d_snapshots (cl_db s))) else cl_seen s)\<rparr>)"
proof -
  have "journal_ok Y sha c hist (cl_db s)" "pending_ok Y c hist (cl_seen s i) (cl_db s) p"
    using s p by (simp_all add: cluster_inv_def)
  note e = next_effect [OF Y this n]
  have "pending_ok Y c hist (cl_seen s k) d' q" if "cl_pending s k = Some q" for k q
    by (rule pending_ok_db [of Y c hist _ "cl_db s"]) (use s that e in \<open>auto simp: cluster_inv_def\<close>)
  then show ?thesis using s e by (auto simp: cluster_inv_def)
qed

lemma commit_changes_head:
  assumes "commit_once Y E new_id now q d0 d rb = (out, keep, d')" "d' \<noteq> d"
  shows "(\<exists>result. out = Inr result)
    \<and> (\<exists>r n. d_head d = Some r \<and> hr_state r = ''ready'' \<and> d_head d' = Some (r\<lparr>hr_processed_seq := n\<rparr>))
    \<and> d_snapshots d' = d_snapshots d \<and> set (d_events d) \<subseteq> set (d_events d')"
proof -
  obtain pn where pn: "commit_prepare Y E rb d0 q = Inr (Inr pn)"
    using assms by (auto simp: commit_once_def split: sum.splits)
  obtain seq eid cid where tx: "commit_tx E new_id now q rb pn d = Inr ((seq, eid, cid), d')"
    using assms by (auto simp: commit_once_def pn Let_def split: sum.splits commit_error.splits)
  have "\<exists>result. out = Inr result"
    using assms by (auto simp: commit_once_def pn tx Let_def split: sum.splits)
  moreover have "set (d_events d) \<subseteq> set (d_events d')" using commit_tx_effect [OF tx] by fastforce
  ultimately show ?thesis using commit_tx_effect [OF tx] by blast
qed

lemma unchanged_keeps:
  assumes once: "commit_once Y E new_id now q d0 d rb = (out, keep, d)"
  shows "keep = Evict \<or> keep = Keep rb"
proof (rule ccontr)
  assume n: "\<not> ?thesis"
  then obtain pn where pn: "commit_prepare Y E rb d0 q = Inr (Inr pn)"
    using once by (auto simp: commit_once_def split: sum.splits)
  obtain seq eid cid where "commit_tx E new_id now q rb pn d = Inr ((seq, eid, cid), d)"
    using once n by (auto simp: commit_once_def pn Let_def split: sum.splits commit_error.splits)
  then have "b_next_event_seq (d_board d) = b_next_event_seq (d_board d) + 1"
    using commit_tx_effect by blast
  then show False by simp
qed

lemma candidate_ids:
  assumes "cand \<in> set (list_compaction_candidates [(b, d)] m n l)" "d_base d = Some c"
  shows "cc_server_client_id cand = cr_server_client_id c \<and> cc_base_generation cand = cr_base_generation c"
  using assms
  by (auto simp: list_compaction_candidates_def compaction_candidate_of_def Let_def dest!: in_set_takeD
      split: option.splits if_splits)

text \<open>A commit appends its event and moves only the head's sequence.\<close>

lemma seqs_between_append: "head \<le> hist_top c hist \<Longrightarrow> hist_top c hist < q \<Longrightarrow>
    seqs_between (hist @ [(q, b)]) n head = seqs_between hist n head"
  by (simp add: seqs_between_def)

lemma inv_commit:
  assumes Y: "yrs_replicas Y" and s: "cluster_inv Y sha c hist s" and rb: "cl_res s i = Some rb"
    and once: "commit_once Y E new_id now q d0 (cl_db s) rb = (out, keep, d')"
  shows "\<exists>later. cluster_inv Y sha c (hist @ later) (s\<lparr>cl_db := d', cl_res := (cl_res s)(i := after_commit keep)\<rparr>)"
proof -
  have j: "journal_ok Y sha c hist (cl_db s)" and r: "resident_ok Y c hist rb"
    using s rb by (auto simp: cluster_inv_def)
  show ?thesis
  proof (cases "d' = cl_db s")
    case True
    have "keep = Evict \<or> keep = Keep rb"
      using unchanged_keeps once True by blast
    then have "cluster_inv Y sha c hist (s\<lparr>cl_db := d', cl_res := (cl_res s)(i := after_commit keep)\<rparr>)"
      using s r True by (auto simp: cluster_inv_def after_commit_def)
    then show ?thesis by (intro exI [of _ "[]"]) simp
  next
    case False
    note hd = commit_changes_head [OF once False]
    then obtain result where out: "out = Inr result" by blast
    obtain yupdate rb' where e: "hist_top c hist < res_seq result"
      "journal_ok Y sha c (hist @ [(res_seq result, yupdate)]) d'"
      "keep = Keep rb'" "resident_ok Y c (hist @ [(res_seq result, yupdate)]) rb'"
      using commit_once_effect [OF Y j r once [unfolded out] False] by blast
    let ?h = "hist @ [(res_seq result, yupdate)]"
    have snap: "d_snapshots d' = d_snapshots (cl_db s)" "set (d_events (cl_db s)) \<subseteq> set (d_events d')" using hd by blast+
    have "pending_ok Y c ?h (cl_seen s k) d' p" if "cl_pending s k = Some p" for k p
    proof (rule pending_ok_stable [of Y c hist _ "cl_db s"])
      show "pending_ok Y c hist (cl_seen s k) (cl_db s) p" using s that by (simp add: cluster_inv_def)
    qed (use hd e(1) snap lineage_cong [OF snap(1), of c] resident_ok_append seqs_between_append
        in \<open>fastforce simp: fence_ok_def covered_def\<close>)+
    then have "cluster_inv Y sha c ?h (s\<lparr>cl_db := d', cl_res := (cl_res s)(i := after_commit keep)\<rparr>)"
      using s e resident_ok_append [of Y c hist _ "res_seq result"] job_ok_append
      by (fastforce simp: cluster_inv_def after_commit_def)
    then show ?thesis by blast
  qed
qed

text \<open>A publication adds at most one checkpoint.\<close>

lemma publish_adds_one:
  assumes "compact_one Y sha d d1 cand = Inr (p, d')"
  shows "d_head d' = d_head d1 \<and> d_events d' = d_events d1
    \<and> (d_snapshots d' = d_snapshots d1 \<or> (\<exists>x. d_snapshots d' = d_snapshots d1 @ [x]))"
proof -
  have "d' = d1 \<or> (\<exists>k. publish_snapshot_cas d1 cand k = Inr (p, d'))"
    using assms unfolding compact_one_def Let_def
    by (auto simp: bindE_Inr_iff map_errE_Inr_iff ok_orE_Inr_iff split: if_splits)
  then show ?thesis
    by (auto simp: publish_snapshot_cas_def insert_snapshot_def split: if_splits option.splits)
qed

lemma covered_publish:
  assumes "d_snapshots d' = d_snapshots d \<or> (\<exists>x. d_snapshots d' = d_snapshots d @ [x])"
  shows "set (lineage d c) \<subseteq> set (lineage d' c) \<and> (covered c d k n \<longrightarrow> covered c d' k n)"
  using assms by (auto simp: covered_def lineage_def lineage_snapshots_def)

lemma inv_publish:
  assumes Y: "yrs_replicas Y" and s: "cluster_inv Y sha c hist s" and x: "cl_jobs s k = Some (d, cand)"
    and run: "compact_one Y sha d (cl_db s) cand = Inr (published, d')"
  shows "cluster_inv Y sha c hist (s\<lparr>cl_db := d', cl_jobs := (cl_jobs s)(k := None)\<rparr>)"
proof -
  have "job_ok Y sha c hist (d, cand)" using s x by (auto simp: cluster_inv_def)
  then obtain h1 h2 where h: "hist = h1 @ h2" "journal_ok Y sha c h1 d" and
    ids: "cc_server_client_id cand = cr_server_client_id c" "cc_base_generation cand = cr_base_generation c"
    by (auto simp: job_ok_def)
  have "journal_ok Y sha c (h1 @ h2) (cl_db s)" using s h by (simp add: cluster_inv_def)
  then have j: "journal_ok Y sha c hist d'"
    using compact_one_effect [OF Y h(2) _ ids run] h(1) by blast
  note a = publish_adds_one [OF run]
  have "pending_ok Y c hist (cl_seen s i) d' p" if "cl_pending s i = Some p" for i p
  proof (rule pending_ok_stable [of Y c hist _ "cl_db s"])
    show "pending_ok Y c hist (cl_seen s i) (cl_db s) p" using s that by (simp add: cluster_inv_def)
  qed (use a covered_publish [of d' "cl_db s" c] in \<open>auto simp: fence_ok_def\<close>)
  then show ?thesis using s j by (simp add: cluster_inv_def)
qed

text \<open>Retention removes only rows that two checkpoints cover; at most one lies above what an unhurried replay needs.\<close>

lemma prune_keeps:
  "prune_compacted_batch now [(b, d)] days limit = (res, [(b', d')]) \<Longrightarrow>
   d_head d' = d_head d \<and> d_snapshots d' = d_snapshots d"
  by (auto simp: prune_compacted_batch_def Let_def delete_events_def delete_updates_def)

lemma covered_needed:
  assumes "covered c d k n" "length (d_snapshots d) \<le> k + 1" "n < x"
  shows "needed d c x"
proof -
  have "covered c d k (x - 1)" using covered_mono [OF assms(1)] assms(3) by simp
  moreover have "(x - 1 < m) = (x \<le> m)" for m :: int by auto
  ultimately show ?thesis using assms(2) by (simp add: covered_def needed_def)
qed

lemma inv_prune:
  assumes s: "cluster_inv Y sha c hist s" and run: "prune_compacted_batch now [(b, cl_db s)] days limit = (res, [(b', d')])"
    and pace: "set (d_events (cl_db s)) \<subseteq> set (d_events d') \<or> unhurried s"
  shows "cluster_inv Y sha c hist (s\<lparr>cl_db := d'\<rparr>)"
proof -
  have j: "journal_ok Y sha c hist d'"
    using prune_effect [of "[(b, cl_db s)]" Y sha "\<lambda>_. c" "\<lambda>_. hist", OF _ _ run] s by (simp add: cluster_inv_def)
  note k = prune_keeps [OF run]
  have lin: "lineage d' c = lineage (cl_db s) c" using lineage_cong k by blast
  have "pending_ok Y c hist (cl_seen s i) d' p" if p: "cl_pending s i = Some p" for i p
  proof (rule pending_ok_stable [of Y c hist _ "cl_db s"])
    show "pending_ok Y c hist (cl_seen s i) (cl_db s) p" using s p by (simp add: cluster_inv_def)
    fix n x assume a: "reads_journal p" "covered c (cl_db s) (cl_seen s i) n" "n < x" "x \<in> fst ` set hist"
      "x \<in> e_seq ` set (d_events (cl_db s))"
    show "x \<in> e_seq ` set (d_events d')"
      using pace
    proof
      assume "unhurried s"
      then have "needed d' c x"
        using covered_needed [OF a(2) _ a(3)] p a(1) k by (auto simp: unhurried_def needed_def lin)
      then show ?thesis using j a(4) by (auto simp: journal_ok_def rows_ok_def)
    qed (use a(5) in auto)
  qed (use k lin in \<open>simp_all add: fence_ok_def covered_def\<close>)
  then show ?thesis using s j by (simp add: cluster_inv_def)
qed

lemma inv_job_start:
  assumes s: "cluster_inv Y sha c hist s" and cand: "cand \<in> set (list_compaction_candidates [(b, cl_db s)] m n l)"
  shows "cluster_inv Y sha c hist (s\<lparr>cl_jobs := (cl_jobs s)(j \<mapsto> (cl_db s, cand))\<rparr>)"
proof -
  have "journal_ok Y sha c hist (cl_db s)" "d_base (cl_db s) = Some c" using s by (auto simp: cluster_inv_def journal_ok_def)
  then have "job_ok Y sha c hist (cl_db s, cand)"
    using candidate_ids [OF cand] unfolding job_ok_def by (metis append_Nil2 fst_conv snd_conv)
  then show ?thesis using s by (auto simp: cluster_inv_def)
qed

lemma inv_start:
  assumes s: "cluster_inv Y sha c hist s" and b: "activation_start (cl_db s) = Inr b"
  shows "cluster_inv Y sha c hist (s\<lparr>cl_pending := (cl_pending s)(i \<mapsto> Checked b)\<rparr>)"
proof -
  have "d_base (cl_db s) = Some c" using s by (simp add: cluster_inv_def journal_ok_def)
  then have "b = c" using b by (auto simp: activation_start_def read_base_def split: if_splits)
  then show ?thesis using s by (auto simp: cluster_inv_def)
qed

lemma paced_step_inv:
  assumes Y: "yrs_replicas Y" and step: "paced_step Y sha s s'" and s: "cluster_inv Y sha c hist s"
  shows "\<exists>later. cluster_inv Y sha c (hist @ later) s'"
proof -
  have run: "cluster_step Y sha s s'" and pace: "set (d_events (cl_db s)) \<subseteq> set (d_events (cl_db s')) \<or> unhurried s"
    using step by (simp_all add: paced_step_def)
  have same: ?thesis if "cluster_inv Y sha c hist s'" using that by (intro exI [of _ "[]"]) simp
  from run show ?thesis
  proof cases
    case act_start
    then show ?thesis using inv_start [OF s] same by blast
  next
    case act_next
    then show ?thesis using inv_next [OF Y s] same by blast
  next
    case (act_install i rb)
    then have "pending_ok Y c hist (cl_seen s i) (cl_db s) (Installed rb)" using s unfolding cluster_inv_def by blast
    then have "cluster_inv Y sha c hist s'" using s act_install by (auto simp: cluster_inv_def)
    then show ?thesis by (rule same)
  next
    case commit_one
    then show ?thesis using inv_commit [OF Y s] by blast
  next
    case job_start
    then show ?thesis using inv_job_start [OF s] same by blast
  next
    case job_publish
    then show ?thesis using inv_publish [OF Y s] same by blast
  next
    case prune
    then show ?thesis using inv_prune [OF s] pace same by auto
  qed (use s in \<open>auto simp: cluster_inv_def intro!: exI [of _ "[]"]\<close>)
qed

lemma paced_run_inv:
  assumes Y: "yrs_replicas Y" and run: "(paced_step Y sha)\<^sup>*\<^sup>* s s'" and s: "cluster_inv Y sha c hist s"
  shows "\<exists>later. cluster_inv Y sha c (hist @ later) s'"
  using run
proof induction
  case base
  then show ?case using s by (intro exI [of _ "[]"]) simp
next
  case (step s1 s2)
  then obtain l1 where "cluster_inv Y sha c (hist @ l1) s1" by blast
  from paced_step_inv [OF Y step(2) this] show ?case by (metis append_assoc)
qed

subsection \<open>An instance left alone activates\<close>

lemma next_keeps_events: "activation_next Y sha d p = Inr (p', d') \<Longrightarrow> d_events d' = d_events d"
  by (cases "(Y, sha, d, p)" rule: activation_next.cases)
    (auto simp: activation_replayed_def mark_ready_def Let_def result_simps dest: tx1_keeps split: if_splits option.splits prod.splits)

lemma run_paced:
  assumes "activation_run Y sha d p d' p'" "cl_db s = d" "cl_pending s i = Some p"
  shows "\<exists>seen. (paced_step Y sha)\<^sup>*\<^sup>* s (s\<lparr>cl_db := d', cl_pending := (cl_pending s)(i \<mapsto> p'), cl_seen := seen\<rparr>)"
  using assms
proof (induction arbitrary: s rule: activation_run.induct)
  case (run_refl d p)
  then have "s\<lparr>cl_db := d, cl_pending := (cl_pending s)(i \<mapsto> p), cl_seen := cl_seen s\<rparr> = s" by (cases s) auto
  then show ?case by (metis rtranclp.rtrancl_refl)
next
  case (run_step d p p1 d1 d2 p2)
  let ?s = "s\<lparr>cl_db := d1, cl_pending := (cl_pending s)(i \<mapsto> p1),
    cl_seen := (if is_Checked p then (cl_seen s)(i := length (d_snapshots (cl_db s))) else cl_seen s)\<rparr>"
  have "cluster_step Y sha s ?s" using run_step by (intro cluster_step.act_next) simp_all
  then have one: "paced_step Y sha s ?s" using next_keeps_events [OF run_step.hyps(1)] run_step by (simp add: paced_step_def)
  have "\<exists>seen. (paced_step Y sha)\<^sup>*\<^sup>* ?s (?s\<lparr>cl_db := d2, cl_pending := (cl_pending ?s)(i \<mapsto> p2), cl_seen := seen\<rparr>)"
    by (rule run_step.IH) simp_all
  then obtain seen where two: "(paced_step Y sha)\<^sup>*\<^sup>* ?s (?s\<lparr>cl_db := d2, cl_pending := (cl_pending ?s)(i \<mapsto> p2), cl_seen := seen\<rparr>)"
    by blast
  have "?s\<lparr>cl_db := d2, cl_pending := (cl_pending ?s)(i \<mapsto> p2), cl_seen := seen\<rparr>
      = s\<lparr>cl_db := d2, cl_pending := (cl_pending s)(i \<mapsto> p2), cl_seen := seen\<rparr>" by simp
  from converse_rtranclp_into_rtranclp [of "paced_step Y sha", OF one two, unfolded this] show ?case by blast
qed

lemma instance_activates:
  assumes Y: "yrs_replicas Y" and j: "journal_ok Y sha c hist (cl_db s)"
    and q: "\<forall>h. read_head (cl_db s) = Some h \<longrightarrow> h_state h \<noteq> Quarantined"
  shows "\<exists>s' rb. (paced_step Y sha)\<^sup>*\<^sup>* s s' \<and> cl_res s' = (cl_res s)(i \<mapsto> rb) \<and> bc_processed_seq (rb_coord rb) = hist_top c hist
    \<and> journal_ok Y sha c hist (cl_db s') \<and> (\<forall>h. read_head (cl_db s') = Some h \<longrightarrow> h_state h \<noteq> Quarantined)"
proof -
  obtain rb d' r where a: "activate Y sha (\<lambda>x. x) (cl_db s) = Inr (rb, d')" "bc_processed_seq (rb_coord rb) = hist_top c hist"
    "journal_ok Y sha c hist d'" "d_head d' = Some r" "hr_state r = ''ready''"
    using activation_recovers [OF Y j q] by blast
  have "distinct (map e_seq (d_events (cl_db s)))" using j by (simp add: journal_ok_def rows_ok_def)
  then obtain b where b: "activation_start (cl_db s) = Inr b" "activation_run Y sha (cl_db s) (Checked b) d' (Installed rb)"
    using activate_is_run [OF a(1)] by blast
  let ?s1 = "s\<lparr>cl_pending := (cl_pending s)(i \<mapsto> Checked b)\<rparr>"
  have one: "paced_step Y sha s ?s1" using cluster_step.act_start [OF b(1)] by (simp add: paced_step_def)
  have "\<exists>seen. (paced_step Y sha)\<^sup>*\<^sup>* ?s1
      (?s1\<lparr>cl_db := d', cl_pending := (cl_pending ?s1)(i \<mapsto> Installed rb), cl_seen := seen\<rparr>)"
    by (rule run_paced [OF b(2)]) simp_all
  then obtain seen where two: "(paced_step Y sha)\<^sup>*\<^sup>* ?s1
      (?s1\<lparr>cl_db := d', cl_pending := (cl_pending ?s1)(i \<mapsto> Installed rb), cl_seen := seen\<rparr>)"
    by blast
  let ?s2 = "?s1\<lparr>cl_db := d', cl_pending := (cl_pending ?s1)(i \<mapsto> Installed rb), cl_seen := seen\<rparr>"
  let ?s3 = "?s2\<lparr>cl_pending := (cl_pending ?s2)(i := None), cl_res := (cl_res ?s2)(i \<mapsto> rb)\<rparr>"
  have "paced_step Y sha ?s2 ?s3" using cluster_step.act_install [of ?s2 i rb] by (simp add: paced_step_def)
  then have "(paced_step Y sha)\<^sup>*\<^sup>* s ?s3"
    using one two by (meson converse_rtranclp_into_rtranclp rtranclp.rtrancl_into_rtrancl)
  moreover have "\<forall>h. read_head d' = Some h \<longrightarrow> h_state h \<noteq> Quarantined"
    using a(4,5) by (simp add: read_head_def head_to_domain_def state_from_str_def)
  ultimately show ?thesis using a by (intro exI [of _ ?s3] exI [of _ rb]) simp
qed

subsection \<open>The guarantees\<close>

text \<open>C2: Whatever the instances do and however their transactions and the single reads of their activations
  interleave, crashes included, from a consistent journal the committed history only grows, the database stays
  consistent with it, and every resident holds exactly the document of the history up to the sequence it says it
  processed; provided retention removes event rows only while no activation is still replaying that began two or
  more checkpoints ago (without this a replay can skip removed events, as \<open>hurried_replay_loses_edits\<close> shows).\<close>

theorem cluster_history_grows:
  assumes "yrs_replicas Y" and "journal_ok Y sha c hist d" and "(paced_step Y sha)\<^sup>*\<^sup>* (cluster_init d) s"
  shows "\<exists>later. journal_ok Y sha c (hist @ later) (cl_db s)
    \<and> (\<forall>i rb. cl_res s i = Some rb \<longrightarrow>
          hist_doc Y c (hist @ later) (bc_processed_seq (rb_coord rb)) = Inr (bc_doc (rb_coord rb)))"
  using paced_run_inv [OF assms(1,3) cluster_inv_init [OF assms(2)]]
  by (auto simp: cluster_inv_def resident_ok_def)

text \<open>C6: Instances converge: two residents that have processed the same sequence hold the same document, project the
  same snapshot and export the same base, whatever checkpoints and interleavings brought them there, as long as
  retention removes event rows only while no activation is still replaying that began two or more checkpoints ago.\<close>

theorem residents_converge:
  assumes "yrs_replicas Y" and "journal_ok Y sha c hist d" and "(paced_step Y sha)\<^sup>*\<^sup>* (cluster_init d) s"
    and "cl_res s i = Some a" and "cl_res s k = Some b"
    and "bc_processed_seq (rb_coord a) = bc_processed_seq (rb_coord b)"
  shows "bc_doc (rb_coord a) = bc_doc (rb_coord b)
    \<and> current_canonical_state Y a = current_canonical_state Y b
    \<and> current_canonical_export Y a = current_canonical_export Y b"
proof -
  obtain later where l: "cluster_inv Y sha c (hist @ later) s"
    using paced_run_inv [OF assms(1,3) cluster_inv_init [OF assms(2)]] by blast
  then have r: "resident_ok Y c (hist @ later) a" "resident_ok Y c (hist @ later) b"
    using assms(4,5) by (auto simp: cluster_inv_def)
  then have "rb_coord a = rb_coord b"
    using assms(6) by (cases "rb_coord a"; cases "rb_coord b") (auto simp: resident_ok_def)
  then show ?thesis by (simp add: current_canonical_state_def current_canonical_export_def)
qed

end
