(* ===== verification/Samples.thy ===== *)
theory Samples
  imports Cluster
begin

text \<open>
  A concrete board on which the guarantees of the commit, activation and compaction paths hold: replicas are
  bytes merged by maximum, the journal has one committed update, and the resident is up to date.
\<close>

definition sample_base :: canonical_base_row where
  "sample_base = \<lparr>cr_state_update = [0], cr_state_vector = [0], cr_base_seq = 4, cr_protocol_version = 1,
     cr_schema_version = 2, cr_min_writer_version = 2, cr_server_client_id = 2 ^ 52,
     cr_base_generation = 1, cr_abandoned_at = None\<rparr>"

definition sample_event :: event_record where
  "sample_event = \<lparr>e_id = 11, e_board_id = 1, e_seq = 5, e_user_id = 3, e_event_type = ''world_commit'',
     e_payload = JNull, e_session_id = None, e_created_at = 0\<rparr>"

definition sample_update :: yrs_update_row where
  "sample_update = \<lparr>u_board_id = 1, u_seq = 5, u_event_id = Some 11, u_client_event_id = ''c1'', u_payload_hash = [1],
     u_base_generation = 1, u_schema_version = 2, u_protocol_version = 1, u_source = ''client'',
     u_writer_client_id = Some 7, u_update_hash = [3], u_yupdate = [3], u_created_at = 0\<rparr>"

definition sample_head :: yrs_head_row where
  "sample_head = \<lparr>hr_processed_seq = 5, hr_base_generation = 1, hr_writer_epoch = 7, hr_state = ''ready''\<rparr>"

definition sample_board :: board_row where
  "sample_board = \<lparr>b_next_event_seq = 6, b_grid_type = [], b_background_color = [], b_privacy_mode = False,
     b_sticker_authors = False\<rparr>"

definition sample_db :: bdb where
  "sample_db = \<lparr>d_board = sample_board, d_events = [sample_event], d_updates = [sample_update],
     d_head = Some sample_head, d_base = Some sample_base, d_snapshots = [], d_asset_head = None, d_asset_refs = []\<rparr>"

definition sample_resident :: "(u64 \<times> byte) resident_board" where
  "sample_resident = \<lparr>rb_coord = \<lparr>bc_doc = (2 ^ 52, 3), bc_server_client_id = 2 ^ 52, bc_base_generation = 1,
     bc_processed_seq = 5\<rparr>, rb_writer_epoch = 7, rb_state = Ready\<rparr>"

definition sample_env :: env where
  "sample_env = \<lparr>v_validate = (\<lambda>_. Inr ()), v_sha = (\<lambda>bs. bs), v_payload_hash = (\<lambda>_. [1]),
     v_b64_decode = (\<lambda>_. None), v_b64_encode = (\<lambda>_. []), v_json_to_vec = (\<lambda>_. Some []),
     v_model_text = (\<lambda>_. []), v_board_text = (\<lambda>_. ''b''), v_uuid_text = (\<lambda>_. ''u'')\<rparr>"

definition sample_request :: commit_request where
  "sample_request = \<lparr>cq_board_id = 1, cq_actor_user_id = 3, cq_event_type = ''world_commit'', cq_payload = JNull,
     cq_client_event_id = Some ''c2'', cq_session_id = None,
     cq_client_yrs = Some \<lparr>cy_encoding = ''yrs-v1'', cy_protocol_version = 1, cy_schema_version = 2,
       cy_base_generation = 1, cy_observed_seq = 5, cy_writer_client_id = 7, cy_update_b64 = [],
       cy_update_bytes = Some [9]\<rparr>\<rparr>"

abbreviation "sample_hist \<equiv> [(5 :: int, [3 :: byte])]"

lemma sample_hist_doc: "hist_doc join_yrs sample_base sample_hist n = Inr (2 ^ 52, if 5 \<le> n then 3 else 0)"
  by (simp add: hist_doc_def base_doc_def doc_from_base_def server_id_in_band_def SERVER_ID_LO_def SERVER_ID_HI_def
      sample_base_def join_yrs_def upto_def replay_def apply_bytes_def max_def)

lemma join_projects: "\<exists>j. doc_to_snapshot join_yrs doc = Inr j"
  by (simp add: doc_to_snapshot_def join_yrs_def alive_checked_def parse_uint_def is_ascii_digit_def digit_value_def)

lemma sample_journal: "journal_ok join_yrs (\<lambda>bs. bs) sample_base sample_hist sample_db"
proof -
  have "hist_ok join_yrs sample_base sample_hist"
    using join_projects by (simp add: hist_ok_def sample_hist_doc) (simp add: sample_base_def join_yrs_def)
  moreover have "lineage sample_db sample_base = []"
    by (simp add: lineage_def lineage_snapshots_def sample_db_def)
  moreover have "rows_ok sample_base sample_hist sample_db"
    by (simp add: rows_ok_def sample_db_def sample_board_def sample_base_def sample_update_def sample_event_def)
  ultimately show ?thesis
    by (simp add: journal_ok_def) (simp add: sample_db_def head_ok_def sample_head_def sample_base_def hist_top_def)
qed

lemma sample_resident_ok: "resident_ok join_yrs sample_base sample_hist sample_resident"
  by (simp add: resident_ok_def sample_hist_doc hist_top_def)
    (simp add: coordinator_ok_def sample_resident_def sample_base_def join_yrs_def server_id_in_band_def
      SERVER_ID_LO_def SERVER_ID_HI_def)

definition sample_candidate :: decoded_client_candidate where
  "sample_candidate = \<lparr>dc_bytes = [9], dc_protocol_version = 1, dc_writer_client_id = 7, dc_update_hash = [9],
     dc_schema_version = 2\<rparr>"

lemma sample_decode: "decode_candidate sample_env sample_request = Inr (Some sample_candidate)"
  by (simp add: decode_candidate_def decode_client_candidate_def sample_env_def sample_request_def
      sample_candidate_def PROTOCOL_VERSION_def SCHEMA_VERSION_def SERVER_ID_LO_def MAX_UPDATE_BYTES_def)

lemma sample_dedup: "dedup sample_env sample_db sample_request (Some sample_candidate) = Inr None"
  by (simp add: dedup_def sample_env_def sample_request_def sample_db_def read_by_client_event_id_def sample_update_def)

lemma join_reload: "doc_from_base join_yrs [b] [b] 4503599627370496 = Inr (4503599627370496, b)"
proof -
  have "max (0 :: byte) x = x" for x by (simp add: max_def)
  then show ?thesis
    by (simp add: doc_from_base_def join_yrs_def server_id_in_band_def SERVER_ID_LO_def SERVER_ID_HI_def)
qed

lemma join_encode: "encode_base join_yrs (i, b) = ([b], [b])"
  by (simp add: encode_base_def join_yrs_def)

lemma join_schema: "doc_schema_version join_yrs d = Inr 2"
  by (simp add: doc_schema_version_def join_yrs_def f64_integral_def f64_as_u64_def)

lemma join_metadata: "validate_schema_metadata join_yrs d 2 = Inr ()"
  by (simp add: validate_schema_metadata_def join_schema SCHEMA_VERSION_def)
    (simp add: join_yrs_def f64_integral_def f64_as_u64_def)

lemma sample_prepare:
  "\<exists>pn. prepare_fresh join_yrs sample_env (rb_coord sample_resident) sample_request (Some sample_candidate) = Inr pn
     \<and> pc_yupdate (pn_prepared pn) = [9]"
proof -
  obtain j where j: "doc_to_snapshot join_yrs (4503599627370496, 9) = Inr j" using join_projects by blast
  have mx: "max (3 :: byte) 9 = 9" by (simp add: max_def)
  have a: "apply_bytes join_yrs x y [9] (4503599627370496, 3) = Inr (4503599627370496, 9)" for x y
    by (simp add: apply_bytes_def join_yrs_def mx)
  have v: "validate_candidate_schema join_yrs (rb_coord sample_resident) [9] 2 = Inr ()"
    by (simp add: validate_candidate_schema_def schema_version_def join_schema SCHEMA_VERSION_def sample_resident_def
        join_encode join_reload a join_metadata)
  have n: "normalize_structural_text_projection JNull j = Inr JNull"
    by (simp add: normalize_structural_text_projection_def forward_commands_def json_access)
  show ?thesis
    using j n by (simp add: prepare_fresh_def schema_version_def join_schema enforce_writer_fence_def sample_candidate_def
        sample_request_def enforce_canonical_payload_def json_access check_revision_def prepare_candidate_def v
        prepare_external_def a join_encode join_reload sample_env_def SCHEMA_VERSION_def)
      (simp add: sample_resident_def join_encode join_reload a)
qed


lemma sample_commit:
  "\<exists>r k d'. commit_once join_yrs sample_env 12 0 sample_request sample_db sample_db sample_resident = (Inr r, k, d')
     \<and> d' \<noteq> sample_db"
proof -
  obtain pn where pn: "prepare_fresh join_yrs sample_env (rb_coord sample_resident) sample_request (Some sample_candidate) = Inr pn"
    "pc_yupdate (pn_prepared pn) = [9]"
    using sample_prepare by blast
  have p: "commit_prepare join_yrs sample_env sample_resident sample_db sample_request = Inr (Inr pn)"
    using sample_decode sample_dedup pn by (simp add: commit_prepare_def sample_resident_def)
  obtain x d' where tx: "commit_tx sample_env 12 0 sample_request sample_resident pn sample_db = Inr (x, d')"
    "length (d_updates d') = 2"
    by (simp add: commit_tx_def sample_db_def sample_board_def reserve_next_event_seq_tx_def insert_event_def
        insert_update_def sample_event_def sample_update_def update_row_def event_cid_def sample_request_def
        advance_processed_seq_def sample_head_def sample_resident_def write_assets_def replace_projection_tx_def Let_def)
  moreover have "length (d_updates sample_db) = 1" by (simp add: sample_db_def)
  ultimately have "d' \<noteq> sample_db" by auto
  then show ?thesis using p tx(1)
    by (cases x; cases "apply_committed join_yrs ((pn_prepared pn)\<lparr>pc_seq := fst x\<rparr>) (rb_coord sample_resident)")
      (auto simp: commit_once_def Let_def)
qed

theorem commit_validated_durable_witness:
  "\<exists>r k d' yupdate. commit_once join_yrs sample_env 12 0 sample_request sample_db sample_db sample_resident = (Inr r, k, d')
     \<and> journal_ok join_yrs (\<lambda>bs. bs) sample_base (sample_hist @ [(res_seq r, yupdate)]) d'"
  using commit_validated_durable [OF join_replicas sample_journal sample_resident_ok, of sample_env 12 0 sample_request sample_db]
    sample_commit by metis

theorem commit_retry_idempotent_witness:
  "\<exists>r k d' ack. commit_once join_yrs sample_env 12 0 sample_request sample_db sample_db sample_resident = (Inr r, k, d')
     \<and> commit_once join_yrs sample_env 13 1 sample_request d' d' sample_resident = (Inr ack, Keep sample_resident, d')
     \<and> res_seq ack = res_seq r"
proof -
  obtain r k d' where c: "commit_once join_yrs sample_env 12 0 sample_request sample_db sample_db sample_resident
      = (Inr r, k, d')" "d' \<noteq> sample_db"
    using sample_commit by blast
  have "cq_client_event_id sample_request = Some ''c2''" "rb_state sample_resident = Ready"
    by (simp_all add: sample_request_def sample_resident_def)
  from commit_retry_idempotent [OF c this(1) refl this(2), of 13 1 d'] c show ?thesis by blast
qed

theorem activation_recovers_history_witness:
  "\<exists>rb d'. activate join_yrs (\<lambda>bs. bs) (\<lambda>x. x) sample_db = Inr (rb, d') \<and> bc_processed_seq (rb_coord rb) = 5"
proof -
  have "\<forall>h. read_head sample_db = Some h \<longrightarrow> h_state h \<noteq> Quarantined"
    by (simp add: read_head_def sample_db_def sample_head_def head_to_domain_def state_from_str_def)
  from activation_recovers_history [OF join_replicas sample_journal this] show ?thesis
    by (auto simp: hist_top_def)
qed

definition sample_cand :: compaction_candidate where
  "sample_cand = \<lparr>cc_board_id = 1, cc_processed_seq = 5, cc_base_generation = 1, cc_writer_epoch = 7,
     cc_server_client_id = 2 ^ 52\<rparr>"

lemma sample_compact:
  "\<exists>d''. compact_one join_yrs (\<lambda>bs. bs) sample_db sample_db sample_cand = Inr (True, d'')"
proof -
  have t: "read_tail sample_db 1 5 4 = [\<lparr>bt_seq = 5, bt_yupdate = [3]\<rparr>]"
    by (subst read_tail_exact)
      (simp_all add: sample_db_def sample_update_def tail_rows_def log_after_def tail_of_row_def)
  have c: "read_latest_at_or_before sample_db 1 4503599627370496 5 = None"
    by (simp add: read_latest_at_or_before_def lineage_snapshots_def sample_db_def newest_first_def)
  have k: "\<exists>k. compact_binary_snapshot join_yrs (\<lambda>bs. bs) (compaction_base sample_base None) 5 [\<lparr>bt_seq = 5, bt_yupdate = [3]\<rparr>]
      = Inr k"
  proof -
    have "max (0 :: byte) 3 = 3" by (simp add: max_def)
    then have "apply_tail_update join_yrs \<lparr>bt_seq = 5, bt_yupdate = [3]\<rparr> (4503599627370496, 0) = Inr (4503599627370496, 3)"
      by (simp add: apply_tail_update_def join_yrs_def)
    then show ?thesis
      by (simp add: compact_binary_snapshot_def compaction_base_def sample_base_def I64_MAX_def join_reload join_encode
          join_schema join_metadata)
  qed
  have h: "read_head sample_db = Some \<lparr>h_processed_seq = 5, h_base_generation = 1, h_writer_epoch = 7, h_state = Ready\<rparr>"
    by (simp add: read_head_def sample_db_def sample_head_def head_to_domain_def state_from_str_def)
  obtain k where k: "compact_binary_snapshot join_yrs (\<lambda>bs. bs) (compaction_base sample_base None) 5
      [\<lparr>bt_seq = 5, bt_yupdate = [3]\<rparr>] = Inr k" using k by blast
  have "bs_last_event_seq (compaction_base sample_base None) = 4" "read_base sample_db = Some sample_base"
    by (simp_all add: compaction_base_def sample_base_def read_base_def sample_db_def)
  then show ?thesis
    using t c k by (simp add: compact_one_def h sample_cand_def publish_snapshot_cas_def insert_snapshot_def)
      (simp add: sample_db_def)
qed

theorem compaction_faithful_witness:
  "\<exists>d'' s. compact_one join_yrs (\<lambda>bs. bs) sample_db sample_db sample_cand = Inr (True, d'')
     \<and> s \<in> set (lineage d'' sample_base) \<and> s_last_event_seq s = 5"
proof -
  obtain d'' where r: "compact_one join_yrs (\<lambda>bs. bs) sample_db sample_db sample_cand = Inr (True, d'')"
    using sample_compact by blast
  have ids: "cc_server_client_id sample_cand = cr_server_client_id sample_base"
    "cc_base_generation sample_cand = cr_base_generation sample_base"
    by (simp_all add: sample_cand_def sample_base_def)
  have "journal_ok join_yrs (\<lambda>bs. bs) sample_base (sample_hist @ []) sample_db" using sample_journal by simp
  from compaction_faithful [OF join_replicas sample_journal this ids r] r show ?thesis
    by (auto simp: hist_top_def)
qed

text \<open>Two activated instances.\<close>

lemma sample_two_residents:
  "\<exists>s a b. (paced_step join_yrs (\<lambda>bs. bs))\<^sup>*\<^sup>* (cluster_init sample_db) s \<and> cl_res s 0 = Some a \<and> cl_res s 1 = Some b
     \<and> bc_processed_seq (rb_coord a) = 5 \<and> bc_processed_seq (rb_coord b) = 5"
proof -
  let ?s0 = "cluster_init sample_db :: (u64 \<times> byte) cluster"
  have db: "cl_db ?s0 = sample_db" by (simp add: cluster_init_def)
  have q: "\<forall>h. read_head sample_db = Some h \<longrightarrow> h_state h \<noteq> Quarantined"
    by (simp add: read_head_def sample_db_def sample_head_def head_to_domain_def state_from_str_def)
  have top: "hist_top sample_base sample_hist = 5" by (simp add: hist_top_def)
  obtain s1 a where s1: "(paced_step join_yrs (\<lambda>bs. bs))\<^sup>*\<^sup>* ?s0 s1" "cl_res s1 = (cl_res ?s0)(0 \<mapsto> a)"
    "bc_processed_seq (rb_coord a) = 5" "journal_ok join_yrs (\<lambda>bs. bs) sample_base sample_hist (cl_db s1)"
    "\<forall>h. read_head (cl_db s1) = Some h \<longrightarrow> h_state h \<noteq> Quarantined"
    using instance_activates [OF join_replicas, of "\<lambda>bs. bs" sample_base sample_hist ?s0 0] sample_journal q
    unfolding db top by blast
  obtain s2 b where s2: "(paced_step join_yrs (\<lambda>bs. bs))\<^sup>*\<^sup>* s1 s2" "cl_res s2 = (cl_res s1)(1 \<mapsto> b)"
    "bc_processed_seq (rb_coord b) = 5"
    using instance_activates [OF join_replicas s1(4,5), of 1] unfolding top by blast
  have "(paced_step join_yrs (\<lambda>bs. bs))\<^sup>*\<^sup>* ?s0 s2" using s1(1) s2(1) by (rule rtranclp_trans)
  then show ?thesis using s1(2,3) s2(2,3) by (intro exI [of _ s2] exI [of _ a] exI [of _ b]) simp
qed

theorem cluster_history_grows_witness:
  "\<exists>s later rb. (paced_step join_yrs (\<lambda>bs. bs))\<^sup>*\<^sup>* (cluster_init sample_db) s \<and> cl_res s 0 = Some rb
     \<and> hist_doc join_yrs sample_base (sample_hist @ later) 5 = Inr (bc_doc (rb_coord rb))"
proof -
  obtain s a where s: "(paced_step join_yrs (\<lambda>bs. bs))\<^sup>*\<^sup>* (cluster_init sample_db) s" "cl_res s 0 = Some a"
    "bc_processed_seq (rb_coord a) = 5"
    using sample_two_residents by blast
  from cluster_history_grows [OF join_replicas sample_journal s(1)] s show ?thesis by metis
qed

theorem residents_converge_witness:
  "\<exists>s a b. (paced_step join_yrs (\<lambda>bs. bs))\<^sup>*\<^sup>* (cluster_init sample_db) s \<and> cl_res s 0 = Some a \<and> cl_res s 1 = Some b
     \<and> bc_doc (rb_coord a) = bc_doc (rb_coord b)"
proof -
  obtain s a b where s: "(paced_step join_yrs (\<lambda>bs. bs))\<^sup>*\<^sup>* (cluster_init sample_db) s" "cl_res s 0 = Some a"
    "cl_res s 1 = Some b" "bc_processed_seq (rb_coord a) = bc_processed_seq (rb_coord b)"
    using sample_two_residents by metis
  from residents_converge [OF join_replicas sample_journal s] s show ?thesis by blast
qed

text \<open>A board with two updates, each covered by a checkpoint: the first is old enough to be pruned.\<close>

definition sample_checkpoint :: "int \<Rightarrow> byte \<Rightarrow> yrs_snapshot_row" where
  "sample_checkpoint n b = \<lparr>s_base_generation = 1, s_last_event_seq = n, s_state_update = [b], s_state_vector = [b],
     s_protocol_version = 1, s_schema_version = 2, s_server_client_id = 2 ^ 52, s_source = ''canonical_compaction'',
     s_output_bytes = 1, s_state_sha256 = [b], s_input_update_count = 1, s_input_tail_bytes = 1\<rparr>"

definition covered_db :: bdb where
  "covered_db = \<lparr>d_board = sample_board\<lparr>b_next_event_seq := 7\<rparr>,
     d_events = [sample_event, sample_event\<lparr>e_id := 12, e_seq := 6\<rparr>],
     d_updates = [sample_update, sample_update\<lparr>u_seq := 6, u_client_event_id := ''c2'', u_yupdate := [9]\<rparr>],
     d_head = Some (sample_head\<lparr>hr_processed_seq := 6\<rparr>), d_base = Some sample_base,
     d_snapshots = [sample_checkpoint 5 3, sample_checkpoint 6 9], d_asset_head = None, d_asset_refs = []\<rparr>"

abbreviation "covered_hist \<equiv> [(5 :: int, [3 :: byte]), (6, [9])]"

lemma covered_hist_doc:
  "hist_doc join_yrs sample_base covered_hist n
     = Inr (4503599627370496, if 6 \<le> n then 9 else if 5 \<le> n then 3 else 0)"
proof -
  have "upto n covered_hist = (if 6 \<le> n then covered_hist else if 5 \<le> n then [(5, [3])] else [])"
    by (simp add: upto_def)
  moreover have "base_doc join_yrs sample_base = Inr (4503599627370496, 0)"
    using join_reload [of 0] by (simp add: base_doc_def sample_base_def)
  ultimately show ?thesis
    by (simp add: hist_doc_def replay_def apply_bytes_def join_yrs_def max_def)
qed

lemma covered_journal: "journal_ok join_yrs (\<lambda>bs. bs) sample_base covered_hist covered_db"
proof -
  have lin: "lineage covered_db sample_base = [sample_checkpoint 5 3, sample_checkpoint 6 9]"
    by (simp add: lineage_def lineage_snapshots_def covered_db_def sample_checkpoint_def sample_base_def)
  have "hist_ok join_yrs sample_base covered_hist"
    using join_projects by (simp add: hist_ok_def covered_hist_doc) (simp add: sample_base_def join_yrs_def)
  moreover have "rows_ok sample_base covered_hist covered_db"
    by (simp add: rows_ok_def covered_db_def sample_board_def sample_base_def sample_update_def sample_event_def)
  moreover have "snapshot_ok join_yrs (\<lambda>bs. bs) sample_base covered_hist s"
    if "s \<in> {sample_checkpoint 5 3, sample_checkpoint 6 9}" for s
    using that by (auto simp: snapshot_ok_def sample_checkpoint_def covered_hist_doc join_reload join_schema
        content_hash_matches_def PROTOCOL_VERSION_def hist_top_def) (auto simp: sample_base_def)
  ultimately show ?thesis
    unfolding journal_ok_def lin
    by (simp add: covered_db_def head_ok_def sample_head_def hist_top_def sample_checkpoint_def)
      (simp add: sample_base_def)
qed

theorem prune_keeps_history_witness:
  "\<exists>res d'. prune_compacted_batch 10000000 [(1, covered_db)] 30 100 = (res, [(1, d')])
     \<and> pr_update_rows res = 1 \<and> journal_ok join_yrs (\<lambda>bs. bs) sample_base covered_hist d'"
proof -
  have l: "newest_first (lineage_snapshots covered_db 1 4503599627370496) = [sample_checkpoint 6 9, sample_checkpoint 5 3]"
    by (simp add: lineage_snapshots_def covered_db_def sample_checkpoint_def newest_first_def)
  have "barrier covered_db = Some (1, 5)"
    using l by (simp add: barrier_def) (simp add: covered_db_def sample_head_def sample_base_def sample_checkpoint_def)
  then have v: "update_victims 10000000 30 (1, covered_db) = [(0, 1, 5)]"
    by (simp add: update_victims_def covered_db_def sample_update_def)
  obtain res d' where r: "prune_compacted_batch 10000000 [(1, covered_db)] 30 100 = (res, [(1, d')])" "pr_update_rows res = 1"
    using v by (simp add: prune_compacted_batch_def Let_def delete_events_def delete_updates_def)
  have "\<forall>bd \<in> set [(1 :: uuid, covered_db)]. journal_ok join_yrs (\<lambda>bs. bs) ((\<lambda>_. sample_base) (fst bd))
      ((\<lambda>_. covered_hist) (fst bd)) (snd bd)"
    using covered_journal by simp
  from prune_keeps_history [OF _ this r(1)] r show ?thesis by auto
qed

end
