(* ===== verification/Hurried_Replay.thy ===== *)
theory Hurried_Replay
  imports Samples
begin

text \<open>
  Why the cluster's guarantees need the pace of retention: a replay that is overtaken by two checkpoints and a
  pruning batch skips the events the batch removed, passes its final check, and installs a resident that lacks
  an edit of the history it claims to have processed.
\<close>

abbreviation "old_hist \<equiv> [(5 :: int, [9 :: byte]), (6, [3])]"
abbreviation "long_hist \<equiv> [(5 :: int, [9 :: byte]), (6, [3]), (7, [3])]"

definition recent_event :: "int \<Rightarrow> event_record" where
  "recent_event n = sample_event\<lparr>e_id := word_of_int n, e_seq := n, e_created_at := 9999999\<rparr>"

definition recent_update :: "int \<Rightarrow> yrs_update_row" where
  "recent_update n = sample_update\<lparr>u_seq := n, u_client_event_id := (if n = 6 then ''c2'' else ''c3''), u_created_at := 9999999\<rparr>"

text \<open>Before: two updates, the first of them old, and no checkpoint.\<close>

definition before_db :: bdb where
  "before_db = sample_db\<lparr>d_board := sample_board\<lparr>b_next_event_seq := 7\<rparr>,
     d_events := [sample_event, recent_event 6], d_updates := [sample_update\<lparr>u_yupdate := [9]\<rparr>, recent_update 6],
     d_head := Some (sample_head\<lparr>hr_processed_seq := 6\<rparr>)\<rparr>"

text \<open>Meanwhile: one more commit, and a checkpoint before and after it.\<close>

definition after_db :: bdb where
  "after_db = before_db\<lparr>d_board := sample_board\<lparr>b_next_event_seq := 8\<rparr>,
     d_events := d_events before_db @ [recent_event 7], d_updates := d_updates before_db @ [recent_update 7],
     d_head := Some (sample_head\<lparr>hr_processed_seq := 7\<rparr>),
     d_snapshots := [sample_checkpoint 6 9, sample_checkpoint 7 9]\<rparr>"

definition pruned_db :: bdb where
  "pruned_db = after_db\<lparr>d_events := [recent_event 6, recent_event 7], d_updates := [recent_update 6, recent_update 7]\<rparr>"

lemmas row_defs = recent_event_def recent_update_def sample_event_def sample_update_def sample_board_def sample_head_def

lemma base_doc_sample: "base_doc join_yrs sample_base = Inr (4503599627370496, 0)"
  using join_reload [of 0] by (simp add: base_doc_def sample_base_def)

lemma join_apply: "apply_bytes join_yrs m1 m2 [b] (i, x) = Inr (i, max x b)"
  by (simp add: apply_bytes_def join_yrs_def max_def)

lemma long_hist_doc:
  "hist_doc join_yrs sample_base long_hist n = Inr (4503599627370496, if 5 \<le> n then 9 else 0)"
proof -
  have "upto n long_hist = (if 7 \<le> n then long_hist else if 6 \<le> n then old_hist else if 5 \<le> n then [(5, [9])] else [])"
    by (simp add: upto_def)
  then show ?thesis by (simp add: hist_doc_def base_doc_sample replay_def join_apply max_def)
qed

lemma old_hist_doc:
  "hist_doc join_yrs sample_base old_hist n = Inr (4503599627370496, if 5 \<le> n then 9 else 0)"
proof -
  have "upto n old_hist = (if 6 \<le> n then old_hist else if 5 \<le> n then [(5, [9])] else [])" by (simp add: upto_def)
  then show ?thesis by (simp add: hist_doc_def base_doc_sample replay_def join_apply max_def)
qed

lemma before_journal: "journal_ok join_yrs (\<lambda>bs. bs) sample_base old_hist before_db"
proof -
  have "hist_ok join_yrs sample_base old_hist"
    using join_projects by (simp add: hist_ok_def old_hist_doc) (simp add: sample_base_def join_yrs_def)
  moreover have "lineage before_db sample_base = []"
    by (simp add: lineage_def lineage_snapshots_def before_db_def sample_db_def)
  moreover have "rows_ok sample_base old_hist before_db"
    by (simp add: rows_ok_def before_db_def sample_base_def row_defs)
  ultimately show ?thesis
    by (simp add: journal_ok_def) (simp add: before_db_def sample_db_def head_ok_def sample_head_def hist_top_def sample_base_def)
qed

lemma after_journal: "journal_ok join_yrs (\<lambda>bs. bs) sample_base long_hist after_db"
proof -
  have lin: "lineage after_db sample_base = [sample_checkpoint 6 9, sample_checkpoint 7 9]"
    by (simp add: lineage_def lineage_snapshots_def after_db_def sample_checkpoint_def sample_base_def)
  have "hist_ok join_yrs sample_base long_hist"
    using join_projects by (simp add: hist_ok_def long_hist_doc) (simp add: sample_base_def join_yrs_def)
  moreover have "rows_ok sample_base long_hist after_db"
    by (simp add: rows_ok_def after_db_def before_db_def sample_base_def row_defs)
  moreover have "snapshot_ok join_yrs (\<lambda>bs. bs) sample_base long_hist s"
    if "s \<in> {sample_checkpoint 6 9, sample_checkpoint 7 9}" for s
    using that by (auto simp: snapshot_ok_def sample_checkpoint_def long_hist_doc join_reload join_schema
        content_hash_matches_def PROTOCOL_VERSION_def hist_top_def) (auto simp: sample_base_def)
  ultimately show ?thesis
    unfolding journal_ok_def lin
    by (simp add: after_db_def before_db_def sample_db_def head_ok_def sample_head_def hist_top_def sample_checkpoint_def)
      (simp add: sample_base_def)
qed

lemma after_pruned: "\<exists>res. prune_compacted_batch 10000000 [(1, after_db)] 30 100 = (res, [(1, pruned_db)])"
proof -
  have l: "newest_first (lineage_snapshots after_db 1 4503599627370496) = [sample_checkpoint 7 9, sample_checkpoint 6 9]"
    by (simp add: lineage_snapshots_def after_db_def sample_checkpoint_def newest_first_def)
  have b: "barrier after_db = Some (1, 6)"
    using l by (simp add: barrier_def)
      (simp add: after_db_def before_db_def sample_db_def sample_head_def sample_base_def sample_checkpoint_def)
  have v: "update_victims 10000000 30 (1, after_db) = [(0, 1, 5)]"
    by (simp add: update_victims_def b) (simp add: after_db_def before_db_def row_defs)
  have d: "delete_updates {(0, 1, 5)} (1, after_db) = (1, after_db\<lparr>d_updates := [recent_update 6, recent_update 7]\<rparr>)"
    by (simp add: delete_updates_def) (simp add: after_db_def before_db_def row_defs)
  have b2: "barrier (after_db\<lparr>d_updates := [recent_update 6, recent_update 7]\<rparr>) = Some (1, 6)"
    using barrier_delete_updates [of "{(0, 1, 5)}" "(1, after_db)"] b by (simp add: d)
  have e: "event_victims 10000000 30 (1, after_db\<lparr>d_updates := [recent_update 6, recent_update 7]\<rparr>) = [(0, 1, 5)]"
    by (simp add: event_victims_def b2) (simp add: after_db_def before_db_def row_defs)
  have "delete_events {(0, 1, 5)} (1, after_db\<lparr>d_updates := [recent_update 6, recent_update 7]\<rparr>) = (1, pruned_db)"
    by (simp add: delete_events_def pruned_db_def) (simp add: after_db_def before_db_def row_defs)
  then show ?thesis by (simp add: prune_compacted_batch_def Let_def v d e)
qed

abbreviation "start_coord \<equiv> \<lparr>bc_doc = (4503599627370496 :: u64, 0 :: byte), bc_server_client_id = 4503599627370496,
  bc_base_generation = 1, bc_processed_seq = 4\<rparr>"

lemma first_part:
  "activation_start before_db = Inr sample_base
   \<and> activation_run join_yrs (\<lambda>bs. bs) before_db (Checked sample_base) before_db (Replaying 7 6 True start_coord 4 [])"
proof -
  have "read_base before_db = Some sample_base" "cr_abandoned_at sample_base = None"
    by (simp_all add: read_base_def before_db_def sample_db_def sample_base_def)
  then have a: "activation_start before_db = Inr sample_base" by (simp add: activation_start_def)
  have n1: "activation_next join_yrs (\<lambda>bs. bs) before_db (Checked sample_base)
      = Inr (Fenced (base_to_domain sample_base) 7 6 True, before_db)"
    by (simp add: activation_tx1_def read_head_def head_is_ready_def before_db_def sample_head_def head_to_domain_def
        state_from_str_def base_to_domain_def sample_base_def)
  have "preferred_activation_base join_yrs (\<lambda>bs. bs) before_db (base_to_domain sample_base) 6
      = Inr (base_to_domain sample_base)"
    by (simp add: preferred_activation_base_def read_latest_at_or_before_def lineage_snapshots_def before_db_def
        sample_db_def newest_first_def base_to_domain_def)
  moreover have "from_base join_yrs (base_to_domain sample_base) (cb_base_seq (base_to_domain sample_base)) = Inr start_coord"
    "cb_base_seq (base_to_domain sample_base) = 4"
    using join_reload [of 0]
    by (simp_all add: from_base_def base_to_domain_def sample_base_def server_id_in_band_def SERVER_ID_LO_def SERVER_ID_HI_def)
  ultimately have n2: "activation_next join_yrs (\<lambda>bs. bs) before_db (Fenced (base_to_domain sample_base) 7 6 True)
      = Inr (Replaying 7 6 True start_coord 4 [], before_db)"
    by simp
  show ?thesis using a run_step [OF n1 run_one [OF n2]] by blast
qed

lemma second_part:
  "\<exists>rb. activation_run join_yrs (\<lambda>bs. bs) pruned_db (Replaying 7 6 True start_coord 4 []) pruned_db (Installed rb)
     \<and> bc_processed_seq (rb_coord rb) = 6 \<and> bc_doc (rb_coord rb) = (4503599627370496, 3)"
proof -
  have page: "list_events_since pruned_db 4 CATCH_UP_BATCH = [recent_event 6, recent_event 7]"
    by (simp add: list_events_since_def select_page_def CATCH_UP_BATCH_def pruned_db_def)
      (simp add: recent_event_def sample_event_def)
  have seqs: "e_seq (recent_event 6) = 6" "e_seq (recent_event 7) = 7" by (simp_all add: recent_event_def)
  define co where "co = start_coord\<lparr>bc_doc := (4503599627370496, 3), bc_processed_seq := 6\<rparr>"
  have row: "read_by_seq pruned_db 6 = Some (recent_update 6)" "u_yupdate (recent_update 6) = [3]"
    by (simp_all add: read_by_seq_def pruned_db_def) (simp_all add: recent_update_def sample_update_def)
  have one: "catch_up_one join_yrs pruned_db start_coord (recent_event 6) = Inr co"
    by (simp add: catch_up_one_def row seqs catch_up_persisted_def apply_persisted_update_def join_apply)
      (simp add: co_def max_def)
  have fin: "assert_valid_projection join_yrs co = Inr ()"
    using join_projects [of "bc_doc co"] by (auto simp: assert_valid_projection_def)
  let ?rb = "\<lparr>rb_coord = co, rb_writer_epoch = 7, rb_state = Ready\<rparr>"
  let ?next = "activation_next join_yrs (\<lambda>bs. bs) pruned_db"
  have n1: "?next (Replaying 7 6 True start_coord 4 []) = Inr (Replaying 7 6 True start_coord 4 [recent_event 6, recent_event 7], pruned_db)"
    using page by simp
  have n2: "?next (Replaying 7 6 True start_coord 4 [recent_event 6, recent_event 7])
      = Inr (Replaying 7 6 True co 6 [recent_event 7], pruned_db)"
    using one by (simp add: seqs)
  have n3: "?next (Replaying 7 6 True co 6 [recent_event 7]) = Inr (Rebuilt ?rb 6 True, pruned_db)"
    using fin by (simp add: seqs activation_replayed_def)
  have n4: "?next (Rebuilt ?rb 6 True) = Inr (Installed ?rb, pruned_db)" by simp
  have "activation_run join_yrs (\<lambda>bs. bs) pruned_db (Replaying 7 6 True start_coord 4 []) pruned_db (Installed ?rb)"
    by (rule run_step [OF n1 run_step [OF n2 run_step [OF n3 run_one [OF n4]]]])
  then show ?thesis by (intro exI [of _ ?rb]) (simp add: co_def)
qed

text \<open>
  An activation reads its head and its base, then one commit, two checkpoints and a pruning batch run, then it
  reads the events: it ends in a resident that says it has processed the history up to 6 and lacks the edit 5.
\<close>

lemma hurried_replay_loses_edits:
  "\<exists>res p rb. journal_ok join_yrs (\<lambda>bs. bs) sample_base old_hist before_db
     \<and> activation_run join_yrs (\<lambda>bs. bs) before_db (Checked sample_base) before_db p
     \<and> journal_ok join_yrs (\<lambda>bs. bs) sample_base long_hist after_db
     \<and> prune_compacted_batch 10000000 [(1, after_db)] 30 100 = (res, [(1, pruned_db)])
     \<and> activation_run join_yrs (\<lambda>bs. bs) pruned_db p pruned_db (Installed rb)
     \<and> bc_processed_seq (rb_coord rb) = 6
     \<and> hist_doc join_yrs sample_base long_hist 6 \<noteq> Inr (bc_doc (rb_coord rb))"
proof -
  obtain rb where rb: "activation_run join_yrs (\<lambda>bs. bs) pruned_db (Replaying 7 6 True start_coord 4 []) pruned_db (Installed rb)"
    "bc_processed_seq (rb_coord rb) = 6" "bc_doc (rb_coord rb) = (4503599627370496, 3)"
    using second_part by blast
  obtain res where "prune_compacted_batch 10000000 [(1, after_db)] 30 100 = (res, [(1, pruned_db)])"
    using after_pruned by blast
  moreover have "hist_doc join_yrs sample_base long_hist 6 \<noteq> Inr (bc_doc (rb_coord rb))"
    by (simp add: long_hist_doc rb(3))
  ultimately show ?thesis using before_journal after_journal first_part rb(1,2) by blast
qed

end
