(* ===== verification/Hub.thy ===== *)
theory Hub
  imports Registry
begin

text \<open>
  The wire messages, the per-board channel registry and the cursor aggregator of \<open>src/src/realtime.rs\<close>.  The
  JSON text printer and parser of \<open>serde_json\<close> and the broadcast channels of \<open>tokio\<close> are parameters: a
  channel is a handle, its receivers are counted by a function, and what the code sends is an output.
\<close>

subsection \<open>Messages\<close>

datatype ws_message =
    WsPreview uuid uuid json
  | WsCommit uuid int uuid "string option" uuid string json "string option"
  | WsAck uuid int uuid "string option"
  | WsNack uuid "string option" string string bool bool
  | WsSnapshot uuid int json
  | WsSessionsUpdate uuid "json list"
  | WsYrsUpdate uuid int "string option" u32 string

datatype client_ws_message =
    ClientPreview json
  | ClientCommit string json "string option" "string option" "client_yrs_update option"

subsection \<open>Deserialising client messages\<close>

text \<open>
  What the derived \<open>Deserialize\<close> does with a JSON object: a required field must be present with its type, an
  \<open>Option\<close> field may be missing or null, other fields are ignored, an integer must fit its width.
\<close>

definition req_str :: "string \<Rightarrow> json \<Rightarrow> string option" where
  "req_str k v = Option.bind (json_get k v) as_str"

definition opt_str :: "string \<Rightarrow> json \<Rightarrow> string option option" where
  "opt_str k v =
     (case json_get k v of
        None \<Rightarrow> Some None
      | Some JNull \<Rightarrow> Some None
      | Some (JStr s) \<Rightarrow> Some (Some s)
      | Some _ \<Rightarrow> None)"

definition req_int :: "nat \<Rightarrow> string \<Rightarrow> json \<Rightarrow> int option" where
  "req_int w k v =
     (case json_get k v of
        Some (JNum (PosInt u)) \<Rightarrow> (if uint u < 2 ^ (w - 1) then Some (uint u) else None)
      | Some (JNum (NegInt u)) \<Rightarrow> (if - (2 ^ (w - 1)) \<le> sint u then Some (sint u) else None)
      | _ \<Rightarrow> None)"

definition req_u64 :: "string \<Rightarrow> json \<Rightarrow> u64 option" where
  "req_u64 k v = (case json_get k v of Some (JNum (PosInt u)) \<Rightarrow> Some u | _ \<Rightarrow> None)"

definition client_yrs_of_json :: "json \<Rightarrow> client_yrs_update option" where
  "client_yrs_of_json v =
     Option.bind (req_str ''encoding'' v) (\<lambda>encoding.
     Option.bind (req_int 32 ''protocol_version'' v) (\<lambda>protocol.
     Option.bind (req_int 32 ''schema_version'' v) (\<lambda>schema.
     Option.bind (req_int 64 ''base_generation'' v) (\<lambda>generation.
     Option.bind (req_int 64 ''observed_seq'' v) (\<lambda>observed.
     Option.bind (req_u64 ''writer_client_id'' v) (\<lambda>writer.
     Option.bind (req_str ''update_b64'' v) (\<lambda>b64.
     Some \<lparr>cy_encoding = encoding, cy_protocol_version = protocol, cy_schema_version = schema,
       cy_base_generation = generation, cy_observed_seq = observed, cy_writer_client_id = writer,
       cy_update_b64 = b64, cy_update_bytes = None\<rparr>)))))))"

definition opt_yrs :: "json \<Rightarrow> client_yrs_update option option" where
  "opt_yrs v =
     (case json_get ''yrs'' v of
        None \<Rightarrow> Some None
      | Some JNull \<Rightarrow> Some None
      | Some y \<Rightarrow> map_option Some (client_yrs_of_json y))"

definition client_message_of_json :: "json \<Rightarrow> client_ws_message option" where
  "client_message_of_json v =
     Option.bind (req_str ''type'' v) (\<lambda>ty.
     if ty = ''preview'' then map_option ClientPreview (json_get ''payload'' v)
     else if ty = ''commit'' then
       Option.bind (req_str ''event_type'' v) (\<lambda>event_type.
       Option.bind (json_get ''payload'' v) (\<lambda>payload.
       Option.bind (opt_str ''client_event_id'' v) (\<lambda>cid.
       Option.bind (opt_str ''session_id'' v) (\<lambda>sid.
       map_option (ClientCommit event_type payload cid sid) (opt_yrs v)))))
     else None)"

definition MAX_HEADER :: nat where "MAX_HEADER = 4 * 1024 * 1024"
definition MAX_UPDATE :: nat where "MAX_UPDATE = 8 * 1024 * 1024"

definition decode_binary_client_commit ::
  "(bytes \<Rightarrow> json option) \<Rightarrow> bytes \<Rightarrow> string + client_ws_message" where
  "decode_binary_client_commit parse bs =
     (if length bs < 4 then Inl ''binary commit too short''
      else
        (let header_len = unat (u32_from_be (take 4 bs)) in
         if header_len = 0 \<or> header_len > MAX_HEADER \<or> length bs < 4 + header_len
         then Inl ''invalid binary commit header length''
         else
           (let update = drop (4 + header_len) bs in
            if update = [] \<or> length update > MAX_UPDATE then Inl ''invalid binary commit update length''
            else
              (case Option.bind (parse (take header_len (drop 4 bs))) client_message_of_json of
                 None \<Rightarrow> Inl ''invalid binary commit header''
               | Some (ClientCommit event_type payload cid sid (Some yrs)) \<Rightarrow>
                   (if cy_update_b64 yrs = []
                    then Inr (ClientCommit event_type payload cid sid (Some (yrs\<lparr>cy_update_bytes := Some update\<rparr>)))
                    else Inl ''binary frame must contain a client yrs commit'')
               | Some _ \<Rightarrow> Inl ''binary frame must contain a client yrs commit''))))"

subsection \<open>The registry of board channels\<close>

text \<open>
  A channel pair is a handle; \<open>rc\<close> gives the live receivers of its commit and preview streams.  The hub's map
  is an association list.
\<close>

type_synonym channels = nat
type_synonym receivers = "channels \<Rightarrow> nat \<times> nat"

record hub =
  hub_map :: "(uuid \<times> channels) list"
  hub_next :: channels

definition hub_new :: hub where
  "hub_new = \<lparr>hub_map = [], hub_next = 0\<rparr>"

definition has_receivers :: "receivers \<Rightarrow> channels \<Rightarrow> bool" where
  "has_receivers rc ch \<longleftrightarrow> fst (rc ch) > 0 \<or> snd (rc ch) > 0"

definition channels_for :: "receivers \<Rightarrow> uuid \<Rightarrow> hub \<Rightarrow> channels \<times> hub" where
  "channels_for rc board h =
     (case map_of (hub_map h) board of
        Some ch \<Rightarrow> (ch, h)
      | None \<Rightarrow> (hub_next h,
          \<lparr>hub_map = (board, hub_next h) # filter (\<lambda>p. has_receivers rc (snd p)) (hub_map h),
           hub_next = hub_next h + 1\<rparr>))"

definition active_board_ids :: "receivers \<Rightarrow> hub \<Rightarrow> uuid list" where
  "active_board_ids rc h = map fst (filter (\<lambda>p. fst (rc (snd p)) > 0) (hub_map h))"

definition evict_if_idle :: "receivers \<Rightarrow> uuid \<Rightarrow> hub \<Rightarrow> hub" where
  "evict_if_idle rc board h =
     (case map_of (hub_map h) board of
        None \<Rightarrow> h
      | Some ch \<Rightarrow>
          (if has_receivers rc ch then h
           else h\<lparr>hub_map := filter (\<lambda>p. fst p \<noteq> board) (hub_map h)\<rparr>))"

datatype hub_op = ChannelsFor uuid | EvictIfIdle uuid

fun hub_apply :: "hub \<Rightarrow> hub_op \<times> receivers \<Rightarrow> hub" where
  "hub_apply h (ChannelsFor b, rc) = snd (channels_for rc b h)"
| "hub_apply h (EvictIfIdle b, rc) = evict_if_idle rc b h"

definition hub_ok :: "hub \<Rightarrow> bool" where
  "hub_ok h \<longleftrightarrow> distinct (map fst (hub_map h)) \<and> distinct (map snd (hub_map h))
     \<and> (\<forall>p \<in> set (hub_map h). snd p < hub_next h)"

lemma map_of_filter_kept:
  "map_of xs k = Some v \<Longrightarrow> P (k, v) \<Longrightarrow> distinct (map fst xs) \<Longrightarrow> map_of (filter P xs) k = Some v"
  by (induction xs) (auto split: if_splits dest: map_of_SomeD)

lemma hub_apply_ok: "hub_ok h \<Longrightarrow> hub_ok (hub_apply h op)"
proof (cases op)
  case (Pair o1 rc)
  assume ok: "hub_ok h"
  show ?thesis
  proof (cases o1)
    case (ChannelsFor b)
    then show ?thesis
      using ok Pair
      by (auto simp: hub_ok_def channels_for_def distinct_map_filter dest: map_of_SomeD less_SucI
          split: option.splits)
  next
    case (EvictIfIdle b)
    then show ?thesis
      using ok Pair by (auto simp: hub_ok_def evict_if_idle_def distinct_map_filter split: option.splits)
  qed
qed

lemma hub_apply_keeps:
  assumes ok: "hub_ok h" and b: "map_of (hub_map h) b = Some ch" and live: "has_receivers (snd op) ch"
  shows "map_of (hub_map (hub_apply h op)) b = Some ch"
proof (cases op)
  case (Pair o1 rc)
  have d: "distinct (map fst (hub_map h))" using ok by (simp add: hub_ok_def)
  show ?thesis
  proof (cases o1)
    case (ChannelsFor b')
    then show ?thesis
      using b live Pair map_of_filter_kept [OF b _ d, of "\<lambda>p. has_receivers rc (snd p)"]
      by (cases "b' = b") (simp_all add: channels_for_def split: option.splits)
  next
    case (EvictIfIdle b')
    show ?thesis
    proof (cases "b' = b")
      case True
      then show ?thesis using EvictIfIdle b live Pair by (simp add: evict_if_idle_def)
    next
      case False
      then show ?thesis
        using EvictIfIdle b Pair map_of_filter_kept [OF b _ d, of "\<lambda>p. fst p \<noteq> b'"]
        by (simp add: evict_if_idle_def split: option.splits)
    qed
  qed
qed

text \<open>C32: A board with connected clients keeps its channels: whatever other connections open or evict meanwhile, as
  long as the channel pair has a receiver at each operation the hub still maps the board to the same pair,
  and no two boards ever share one.\<close>

theorem live_board_keeps_channels:
  assumes "hub_ok h" and "map_of (hub_map h) board = Some ch" and "\<forall>op \<in> set ops. has_receivers (snd op) ch"
  shows "map_of (hub_map (foldl hub_apply h ops)) board = Some ch \<and> hub_ok (foldl hub_apply h ops)"
  using assms
  by (induction ops arbitrary: h) (simp_all add: hub_apply_ok hub_apply_keeps)

theorem live_board_keeps_channels_witness:
  "map_of (hub_map (foldl hub_apply \<lparr>hub_map = [(1, 0), (2, 1)], hub_next = 2\<rparr>
      [(EvictIfIdle 2, \<lambda>ch. if ch = 0 then (1, 0) else (0, 0)), (ChannelsFor 3, \<lambda>ch. if ch = 0 then (1, 0) else (0, 0))])) 1
   = Some 0"
proof -
  have "hub_ok \<lparr>hub_map = [(1, 0), (2, 1)], hub_next = 2\<rparr>" by (simp add: hub_ok_def)
  then show ?thesis
    using live_board_keeps_channels [of "\<lparr>hub_map = [(1, 0), (2, 1)], hub_next = 2\<rparr>" 1 0
        "[(EvictIfIdle 2, \<lambda>ch. if ch = 0 then (1, 0) else (0, 0)), (ChannelsFor 3, \<lambda>ch. if ch = 0 then (1, 0) else (0, 0))]"]
    by (auto simp: has_receivers_def)
qed

subsection \<open>The cursor aggregator\<close>

record cursor_entry =
  ce_user_id :: uuid
  ce_payload :: json
  ce_updated_at :: int

text \<open>Milliseconds.\<close>

definition CURSOR_TTL :: int where "CURSOR_TTL = 15000"
definition CURSOR_AGG_INTERVAL :: int where "CURSOR_AGG_INTERVAL = 66"

type_synonym cursor_map = "(uuid \<times> cursor_entry) list"

definition fresh_cursors :: "int \<Rightarrow> cursor_map \<Rightarrow> cursor_map" where
  "fresh_cursors now cursors = filter (\<lambda>p. now - ce_updated_at (snd p) < CURSOR_TTL) cursors"

definition newest_cursors :: "nat \<Rightarrow> cursor_entry list \<Rightarrow> cursor_entry list" where
  "newest_cursors cap entries =
     (if length entries > cap then take cap (sort_key (\<lambda>e. - ce_updated_at e) entries) else entries)"

text \<open>One tick: the retained cursors and the users of the frame it broadcasts, if any.\<close>

definition aggregate_cursors ::
  "nat \<Rightarrow> int \<Rightarrow> nat \<Rightarrow> cursor_map \<Rightarrow> cursor_map \<times> (uuid \<times> json) list option" where
  "aggregate_cursors cap now preview_receivers cursors =
     (if preview_receivers = 0 then (cursors, None)
      else
        (let kept = fresh_cursors now cursors;
             users = map (\<lambda>e. (ce_user_id e, ce_payload e)) (newest_cursors cap (map snd kept))
         in (kept, if users = [] then None else Some users)))"

lemma newest_take:
  "e \<in> set (take n (sort_key f xs)) \<Longrightarrow> x \<in> set xs \<Longrightarrow> x \<notin> set (take n (sort_key f xs)) \<Longrightarrow> f e \<le> (f x :: int)"
proof -
  assume e: "e \<in> set (take n (sort_key f xs))" and x: "x \<in> set xs" "x \<notin> set (take n (sort_key f xs))"
  have "x \<in> set (drop n (sort_key f xs))"
    using x by (metis Un_iff append_take_drop_id set_append set_sort)
  moreover have "sorted (map f (take n (sort_key f xs) @ drop n (sort_key f xs)))" by simp
  ultimately show ?thesis using e by (simp only: map_append sorted_append) auto
qed

text \<open>C38: The aggregated cursor frame is bounded and fair: it carries at most \<open>cap\<close> users, only cursors that moved
  within the time to live, and no cursor is left out in favour of an older one.\<close>

theorem cursor_frame_bounded:
  assumes "aggregate_cursors cap now rc cursors = (kept, Some users)"
  shows "length users \<le> cap \<and> users \<noteq> []
    \<and> (\<exists>es. users = map (\<lambda>e. (ce_user_id e, ce_payload e)) es
         \<and> set es \<subseteq> snd ` set cursors \<and> (\<forall>e \<in> set es. now - ce_updated_at e < CURSOR_TTL)
         \<and> (\<forall>p \<in> set cursors. now - ce_updated_at (snd p) < CURSOR_TTL \<longrightarrow> snd p \<notin> set es \<longrightarrow>
              (\<forall>e \<in> set es. ce_updated_at (snd p) \<le> ce_updated_at e)))"
proof -
  let ?es = "newest_cursors cap (map snd kept)"
  have k: "kept = fresh_cursors now cursors" "users = map (\<lambda>e. (ce_user_id e, ce_payload e)) ?es" "users \<noteq> []"
    using assms by (auto simp: aggregate_cursors_def Let_def split: if_splits)
  have "set ?es \<subseteq> snd ` set kept"
    by (auto simp: newest_cursors_def dest!: in_set_takeD)
  moreover have "length ?es \<le> cap" by (simp add: newest_cursors_def)
  moreover have "ce_updated_at (snd p) \<le> ce_updated_at e"
    if "p \<in> set kept" "snd p \<notin> set ?es" "e \<in> set ?es" for p e
    using that newest_take [of e cap "\<lambda>e. - ce_updated_at e" "map snd kept" "snd p"]
    by (auto simp: newest_cursors_def split: if_splits)
  ultimately show ?thesis
    using k by (intro conjI exI [of _ ?es]) (auto simp: fresh_cursors_def)
qed

theorem cursor_frame_bounded_witness:
  "snd (aggregate_cursors 1 20000 2 [(1, \<lparr>ce_user_id = 1, ce_payload = JNull, ce_updated_at = 18000\<rparr>),
      (2, \<lparr>ce_user_id = 2, ce_payload = JNull, ce_updated_at = 19000\<rparr>)]) = Some [(2, JNull)]"
proof -
  have e: "aggregate_cursors 1 20000 2 [(1, \<lparr>ce_user_id = 1, ce_payload = JNull, ce_updated_at = 18000\<rparr>),
      (2, \<lparr>ce_user_id = 2, ce_payload = JNull, ce_updated_at = 19000\<rparr>)]
    = (fresh_cursors 20000 [(1, \<lparr>ce_user_id = 1, ce_payload = JNull, ce_updated_at = 18000\<rparr>),
      (2, \<lparr>ce_user_id = 2, ce_payload = JNull, ce_updated_at = 19000\<rparr>)], Some [(2, JNull)])"
    by (simp add: aggregate_cursors_def Let_def fresh_cursors_def newest_cursors_def CURSOR_TTL_def)
  from cursor_frame_bounded [OF e] e show ?thesis by simp
qed

end
