(* ===== verification/Fanout.thy ===== *)
theory Fanout
  imports Hub Samples
begin

text \<open>
  Cross-instance delivery of durable updates: \<open>src/src/state/yrs_fanout.rs\<close>.  Redis carries only wake-ups, so
  the model is what an instance does with one: replay the journal after its delivery cursor.  \<open>b64\<close> is the
  base64 encoder; \<open>page_ok\<close> says which page queries succeed and \<open>row_ok\<close> which event reads do.
\<close>

definition I64_MIN :: int where "I64_MIN = - (2 ^ 63)"

definition FANOUT_BATCH :: nat where "FANOUT_BATCH = 512"

type_synonym cursors = "uuid \<Rightarrow> int option"

definition advance_cursor_map :: "cursors \<Rightarrow> uuid \<Rightarrow> int \<Rightarrow> bool \<times> cursors" where
  "advance_cursor_map cs board seq =
     (let c = (case cs board of Some c \<Rightarrow> c | None \<Rightarrow> I64_MIN) in
      if seq \<le> c then (False, cs(board \<mapsto> c)) else (True, cs(board \<mapsto> seq)))"

definition initialize_cursor :: "cursors \<Rightarrow> uuid \<Rightarrow> int \<Rightarrow> cursors" where
  "initialize_cursor cs board seq = (case cs board of Some _ \<Rightarrow> cs | None \<Rightarrow> cs(board \<mapsto> seq))"

definition set_cursor :: "cursors \<Rightarrow> uuid \<Rightarrow> int \<Rightarrow> cursors" where
  "set_cursor cs board seq = cs(board \<mapsto> seq)"

datatype delivery = Pair ws_message ws_message | Resync

definition broadcast_commit :: "uuid \<Rightarrow> yrs_update_row \<Rightarrow> event_record \<Rightarrow> ws_message" where
  "broadcast_commit board row event =
     WsCommit board (u_seq row) (e_id event) (Some (u_client_event_id row)) (e_user_id event)
       (e_event_type event) (e_payload event) (e_session_id event)"

definition broadcast_update :: "(bytes \<Rightarrow> string) \<Rightarrow> uuid \<Rightarrow> yrs_update_row \<Rightarrow> ws_message" where
  "broadcast_update b64 board row =
     WsYrsUpdate board (u_seq row) (Some (u_client_event_id row)) (u_schema_version row) (b64 (u_yupdate row))"

definition deliver_pair ::
  "cursors \<Rightarrow> uuid \<Rightarrow> int \<Rightarrow> ws_message \<Rightarrow> ws_message \<Rightarrow> cursors \<times> delivery list" where
  "deliver_pair cs board seq cm yrs =
     (case advance_cursor_map cs board seq of (ok, cs') \<Rightarrow> (cs', if ok then [Pair cm yrs] else []))"

definition request_resync :: "cursors \<Rightarrow> uuid \<Rightarrow> int \<Rightarrow> cursors \<times> delivery list" where
  "request_resync cs board through_seq = (snd (advance_cursor_map cs board through_seq), [Resync])"

definition deliver_row ::
  "(bytes \<Rightarrow> string) \<Rightarrow> bdb \<Rightarrow> uuid \<Rightarrow> yrs_update_row \<Rightarrow> cursors \<Rightarrow> cursors \<times> delivery list" where
  "deliver_row b64 d board row cs =
     (case Option.bind (u_event_id row) (read_event_by_id d) of
        None \<Rightarrow> request_resync cs board (u_seq row)
      | Some event \<Rightarrow>
          deliver_pair cs board (u_seq row) (broadcast_commit board row event) (broadcast_update b64 board row))"

text \<open>One page; the flag says that a read failed and the replay stops.\<close>

fun reconcile_rows ::
  "(bytes \<Rightarrow> string) \<Rightarrow> bdb \<Rightarrow> (yrs_update_row \<Rightarrow> bool) \<Rightarrow> uuid \<Rightarrow> yrs_update_row list \<Rightarrow> cursors \<Rightarrow>
   cursors \<times> delivery list \<times> bool" where
  "reconcile_rows b64 d row_ok board [] cs = (cs, [], False)"
| "reconcile_rows b64 d row_ok board (row # rows) cs =
     (if u_event_id row \<noteq> None \<and> \<not> row_ok row then (cs, [], True)
      else
        (case deliver_row b64 d board row cs of (cs1, out1) \<Rightarrow>
         (case reconcile_rows b64 d row_ok board rows cs1 of (cs2, out2, stop) \<Rightarrow> (cs2, out1 @ out2, stop))))"

lemma page_shrinks:
  assumes "list_updates_since d cursor n \<noteq> []"
  shows "length (filter (\<lambda>u. u_seq (last (list_updates_since d cursor n)) < u_seq u) (d_updates d))
    < length (filter (\<lambda>u. cursor < u_seq u) (d_updates d))"
proof -
  let ?l = "last (list_updates_since d cursor n)"
  have l: "?l \<in> set (d_updates d)" "cursor < u_seq ?l"
    using updates_log.page_sound [of ?l d cursor n] assms by simp_all
  have "filter (\<lambda>u. u_seq ?l < u_seq u) (d_updates d)
      = filter (\<lambda>u. u_seq ?l < u_seq u) (filter (\<lambda>u. cursor < u_seq u) (d_updates d))"
    using l(2) by (auto intro: filter_cong)
  then show ?thesis using l length_filter_less [of ?l "filter (\<lambda>u. cursor < u_seq u) (d_updates d)"] by simp
qed

function reconcile_loop ::
  "(bytes \<Rightarrow> string) \<Rightarrow> bdb \<Rightarrow> (int \<Rightarrow> bool) \<Rightarrow> (yrs_update_row \<Rightarrow> bool) \<Rightarrow> uuid \<Rightarrow> int \<Rightarrow> cursors \<Rightarrow>
   cursors \<times> delivery list" where
  "reconcile_loop b64 d page_ok row_ok board cursor cs =
     (if \<not> page_ok cursor then (cs, [])
      else
        (let rows = list_updates_since d cursor FANOUT_BATCH in
         if rows = [] then (cs, [])
         else
           (case reconcile_rows b64 d row_ok board rows cs of (cs', out, stop) \<Rightarrow>
              if stop \<or> length rows < FANOUT_BATCH then (cs', out)
              else
                (case reconcile_loop b64 d page_ok row_ok board (u_seq (last rows)) cs' of
                   (cs'', out') \<Rightarrow> (cs'', out @ out')))))"
  by pat_completeness auto
termination
  by (relation "measure (\<lambda>(b64, d, page_ok, row_ok, board, cursor, cs).
      length (filter (\<lambda>u. cursor < u_seq u) (d_updates d)))") (auto intro!: page_shrinks)

declare reconcile_loop.simps [simp del]

text \<open>\<open>head\<close> is the result of reading the head row, an error included.\<close>

definition register_board ::
  "uuid list \<Rightarrow> uuid \<Rightarrow> (string + yrs_head option) \<Rightarrow> cursors \<Rightarrow> cursors" where
  "register_board active board head cs =
     (if board \<in> set active \<and> cs board \<noteq> None then cs
      else
        (case head of
           Inr (Some h) \<Rightarrow> set_cursor cs board (h_processed_seq h)
         | Inr None \<Rightarrow> set_cursor cs board 0
         | Inl _ \<Rightarrow> cs))"

definition reconcile_board ::
  "(bytes \<Rightarrow> string) \<Rightarrow> bdb \<Rightarrow> (int \<Rightarrow> bool) \<Rightarrow> (yrs_update_row \<Rightarrow> bool) \<Rightarrow> uuid list \<Rightarrow> uuid \<Rightarrow>
   (string + yrs_head option) \<Rightarrow> cursors \<Rightarrow> cursors \<times> delivery list" where
  "reconcile_board b64 d page_ok row_ok active board head cs =
     (case cs board of
        None \<Rightarrow> (register_board active board head cs, [])
      | Some cursor \<Rightarrow> reconcile_loop b64 d page_ok row_ok board cursor cs)"

record durable_notice =
  dn_origin :: uuid
  dn_board_id :: uuid
  dn_seq :: int

text \<open>\<open>seq.saturating_sub(1)\<close>\<close>

definition pred_sat :: "int \<Rightarrow> int" where
  "pred_sat seq = (if seq = I64_MIN then I64_MIN else seq - 1)"

definition publish ::
  "(bytes \<Rightarrow> string) \<Rightarrow> bdb \<Rightarrow> (int \<Rightarrow> bool) \<Rightarrow> (yrs_update_row \<Rightarrow> bool) \<Rightarrow> uuid list \<Rightarrow>
   (string + yrs_head option) \<Rightarrow> uuid \<Rightarrow> ws_message \<Rightarrow> cursors \<Rightarrow> cursors \<times> delivery list \<times> durable_notice option" where
  "publish b64 d page_ok row_ok active head inst cm cs =
     (case cm of
        WsCommit board seq _ _ _ _ _ _ \<Rightarrow>
          (case (if board \<in> set active
                 then reconcile_board b64 d page_ok row_ok active board head
                        (if cs board = None then initialize_cursor cs board (pred_sat seq) else cs)
                 else (cs, [])) of
             (cs', out) \<Rightarrow> (cs', out, Some \<lparr>dn_origin = inst, dn_board_id = board, dn_seq = seq\<rparr>))
      | _ \<Rightarrow> (cs, [], None))"

definition on_notice ::
  "(bytes \<Rightarrow> string) \<Rightarrow> bdb \<Rightarrow> (int \<Rightarrow> bool) \<Rightarrow> (yrs_update_row \<Rightarrow> bool) \<Rightarrow> uuid list \<Rightarrow>
   (string + yrs_head option) \<Rightarrow> uuid \<Rightarrow> durable_notice option \<Rightarrow> cursors \<Rightarrow> cursors \<times> delivery list" where
  "on_notice b64 d page_ok row_ok active head inst notice cs =
     (case notice of
        None \<Rightarrow> (cs, [])
      | Some n \<Rightarrow>
          (if dn_origin n = inst \<or> dn_board_id n \<notin> set active then (cs, [])
           else reconcile_board b64 d page_ok row_ok active (dn_board_id n) head cs))"

definition repair_board ::
  "(bytes \<Rightarrow> string) \<Rightarrow> bdb \<Rightarrow> (int \<Rightarrow> bool) \<Rightarrow> (yrs_update_row \<Rightarrow> bool) \<Rightarrow> uuid list \<Rightarrow> uuid \<Rightarrow>
   (string + yrs_head option) \<Rightarrow> cursors \<Rightarrow> cursors \<times> delivery list" where
  "repair_board b64 d page_ok row_ok active board head cs =
     (if cs board = None then (register_board active board head cs, [])
      else reconcile_board b64 d page_ok row_ok active board head cs)"

subsection \<open>Exactly once, in order\<close>

definition delivered_of :: "(bytes \<Rightarrow> string) \<Rightarrow> bdb \<Rightarrow> uuid \<Rightarrow> yrs_update_row \<Rightarrow> delivery" where
  "delivered_of b64 d board row =
     (case Option.bind (u_event_id row) (read_event_by_id d) of
        None \<Rightarrow> Resync
      | Some event \<Rightarrow> Pair (broadcast_commit board row event) (broadcast_update b64 board row))"

lemma deliver_row_fresh:
  "cs board = Some c \<Longrightarrow> c < u_seq row \<Longrightarrow>
   deliver_row b64 d board row cs = (cs(board \<mapsto> u_seq row), [delivered_of b64 d board row])"
  by (simp add: deliver_row_def delivered_of_def request_resync_def deliver_pair_def advance_cursor_map_def Let_def
      split: option.splits)

lemma reconcile_rows_fresh:
  "cs board = Some c \<Longrightarrow> sorted_wrt (\<lambda>a b. u_seq a < u_seq b) rows \<Longrightarrow> \<forall>r \<in> set rows. c < u_seq r \<Longrightarrow>
   \<forall>r \<in> set rows. row_ok r \<Longrightarrow>
   reconcile_rows b64 d row_ok board rows cs
     = (if rows = [] then cs else cs(board \<mapsto> u_seq (last rows)), map (delivered_of b64 d board) rows, False)"
proof (induction rows arbitrary: cs c)
  case (Cons row rows)
  have "reconcile_rows b64 d row_ok board rows (cs(board \<mapsto> u_seq row))
     = (if rows = [] then cs(board \<mapsto> u_seq row) else (cs(board \<mapsto> u_seq row))(board \<mapsto> u_seq (last rows)),
        map (delivered_of b64 d board) rows, False)"
    using Cons.prems by (intro Cons.IH [of _ "u_seq row"]) auto
  then show ?case using Cons.prems deliver_row_fresh [of cs board c row b64 d] by (cases "rows = []") (auto simp: fun_eq_iff)
qed simp

abbreviation all_ok :: "'a \<Rightarrow> bool" where "all_ok \<equiv> \<lambda>_. True"

lemma reconcile_loop_exact:
  assumes "distinct (map u_seq (d_updates d))" "cs board = Some cursor"
  shows "reconcile_loop b64 d all_ok all_ok board cursor cs
    = (let rows = log_after u_seq (d_updates d) cursor in
       (if rows = [] then cs else cs(board \<mapsto> u_seq (last rows)), map (delivered_of b64 d board) rows))"
  using assms(2)
proof (induction "length (filter (\<lambda>u. cursor < u_seq u) (d_updates d))" arbitrary: cursor cs rule: less_induct)
  case less
  let ?p = "list_updates_since d cursor FANOUT_BATCH"
  have pos: "0 < FANOUT_BATCH" by (simp add: FANOUT_BATCH_def)
  note sp = updates_log.split [OF assms(1) pos, of cursor]
  show ?case
  proof (cases "?p = []")
    case True
    then show ?thesis using updates_log.empty_page [OF assms(1) pos True] by (subst reconcile_loop.simps) simp
  next
    case False
    then have nc: "updates_log.next_cursor d cursor FANOUT_BATCH = u_seq (last ?p)"
      by (simp add: updates_log.next_cursor_def)
    have s: "sorted_wrt (\<lambda>a b. u_seq a < u_seq b) ?p" "\<forall>r \<in> set ?p. cursor < u_seq r"
      using updates_log.page_sorted [OF assms(1)] updates_log.page_sound by blast+
    have rr: "reconcile_rows b64 d all_ok board ?p cs
        = (cs(board \<mapsto> u_seq (last ?p)), map (delivered_of b64 d board) ?p, False)"
      using reconcile_rows_fresh [of cs board cursor ?p all_ok b64 d, OF less.prems s] False by simp
    show ?thesis
    proof (cases "length ?p < FANOUT_BATCH")
      case True
      then have "log_after u_seq (d_updates d) (u_seq (last ?p)) = []"
        using updates_log.short_page [OF assms(1) True] nc by simp
      then show ?thesis
        using sp nc rr True False by (subst reconcile_loop.simps) (simp add: Let_def)
    next
      case full: False
      have IH: "reconcile_loop b64 d all_ok all_ok board (u_seq (last ?p)) (cs(board \<mapsto> u_seq (last ?p)))
        = (let rows = log_after u_seq (d_updates d) (u_seq (last ?p)) in
           (if rows = [] then cs(board \<mapsto> u_seq (last ?p)) else (cs(board \<mapsto> u_seq (last ?p)))(board \<mapsto> u_seq (last rows)),
            map (delivered_of b64 d board) rows))"
        using page_shrinks [OF False] by (intro less.hyps) simp_all
      show ?thesis
        using sp nc rr full False IH by (subst reconcile_loop.simps) (simp add: Let_def)
    qed
  qed
qed

text \<open>C17: Replay is exact: one reconciliation of an initialised board delivers precisely the journal rows after the
  cursor, in sequence order, each once, however many pages that takes (a row whose event retention deleted is
  answered by one resync request), and leaves the cursor on the last of them, so the next run starts there.\<close>

theorem reconcile_exact:
  assumes "distinct (map u_seq (d_updates d))" and "cs board = Some cursor"
    and "reconcile_board b64 d all_ok all_ok active board head cs = (cs', out)"
  shows "out = map (delivered_of b64 d board) (log_after u_seq (d_updates d) cursor)
    \<and> (\<forall>b. b \<noteq> board \<longrightarrow> cs' b = cs b)
    \<and> (\<exists>c'. cs' board = Some c' \<and> cursor \<le> c' \<and> log_after u_seq (d_updates d) c' = [])"
proof -
  let ?rows = "log_after u_seq (d_updates d) cursor"
  have r: "(cs', out) = (if ?rows = [] then cs else cs(board \<mapsto> u_seq (last ?rows)), map (delivered_of b64 d board) ?rows)"
    using reconcile_loop_exact [of d cs board cursor b64, OF assms(1,2)] assms(2,3) by (simp add: reconcile_board_def Let_def)
  have "log_after u_seq (d_updates d) (u_seq (last ?rows)) = []" if "?rows \<noteq> []"
  proof -
    have s: "sorted_wrt (\<lambda>a b. u_seq a < u_seq b) ?rows" by (rule sorted_log_after [OF assms(1)])
    have "cursor < u_seq (last ?rows)" using last_in_set [OF that] by simp
    then have "u_seq u \<le> u_seq (last ?rows)" if "u \<in> set (d_updates d)" for u
      using ordered_le_last [of u_seq ?rows u, OF s] that by (cases "cursor < u_seq u") auto
    then show ?thesis by (intro log_after_none) blast
  qed
  moreover have "cursor < u_seq (last ?rows)" if "?rows \<noteq> []" using last_in_set [OF that] by simp
  ultimately show ?thesis using r assms(2) by (auto split: if_splits intro: less_imp_le)
qed

theorem reconcile_exact_witness:
  "\<exists>cs' out c'. reconcile_board (\<lambda>_. []) covered_db all_ok all_ok [1] 1 (Inr None) (Map.empty(1 \<mapsto> 5)) = (cs', out)
     \<and> cs' 1 = Some c' \<and> 5 \<le> c' \<and> length out = 1"
proof -
  obtain cs' out where r: "reconcile_board (\<lambda>_. []) covered_db all_ok all_ok [1] 1 (Inr None) (Map.empty(1 \<mapsto> 5)) = (cs', out)"
    by (cases "reconcile_board (\<lambda>_. []) covered_db all_ok all_ok [1] 1 (Inr None) (Map.empty(1 \<mapsto> 5))")
  have d: "distinct (map u_seq (d_updates covered_db))" "(Map.empty(1 :: uuid \<mapsto> (5 :: int))) 1 = Some 5"
    "length (log_after u_seq (d_updates covered_db) 5) = 1"
    by (simp_all add: covered_db_def sample_update_def log_after_def)
  from reconcile_exact [of covered_db _ 1 5, OF d(1,2) r] d(3) r show ?thesis by auto
qed

subsection \<open>Concurrent replays\<close>

text \<open>
  The publisher, the subscriber, the repair poller and new connections of one instance may work on the same board
  at once.  A replaying task holds the rows of its page; advancing the shared cursor and broadcasting are separate
  steps, since the cursor lock is released in between.  A registration reads the head and then sets the cursor,
  whatever the others did meanwhile; \<open>rs_lowered\<close> is a history variable that counts the registrations that set
  the cursor back.
\<close>

datatype task = Idle | Scan "int list" | Send int "int list" | Registering int

record replay_state =
  rs_cursors :: cursors
  rs_tasks :: "nat \<Rightarrow> task"
  rs_log :: "int list"
  rs_lowered :: nat

definition lowers :: "cursors \<Rightarrow> uuid \<Rightarrow> int \<Rightarrow> bool" where
  "lowers cs board p = (case cs board of Some c \<Rightarrow> p < c | None \<Rightarrow> False)"

inductive replay_step :: "uuid \<Rightarrow> replay_state \<Rightarrow> replay_state \<Rightarrow> bool" for board where
  load: "rs_tasks s i = Idle \<Longrightarrow> sorted_wrt (<) seqs \<Longrightarrow> \<forall>q \<in> set seqs. I64_MIN \<le> q \<Longrightarrow>
    replay_step board s (s\<lparr>rs_tasks := (rs_tasks s)(i := Scan seqs)\<rparr>)"
| skip: "rs_tasks s i = Scan (q # qs) \<Longrightarrow> advance_cursor_map (rs_cursors s) board q = (False, cs) \<Longrightarrow>
    replay_step board s (s\<lparr>rs_cursors := cs, rs_tasks := (rs_tasks s)(i := Scan qs)\<rparr>)"
| advance: "rs_tasks s i = Scan (q # qs) \<Longrightarrow> advance_cursor_map (rs_cursors s) board q = (True, cs) \<Longrightarrow>
    replay_step board s (s\<lparr>rs_cursors := cs, rs_tasks := (rs_tasks s)(i := Send q qs)\<rparr>)"
| send: "rs_tasks s i = Send q qs \<Longrightarrow>
    replay_step board s (s\<lparr>rs_tasks := (rs_tasks s)(i := Scan qs), rs_log := rs_log s @ [q]\<rparr>)"
| resync: "rs_tasks s i = Scan (q # qs) \<Longrightarrow> request_resync (rs_cursors s) board q = (cs, out) \<Longrightarrow>
    replay_step board s (s\<lparr>rs_cursors := cs, rs_tasks := (rs_tasks s)(i := Scan qs)\<rparr>)"
| finish: "rs_tasks s i = Scan qs \<Longrightarrow> replay_step board s (s\<lparr>rs_tasks := (rs_tasks s)(i := Idle)\<rparr>)"
| initialize: "replay_step board s (s\<lparr>rs_cursors := initialize_cursor (rs_cursors s) board (pred_sat q)\<rparr>)"
| read_head: "rs_tasks s i = Idle \<Longrightarrow> replay_step board s (s\<lparr>rs_tasks := (rs_tasks s)(i := Registering p)\<rparr>)"
| register: "rs_tasks s i = Registering p \<Longrightarrow>
    replay_step board s (s\<lparr>rs_cursors := set_cursor (rs_cursors s) board p, rs_tasks := (rs_tasks s)(i := Idle),
      rs_lowered := rs_lowered s + (if lowers (rs_cursors s) board p then 1 else 0)\<rparr>)"

inductive_cases replay_stepE: "replay_step board s s'"

definition sending :: "replay_state \<Rightarrow> nat \<Rightarrow> int option" where
  "sending s i = (case rs_tasks s i of Send q _ \<Rightarrow> Some q | _ \<Rightarrow> None)"

text \<open>How often a sequence has been claimed: broadcast already, or about to be.\<close>

definition senders :: "replay_state \<Rightarrow> int \<Rightarrow> nat set" where
  "senders s q = {i. sending s i = Some q}"

definition claims :: "replay_state \<Rightarrow> int \<Rightarrow> nat" where
  "claims s q = count_list (rs_log s) q + card (senders s q)"

definition passed :: "uuid \<Rightarrow> replay_state \<Rightarrow> int \<Rightarrow> bool" where
  "passed board s q \<longleftrightarrow> (\<exists>c. rs_cursors s board = Some c \<and> q \<le> c)"

definition replay_inv :: "uuid \<Rightarrow> replay_state \<Rightarrow> bool" where
  "replay_inv board s \<longleftrightarrow> (\<forall>q. finite (senders s q) \<and> claims s q \<le> rs_lowered s + (if passed board s q then 1 else 0))"

lemma advance_cursor_cases:
  "advance_cursor_map cs board q = (b, cs') \<Longrightarrow>
   (b \<longleftrightarrow> (case cs board of Some c \<Rightarrow> c | None \<Rightarrow> I64_MIN) < q) \<and> (\<exists>c'. cs' board = Some c'
     \<and> (b \<longrightarrow> c' = q) \<and> (\<forall>c. cs board = Some c \<longrightarrow> c \<le> c'))"
  by (auto simp: advance_cursor_map_def Let_def split: if_splits option.splits)

text \<open>A step that claims nothing and does not set the cursor back without counting it.\<close>

lemma replay_inv_quiet:
  assumes inv: "replay_inv board s" and "rs_log s' = rs_log s" "\<And>i. sending s' i = sending s i"
    and "\<And>q. passed board s q \<Longrightarrow> rs_lowered s + 1 \<le> rs_lowered s' + (if passed board s' q then 1 else 0)"
    and "rs_lowered s \<le> rs_lowered s'"
  shows "replay_inv board s'"
proof -
  have se: "senders s' q = senders s q" for q using assms(3) by (simp add: senders_def)
  have cl: "claims s' q = claims s q" for q by (simp add: claims_def se assms(2))
  have bound: "claims s q \<le> rs_lowered s + (if passed board s q then 1 else 0)" for q
    using inv by (simp only: replay_inv_def)
  have "claims s q \<le> rs_lowered s' + (if passed board s' q then 1 else 0)" for q
  proof (cases "passed board s q")
    case True
    then have "claims s q \<le> rs_lowered s + 1" using bound [of q] by simp
    then show ?thesis using assms(4) [OF True] by simp
  next
    case False
    then have "claims s q \<le> rs_lowered s" using bound [of q] by simp
    then show ?thesis using assms(5) by simp
  qed
  then show ?thesis using inv unfolding replay_inv_def se cl by simp
qed

lemma advance_keeps_passed:
  "advance_cursor_map (rs_cursors s) board q = (b, rs_cursors s') \<Longrightarrow> passed board s p \<Longrightarrow> passed board s' p"
  using advance_cursor_cases by (fastforce simp: passed_def)

lemma replay_step_inv:
  assumes step: "replay_step board s s'" and inv: "replay_inv board s"
  shows "replay_inv board s'"
  using step
proof cases
  case (load i seqs)
  then show ?thesis by (intro replay_inv_quiet [OF inv]) (auto simp: sending_def passed_def)
next
  case (skip i q qs cs)
  then show ?thesis
    using advance_keeps_passed [of s board q False s'] by (intro replay_inv_quiet [OF inv]) (auto simp: sending_def)
next
  case (resync i q qs cs out)
  then obtain b where "advance_cursor_map (rs_cursors s) board q = (b, rs_cursors s')"
    by (cases "advance_cursor_map (rs_cursors s) board q") (auto simp: request_resync_def)
  then show ?thesis
    using advance_keeps_passed [of s board q b s'] resync by (intro replay_inv_quiet [OF inv]) (auto simp: sending_def)
next
  case (finish i qs)
  then show ?thesis by (intro replay_inv_quiet [OF inv]) (auto simp: sending_def passed_def)
next
  case (initialize q)
  then show ?thesis
    by (intro replay_inv_quiet [OF inv]) (auto simp: sending_def passed_def initialize_cursor_def split: option.splits)
next
  case (read_head i p)
  then show ?thesis by (intro replay_inv_quiet [OF inv]) (auto simp: sending_def passed_def)
next
  case (register i p)
  then show ?thesis
    by (intro replay_inv_quiet [OF inv]) (auto simp: sending_def passed_def set_cursor_def lowers_def)
next
  case (advance i q qs cs)
  note a = advance_cursor_cases [OF advance(3)]
  have fresh: "\<not> passed board s q" "passed board s' q" using a advance(1) by (auto simp: passed_def)
  have keep: "passed board s p \<Longrightarrow> passed board s' p" for p
    using advance_keeps_passed [of s board q True s' p] advance(1,3) by simp
  have i: "i \<notin> senders s q" using advance(2) by (simp add: senders_def sending_def)
  have se: "senders s' p = (if p = q then insert i (senders s q) else senders s p)" for p
    using advance(1,2) by (auto simp: senders_def sending_def)
  have fin: "finite (senders s p)" for p using inv by (simp add: replay_inv_def)
  have log: "rs_log s' = rs_log s" using advance(1) by simp
  have cl: "claims s' p = claims s p + (if p = q then 1 else 0)" for p
    unfolding claims_def se log using i fin [of q] by simp
  have bound: "claims s p \<le> rs_lowered s + (if passed board s p then 1 else 0)" for p
    using inv by (simp add: replay_inv_def)
  have "claims s' p \<le> rs_lowered s' + (if passed board s' p then 1 else 0)" for p
  proof -
    have "rs_lowered s' = rs_lowered s" using advance(1) by simp
    then show ?thesis using bound [of p] keep [of p] fresh unfolding cl by (auto split: if_splits)
  qed
  then show ?thesis using fin unfolding replay_inv_def se by simp
next
  case (send i q qs)
  have si: "i \<in> senders s q" using send(2) by (simp add: senders_def sending_def)
  have se: "senders s' p = (if p = q then senders s q - {i} else senders s p)" for p
    using send by (auto simp: senders_def sending_def)
  have fin: "finite (senders s p)" for p using inv by (simp add: replay_inv_def)
  have "Suc (card (senders s q - {i})) = card (senders s q)" using card.remove [OF fin si] by simp
  then have cl: "claims s' p = claims s p" for p
    unfolding claims_def se using send(1) by auto
  have "passed board s' p = passed board s p" "rs_lowered s' = rs_lowered s" for p using send(1) by (simp_all add: passed_def)
  then show ?thesis using inv unfolding replay_inv_def cl se by simp
qed

definition replay_init :: "cursors \<Rightarrow> replay_state" where
  "replay_init cs = \<lparr>rs_cursors = cs, rs_tasks = (\<lambda>_. Idle), rs_log = [], rs_lowered = 0\<rparr>"

lemma count_distinct: "(\<And>q. count_list xs q \<le> 1) \<Longrightarrow> distinct xs"
proof (induction xs)
  case (Cons x xs)
  have "count_list xs q \<le> 1" for q using Cons.prems [of q] by (auto split: if_splits)
  moreover have "x \<notin> set xs" using Cons.prems [of x] by (simp add: count_list_0_iff)
  ultimately show ?case using Cons.IH by simp
qed simp

text \<open>C18: The cursor deduplicates under concurrency: however many tasks of an instance replay, register or initialise
  the same board at once, from whatever pages and in whatever interleaving, no sequence is broadcast more often than
  once plus the number of registrations that set the cursor back; if none did, no sequence is broadcast twice.\<close>

theorem broadcast_at_most_once:
  assumes "(replay_step board)\<^sup>*\<^sup>* (replay_init cs) s"
  shows "count_list (rs_log s) q \<le> 1 + rs_lowered s \<and> (rs_lowered s = 0 \<longrightarrow> distinct (rs_log s))"
proof -
  have "replay_inv board s"
    using assms
  proof induction
    case base
    then show ?case by (simp add: replay_inv_def replay_init_def senders_def sending_def claims_def)
  next
    case (step s1 s2)
    then show ?case by (simp add: replay_step_inv)
  qed
  then have "count_list (rs_log s) q \<le> 1 + rs_lowered s" for q
    unfolding replay_inv_def claims_def by (force dest: spec [of _ q] split: if_splits)
  then show ?thesis using count_distinct [of "rs_log s"] by force
qed

text \<open>A run of two tasks that broadcasts 6 before 5: the cursor orders the claims, not the broadcasts.\<close>

abbreviation board_state :: "int \<Rightarrow> task \<Rightarrow> task \<Rightarrow> int list \<Rightarrow> nat \<Rightarrow> replay_state" where
  "board_state c t0 t1 l n \<equiv>
     \<lparr>rs_cursors = Map.empty(1 \<mapsto> c), rs_tasks = (\<lambda>_. Idle)(0 := t0, 1 := t1), rs_log = l, rs_lowered = n\<rparr>"

lemma init_board_state: "replay_init (Map.empty(1 \<mapsto> c)) = board_state c Idle Idle [] 0"
  by (auto simp: replay_init_def)

lemma load0: "sorted_wrt (<) l \<Longrightarrow> \<forall>q \<in> set l. I64_MIN \<le> q \<Longrightarrow>
    replay_step 1 (board_state c Idle t1 lg n) (board_state c (Scan l) t1 lg n)"
  using replay_step.load [of "board_state c Idle t1 lg n" 0 l 1] by (simp add: fun_upd_twist)

lemma load1: "sorted_wrt (<) l \<Longrightarrow> \<forall>q \<in> set l. I64_MIN \<le> q \<Longrightarrow>
    replay_step 1 (board_state c t0 Idle lg n) (board_state c t0 (Scan l) lg n)"
  using replay_step.load [of "board_state c t0 Idle lg n" 1 l 1] by simp

lemma advance0: "c < q \<Longrightarrow> replay_step 1 (board_state c (Scan (q # qs)) t1 lg n) (board_state q (Send q qs) t1 lg n)"
  using replay_step.advance [of "board_state c (Scan (q # qs)) t1 lg n" 0 q qs 1 "Map.empty(1 \<mapsto> q)"]
  by (simp add: advance_cursor_map_def fun_upd_twist)

lemma advance1: "c < q \<Longrightarrow> replay_step 1 (board_state c t0 (Scan (q # qs)) lg n) (board_state q t0 (Send q qs) lg n)"
  using replay_step.advance [of "board_state c t0 (Scan (q # qs)) lg n" 1 q qs 1 "Map.empty(1 \<mapsto> q)"]
  by (simp add: advance_cursor_map_def)

lemma send0: "replay_step 1 (board_state c (Send q qs) t1 lg n) (board_state c (Scan qs) t1 (lg @ [q]) n)"
  using replay_step.send [of "board_state c (Send q qs) t1 lg n" 0 q qs 1] by (simp add: fun_upd_twist)

lemma send1: "replay_step 1 (board_state c t0 (Send q qs) lg n) (board_state c t0 (Scan qs) (lg @ [q]) n)"
  using replay_step.send [of "board_state c t0 (Send q qs) lg n" 1 q qs 1] by simp

lemma broadcast_out_of_order:
  "\<exists>s. (replay_step 1)\<^sup>*\<^sup>* (replay_init (Map.empty(1 \<mapsto> 4))) s \<and> rs_log s = [6, 5] \<and> rs_lowered s = 0"
proof -
  have "(replay_step 1)\<^sup>*\<^sup>* (board_state 4 Idle Idle [] 0) (board_state 6 (Scan [6]) (Scan []) [6, 5] 0)"
    using load0 [of "[5, 6]" 4 Idle "[]" 0] advance0 [of 4 5 "[6]" Idle "[]" 0] load1 [of "[6]" 5 "Send 5 [6]" "[]" 0]
      advance1 [of 5 6 "Send 5 [6]" "[]" "[]" 0] send1 [of 6 "Send 5 [6]" 6 "[]" "[]" 0] send0 [of 6 5 "[6]" "Scan []" "[6]" 0]
    by (simp add: I64_MIN_def)
  then show ?thesis unfolding init_board_state by (intro exI [of _ "board_state 6 (Scan [6]) (Scan []) [6, 5] 0"]) simp
qed

text \<open>A run in which a registration that read the head before a delivery sets the cursor after it: 5 goes out twice.\<close>

lemma late_registration_rebroadcasts:
  "\<exists>s. (replay_step 1)\<^sup>*\<^sup>* (replay_init (Map.empty(1 \<mapsto> 4))) s \<and> rs_log s = [5, 5] \<and> rs_lowered s = 1"
proof -
  have r: "replay_step 1 (board_state 4 Idle Idle [] 0) (board_state 4 Idle (Registering 4) [] 0)"
    using replay_step.read_head [of "board_state 4 Idle Idle [] 0" 1 1 4] by simp
  have f: "replay_step 1 (board_state 5 (Scan []) (Registering 4) [5] 0) (board_state 5 Idle (Registering 4) [5] 0)"
    using replay_step.finish [of "board_state 5 (Scan []) (Registering 4) [5] 0" 0 "[]" 1] by (simp add: fun_upd_twist)
  have g: "replay_step 1 (board_state 5 Idle (Registering 4) [5] 0) (board_state 4 Idle Idle [5] 1)"
    using replay_step.register [of "board_state 5 Idle (Registering 4) [5] 0" 1 4 1] by (simp add: set_cursor_def lowers_def)
  have "(replay_step 1)\<^sup>*\<^sup>* (board_state 4 Idle Idle [] 0) (board_state 5 (Scan []) Idle [5, 5] 1)"
    using r load0 [of "[5]" 4 "Registering 4" "[]" 0] advance0 [of 4 5 "[]" "Registering 4" "[]" 0]
      send0 [of 5 5 "[]" "Registering 4" "[]" 0] f g load0 [of "[5]" 4 Idle "[5]" 1] advance0 [of 4 5 "[]" Idle "[5]" 1]
      send0 [of 5 5 "[]" Idle "[5]" 1]
    by (simp add: I64_MIN_def)
  then show ?thesis unfolding init_board_state by (intro exI [of _ "board_state 5 (Scan []) Idle [5, 5] 1"]) simp
qed

theorem broadcast_at_most_once_witness:
  "\<exists>s. (replay_step 1)\<^sup>*\<^sup>* (replay_init (Map.empty(1 \<mapsto> 4))) s \<and> rs_log s = [6, 5] \<and> distinct (rs_log s)"
  using broadcast_out_of_order broadcast_at_most_once [of 1 "Map.empty(1 \<mapsto> 4)"] by blast

end
