(* ===== verification/Web_Db.thy ===== *)
theory Web_Db
  imports Journal Rust_Str
begin

text \<open>
  The relational tables behind the HTTP handlers and the statements on them: \<open>src/src/database/boards.rs\<close>
  (metadata columns), \<open>board_members.rs\<close>, \<open>board_invite_links.rs\<close>, \<open>board_embed_tokens.rs\<close>, \<open>projects.rs\<close>,
  \<open>project_members.rs\<close>, \<open>board_files.rs\<close>, \<open>quotas.rs\<close> and \<open>storage_deletion_jobs.rs\<close>.  A table is the list of
  its rows; primary keys, foreign keys, cascades and the deletion trigger are those of \<open>src/migrations\<close>.  Ids
  and times the database generates are arguments.
\<close>

subsection \<open>Rows\<close>

record app_user =
  us_id :: uuid
  us_username :: string
  us_email :: "string option"
  us_role_level :: int
  us_tier_level :: int
  us_profile_picture_url :: "string option"
  us_first_name :: "string option"
  us_last_name :: "string option"

record tier_quota =
  tq_level :: int
  tq_name :: string
  tq_requests_per_day :: int
  tq_max_owned_boards :: "int option"
  tq_max_upload_bytes :: int
  tq_max_storage_bytes :: int

record project =
  pj_id :: uuid
  pj_owner_id :: uuid
  pj_name :: string
  pj_is_favorite :: bool
  pj_created_at :: int

record project_member_row =
  pm_project_id :: uuid
  pm_user_id :: uuid
  pm_role :: string
  pm_created_at :: int

record board =
  bo_id :: uuid
  bo_project_id :: uuid
  bo_owner_id :: uuid
  bo_title :: string
  bo_visibility :: string
  bo_link_access :: string
  bo_grid_type :: string
  bo_background_color :: string
  bo_privacy_mode :: bool
  bo_sticker_authors :: bool
  bo_is_favorite :: bool
  bo_created_at :: int
  bo_preview_object_key :: "string option"
  bo_imported_storage_bytes :: int

record board_member =
  bm_board_id :: uuid
  bm_user_id :: uuid
  bm_role :: string
  bm_created_at :: int

record board_invite_link =
  il_id :: uuid
  il_board_id :: uuid
  il_token :: string
  il_role :: string
  il_created_by :: uuid
  il_expires_at :: "int option"
  il_created_at :: int

record embed_token_row =
  et_board_id :: uuid
  et_token :: string
  et_created_by :: uuid
  et_created_at :: int
  et_expires_at :: "int option"

record board_file =
  bf_id :: uuid
  bf_board_id :: uuid
  bf_uploader_id :: "uuid option"
  bf_object_key :: string
  bf_content_type :: string
  bf_size_bytes :: int
  bf_original_name :: "string option"
  bf_url :: string
  bf_created_at :: int

record storage_deletion_job =
  dj_board_id :: uuid
  dj_object_prefix :: string
  dj_preview_object_key :: "string option"
  dj_attempts :: int
  dj_last_error :: "string option"
  dj_updated_at :: int
  dj_cleanup_after :: int

record web_db =
  w_users :: "app_user list"
  w_tiers :: "tier_quota list"
  w_projects :: "project list"
  w_project_members :: "project_member_row list"
  w_boards :: "board list"
  w_members :: "board_member list"
  w_invites :: "board_invite_link list"
  w_embeds :: "embed_token_row list"
  w_files :: "board_file list"
  w_jobs :: "storage_deletion_job list"

definition user_exists :: "web_db \<Rightarrow> uuid \<Rightarrow> bool" where
  "user_exists d u \<longleftrightarrow> u \<in> us_id ` set (w_users d)"

text \<open>\<open>ORDER BY created_at DESC\<close>\<close>

definition newest_by :: "('a \<Rightarrow> int) \<Rightarrow> 'a list \<Rightarrow> 'a list" where
  "newest_by created rows = sort_key (\<lambda>r. - created r) rows"

subsection \<open>Boards\<close>

definition get_board :: "web_db \<Rightarrow> uuid \<Rightarrow> board option" where
  "get_board d b = find (\<lambda>r. bo_id r = b) (w_boards d)"

definition list_boards_by_project :: "web_db \<Rightarrow> uuid \<Rightarrow> board list" where
  "list_boards_by_project d p = newest_by bo_created_at (filter (\<lambda>r. bo_project_id r = p) (w_boards d))"

definition get_member_role :: "web_db \<Rightarrow> uuid \<Rightarrow> uuid \<Rightarrow> string option" where
  "get_member_role d b u =
     map_option bm_role (find (\<lambda>r. bm_board_id r = b \<and> bm_user_id r = u) (w_members d))"

text \<open>The listing joins the owner and the project; the view keeps the caller's membership role.\<close>

definition find_user :: "web_db \<Rightarrow> uuid \<Rightarrow> app_user option" where
  "find_user d u = find (\<lambda>r. us_id r = u) (w_users d)"

definition get_project :: "web_db \<Rightarrow> uuid \<Rightarrow> project option" where
  "get_project d p = find (\<lambda>r. pj_id r = p) (w_projects d)"

record board_with_owner =
  bw_board :: board
  bw_owner_username :: string
  bw_user_role :: "string option"
  bw_project_name :: string

definition board_view :: "web_db \<Rightarrow> string option \<Rightarrow> board \<Rightarrow> board_with_owner option" where
  "board_view d role r =
     (case (find_user d (bo_owner_id r), get_project d (bo_project_id r)) of
        (Some u, Some p) \<Rightarrow> Some \<lparr>bw_board = r, bw_owner_username = us_username u, bw_user_role = role,
          bw_project_name = pj_name p\<rparr>
      | _ \<Rightarrow> None)"

definition list_boards_for_user :: "web_db \<Rightarrow> uuid \<Rightarrow> board_with_owner list" where
  "list_boards_for_user d u =
     newest_by (bo_created_at \<circ> bw_board)
       (List.map_filter (\<lambda>r. board_view d (get_member_role d (bo_id r) u) r)
         (filter (\<lambda>r. bo_owner_id r = u \<or> get_member_role d (bo_id r) u \<noteq> None
            \<or> bo_visibility r = ''public'' \<or> bo_link_access r \<noteq> ''none'') (w_boards d)))"

definition list_all_boards :: "web_db \<Rightarrow> board_with_owner list" where
  "list_all_boards d =
     newest_by (bo_created_at \<circ> bw_board) (List.map_filter (board_view d (Some ''owner'')) (w_boards d))"

definition map_board :: "uuid \<Rightarrow> (board \<Rightarrow> board) \<Rightarrow> web_db \<Rightarrow> web_db" where
  "map_board b f d = d\<lparr>w_boards := map (\<lambda>r. if bo_id r = b then f r else r) (w_boards d)\<rparr>"

text \<open>An update with \<open>RETURNING\<close> fails when no row matches.\<close>

definition update_board_row ::
  "string option \<Rightarrow> string option \<Rightarrow> string option \<Rightarrow> uuid \<Rightarrow> web_db \<Rightarrow> db_error + board \<times> web_db" where
  "update_board_row title visibility link_access b d =
     (let d' = map_board b (\<lambda>r. r\<lparr>bo_title := (case title of Some t \<Rightarrow> t | None \<Rightarrow> bo_title r),
            bo_visibility := (case visibility of Some v \<Rightarrow> v | None \<Rightarrow> bo_visibility r),
            bo_link_access := (case link_access of Some l \<Rightarrow> l | None \<Rightarrow> bo_link_access r)\<rparr>) d
      in case get_board d' b of Some r \<Rightarrow> Inr (r, d') | None \<Rightarrow> Inl RowNotFound)"

definition toggle_board_favorite_row :: "uuid \<Rightarrow> web_db \<Rightarrow> db_error + board \<times> web_db" where
  "toggle_board_favorite_row b d =
     (let d' = map_board b (\<lambda>r. r\<lparr>bo_is_favorite := \<not> bo_is_favorite r\<rparr>) d
      in case get_board d' b of Some r \<Rightarrow> Inr (r, d') | None \<Rightarrow> Inl RowNotFound)"

text \<open>The trigger of the \<open>boards\<close> table; a second job for the same board replaces the first.\<close>

definition enqueue_deletion :: "(uuid \<Rightarrow> string) \<Rightarrow> int \<Rightarrow> board \<Rightarrow> storage_deletion_job list \<Rightarrow> storage_deletion_job list" where
  "enqueue_deletion U now r jobs =
     filter (\<lambda>j. dj_board_id j \<noteq> bo_id r) jobs
       @ [\<lparr>dj_board_id = bo_id r, dj_object_prefix = ''boards/'' @ U (bo_id r) @ ''/'',
           dj_preview_object_key = bo_preview_object_key r, dj_attempts = 0, dj_last_error = None,
           dj_updated_at = now, dj_cleanup_after = now + 30\<rparr>]"

definition delete_board_by_id :: "(uuid \<Rightarrow> string) \<Rightarrow> int \<Rightarrow> uuid \<Rightarrow> web_db \<Rightarrow> web_db" where
  "delete_board_by_id U now b d =
     (case get_board d b of
        None \<Rightarrow> d
      | Some r \<Rightarrow> d\<lparr>w_boards := filter (\<lambda>x. bo_id x \<noteq> b) (w_boards d),
          w_members := filter (\<lambda>x. bm_board_id x \<noteq> b) (w_members d),
          w_invites := filter (\<lambda>x. il_board_id x \<noteq> b) (w_invites d),
          w_embeds := filter (\<lambda>x. et_board_id x \<noteq> b) (w_embeds d),
          w_files := filter (\<lambda>x. bf_board_id x \<noteq> b) (w_files d),
          w_jobs := enqueue_deletion U now r (w_jobs d)\<rparr>)"

subsection \<open>Members\<close>

definition add_board_member :: "int \<Rightarrow> uuid \<Rightarrow> uuid \<Rightarrow> string \<Rightarrow> web_db \<Rightarrow> db_error + web_db" where
  "add_board_member now b u role d =
     (if get_board d b = None \<or> \<not> user_exists d u then Inl (DbProtocol ''foreign key'')
      else if get_member_role d b u \<noteq> None
      then Inr (d\<lparr>w_members := map (\<lambda>r. if bm_board_id r = b \<and> bm_user_id r = u then r\<lparr>bm_role := role\<rparr> else r)
                   (w_members d)\<rparr>)
      else Inr (d\<lparr>w_members := w_members d
                   @ [\<lparr>bm_board_id = b, bm_user_id = u, bm_role = role, bm_created_at = now\<rparr>]\<rparr>))"

definition remove_board_member :: "uuid \<Rightarrow> uuid \<Rightarrow> web_db \<Rightarrow> web_db" where
  "remove_board_member b u d =
     d\<lparr>w_members := filter (\<lambda>r. \<not> (bm_board_id r = b \<and> bm_user_id r = u)) (w_members d)\<rparr>"

text \<open>\<open>COALESCE(NULLIF(BTRIM(CONCAT_WS(' ', first_name, last_name)), ''), username)\<close>\<close>

fun join_with :: "string \<Rightarrow> string list \<Rightarrow> string" where
  "join_with sep [] = []"
| "join_with sep [x] = x"
| "join_with sep (x # y # xs) = x @ sep @ join_with sep (y # xs)"

definition btrim :: "string \<Rightarrow> string" where
  "btrim s = rev (dropWhile (\<lambda>c. c = CHR '' '') (rev (dropWhile (\<lambda>c. c = CHR '' '') s)))"

definition display_name :: "app_user \<Rightarrow> string" where
  "display_name u =
     (let n = btrim (join_with '' '' (List.map_filter (\<lambda>x. x) [us_first_name u, us_last_name u]))
      in if n = [] then us_username u else n)"

record member_with_user =
  mu_member :: board_member
  mu_username :: string
  mu_display_name :: string
  mu_email :: "string option"
  mu_profile_picture_url :: "string option"

definition list_board_members_with_users :: "web_db \<Rightarrow> uuid \<Rightarrow> member_with_user list" where
  "list_board_members_with_users d b =
     List.map_filter (\<lambda>m. map_option (\<lambda>u. \<lparr>mu_member = m, mu_username = us_username u,
         mu_display_name = display_name u, mu_email = us_email u,
         mu_profile_picture_url = us_profile_picture_url u\<rparr>) (find_user d (bm_user_id m)))
       (sort_key bm_created_at (filter (\<lambda>m. bm_board_id m = b) (w_members d)))"

subsection \<open>Projects\<close>

definition create_project_row :: "uuid \<Rightarrow> int \<Rightarrow> uuid \<Rightarrow> string \<Rightarrow> web_db \<Rightarrow> db_error + project \<times> web_db" where
  "create_project_row new_id now owner name d =
     (if \<not> user_exists d owner then Inl (DbProtocol ''foreign key'')
      else (let r = \<lparr>pj_id = new_id, pj_owner_id = owner, pj_name = name, pj_is_favorite = False, pj_created_at = now\<rparr>
            in Inr (r, d\<lparr>w_projects := w_projects d @ [r]\<rparr>)))"

definition get_project_member_role :: "web_db \<Rightarrow> uuid \<Rightarrow> uuid \<Rightarrow> string option" where
  "get_project_member_role d p u =
     map_option pm_role (find (\<lambda>r. pm_project_id r = p \<and> pm_user_id r = u) (w_project_members d))"

definition add_project_member :: "int \<Rightarrow> uuid \<Rightarrow> uuid \<Rightarrow> string \<Rightarrow> web_db \<Rightarrow> db_error + web_db" where
  "add_project_member now p u role d =
     (if get_project d p = None \<or> \<not> user_exists d u then Inl (DbProtocol ''foreign key'')
      else if get_project_member_role d p u \<noteq> None
      then Inr (d\<lparr>w_project_members := map (\<lambda>r. if pm_project_id r = p \<and> pm_user_id r = u
                   then r\<lparr>pm_role := role\<rparr> else r) (w_project_members d)\<rparr>)
      else Inr (d\<lparr>w_project_members := w_project_members d
                   @ [\<lparr>pm_project_id = p, pm_user_id = u, pm_role = role, pm_created_at = now\<rparr>]\<rparr>))"

definition list_projects_for_user :: "web_db \<Rightarrow> uuid \<Rightarrow> project list" where
  "list_projects_for_user d u =
     newest_by pj_created_at
       (filter (\<lambda>p. pj_owner_id p = u \<or> get_project_member_role d (pj_id p) u \<noteq> None) (w_projects d))"

definition list_all_projects :: "web_db \<Rightarrow> project list" where
  "list_all_projects d = newest_by pj_created_at (w_projects d)"

definition map_project :: "uuid \<Rightarrow> (project \<Rightarrow> project) \<Rightarrow> web_db \<Rightarrow> db_error + project \<times> web_db" where
  "map_project p f d =
     (let d' = d\<lparr>w_projects := map (\<lambda>r. if pj_id r = p then f r else r) (w_projects d)\<rparr>
      in case get_project d' p of Some r \<Rightarrow> Inr (r, d') | None \<Rightarrow> Inl RowNotFound)"

definition rename_project_row :: "uuid \<Rightarrow> string \<Rightarrow> web_db \<Rightarrow> db_error + project \<times> web_db" where
  "rename_project_row p name d = map_project p (\<lambda>r. r\<lparr>pj_name := name\<rparr>) d"

definition toggle_project_favorite_row :: "uuid \<Rightarrow> web_db \<Rightarrow> db_error + project \<times> web_db" where
  "toggle_project_favorite_row p d = map_project p (\<lambda>r. r\<lparr>pj_is_favorite := \<not> pj_is_favorite r\<rparr>) d"

definition delete_project_row :: "(uuid \<Rightarrow> string) \<Rightarrow> int \<Rightarrow> uuid \<Rightarrow> web_db \<Rightarrow> web_db" where
  "delete_project_row U now p d =
     (let d' = fold (delete_board_by_id U now) (map bo_id (filter (\<lambda>r. bo_project_id r = p) (w_boards d))) d
      in d'\<lparr>w_projects := filter (\<lambda>r. pj_id r \<noteq> p) (w_projects d'),
           w_project_members := filter (\<lambda>r. pm_project_id r \<noteq> p) (w_project_members d')\<rparr>)"

record project_member =
  pr_project_id :: uuid
  pr_user_id :: uuid
  pr_role :: string
  pr_created_at :: int
  pr_username :: string
  pr_display_name :: string
  pr_profile_picture_url :: "string option"

definition list_project_members :: "web_db \<Rightarrow> uuid \<Rightarrow> project_member list" where
  "list_project_members d p =
     (case get_project d p of
        None \<Rightarrow> []
      | Some pj \<Rightarrow>
          (let owner = (0 :: int, pj_owner_id pj, ''owner'', pj_created_at pj);
               others = map (\<lambda>m. (1, pm_user_id m, pm_role m, pm_created_at m))
                 (filter (\<lambda>m. pm_project_id m = p \<and> pm_user_id m \<noteq> pj_owner_id pj) (w_project_members d));
               rows = List.map_filter (\<lambda>(order, u, role, created). map_option (\<lambda>us. (order,
                   \<lparr>pr_project_id = p, pr_user_id = u, pr_role = role, pr_created_at = created,
                    pr_username = us_username us, pr_display_name = display_name us,
                    pr_profile_picture_url = us_profile_picture_url us\<rparr>)) (find_user d u)) (owner # others)
           in map snd (sort_key (\<lambda>(order, r). (order, pr_created_at r, pr_username r)) rows)))"

subsection \<open>Invitation links and embed tokens\<close>

definition unexpired :: "int \<Rightarrow> int option \<Rightarrow> bool" where
  "unexpired now expires_at = (case expires_at of None \<Rightarrow> True | Some t \<Rightarrow> t > now)"

definition create_invite_link ::
  "uuid \<Rightarrow> int \<Rightarrow> uuid \<Rightarrow> string \<Rightarrow> string \<Rightarrow> uuid \<Rightarrow> int option \<Rightarrow> web_db \<Rightarrow> db_error + board_invite_link \<times> web_db" where
  "create_invite_link new_id now b token role created_by expires_at d =
     (if get_board d b = None \<or> \<not> user_exists d created_by then Inl (DbProtocol ''foreign key'')
      else if token \<in> il_token ` set (w_invites d) then Inl (UniqueViolation ''board_invite_links_token'')
      else (let r = \<lparr>il_id = new_id, il_board_id = b, il_token = token, il_role = role, il_created_by = created_by,
              il_expires_at = expires_at, il_created_at = now\<rparr>
            in Inr (r, d\<lparr>w_invites := w_invites d @ [r]\<rparr>)))"

definition list_invite_links :: "int \<Rightarrow> web_db \<Rightarrow> uuid \<Rightarrow> board_invite_link list" where
  "list_invite_links now d b =
     newest_by il_created_at (filter (\<lambda>r. il_board_id r = b \<and> unexpired now (il_expires_at r)) (w_invites d))"

definition get_invite_link_by_token :: "web_db \<Rightarrow> string \<Rightarrow> board_invite_link option" where
  "get_invite_link_by_token d token = find (\<lambda>r. il_token r = token) (w_invites d)"

definition delete_invite_link :: "uuid \<Rightarrow> uuid \<Rightarrow> web_db \<Rightarrow> web_db" where
  "delete_invite_link link b d = d\<lparr>w_invites := filter (\<lambda>r. \<not> (il_id r = link \<and> il_board_id r = b)) (w_invites d)\<rparr>"

record invite_link_info =
  ii_board_id :: uuid
  ii_board_title :: string
  ii_role :: string
  ii_creator_username :: string
  ii_expires_at :: "int option"

definition get_invite_link_info :: "web_db \<Rightarrow> string \<Rightarrow> invite_link_info option" where
  "get_invite_link_info d token =
     Option.bind (get_invite_link_by_token d token) (\<lambda>l.
     Option.bind (get_board d (il_board_id l)) (\<lambda>b.
     Option.bind (find_user d (il_created_by l)) (\<lambda>u.
       Some \<lparr>ii_board_id = il_board_id l, ii_board_title = bo_title b, ii_role = il_role l,
         ii_creator_username = us_username u, ii_expires_at = il_expires_at l\<rparr>)))"

definition create_embed_token :: "int \<Rightarrow> uuid \<Rightarrow> string \<Rightarrow> uuid \<Rightarrow> int option \<Rightarrow> web_db \<Rightarrow> db_error + web_db" where
  "create_embed_token now b token created_by expires_at d =
     (if get_board d b = None \<or> \<not> user_exists d created_by then Inl (DbProtocol ''foreign key'')
      else if token \<in> et_token ` set (w_embeds d) then Inl (UniqueViolation ''board_embed_tokens_token'')
      else Inr (d\<lparr>w_embeds := w_embeds d @ [\<lparr>et_board_id = b, et_token = token, et_created_by = created_by,
             et_created_at = now, et_expires_at = expires_at\<rparr>]\<rparr>))"

definition get_valid_embed_token :: "int \<Rightarrow> web_db \<Rightarrow> string \<Rightarrow> uuid option" where
  "get_valid_embed_token now d token =
     map_option et_board_id (find (\<lambda>r. et_token r = token \<and> unexpired now (et_expires_at r)) (w_embeds d))"

definition latest_embed_token :: "int \<Rightarrow> web_db \<Rightarrow> uuid \<Rightarrow> string option" where
  "latest_embed_token now d b =
     (case newest_by et_created_at (filter (\<lambda>r. et_board_id r = b \<and> unexpired now (et_expires_at r)) (w_embeds d)) of
        [] \<Rightarrow> None | r # _ \<Rightarrow> Some (et_token r))"

definition delete_embed_tokens :: "uuid \<Rightarrow> web_db \<Rightarrow> web_db" where
  "delete_embed_tokens b d = d\<lparr>w_embeds := filter (\<lambda>r. et_board_id r \<noteq> b) (w_embeds d)\<rparr>"

subsection \<open>Quotas\<close>

datatype quota_error =
    TierNotFound
  | BoardLimit int int
  | UploadTooLarge int int
  | StorageLimit int int int
  | QuotaDatabase db_error

record quota_usage =
  qu_owned_boards :: int
  qu_storage_bytes :: int

definition list_tiers :: "web_db \<Rightarrow> tier_quota list" where
  "list_tiers d = sort_key tq_level (w_tiers d)"

definition tier_for_user :: "web_db \<Rightarrow> uuid \<Rightarrow> quota_error + tier_quota" where
  "tier_for_user d u =
     ok_orE TierNotFound (Option.bind (find_user d u) (\<lambda>r. find (\<lambda>t. tq_level t = us_tier_level r) (w_tiers d)))"

definition owner_boards :: "web_db \<Rightarrow> uuid \<Rightarrow> board list" where
  "owner_boards d owner = filter (\<lambda>r. bo_owner_id r = owner) (w_boards d)"

definition usage_for_owner :: "web_db \<Rightarrow> uuid \<Rightarrow> quota_usage" where
  "usage_for_owner d owner =
     \<lparr>qu_owned_boards = int (length (owner_boards d owner)),
      qu_storage_bytes =
        sum_list (map bf_size_bytes (filter (\<lambda>f. bf_board_id f \<in> bo_id ` set (owner_boards d owner)) (w_files d)))
        + sum_list (map bo_imported_storage_bytes (owner_boards d owner))\<rparr>"

definition evaluate_board :: "tier_quota \<Rightarrow> quota_usage \<Rightarrow> quota_error + unit" where
  "evaluate_board tier usage =
     (case tq_max_owned_boards tier of
        None \<Rightarrow> Inr ()
      | Some limit \<Rightarrow>
          (if qu_owned_boards usage \<ge> limit then Inl (BoardLimit (qu_owned_boards usage) limit) else Inr ()))"

definition evaluate_file_size :: "tier_quota \<Rightarrow> int \<Rightarrow> quota_error + unit" where
  "evaluate_file_size tier size_bytes =
     (if size_bytes < 0 \<or> size_bytes > tq_max_upload_bytes tier
      then Inl (UploadTooLarge size_bytes (tq_max_upload_bytes tier)) else Inr ())"

text \<open>\<open>i64::saturating_add\<close>\<close>

definition sat_add :: "int \<Rightarrow> int \<Rightarrow> int" where
  "sat_add a b = max (- (2 ^ 63)) (min (2 ^ 63 - 1) (a + b))"

definition evaluate_storage :: "tier_quota \<Rightarrow> quota_usage \<Rightarrow> int \<Rightarrow> quota_error + unit" where
  "evaluate_storage tier usage size_bytes =
     (if sat_add (qu_storage_bytes usage) size_bytes > tq_max_storage_bytes tier
      then Inl (StorageLimit (qu_storage_bytes usage) size_bytes (tq_max_storage_bytes tier)) else Inr ())"

definition evaluate_upload :: "tier_quota \<Rightarrow> quota_usage \<Rightarrow> int \<Rightarrow> quota_error + unit" where
  "evaluate_upload tier usage size_bytes =
     bindE (evaluate_file_size tier size_bytes) (\<lambda>_. evaluate_storage tier usage size_bytes)"

definition ensure_board_available :: "web_db \<Rightarrow> uuid \<Rightarrow> quota_error + tier_quota" where
  "ensure_board_available d owner =
     bindE (tier_for_user d owner) (\<lambda>tier.
     bindE (evaluate_board tier (usage_for_owner d owner)) (\<lambda>_. Inr tier))"

definition ensure_upload_available :: "web_db \<Rightarrow> uuid \<Rightarrow> int \<Rightarrow> quota_error + tier_quota \<times> quota_usage" where
  "ensure_upload_available d owner size_bytes =
     bindE (tier_for_user d owner) (\<lambda>tier.
     bindE (evaluate_upload tier (usage_for_owner d owner) size_bytes) (\<lambda>_. Inr (tier, usage_for_owner d owner)))"

definition ensure_file_size_available :: "web_db \<Rightarrow> uuid \<Rightarrow> int \<Rightarrow> quota_error + tier_quota" where
  "ensure_file_size_available d owner size_bytes =
     bindE (tier_for_user d owner) (\<lambda>tier. bindE (evaluate_file_size tier size_bytes) (\<lambda>_. Inr tier))"

definition ensure_storage_available :: "web_db \<Rightarrow> uuid \<Rightarrow> int \<Rightarrow> quota_error + tier_quota \<times> quota_usage" where
  "ensure_storage_available d owner size_bytes =
     bindE (tier_for_user d owner) (\<lambda>tier.
     bindE (evaluate_storage tier (usage_for_owner d owner) size_bytes) (\<lambda>_. Inr (tier, usage_for_owner d owner)))"

definition record_imported_storage :: "uuid \<Rightarrow> uuid \<Rightarrow> int \<Rightarrow> web_db \<Rightarrow> quota_error + web_db" where
  "record_imported_storage owner b size_bytes d =
     bindE (ensure_storage_available d owner size_bytes) (\<lambda>_.
     if size_bytes < 0 then Inl (QuotaDatabase (DbProtocol ''check''))
     else if (\<exists>r \<in> set (w_boards d). bo_id r = b \<and> bo_owner_id r = owner)
     then Inr (d\<lparr>w_boards := map (\<lambda>r. if bo_id r = b \<and> bo_owner_id r = owner
            then r\<lparr>bo_imported_storage_bytes := size_bytes\<rparr> else r) (w_boards d)\<rparr>)
     else Inl (QuotaDatabase RowNotFound))"

record board_create_body =
  cb_project_id :: uuid
  cb_title :: string
  cb_visibility :: string
  cb_grid_type :: "string option"
  cb_background_color :: "string option"
  cb_link_access :: "string option"

definition non_empty_or :: "string \<Rightarrow> string option \<Rightarrow> string" where
  "non_empty_or dflt v = (case v of Some (c # s) \<Rightarrow> c # s | _ \<Rightarrow> dflt)"

definition create_board_row ::
  "uuid \<Rightarrow> int \<Rightarrow> uuid \<Rightarrow> board_create_body \<Rightarrow> web_db \<Rightarrow> quota_error + board \<times> web_db" where
  "create_board_row new_id now owner body d =
     bindE (ensure_board_available d owner) (\<lambda>_.
     if get_project d (cb_project_id body) = None then Inl (QuotaDatabase (DbProtocol ''foreign key''))
     else (let r = \<lparr>bo_id = new_id, bo_project_id = cb_project_id body, bo_owner_id = owner,
             bo_title = cb_title body, bo_visibility = cb_visibility body,
             bo_link_access = non_empty_or ''none'' (cb_link_access body),
             bo_grid_type = non_empty_or ''lines'' (cb_grid_type body),
             bo_background_color = non_empty_or ''#f5f5f5'' (cb_background_color body),
             bo_privacy_mode = False, bo_sticker_authors = False, bo_is_favorite = False, bo_created_at = now,
             bo_preview_object_key = None, bo_imported_storage_bytes = 0\<rparr>
           in Inr (r, d\<lparr>w_boards := w_boards d @ [r]\<rparr>)))"

subsection \<open>Board files\<close>

definition insert_board_file ::
  "uuid \<Rightarrow> int \<Rightarrow> uuid \<Rightarrow> board_file \<Rightarrow> web_db \<Rightarrow> quota_error + board_file \<times> web_db" where
  "insert_board_file new_id now owner payload d =
     bindE (ensure_upload_available d owner (bf_size_bytes payload)) (\<lambda>_.
     if get_board d (bf_board_id payload) = None then Inl (QuotaDatabase (DbProtocol ''foreign key''))
     else (let f = payload\<lparr>bf_id := new_id, bf_created_at := now\<rparr> in Inr (f, d\<lparr>w_files := w_files d @ [f]\<rparr>)))"

definition delete_board_file :: "uuid \<Rightarrow> web_db \<Rightarrow> web_db" where
  "delete_board_file f d = d\<lparr>w_files := filter (\<lambda>r. bf_id r \<noteq> f) (w_files d)\<rparr>"

definition list_board_files_by_board_id :: "web_db \<Rightarrow> uuid \<Rightarrow> board_file list" where
  "list_board_files_by_board_id d b = filter (\<lambda>r. bf_board_id r = b) (w_files d)"

subsection \<open>The deletion outbox\<close>

definition list_pending :: "int \<Rightarrow> nat \<Rightarrow> web_db \<Rightarrow> storage_deletion_job list" where
  "list_pending now limit d =
     take limit (sort_key dj_updated_at (filter (\<lambda>j. dj_cleanup_after j \<le> now) (w_jobs d)))"

definition get_job_by_board_id :: "web_db \<Rightarrow> uuid \<Rightarrow> storage_deletion_job option" where
  "get_job_by_board_id d b = find (\<lambda>j. dj_board_id j = b) (w_jobs d)"

definition complete_job :: "uuid \<Rightarrow> string \<Rightarrow> web_db \<Rightarrow> web_db" where
  "complete_job b prefix d =
     d\<lparr>w_jobs := filter (\<lambda>j. \<not> (dj_board_id j = b \<and> dj_object_prefix j = prefix)) (w_jobs d)\<rparr>"

definition record_failure :: "int \<Rightarrow> uuid \<Rightarrow> string \<Rightarrow> string \<Rightarrow> web_db \<Rightarrow> web_db" where
  "record_failure now b prefix error d =
     d\<lparr>w_jobs := map (\<lambda>j. if dj_board_id j = b \<and> dj_object_prefix j = prefix
         then j\<lparr>dj_attempts := dj_attempts j + 1, dj_last_error := Some error, dj_updated_at := now\<rparr> else j) (w_jobs d)\<rparr>"

subsection \<open>Reading back what was written\<close>

lemma find_map_same: "(\<And>r. P (f r) = P r) \<Longrightarrow> find P (map f xs) = map_option f (find P xs)"
  by (induction xs) auto

lemma find_snoc: "find P (xs @ [x]) = (case find P xs of Some y \<Rightarrow> Some y | None \<Rightarrow> if P x then Some x else None)"
  by (induction xs) auto

lemma find_filter_kept: "(\<And>r. P r \<Longrightarrow> Q r) \<Longrightarrow> find P (filter Q xs) = find P xs"
  by (induction xs) auto

lemma find_filter_none: "(\<And>r. P r \<Longrightarrow> \<not> Q r) \<Longrightarrow> find P (filter Q xs) = None"
  by (auto simp: find_None_iff)

lemma member_role_add:
  assumes "add_board_member now b u role d = Inr d'"
  shows "get_member_role d' b' u' = (if b' = b \<and> u' = u then Some role else get_member_role d b' u')"
proof (cases "get_member_role d b u")
  case None
  then show ?thesis
    using assms by (auto simp: add_board_member_def get_member_role_def find_snoc split: if_splits option.splits)
next
  case (Some r0)
  let ?f = "\<lambda>r. if bm_board_id r = b \<and> bm_user_id r = u then r\<lparr>bm_role := role\<rparr> else r"
  have "d' = d\<lparr>w_members := map ?f (w_members d)\<rparr>"
    using assms Some by (auto simp: add_board_member_def split: if_splits)
  moreover have "find (\<lambda>r. bm_board_id r = b' \<and> bm_user_id r = u') (map ?f (w_members d))
      = map_option ?f (find (\<lambda>r. bm_board_id r = b' \<and> bm_user_id r = u') (w_members d))"
    by (rule find_map_same) auto
  ultimately have f: "get_member_role d' b' u'
      = map_option (bm_role \<circ> ?f) (find (\<lambda>r. bm_board_id r = b' \<and> bm_user_id r = u') (w_members d))"
    by (simp add: get_member_role_def option.map_comp)
  show ?thesis
  proof (cases "find (\<lambda>r. bm_board_id r = b' \<and> bm_user_id r = u') (w_members d)")
    case None
    then show ?thesis using f Some by (auto simp: get_member_role_def)
  next
    case (Some r)
    then have "bm_board_id r = b' \<and> bm_user_id r = u'" by (auto simp: find_Some_iff)
    then show ?thesis using f Some by (auto simp: get_member_role_def)
  qed
qed

lemma member_role_remove:
  "get_member_role (remove_board_member b u d) b' u' = (if b' = b \<and> u' = u then None else get_member_role d b' u')"
proof (cases "b' = b \<and> u' = u")
  case True
  then show ?thesis by (simp add: get_member_role_def remove_board_member_def find_filter_none)
next
  case False
  then have "find (\<lambda>r. bm_board_id r = b' \<and> bm_user_id r = u')
      (filter (\<lambda>r. \<not> (bm_board_id r = b \<and> bm_user_id r = u)) (w_members d))
    = find (\<lambda>r. bm_board_id r = b' \<and> bm_user_id r = u') (w_members d)"
    by (intro find_filter_kept) auto
  then show ?thesis using False by (auto simp: get_member_role_def remove_board_member_def)
qed

lemma add_member_frame:
  "add_board_member now b u role d = Inr d' \<Longrightarrow> w_boards d' = w_boards d \<and> w_invites d' = w_invites d
     \<and> w_embeds d' = w_embeds d"
  by (auto simp: add_board_member_def split: if_splits)

lemma get_board_map_other: "b' \<noteq> b \<Longrightarrow> (\<And>r. bo_id (f r) = bo_id r) \<Longrightarrow> get_board (map_board b f d) b' = get_board d b'"
proof -
  assume b: "b' \<noteq> b" and f: "\<And>r. bo_id (f r) = bo_id r"
  have "find (\<lambda>r. bo_id r = b') (map (\<lambda>r. if bo_id r = b then f r else r) (w_boards d))
      = map_option (\<lambda>r. if bo_id r = b then f r else r) (find (\<lambda>r. bo_id r = b') (w_boards d))"
    by (rule find_map_same) (simp add: f)
  moreover have "bo_id r \<noteq> b" if "find (\<lambda>r. bo_id r = b') (w_boards d) = Some r" for r
    using that b by (auto simp: find_Some_iff)
  ultimately show ?thesis by (cases "find (\<lambda>r. bo_id r = b') (w_boards d)") (auto simp: get_board_def map_board_def)
qed

end
