(* ===== verification/Access.thy ===== *)
theory Access
  imports Web_Db
begin

text \<open>
  Who may see and edit a board: the access decisions of \<open>src/src/handlers/boards.rs\<close>, \<open>events.rs\<close>,
  \<open>realtime.rs\<close> and \<open>board_embed.rs\<close>, as functions of the tables.  A database read may fail: \<open>up q\<close> says
  whether the read \<open>q\<close> of the request succeeds.  \<open>P\<close> is \<open>Uuid::parse_str\<close>.
\<close>

subsection \<open>Errors and reads\<close>

type_synonym api_error = "nat \<times> json"

definition api_err :: "nat \<Rightarrow> string \<Rightarrow> api_error" where
  "api_err status message = (status, JObj [(''error'', JStr message)])"

text \<open>An early return under a condition, and a handler that leaves the tables alone when it fails.\<close>

definition deny :: "bool \<Rightarrow> 'e \<Rightarrow> 'e + unit" where
  "deny c e = (if c then Inl e else Inr ())"

lemma deny_simps [simp]: "deny True e = Inl e" "deny False e = Inr ()"
  by (simp_all add: deny_def)

lemma deny_Inr_iff [result_simps]: "deny c e = Inr u \<longleftrightarrow> \<not> c"
  by (simp add: deny_def)

definition settle :: "'s \<Rightarrow> 'e + 'a \<times> 's \<Rightarrow> ('e + 'a) \<times> 's" where
  "settle d r = (case r of Inl e \<Rightarrow> (Inl e, d) | Inr (x, d') \<Rightarrow> (Inr x, d'))"

lemma settle_simps [simp]: "settle d (Inl e) = (Inl e, d)" "settle d (Inr (x, d')) = (Inr x, d')"
  by (simp_all add: settle_def)

lemma settle_Inr_iff [result_simps]: "settle d r = (Inr x, d') \<longleftrightarrow> r = Inr (x, d')"
  by (auto simp: settle_def split: sum.splits)

lemma settle_error: "fst (settle d r) = Inl e \<Longrightarrow> snd (settle d r) = d"
  by (cases r) auto

lemma snd_settleI: "Q d \<Longrightarrow> (\<And>x d'. r = Inr (x, d') \<Longrightarrow> Q d') \<Longrightarrow> Q (snd (settle d r))"
  by (cases r) auto

datatype query =
    QBoard | QBoardAgain | QRole | QTargetRole | QEmbed | QProject | QProjectRole | QList | QWrite
  | QSeed | QMemberWrite | QTier | QUsage | QInvite

type_synonym db_up = "query \<Rightarrow> bool"

definition parse_board_id :: "(string \<Rightarrow> uuid option) \<Rightarrow> string \<Rightarrow> api_error + uuid" where
  "parse_board_id P s = ok_orE (api_err 400 ''Invalid board id.'') (P s)"

definition fetch_board_by_id :: "db_up \<Rightarrow> web_db \<Rightarrow> uuid \<Rightarrow> api_error + board" where
  "fetch_board_by_id up d b =
     (if \<not> up QBoard then Inl (api_err 500 ''Could not fetch board.'')
      else ok_orE (api_err 404 ''Board not found.'') (get_board d b))"

text \<open>\<open>get_member_role(..).await.unwrap_or(None)\<close>\<close>

definition role_or_none :: "db_up \<Rightarrow> query \<Rightarrow> web_db \<Rightarrow> uuid \<Rightarrow> uuid \<Rightarrow> string option" where
  "role_or_none up q d b u = (if up q then get_member_role d b u else None)"

definition is_admin :: "app_user \<Rightarrow> bool" where
  "is_admin u \<longleftrightarrow> us_role_level u \<ge> 2"

subsection \<open>Embed tokens\<close>

text \<open>The argument is the header's value when it is visible ASCII.\<close>

definition embed_token_from_headers :: "string option \<Rightarrow> string option" where
  "embed_token_from_headers h =
     (case h of None \<Rightarrow> None | Some v \<Rightarrow> (let s = trim v in if s = [] then None else Some s))"

definition embed_grants_view :: "db_up \<Rightarrow> int \<Rightarrow> web_db \<Rightarrow> uuid \<Rightarrow> string option \<Rightarrow> bool" where
  "embed_grants_view up now d b token =
     (case token of None \<Rightarrow> False | Some t \<Rightarrow> up QEmbed \<and> get_valid_embed_token now d t = Some b)"

subsection \<open>Roles\<close>

definition link_role :: "board \<Rightarrow> string" where
  "link_role b = (if bo_link_access b \<noteq> ''none'' then bo_link_access b else ''viewer'')"

definition user_role :: "db_up \<Rightarrow> web_db \<Rightarrow> board \<Rightarrow> app_user \<Rightarrow> string option" where
  "user_role up d b u =
     (if is_admin u then Some ''owner''
      else if bo_owner_id b = us_id u then Some ''owner''
      else role_or_none up QRole d (bo_id b) (us_id u))"

text \<open>\<open>GET /boards/{id}\<close>: the board with the caller's effective role.\<close>

definition get_board_by_id_handler ::
  "(string \<Rightarrow> uuid option) \<Rightarrow> db_up \<Rightarrow> int \<Rightarrow> web_db \<Rightarrow> string \<Rightarrow> string option \<Rightarrow> app_user option \<Rightarrow>
   api_error + board \<times> string" where
  "get_board_by_id_handler P up now d ident header user =
     bindE (parse_board_id P ident) (\<lambda>board_id.
     bindE (fetch_board_by_id up d board_id) (\<lambda>b.
     if embed_grants_view up now d board_id (embed_token_from_headers header) then Inr (b, ''viewer'')
     else
       (case user of
          Some u \<Rightarrow>
            (case user_role up d b u of
               Some role \<Rightarrow> Inr (b, role)
             | None \<Rightarrow>
                 (if bo_link_access b = ''none'' \<and> bo_visibility b \<noteq> ''public''
                  then Inl (api_err 404 ''Board not found.'') else Inr (b, link_role b)))
        | None \<Rightarrow>
            (if bo_visibility b \<noteq> ''public'' \<and> bo_link_access b = ''none''
             then Inl (api_err 401 ''Authentication required.'') else Inr (b, link_role b)))))"

text \<open>The upgrade request of the board socket; \<open>fresh\<close> is the random id of an anonymous session.\<close>

record ws_board_query =
  wq_session_id :: "string option"
  wq_display_name :: "string option"
  wq_embed_token :: "string option"
  wq_presence_per_session :: "bool option"
  wq_batch :: "string option"
  wq_yrs_v1 :: "string option"
  wq_yrs_binary :: "string option"
  wq_yrs_authority :: "string option"

definition anon_id :: "(string \<Rightarrow> uuid option) \<Rightarrow> uuid \<Rightarrow> string option \<Rightarrow> uuid" where
  "anon_id P fresh session = (case Option.bind session P of Some u \<Rightarrow> u | None \<Rightarrow> fresh)"

definition ws_identity ::
  "(string \<Rightarrow> uuid option) \<Rightarrow> db_up \<Rightarrow> int \<Rightarrow> web_db \<Rightarrow> uuid \<Rightarrow> string \<Rightarrow> ws_board_query \<Rightarrow> app_user option \<Rightarrow>
   api_error + uuid \<times> string" where
  "ws_identity P up now d fresh ident query user =
     bindE (parse_board_id P ident) (\<lambda>board_id.
     bindE (fetch_board_by_id up d board_id) (\<lambda>b.
     if embed_grants_view up now d board_id (wq_embed_token query)
     then Inr (anon_id P fresh (wq_session_id query), ''viewer'')
     else
       (case user of
          Some u \<Rightarrow>
            (let member_role = user_role up d b u
             in if member_role = None \<and> bo_link_access b = ''none'' \<and> bo_visibility b \<noteq> ''public''
                then Inl (api_err 403 ''Access denied.'')
                else Inr (us_id u, (case member_role of Some role \<Rightarrow> role | None \<Rightarrow> link_role b)))
        | None \<Rightarrow>
            (if bo_visibility b \<noteq> ''public'' \<and> bo_link_access b = ''none''
             then Inl (api_err 401 ''Authentication required.'')
             else Inr (anon_id P fresh (wq_session_id query), link_role b)))))"

subsection \<open>Viewing\<close>

text \<open>The access checks of \<open>GET /boards/{id}/state\<close>, before the canonical state is read.\<close>

definition board_state_access ::
  "(string \<Rightarrow> uuid option) \<Rightarrow> db_up \<Rightarrow> int \<Rightarrow> web_db \<Rightarrow> string \<Rightarrow> string option \<Rightarrow> app_user option \<Rightarrow> api_error + uuid" where
  "board_state_access P up now d ident header user =
     bindE (parse_board_id P ident) (\<lambda>board_id.
     bindE (fetch_board_by_id up d board_id) (\<lambda>b.
     if embed_grants_view up now d board_id (embed_token_from_headers header) then Inr board_id
     else
       (case user of
          Some u \<Rightarrow>
            (if bo_link_access b = ''none'' \<and> bo_visibility b \<noteq> ''public'' \<and> \<not> is_admin u
                \<and> role_or_none up QRole d board_id (us_id u) = None
             then Inl (api_err 404 ''Board not found.'') else Inr board_id)
        | None \<Rightarrow>
            (if bo_visibility b \<noteq> ''public'' \<and> bo_link_access b = ''none''
             then Inl (api_err 401 ''Authentication required.'') else Inr board_id))))"

text \<open>The check of the event, checkpoint and update endpoints; the embed token comes before the board.\<close>

definition ensure_board_access ::
  "db_up \<Rightarrow> int \<Rightarrow> web_db \<Rightarrow> uuid \<Rightarrow> app_user option \<Rightarrow> string option \<Rightarrow> api_error + unit" where
  "ensure_board_access up now d board_id user embed_token =
     (if embed_grants_view up now d board_id embed_token then Inr ()
      else
        bindE (fetch_board_by_id up d board_id) (\<lambda>b.
        if bo_visibility b = ''public'' \<or> bo_link_access b \<noteq> ''none'' then Inr ()
        else
          (case user of
             None \<Rightarrow> Inl (api_err 401 ''Authentication required.'')
           | Some u \<Rightarrow>
               (if is_admin u then Inr ()
                else if role_or_none up QRole d board_id (us_id u) = None
                then Inl (api_err 403 ''Access denied.'') else Inr ()))))"

text \<open>The check of \<open>GET /boards/{id}/sessions\<close>: only link access opens it to everybody.\<close>

definition board_sessions_access ::
  "(string \<Rightarrow> uuid option) \<Rightarrow> db_up \<Rightarrow> web_db \<Rightarrow> string \<Rightarrow> app_user option \<Rightarrow> api_error + uuid" where
  "board_sessions_access P up d ident user =
     bindE (parse_board_id P ident) (\<lambda>board_id.
     bindE (fetch_board_by_id up d board_id) (\<lambda>b.
     if bo_link_access b \<noteq> ''none'' then Inr board_id
     else
       (case user of
          None \<Rightarrow> Inl (api_err 401 ''Authentication required.'')
        | Some u \<Rightarrow>
            (if \<not> is_admin u \<and> role_or_none up QRole d board_id (us_id u) = None
             then Inl (api_err 403 ''Access denied.'') else Inr board_id))))"

text \<open>\<open>presign\<close> is the S3 signer.\<close>

definition presign_board_file ::
  "(string \<Rightarrow> uuid option) \<Rightarrow> (uuid \<Rightarrow> string) \<Rightarrow> (string \<Rightarrow> string option) \<Rightarrow> db_up \<Rightarrow> int \<Rightarrow> web_db \<Rightarrow>
   string \<Rightarrow> string option \<Rightarrow> app_user option \<Rightarrow> string option \<Rightarrow> api_error + string" where
  "presign_board_file P U presign up now d ident header user key_param =
     bindE (parse_board_id P ident) (\<lambda>board_id.
     bindE (case key_param of
              Some k \<Rightarrow> (if trim k \<noteq> [] then Inr k else Inl (api_err 400 ''Missing key parameter.''))
            | None \<Rightarrow> Inl (api_err 400 ''Missing key parameter.'')) (\<lambda>key.
     if \<not> starts_with key (''boards/'' @ U board_id @ ''/'')
     then Inl (api_err 403 ''Key does not belong to this board.'')
     else
       bindE (fetch_board_by_id up d board_id) (\<lambda>b.
       bindE (if \<not> embed_grants_view up now d board_id (embed_token_from_headers header)
                 \<and> bo_link_access b = ''none'' \<and> bo_visibility b \<noteq> ''public''
              then (case user of
                      None \<Rightarrow> Inl (api_err 401 ''Authentication required.'')
                    | Some u \<Rightarrow>
                        (if is_admin u \<or> role_or_none up QRole d board_id (us_id u) \<noteq> None \<or> bo_owner_id b = us_id u
                         then Inr () else Inl (api_err 403 ''Access denied.'')))
              else Inr ()) (\<lambda>_.
       ok_orE (api_err 500 ''Failed to generate presigned URL.'') (presign key)))))"

subsection \<open>Editing\<close>

definition ensure_board_edit_access :: "db_up \<Rightarrow> web_db \<Rightarrow> uuid \<Rightarrow> app_user \<Rightarrow> api_error + board" where
  "ensure_board_edit_access up d board_id u =
     bindE (fetch_board_by_id up d board_id) (\<lambda>b.
     if is_admin u then Inr b
     else
       (let role = role_or_none up QRole d board_id (us_id u)
        in if role \<noteq> Some ''owner'' \<and> role \<noteq> Some ''editor'' \<and> bo_owner_id b \<noteq> us_id u
           then Inl (api_err 403 ''Access denied.'') else Inr b))"

subsection \<open>What the checks agree on\<close>

lemma user_role_owner: "is_admin u \<or> bo_owner_id b = us_id u \<Longrightarrow> user_role up d b u = Some ''owner''"
  by (auto simp: user_role_def)

text \<open>C20: The socket and the REST view of a board agree on every caller: under the same tables, reads and token, one
  refuses exactly when the other does, and both give the same effective role, so what the interface shows as
  editable is what the socket accepts.\<close>

theorem socket_matches_rest:
  assumes "embed_token_from_headers header = wq_embed_token query"
  shows "map_sum (\<lambda>_. ()) snd (ws_identity P up now d fresh ident query user)
       = map_sum (\<lambda>_. ()) snd (get_board_by_id_handler P up now d ident header user)"
proof (cases "parse_board_id P ident")
  case (Inr board_id)
  then show ?thesis
  proof (cases "fetch_board_by_id up d board_id")
    case (Inr b)
    then show ?thesis
      using assms \<open>parse_board_id P ident = Inr board_id\<close>
      by (auto simp: ws_identity_def get_board_by_id_handler_def Let_def split: option.splits)
  qed (simp add: ws_identity_def get_board_by_id_handler_def)
qed (simp add: ws_identity_def get_board_by_id_handler_def)

lemma fetch_board_mono:
  "\<forall>q. up q \<longrightarrow> up' q \<Longrightarrow> fetch_board_by_id up d b = Inr r \<Longrightarrow> fetch_board_by_id up' d b = Inr r"
  by (auto simp: fetch_board_by_id_def split: if_splits)

lemma role_or_none_mono:
  "\<forall>q. up q \<longrightarrow> up' q \<Longrightarrow> role_or_none up q d b u = Some r \<Longrightarrow> role_or_none up' q d b u = Some r"
  by (auto simp: role_or_none_def split: if_splits)

lemma embed_mono:
  "\<forall>q. up q \<longrightarrow> up' q \<Longrightarrow> embed_grants_view up now d b t \<Longrightarrow> embed_grants_view up' now d b t"
  by (auto simp: embed_grants_view_def split: option.splits)

text \<open>C19: Five checks fail closed: what \<open>GET /boards/{id}/state\<close>, the event and checkpoint
  endpoints, the list of sessions, the file links and the edit check of the uploads let pass while some of their
  database reads fail, they would pass with all of them answered, so an outage never opens these to somebody the
  tables exclude. The claim is about these five only: \<open>GET /boards/{id}\<close> and the socket give a viewer the
  role of the link when his role cannot be read (\<open>unread_role_widens\<close>), and the member handlers skip the
  rule of the creator (\<open>target_role_fails_open\<close>).\<close>

theorem access_fails_closed:
  assumes mono: "\<forall>q. up q \<longrightarrow> up' q"
  shows "(board_state_access P up now d ident header user = Inr x \<longrightarrow> board_state_access P up' now d ident header user = Inr x)
    \<and> (ensure_board_access up now d board_id user token = Inr () \<longrightarrow> ensure_board_access up' now d board_id user token = Inr ())
    \<and> (board_sessions_access P up d ident user = Inr x \<longrightarrow> board_sessions_access P up' d ident user = Inr x)
    \<and> (presign_board_file P U presign up now d ident header user key = Inr url \<longrightarrow>
         presign_board_file P U presign up' now d ident header user key = Inr url)
    \<and> (ensure_board_edit_access up d board_id editor = Inr b \<longrightarrow> ensure_board_edit_access up' d board_id editor = Inr b)"
proof -
  note f = fetch_board_mono [of up up', OF mono]
  note e = embed_mono [of up up', OF mono]
  note r = role_or_none_mono [of up up', OF mono]
  have state: "board_state_access P up' now d ident header user = Inr x" if got: "board_state_access P up now d ident header user = Inr x"
  proof -
    obtain i b where i: "parse_board_id P ident = Inr i" "fetch_board_by_id up d i = Inr b"
      using got by (auto simp: board_state_access_def result_simps)
    show ?thesis
      using got i f [OF i(2)] e [of now d i "embed_token_from_headers header"] r [of QRole d i]
      by (cases user; cases "embed_grants_view up' now d i (embed_token_from_headers header)")
         (auto simp: board_state_access_def split: if_splits)
  qed
  have events: "ensure_board_access up' now d board_id user token = Inr ()" if got: "ensure_board_access up now d board_id user token = Inr ()"
  proof (cases "embed_grants_view up now d board_id token")
    case False
    then obtain b where b: "fetch_board_by_id up d board_id = Inr b"
      using got by (auto simp: ensure_board_access_def result_simps)
    then show ?thesis
      using got False f [OF b] r [of QRole d board_id]
      by (cases user) (auto simp: ensure_board_access_def split: if_splits)
  qed (use e [of now d board_id token] in \<open>simp add: ensure_board_access_def\<close>)
  have sessions: "board_sessions_access P up' d ident user = Inr x" if got: "board_sessions_access P up d ident user = Inr x"
  proof -
    obtain i b where i: "parse_board_id P ident = Inr i" "fetch_board_by_id up d i = Inr b"
      using got by (auto simp: board_sessions_access_def result_simps)
    then show ?thesis
      using got f [OF i(2)] r [of QRole d i]
      by (cases user) (auto simp: board_sessions_access_def split: if_splits)
  qed
  have signed: "presign_board_file P U presign up' now d ident header user key = Inr url"
    if got: "presign_board_file P U presign up now d ident header user key = Inr url"
  proof -
    obtain i k b where i: "parse_board_id P ident = Inr i" "key = Some k" "fetch_board_by_id up d i = Inr b"
      using got by (auto simp: presign_board_file_def result_simps split: option.splits if_splits)
    then show ?thesis
      using got f [OF i(3)] e [of now d i "embed_token_from_headers header"] r [of QRole d i]
      by (cases user; cases "embed_grants_view up' now d i (embed_token_from_headers header)")
         (auto simp: presign_board_file_def split: if_splits)
  qed
  have edit: "ensure_board_edit_access up' d board_id editor = Inr b" if got: "ensure_board_edit_access up d board_id editor = Inr b"
  proof -
    obtain b' where b': "fetch_board_by_id up d board_id = Inr b'"
      using got by (auto simp: ensure_board_edit_access_def result_simps)
    then show ?thesis
      using got f [OF b'] r [of QRole d board_id "us_id editor"]
      by (auto simp: ensure_board_edit_access_def Let_def split: if_splits)
  qed
  show ?thesis using state events sessions signed edit by blast
qed

subsection \<open>Samples\<close>

definition sample_user :: "uuid \<Rightarrow> int \<Rightarrow> app_user" where
  "sample_user i level = \<lparr>us_id = i, us_username = ''user'', us_email = None, us_role_level = level, us_tier_level = 1,
     us_profile_picture_url = None, us_first_name = None, us_last_name = None\<rparr>"

definition sample_board :: board where
  "sample_board = \<lparr>bo_id = 1, bo_project_id = 2, bo_owner_id = 7, bo_title = ''board'', bo_visibility = ''private'',
     bo_link_access = ''none'', bo_grid_type = ''lines'', bo_background_color = ''#f5f5f5'', bo_privacy_mode = False,
     bo_sticker_authors = False, bo_is_favorite = False, bo_created_at = 0, bo_preview_object_key = None,
     bo_imported_storage_bytes = 0\<rparr>"

text \<open>User 7 owns the board without a membership row, 8 is an editor, 9 a stranger; \<open>tok\<close> embeds the board.\<close>

definition sample_web :: web_db where
  "sample_web = \<lparr>w_users = [sample_user 7 1, sample_user 8 1, sample_user 9 1],
     w_tiers = [\<lparr>tq_level = 1, tq_name = ''Low'', tq_requests_per_day = 1000, tq_max_owned_boards = Some 3,
       tq_max_upload_bytes = 10, tq_max_storage_bytes = 25\<rparr>],
     w_projects = [\<lparr>pj_id = 2, pj_owner_id = 7, pj_name = ''p'', pj_is_favorite = False, pj_created_at = 0\<rparr>],
     w_project_members = [], w_boards = [sample_board],
     w_members = [\<lparr>bm_board_id = 1, bm_user_id = 8, bm_role = ''editor'', bm_created_at = 0\<rparr>],
     w_invites = [], w_embeds = [\<lparr>et_board_id = 1, et_token = ''tok'', et_created_by = 7, et_created_at = 0,
       et_expires_at = None\<rparr>], w_files = [], w_jobs = []\<rparr>"

definition sample_query :: ws_board_query where
  "sample_query = \<lparr>wq_session_id = None, wq_display_name = None, wq_embed_token = Some ''tok'',
     wq_presence_per_session = None, wq_batch = None, wq_yrs_v1 = None, wq_yrs_binary = None, wq_yrs_authority = None\<rparr>"

lemma trim_tok: "trim '' tok '' = ''tok''"
  by code_simp

theorem socket_matches_rest_witness:
  "map_sum (\<lambda>_. ()) snd (ws_identity (\<lambda>_. Some 1) (\<lambda>_. True) 0 sample_web 5 [] sample_query None)
   = map_sum (\<lambda>_. ()) snd (get_board_by_id_handler (\<lambda>_. Some 1) (\<lambda>_. True) 0 sample_web [] (Some '' tok '') None)"
proof -
  have "embed_token_from_headers (Some '' tok '') = wq_embed_token sample_query"
    by (simp add: embed_token_from_headers_def trim_tok sample_query_def)
  then show ?thesis by (rule socket_matches_rest)
qed

theorem access_fails_closed_witness:
  "ensure_board_edit_access (\<lambda>_. True) sample_web 1 (sample_user 8 1) = Inr sample_board"
proof -
  let ?up = "\<lambda>q. q = QBoard \<or> q = QRole"
  have "ensure_board_edit_access ?up sample_web 1 (sample_user 8 1) = Inr sample_board"
    by (simp add: ensure_board_edit_access_def fetch_board_by_id_def get_board_def sample_web_def sample_board_def
        role_or_none_def get_member_role_def sample_user_def is_admin_def)
  then show ?thesis
    using access_fails_closed [of ?up "\<lambda>_. True"] by blast
qed

text \<open>
  The checks do not all know the owner: \<open>GET /boards/{id}\<close>, the socket, uploads and file links accept
  \<open>boards.owner_id\<close>, while the state and event endpoints look only at the membership row.  An owner whose
  row is missing sees the board and may edit it over the socket but cannot load its state.
\<close>

lemma owner_without_row_locked_out:
  "\<exists>d u. get_board_by_id_handler (\<lambda>_. Some 1) (\<lambda>_. True) 0 d [] None (Some u)
          = Inr (hd (w_boards d), ''owner'')
      \<and> bo_owner_id (hd (w_boards d)) = us_id u
      \<and> board_state_access (\<lambda>_. Some 1) (\<lambda>_. True) 0 d [] None (Some u) = Inl (api_err 404 ''Board not found.'')"
  by (rule exI [of _ sample_web], rule exI [of _ "sample_user 7 1"])
     (simp add: sample_web_def sample_user_def sample_board_def get_board_by_id_handler_def board_state_access_def
      parse_board_id_def fetch_board_by_id_def get_board_def embed_grants_view_def embed_token_from_headers_def
      user_role_def is_admin_def role_or_none_def get_member_role_def)

text \<open>
  Where a role is granted, a failing role read is taken for no membership: on a board whose link admits
  editors, a member who may only view is given the editor role while the read of his role fails.
\<close>

lemma unread_role_widens:
  "\<exists>d u. map_sum id snd (get_board_by_id_handler (\<lambda>_. Some 1) (\<lambda>_. True) 0 d [] None (Some u)) = Inr ''viewer''
      \<and> map_sum id snd (get_board_by_id_handler (\<lambda>_. Some 1) (\<lambda>q. q \<noteq> QRole) 0 d [] None (Some u)) = Inr ''editor''
      \<and> map_sum id snd (ws_identity (\<lambda>_. Some 1) (\<lambda>q. q \<noteq> QRole) 0 d 5 [] (sample_query\<lparr>wq_embed_token := None\<rparr>) (Some u))
          = Inr ''editor''"
  by (rule exI [of _ "sample_web\<lparr>w_boards := [sample_board\<lparr>bo_link_access := ''editor''\<rparr>],
        w_members := [\<lparr>bm_board_id = 1, bm_user_id = 9, bm_role = ''viewer'', bm_created_at = 0\<rparr>]\<rparr>"],
      rule exI [of _ "sample_user 9 1"])
     (simp add: sample_web_def sample_user_def sample_board_def sample_query_def get_board_by_id_handler_def ws_identity_def
      parse_board_id_def fetch_board_by_id_def get_board_def embed_grants_view_def embed_token_from_headers_def
      user_role_def link_role_def is_admin_def role_or_none_def get_member_role_def)

end
