(* ===== verification/Sharing.thy ===== *)
theory Sharing
  imports Access Registry
begin

text \<open>
  Ownership and sharing of boards: the member, invitation, embed, create, update and delete handlers of
  \<open>src/src/handlers/boards.rs\<close> and \<open>board_embed.rs\<close>.  A handler returns its response and the tables it
  leaves; ids, tokens and times the server draws are arguments, \<open>U\<close> prints a UUID.
\<close>

subsection \<open>Quota errors\<close>

definition json_of_int :: "int \<Rightarrow> json" where
  "json_of_int i = JNum (if i \<ge> 0 then PosInt (word_of_int i) else NegInt (word_of_int i))"

definition quota_api_error :: "quota_error \<Rightarrow> api_error" where
  "quota_api_error e =
     (case e of
        BoardLimit used limit \<Rightarrow>
          (409, JObj [(''code'', JStr ''tier_board_limit''), (''error'', JStr ''Board limit reached for this tier.''),
             (''limit'', json_of_int limit), (''used'', json_of_int used)])
      | UploadTooLarge size_bytes limit \<Rightarrow>
          (413, JObj [(''code'', JStr ''tier_upload_limit''),
             (''error'', JStr ''File exceeds the maximum upload size for this tier.''),
             (''limit'', json_of_int limit), (''size'', json_of_int size_bytes)])
      | StorageLimit used size_bytes limit \<Rightarrow>
          (507, JObj [(''code'', JStr ''tier_storage_limit''), (''error'', JStr ''Storage quota exceeded for this tier.''),
             (''limit'', json_of_int limit), (''size'', json_of_int size_bytes), (''used'', json_of_int used)])
      | TierNotFound \<Rightarrow>
          (500, JObj [(''code'', JStr ''tier_not_configured''), (''error'', JStr ''The user's tier is not configured.'')])
      | QuotaDatabase _ \<Rightarrow> api_err 500 ''Could not validate resource quota.'')"

subsection \<open>Members\<close>

text \<open>Only the creator of the board may touch another owner; \<open>message\<close> is the refusal.\<close>

definition creator_only :: "db_up \<Rightarrow> web_db \<Rightarrow> uuid \<Rightarrow> app_user \<Rightarrow> uuid \<Rightarrow> string \<Rightarrow> api_error + unit" where
  "creator_only up d board_id u target message =
     (if \<not> is_admin u \<and> role_or_none up QTargetRole d board_id target = Some ''owner''
      then bindE (ok_orE (api_err 500 ''Could not fetch board.'') (if up QBoard then get_board d board_id else None)) (\<lambda>b.
           deny (bo_owner_id b \<noteq> us_id u) (api_err 403 message))
      else Inr ())"

definition add_board_member_handler ::
  "(string \<Rightarrow> uuid option) \<Rightarrow> db_up \<Rightarrow> int \<Rightarrow> string \<Rightarrow> app_user \<Rightarrow> uuid \<Rightarrow> string \<Rightarrow> web_db \<Rightarrow>
   (api_error + unit) \<times> web_db" where
  "add_board_member_handler P up now ident u target role d =
     settle d
       (bindE (parse_board_id P ident) (\<lambda>board_id.
        bindE (deny (\<not> is_admin u \<and> role_or_none up QRole d board_id (us_id u) \<noteq> Some ''owner'')
                 (api_err 403 ''Only the owner can manage members.'')) (\<lambda>_.
        bindE (deny (role \<notin> {''viewer'', ''editor'', ''owner''})
                 (api_err 400 ''Invalid role. Must be viewer, editor, or owner.'')) (\<lambda>_.
        bindE (creator_only up d board_id u target ''Only the board creator can change an owner's role.'') (\<lambda>_.
        bindE (deny (\<not> up QWrite) (api_err 500 ''Could not add member.'')) (\<lambda>_.
        bindE (map_errE (\<lambda>_. api_err 500 ''Could not add member.'') (add_board_member now board_id target role d)) (\<lambda>d'.
        Inr ((), d'))))))))"

definition remove_board_member_handler ::
  "(string \<Rightarrow> uuid option) \<Rightarrow> db_up \<Rightarrow> string \<Rightarrow> app_user \<Rightarrow> uuid \<Rightarrow> web_db \<Rightarrow> (api_error + unit) \<times> web_db" where
  "remove_board_member_handler P up ident u target d =
     settle d
       (bindE (parse_board_id P ident) (\<lambda>board_id.
        bindE (if target = us_id u
               then bindE (deny (role_or_none up QRole d board_id (us_id u) = Some ''owner'')
                             (api_err 400 ''Cannot leave a board you own.'')) (\<lambda>_.
                    deny (role_or_none up QRole d board_id (us_id u) = None)
                      (api_err 400 ''You are not a member of this board.''))
               else bindE (deny (\<not> is_admin u \<and> role_or_none up QRole d board_id (us_id u) \<noteq> Some ''owner'')
                             (api_err 403 ''Only the owner can remove members.'')) (\<lambda>_.
                    creator_only up d board_id u target ''Only the board creator can remove an owner.'')) (\<lambda>_.
        bindE (deny (\<not> up QWrite) (api_err 500 ''Could not remove member.'')) (\<lambda>_.
        Inr ((), remove_board_member board_id target d)))))"

text \<open>\<open>presign\<close> signs a bucket and key; \<open>endpoint\<close> is the storage endpoint URL.\<close>

definition member_avatar ::
  "string \<Rightarrow> (string \<Rightarrow> string \<Rightarrow> string option) \<Rightarrow> string option \<Rightarrow> string option" where
  "member_avatar endpoint presign stored =
     (case stored of
        None \<Rightarrow> None
      | Some url \<Rightarrow>
          (case strip_prefix url endpoint of
             None \<Rightarrow> Some url
           | Some rest \<Rightarrow>
               (case split_once CHR ''/'' (dropWhile (\<lambda>c. c = CHR ''/'') rest) of
                  Some (bucket, object_key) \<Rightarrow>
                    (if bucket \<noteq> [] \<and> object_key \<noteq> []
                     then (case presign bucket object_key of Some new_url \<Rightarrow> Some new_url | None \<Rightarrow> Some url)
                     else Some url)
                | None \<Rightarrow> Some url)))"

definition list_board_members ::
  "(string \<Rightarrow> uuid option) \<Rightarrow> string \<Rightarrow> (string \<Rightarrow> string \<Rightarrow> string option) \<Rightarrow> db_up \<Rightarrow> web_db \<Rightarrow> string \<Rightarrow> app_user \<Rightarrow>
   api_error + member_with_user list" where
  "list_board_members P endpoint presign up d ident u =
     bindE (parse_board_id P ident) (\<lambda>board_id.
     if \<not> is_admin u \<and> role_or_none up QRole d board_id (us_id u) = None
     then Inl (api_err 403 ''Access denied.'')
     else if \<not> up QList then Inl (api_err 500 ''Could not fetch members.'')
     else Inr (map (\<lambda>m. m\<lparr>mu_profile_picture_url := member_avatar endpoint presign (mu_profile_picture_url m)\<rparr>)
                 (list_board_members_with_users d board_id)))"

subsection \<open>Invitation links\<close>

definition create_invite_link_handler ::
  "(string \<Rightarrow> uuid option) \<Rightarrow> db_up \<Rightarrow> uuid \<Rightarrow> int \<Rightarrow> string \<Rightarrow> string \<Rightarrow> app_user \<Rightarrow> string \<Rightarrow> web_db \<Rightarrow>
   (api_error + board_invite_link \<times> string) \<times> web_db" where
  "create_invite_link_handler P up new_id now token ident u role d =
     settle d
       (bindE (parse_board_id P ident) (\<lambda>board_id.
        bindE (deny (\<not> is_admin u \<and> role_or_none up QRole d board_id (us_id u) \<noteq> Some ''owner'')
                 (api_err 403 ''Only the owner can manage invite links.'')) (\<lambda>_.
        bindE (deny (role \<notin> {''viewer'', ''editor''}) (api_err 400 ''Invalid role. Must be viewer or editor.'')) (\<lambda>_.
        bindE (deny (\<not> up QWrite) (api_err 500 ''Could not create invite link.'')) (\<lambda>_.
        bindE (map_errE (\<lambda>_. api_err 500 ''Could not create invite link.'')
                 (create_invite_link new_id now board_id token role (us_id u) None d)) (\<lambda>(link, d').
        Inr ((link, ''/invite/'' @ il_token link), d')))))))"

definition list_invite_links_handler ::
  "(string \<Rightarrow> uuid option) \<Rightarrow> db_up \<Rightarrow> int \<Rightarrow> web_db \<Rightarrow> string \<Rightarrow> app_user \<Rightarrow>
   api_error + (board_invite_link \<times> string) list" where
  "list_invite_links_handler P up now d ident u =
     bindE (parse_board_id P ident) (\<lambda>board_id.
     if \<not> is_admin u \<and> role_or_none up QRole d board_id (us_id u) \<noteq> Some ''owner''
     then Inl (api_err 403 ''Only the owner can view invite links.'')
     else if \<not> up QList then Inl (api_err 500 ''Could not fetch invite links.'')
     else Inr (map (\<lambda>l. (l, ''/invite/'' @ il_token l)) (list_invite_links now d board_id)))"

definition delete_invite_link_handler ::
  "(string \<Rightarrow> uuid option) \<Rightarrow> db_up \<Rightarrow> string \<Rightarrow> app_user \<Rightarrow> uuid \<Rightarrow> web_db \<Rightarrow> (api_error + unit) \<times> web_db" where
  "delete_invite_link_handler P up ident u link d =
     settle d
       (bindE (parse_board_id P ident) (\<lambda>board_id.
        bindE (deny (\<not> is_admin u \<and> role_or_none up QRole d board_id (us_id u) \<noteq> Some ''owner'')
                 (api_err 403 ''Only the owner can delete invite links.'')) (\<lambda>_.
        bindE (deny (\<not> up QWrite) (api_err 500 ''Could not delete invite link.'')) (\<lambda>_.
        Inr ((), delete_invite_link link board_id d)))))"

definition get_invite_info_handler :: "db_up \<Rightarrow> int \<Rightarrow> web_db \<Rightarrow> string \<Rightarrow> api_error + invite_link_info" where
  "get_invite_info_handler up now d token =
     (if \<not> up QInvite then Inl (api_err 500 ''Could not fetch invite info.'')
      else
        (case get_invite_link_info d token of
           None \<Rightarrow> Inl (api_err 404 ''Invite link not found.'')
         | Some info \<Rightarrow>
             (if (case ii_expires_at info of Some t \<Rightarrow> t < now | None \<Rightarrow> False)
              then Inl (api_err 410 ''Invite link has expired.'') else Inr info)))"

definition accept_invite_handler ::
  "db_up \<Rightarrow> int \<Rightarrow> string \<Rightarrow> app_user \<Rightarrow> web_db \<Rightarrow> (api_error + uuid) \<times> web_db" where
  "accept_invite_handler up now token u d =
     settle d
       (bindE (deny (\<not> up QInvite) (api_err 500 ''Could not fetch invite link.'')) (\<lambda>_.
        bindE (ok_orE (api_err 404 ''Invite link not found.'') (get_invite_link_by_token d token)) (\<lambda>link.
        bindE (deny (case il_expires_at link of Some t \<Rightarrow> t < now | None \<Rightarrow> False)
                 (api_err 410 ''Invite link has expired.'')) (\<lambda>_.
        bindE (deny (\<not> up QWrite) (api_err 500 ''Could not accept invite.'')) (\<lambda>_.
        bindE (map_errE (\<lambda>_. api_err 500 ''Could not accept invite.'')
                 (add_board_member now (il_board_id link) (us_id u) (il_role link) d)) (\<lambda>d'.
        Inr (il_board_id link, d')))))))"

subsection \<open>Embedding\<close>

definition require_owner :: "db_up \<Rightarrow> web_db \<Rightarrow> uuid \<Rightarrow> app_user \<Rightarrow> api_error + unit" where
  "require_owner up d board_id u =
     (if is_admin u then Inr ()
      else
        bindE (fetch_board_by_id up d board_id) (\<lambda>b.
        if bo_owner_id b = us_id u \<or> role_or_none up QRole d board_id (us_id u) = Some ''owner'' then Inr ()
        else Inl (api_err 403 ''Only the owner can manage embedding.'')))"

definition existing_embed_token :: "db_up \<Rightarrow> int \<Rightarrow> web_db \<Rightarrow> uuid \<Rightarrow> string option" where
  "existing_embed_token up now d board_id = (if up QEmbed then latest_embed_token now d board_id else None)"

definition create_embed_token_handler ::
  "(string \<Rightarrow> uuid option) \<Rightarrow> db_up \<Rightarrow> int \<Rightarrow> string \<Rightarrow> string \<Rightarrow> app_user \<Rightarrow> web_db \<Rightarrow> (api_error + string) \<times> web_db" where
  "create_embed_token_handler P up now token ident u d =
     settle d
       (bindE (parse_board_id P ident) (\<lambda>board_id.
        bindE (require_owner up d board_id u) (\<lambda>_.
        case existing_embed_token up now d board_id of
          Some existing \<Rightarrow> Inr (existing, d)
        | None \<Rightarrow>
            bindE (deny (\<not> up QWrite) (api_err 500 ''Could not create embed token.'')) (\<lambda>_.
            bindE (map_errE (\<lambda>_. api_err 500 ''Could not create embed token.'')
                     (create_embed_token now board_id token (us_id u) None d)) (\<lambda>d'.
            Inr (token, d'))))))"

definition get_embed_token_handler ::
  "(string \<Rightarrow> uuid option) \<Rightarrow> db_up \<Rightarrow> int \<Rightarrow> web_db \<Rightarrow> string \<Rightarrow> app_user \<Rightarrow> api_error + string option" where
  "get_embed_token_handler P up now d ident u =
     bindE (parse_board_id P ident) (\<lambda>board_id.
     bindE (require_owner up d board_id u) (\<lambda>_.
     if \<not> up QEmbed then Inl (api_err 500 ''Could not fetch embed token.'')
     else Inr (latest_embed_token now d board_id)))"

definition delete_embed_token_handler ::
  "(string \<Rightarrow> uuid option) \<Rightarrow> db_up \<Rightarrow> string \<Rightarrow> app_user \<Rightarrow> web_db \<Rightarrow> (api_error + unit) \<times> web_db" where
  "delete_embed_token_handler P up ident u d =
     settle d
       (bindE (parse_board_id P ident) (\<lambda>board_id.
        bindE (require_owner up d board_id u) (\<lambda>_.
        bindE (deny (\<not> up QWrite) (api_err 500 ''Could not revoke embed tokens.'')) (\<lambda>_.
        Inr ((), delete_embed_tokens board_id d)))))"

subsection \<open>Updating, deleting and listing boards\<close>

definition delete_board_handler ::
  "(string \<Rightarrow> uuid option) \<Rightarrow> (uuid \<Rightarrow> string) \<Rightarrow> db_up \<Rightarrow> int \<Rightarrow> string \<Rightarrow> app_user \<Rightarrow> web_db \<Rightarrow> (api_error + unit) \<times> web_db" where
  "delete_board_handler P U up now ident u d =
     settle d
       (bindE (parse_board_id P ident) (\<lambda>board_id.
        bindE (fetch_board_by_id up d board_id) (\<lambda>b.
        bindE (deny (\<not> is_admin u \<and> bo_owner_id b \<noteq> us_id u) (api_err 403 ''Access denied.'')) (\<lambda>_.
        bindE (deny (\<not> up QWrite) (api_err 500 ''Could not delete board.'')) (\<lambda>_.
        Inr ((), delete_board_by_id U now board_id d))))))"

definition update_board_handler ::
  "(string \<Rightarrow> uuid option) \<Rightarrow> db_up \<Rightarrow> string \<Rightarrow> app_user \<Rightarrow> string option \<Rightarrow> string option \<Rightarrow> string option \<Rightarrow> web_db \<Rightarrow>
   (api_error + board) \<times> web_db" where
  "update_board_handler P up ident u title visibility link_access d =
     settle d
       (bindE (parse_board_id P ident) (\<lambda>board_id.
        bindE (fetch_board_by_id up d board_id) (\<lambda>b.
        bindE (deny (bo_owner_id b \<noteq> us_id u \<and> \<not> is_admin u) (api_err 403 ''Only the owner can update a board.'')) (\<lambda>_.
        bindE (deny (case visibility of Some v \<Rightarrow> v \<noteq> ''public'' \<and> v \<noteq> ''private'' | None \<Rightarrow> False)
                 (api_err 400 ''Invalid visibility value. Must be 'public' or 'private'.'')) (\<lambda>_.
        bindE (deny (case link_access of Some l \<Rightarrow> l \<noteq> ''none'' \<and> l \<noteq> ''viewer'' \<and> l \<noteq> ''editor'' | None \<Rightarrow> False)
                 (api_err 400 ''Invalid link_access value. Must be 'none', 'viewer', or 'editor'.'')) (\<lambda>_.
        bindE (deny (\<not> up QWrite) (api_err 500 ''Could not update board.'')) (\<lambda>_.
        map_errE (\<lambda>_. api_err 500 ''Could not update board.'') (update_board_row title visibility link_access board_id d))))))))"

definition toggle_board_favorite_handler ::
  "(string \<Rightarrow> uuid option) \<Rightarrow> db_up \<Rightarrow> string \<Rightarrow> app_user \<Rightarrow> web_db \<Rightarrow> (api_error + board) \<times> web_db" where
  "toggle_board_favorite_handler P up ident u d =
     settle d
       (bindE (parse_board_id P ident) (\<lambda>board_id.
        bindE (fetch_board_by_id up d board_id) (\<lambda>b.
        bindE (deny (bo_owner_id b \<noteq> us_id u \<and> \<not> is_admin u)
                 (api_err 403 ''Only the owner can favorite a board.'')) (\<lambda>_.
        bindE (deny (\<not> up QWrite) (api_err 500 ''Could not toggle favorite.'')) (\<lambda>_.
        map_errE (\<lambda>_. api_err 500 ''Could not toggle favorite.'') (toggle_board_favorite_row board_id d))))))"

text \<open>Each listed board comes with the signed URL of its preview, if it has one and it can be signed.\<close>

definition preview_url :: "(string \<Rightarrow> string option) \<Rightarrow> board \<Rightarrow> string option" where
  "preview_url presign b = Option.bind (bo_preview_object_key b) presign"

definition list_all_boards_handler ::
  "(string \<Rightarrow> string option) \<Rightarrow> db_up \<Rightarrow> web_db \<Rightarrow> app_user \<Rightarrow> api_error + (board_with_owner \<times> string option) list" where
  "list_all_boards_handler presign up d u =
     (if \<not> up QList then Inl (api_err 500 ''Could not fetch boards.'')
      else Inr (map (\<lambda>b. (b, preview_url presign (bw_board b)))
             (if is_admin u then list_all_boards d else list_boards_for_user d (us_id u))))"

definition list_project_boards_handler ::
  "(string \<Rightarrow> uuid option) \<Rightarrow> (string \<Rightarrow> string option) \<Rightarrow> db_up \<Rightarrow> web_db \<Rightarrow> string \<Rightarrow> app_user \<Rightarrow>
   api_error + (board \<times> string option) list" where
  "list_project_boards_handler P presign up d ident u =
     bindE (ok_orE (api_err 400 ''Invalid project id.'') (P ident)) (\<lambda>project_id.
     bindE (if \<not> up QProject then Inl (api_err 500 ''Could not fetch project.'')
            else ok_orE (api_err 404 ''Project not found.'') (get_project d project_id)) (\<lambda>pj.
     if \<not> is_admin u \<and> pj_owner_id pj \<noteq> us_id u then Inl (api_err 403 ''Access denied.'')
     else if \<not> up QList then Inl (api_err 500 ''Could not fetch boards.'')
     else Inr (map (\<lambda>b. (b, preview_url presign b)) (list_boards_by_project d project_id))))"

subsection \<open>Creating a board\<close>

text \<open>
  The journal tables start empty with the board row; \<open>js\<close> gives the journal of every board.  \<open>r\<close> is the
  random number the base's client id is drawn from, \<open>locked\<close> whether the advisory lock is free.
\<close>

definition new_journal :: "board \<Rightarrow> bdb" where
  "new_journal b = \<lparr>d_board = \<lparr>b_next_event_seq = 1, b_grid_type = bo_grid_type b,
       b_background_color = bo_background_color b, b_privacy_mode = False, b_sticker_authors = False\<rparr>,
     d_events = [], d_updates = [], d_head = None, d_base = None, d_snapshots = [], d_asset_head = None,
     d_asset_refs = []\<rparr>"

definition create_error :: "quota_error \<Rightarrow> api_error" where
  "create_error e =
     (case e of QuotaDatabase _ \<Rightarrow> api_err 500 ''Could not create board.'' | _ \<Rightarrow> quota_api_error e)"

definition create_board_handler ::
  "('d, 'u, 's) yrs \<Rightarrow> u64 \<Rightarrow> bool \<Rightarrow> (uuid \<Rightarrow> string) \<Rightarrow> db_up \<Rightarrow> uuid \<Rightarrow> int \<Rightarrow> app_user \<Rightarrow> board_create_body \<Rightarrow>
   web_db \<times> (uuid \<Rightarrow> bdb) \<Rightarrow> (api_error + board) \<times> web_db \<times> (uuid \<Rightarrow> bdb)" where
  "create_board_handler Y r locked U up new_id now u body st =
     (case st of (d, js) \<Rightarrow>
      (case (bindE (if \<not> up QProject then Inl (api_err 500 ''Could not fetch project.'')
                    else ok_orE (api_err 404 ''Project not found.'') (get_project d (cb_project_id body))) (\<lambda>pj.
             let role = (if up QProjectRole then get_project_member_role d (pj_id pj) (us_id u) else None) in
             if pj_owner_id pj \<noteq> us_id u \<and> role \<noteq> Some ''owner'' \<and> role \<noteq> Some ''editor''
             then Inl (api_err 403 ''Access denied.'')
             else if cb_visibility body \<noteq> ''public'' \<and> cb_visibility body \<noteq> ''private''
             then Inl (api_err 400 ''Invalid visibility value.'')
             else if \<not> up QWrite then Inl (api_err 500 ''Could not create board.'')
             else map_errE create_error (create_board_row new_id now (us_id u) body d))) of
         Inl e \<Rightarrow> (Inl e, d, js)
       | Inr (b, d1) \<Rightarrow>
           (let j1 = js(bo_id b := new_journal b); undo = delete_board_by_id U now (bo_id b) d1 in
            case from_flat_projection Y r (JObj [(''entities'', JArr [])]) 0 of
              Inl _ \<Rightarrow> (Inl (api_err 500 ''Could not initialize board state.''), undo, js)
            | Inr cbase \<Rightarrow>
                (if \<not> up QSeed then (Inl (api_err 500 ''Could not initialize board state.''), undo, js)
                 else
                   (case upsert_base_cas locked (j1 (bo_id b)) cbase None of
                      (seeded, j') \<Rightarrow>
                        (if \<not> seeded then (Inl (api_err 409 ''Board state changed during creation.''), undo, js)
                         else (Inr b,
                           (case (if up QMemberWrite then add_board_member now (bo_id b) (us_id u) ''owner'' d1
                                  else Inl RowNotFound) of Inr d2 \<Rightarrow> d2 | Inl _ \<Rightarrow> d1),
                           j1(bo_id b := j'))))))))"

subsection \<open>What each request can change\<close>

datatype share_op =
    AddMember string uuid string
  | RemoveMember string uuid
  | CreateInvite uuid string string string
  | DeleteInvite string uuid
  | AcceptInvite string
  | CreateEmbed string string
  | DeleteEmbed string
  | UpdateBoard string "string option" "string option" "string option"
  | DeleteBoard string
  | ToggleFavorite string

record share_request =
  sr_user :: app_user
  sr_up :: db_up
  sr_now :: int
  sr_op :: share_op

definition share_step :: "(string \<Rightarrow> uuid option) \<Rightarrow> (uuid \<Rightarrow> string) \<Rightarrow> share_request \<Rightarrow> web_db \<Rightarrow> web_db" where
  "share_step P U q d =
     (case sr_op q of
        AddMember ident target role \<Rightarrow> snd (add_board_member_handler P (sr_up q) (sr_now q) ident (sr_user q) target role d)
      | RemoveMember ident target \<Rightarrow> snd (remove_board_member_handler P (sr_up q) ident (sr_user q) target d)
      | CreateInvite new_id token ident role \<Rightarrow>
          snd (create_invite_link_handler P (sr_up q) new_id (sr_now q) token ident (sr_user q) role d)
      | DeleteInvite ident link \<Rightarrow> snd (delete_invite_link_handler P (sr_up q) ident (sr_user q) link d)
      | AcceptInvite token \<Rightarrow> snd (accept_invite_handler (sr_up q) (sr_now q) token (sr_user q) d)
      | CreateEmbed token ident \<Rightarrow> snd (create_embed_token_handler P (sr_up q) (sr_now q) token ident (sr_user q) d)
      | DeleteEmbed ident \<Rightarrow> snd (delete_embed_token_handler P (sr_up q) ident (sr_user q) d)
      | UpdateBoard ident title visibility link_access \<Rightarrow>
          snd (update_board_handler P (sr_up q) ident (sr_user q) title visibility link_access d)
      | DeleteBoard ident \<Rightarrow> snd (delete_board_handler P U (sr_up q) (sr_now q) ident (sr_user q) d)
      | ToggleFavorite ident \<Rightarrow> snd (toggle_board_favorite_handler P (sr_up q) ident (sr_user q) d))"

definition owns :: "web_db \<Rightarrow> uuid \<Rightarrow> uuid \<Rightarrow> bool" where
  "owns d b u \<longleftrightarrow> get_member_role d b u = Some ''owner''"

definition invites_ok :: "web_db \<Rightarrow> bool" where
  "invites_ok d \<longleftrightarrow> (\<forall>l \<in> set (w_invites d). il_role l \<in> {''viewer'', ''editor''})"

definition same_sharing :: "web_db \<Rightarrow> uuid \<Rightarrow> web_db \<Rightarrow> bool" where
  "same_sharing d b d' \<longleftrightarrow> get_board d' b = get_board d b \<and> (\<forall>v. owns d' b v \<longleftrightarrow> owns d b v)
     \<and> filter (\<lambda>l. il_board_id l = b) (w_invites d') = filter (\<lambda>l. il_board_id l = b) (w_invites d)
     \<and> filter (\<lambda>t. et_board_id t = b) (w_embeds d') = filter (\<lambda>t. et_board_id t = b) (w_embeds d)"

lemma same_sharing_refl: "same_sharing d b d"
  by (simp add: same_sharing_def)

lemma role_or_none_Some: "role_or_none up q d b u = Some r \<Longrightarrow> get_member_role d b u = Some r"
  by (auto simp: role_or_none_def split: if_splits)

lemma add_member_other:
  "add_board_member now b u role d = Inr d' \<Longrightarrow> b \<noteq> b' \<or> \<not> owns d b' u \<and> role \<noteq> ''owner'' \<Longrightarrow> same_sharing d b' d'"
  using add_member_frame [of now b u role d d'] member_role_add [of now b u role d d']
  by (auto simp: same_sharing_def owns_def get_board_def)

text \<open>Everybody who is neither an administrator nor an owner of the board.\<close>

definition outsider :: "web_db \<Rightarrow> uuid \<Rightarrow> app_user \<Rightarrow> bool" where
  "outsider d b u \<longleftrightarrow> \<not> is_admin u \<and> \<not> owns d b (us_id u)
     \<and> (\<forall>r. get_board d b = Some r \<longrightarrow> bo_owner_id r \<noteq> us_id u)"

lemma add_member_outsider:
  "outsider d b u \<Longrightarrow> same_sharing d b (snd (add_board_member_handler P up now ident u target role d))"
  unfolding add_board_member_handler_def
  by (rule snd_settleI [where Q = "same_sharing d b"])
     (auto simp: same_sharing_refl result_simps outsider_def owns_def intro: add_member_other dest: role_or_none_Some)

lemma remove_member_frame [simp]:
  "w_boards (remove_board_member b u d) = w_boards d" "w_invites (remove_board_member b u d) = w_invites d"
  "w_embeds (remove_board_member b u d) = w_embeds d"
  by (simp_all add: remove_board_member_def)

lemma remove_member_same: "b \<noteq> b' \<or> \<not> owns d b' u \<Longrightarrow> same_sharing d b' (remove_board_member b u d)"
  by (auto simp: same_sharing_def owns_def member_role_remove get_board_def)

lemma remove_member_outsider:
  "outsider d b u \<Longrightarrow> same_sharing d b (snd (remove_board_member_handler P up ident u target d))"
  unfolding remove_board_member_handler_def
  by (rule snd_settleI [where Q = "same_sharing d b"])
     (auto simp: same_sharing_refl result_simps outsider_def owns_def intro: remove_member_same dest: role_or_none_Some
       split: if_splits)

lemma create_invite_outsider:
  "outsider d b u \<Longrightarrow> same_sharing d b (snd (create_invite_link_handler P up new_id now token ident u role d))"
  unfolding create_invite_link_handler_def
  by (rule snd_settleI [where Q = "same_sharing d b"])
     (auto simp: same_sharing_refl same_sharing_def result_simps outsider_def owns_def create_invite_link_def Let_def
       get_member_role_def get_board_def dest!: role_or_none_Some split: if_splits)

lemma delete_invite_same:
  assumes "b \<noteq> b'"
  shows "same_sharing d b' (delete_invite_link link b d)"
proof -
  have "filter (\<lambda>l. il_board_id l = b') (filter (\<lambda>r. \<not> (il_id r = link \<and> il_board_id r = b)) (w_invites d))
      = filter (\<lambda>l. il_board_id l = b') (w_invites d)"
    using assms by (induction "w_invites d") (auto intro: filter_cong)
  then show ?thesis by (simp add: same_sharing_def owns_def delete_invite_link_def get_member_role_def get_board_def)
qed

lemma delete_invite_outsider:
  "outsider d b u \<Longrightarrow> same_sharing d b (snd (delete_invite_link_handler P up ident u link d))"
  unfolding delete_invite_link_handler_def
  by (rule snd_settleI [where Q = "same_sharing d b"])
     (auto simp: same_sharing_refl result_simps outsider_def owns_def intro!: delete_invite_same dest!: role_or_none_Some)

lemma invite_role: "invites_ok d \<Longrightarrow> get_invite_link_by_token d token = Some l \<Longrightarrow> il_role l \<noteq> ''owner''"
proof
  assume ok: "invites_ok d" and l: "get_invite_link_by_token d token = Some l" and r: "il_role l = ''owner''"
  have "l \<in> set (w_invites d)" using l by (auto simp: get_invite_link_by_token_def find_Some_iff)
  then show False using ok r by (auto simp: invites_ok_def)
qed

lemma accept_invite_outsider:
  "outsider d b u \<Longrightarrow> invites_ok d \<Longrightarrow> same_sharing d b (snd (accept_invite_handler up now token u d))"
  unfolding accept_invite_handler_def
  by (rule snd_settleI [where Q = "same_sharing d b"])
     (auto simp: same_sharing_refl result_simps outsider_def intro!: add_member_other dest: invite_role)

lemma require_owner_outsider: "outsider d b u \<Longrightarrow> require_owner up d b u \<noteq> Inr ()"
  by (auto simp: require_owner_def result_simps outsider_def owns_def fetch_board_by_id_def
      dest!: role_or_none_Some split: if_splits)

lemma create_embed_same: "create_embed_token now b token u e d = Inr d' \<Longrightarrow> b \<noteq> b' \<Longrightarrow> same_sharing d b' d'"
  by (auto simp: same_sharing_def owns_def create_embed_token_def get_member_role_def get_board_def split: if_splits)

definition embed_effect :: "app_user \<Rightarrow> db_up \<Rightarrow> int \<Rightarrow> string \<Rightarrow> web_db \<Rightarrow> web_db \<Rightarrow> bool" where
  "embed_effect u up now token d d' \<longleftrightarrow> d' = d
     \<or> (\<exists>b. require_owner up d b u = Inr () \<and> create_embed_token now b token (us_id u) None d = Inr d')"

lemma create_embed_result: "embed_effect u up now token d (snd (create_embed_token_handler P up now token ident u d))"
  unfolding create_embed_token_handler_def
  by (rule snd_settleI [where Q = "embed_effect u up now token d"])
     (auto simp: embed_effect_def result_simps split: option.splits)

lemma create_embed_outsider:
  "outsider d b u \<Longrightarrow> same_sharing d b (snd (create_embed_token_handler P up now token ident u d))"
  using create_embed_result [of u up now token d P ident] require_owner_outsider [of d b u up]
  by (auto simp: embed_effect_def same_sharing_refl intro: create_embed_same)

lemma delete_embed_same:
  assumes "b \<noteq> b'"
  shows "same_sharing d b' (delete_embed_tokens b d)"
proof -
  have "filter (\<lambda>t. et_board_id t = b') (filter (\<lambda>r. et_board_id r \<noteq> b) (w_embeds d))
      = filter (\<lambda>t. et_board_id t = b') (w_embeds d)"
    using assms by (auto intro: filter_cong)
  then show ?thesis by (simp add: same_sharing_def owns_def delete_embed_tokens_def get_member_role_def get_board_def)
qed

lemma delete_embed_outsider:
  "outsider d b u \<Longrightarrow> same_sharing d b (snd (delete_embed_token_handler P up ident u d))"
  unfolding delete_embed_token_handler_def
  using require_owner_outsider [of d b u up]
  by (intro snd_settleI [where Q = "same_sharing d b"])
     (auto simp: same_sharing_refl result_simps intro!: delete_embed_same)

lemma map_board_same:
  "b' \<noteq> b \<Longrightarrow> (\<And>r. bo_id (f r) = bo_id r) \<Longrightarrow> same_sharing d b' (map_board b f d)"
  by (auto simp: same_sharing_def owns_def get_board_map_other) (auto simp: map_board_def get_member_role_def)

lemma update_board_outsider:
  "outsider d b u \<Longrightarrow> same_sharing d b (snd (update_board_handler P up ident u title visibility link_access d))"
  unfolding update_board_handler_def
  by (rule snd_settleI [where Q = "same_sharing d b"])
     (auto simp: same_sharing_refl result_simps outsider_def fetch_board_by_id_def update_board_row_def Let_def
       intro!: map_board_same split: if_splits option.splits)

lemma toggle_board_outsider:
  "outsider d b u \<Longrightarrow> same_sharing d b (snd (toggle_board_favorite_handler P up ident u d))"
  unfolding toggle_board_favorite_handler_def
  by (rule snd_settleI [where Q = "same_sharing d b"])
     (auto simp: same_sharing_refl result_simps outsider_def fetch_board_by_id_def toggle_board_favorite_row_def Let_def
       intro!: map_board_same split: if_splits option.splits)

lemma delete_board_same:
  assumes "b' \<noteq> b"
  shows "same_sharing d b' (delete_board_by_id U now b d)"
proof -
  have "find (\<lambda>r. bo_id r = b') (filter (\<lambda>x. bo_id x \<noteq> b) (w_boards d)) = find (\<lambda>r. bo_id r = b') (w_boards d)"
    "find (\<lambda>r. bm_board_id r = b' \<and> bm_user_id r = v) (filter (\<lambda>x. bm_board_id x \<noteq> b) (w_members d))
     = find (\<lambda>r. bm_board_id r = b' \<and> bm_user_id r = v) (w_members d)" for v
    using assms by (intro find_filter_kept; simp)+
  then show ?thesis
    using assms by (auto simp: same_sharing_def owns_def delete_board_by_id_def get_board_def get_member_role_def
        intro!: filter_cong split: option.splits)
qed

lemma delete_board_outsider:
  "outsider d b u \<Longrightarrow> same_sharing d b (snd (delete_board_handler P U up now ident u d))"
  unfolding delete_board_handler_def
  by (rule snd_settleI [where Q = "same_sharing d b"])
     (auto simp: same_sharing_refl result_simps outsider_def fetch_board_by_id_def
       intro!: delete_board_same split: if_splits)

lemma update_board_frame: "update_board_row title visibility link_access b d = Inr (x, d') \<Longrightarrow> w_invites d' = w_invites d"
  by (auto simp: update_board_row_def map_board_def Let_def split: option.splits)

lemma settle_invites:
  "invites_ok d \<Longrightarrow> (\<And>x d'. r = Inr (x, d') \<Longrightarrow> set (w_invites d') \<subseteq> set (w_invites d)) \<Longrightarrow> invites_ok (snd (settle d r))"
  by (cases r) (force simp: invites_ok_def)+

lemma create_invite_ok: "invites_ok d \<Longrightarrow> invites_ok (snd (create_invite_link_handler P up new_id now token ident u role d))"
  unfolding create_invite_link_handler_def
  by (rule snd_settleI [where Q = invites_ok])
     (auto simp: invites_ok_def result_simps create_invite_link_def Let_def split: if_splits)

lemma share_step_invites: "invites_ok d \<Longrightarrow> invites_ok (share_step P U q d)"
proof (cases "sr_op q")
  case (CreateInvite new_id token ident role)
  then show "invites_ok d \<Longrightarrow> ?thesis" by (simp add: share_step_def create_invite_ok)
next
  case (AddMember ident target role)
  then show "invites_ok d \<Longrightarrow> ?thesis" unfolding share_step_def add_board_member_handler_def
    by simp (rule settle_invites, auto simp: result_simps dest!: add_member_frame)
next
  case (RemoveMember ident target)
  then show "invites_ok d \<Longrightarrow> ?thesis" unfolding share_step_def remove_board_member_handler_def
    by simp (rule settle_invites, auto simp: result_simps)
next
  case (DeleteInvite ident link)
  then show "invites_ok d \<Longrightarrow> ?thesis" unfolding share_step_def delete_invite_link_handler_def
    by simp (rule settle_invites, auto simp: result_simps delete_invite_link_def)
next
  case (AcceptInvite token)
  then show "invites_ok d \<Longrightarrow> ?thesis" unfolding share_step_def accept_invite_handler_def
    by simp (rule settle_invites, auto simp: result_simps dest!: add_member_frame)
next
  case (CreateEmbed token ident)
  then show "invites_ok d \<Longrightarrow> ?thesis" unfolding share_step_def create_embed_token_handler_def
    by simp (rule settle_invites, auto simp: result_simps create_embed_token_def split: if_splits option.splits)
next
  case (DeleteEmbed ident)
  then show "invites_ok d \<Longrightarrow> ?thesis" unfolding share_step_def delete_embed_token_handler_def
    by simp (rule settle_invites, auto simp: result_simps delete_embed_tokens_def)
next
  case (UpdateBoard ident title visibility link_access)
  then show "invites_ok d \<Longrightarrow> ?thesis" unfolding share_step_def update_board_handler_def
    by simp (rule settle_invites, auto simp: result_simps dest!: update_board_frame)
next
  case (DeleteBoard ident)
  then show "invites_ok d \<Longrightarrow> ?thesis" unfolding share_step_def delete_board_handler_def
    by simp (rule settle_invites, auto simp: result_simps delete_board_by_id_def split: option.splits)
next
  case (ToggleFavorite ident)
  then show "invites_ok d \<Longrightarrow> ?thesis" unfolding share_step_def toggle_board_favorite_handler_def
    by simp (rule settle_invites, auto simp: result_simps toggle_board_favorite_row_def map_board_def Let_def split: option.splits)
qed

lemmas outsider_effects = add_member_outsider remove_member_outsider create_invite_outsider delete_invite_outsider
  accept_invite_outsider create_embed_outsider delete_embed_outsider update_board_outsider toggle_board_outsider
  delete_board_outsider

lemma share_step_outsider:
  "outsider d b (sr_user q) \<Longrightarrow> invites_ok d \<Longrightarrow> same_sharing d b (share_step P U q d)"
  by (cases "sr_op q") (simp_all add: share_step_def outsider_effects)

lemma same_sharing_outsider: "same_sharing d b d' \<Longrightarrow> outsider d' b u = outsider d b u"
  by (simp add: same_sharing_def outsider_def)

lemma same_sharing_trans: "same_sharing d b d' \<Longrightarrow> same_sharing d' b d'' \<Longrightarrow> same_sharing d b d''"
  by (simp add: same_sharing_def)

text \<open>C15: Sharing needs ownership: on tables whose invitation links are for viewers and editors only, whatever
  sequence of the ten sharing requests (adding and removing members, creating, deleting and accepting invitations,
  creating and deleting embed tokens, updating a board, marking it as favourite, deleting it) users who are neither
  administrators nor owners of a board send, for this board or any other, with any database failures, the board's row
  as these requests see it, its set of owners, its invitation links and its embed tokens stay as they are; nobody
  promotes himself. Other requests are outside this claim: deleting the whole project, which its owner may do whoever
  owns the boards in it, and the commits of editors.\<close>

theorem sharing_needs_ownership:
  assumes "invites_ok d" and "\<forall>q \<in> set requests. outsider d b (sr_user q)"
  shows "same_sharing d b (fold (share_step P U) requests d)"
  using assms
proof (induction requests arbitrary: d)
  case (Cons q requests)
  have s: "same_sharing d b (share_step P U q d)" using Cons.prems by (simp add: share_step_outsider)
  have "same_sharing (share_step P U q d) b (fold (share_step P U) requests (share_step P U q d))"
    using Cons.prems by (intro Cons.IH) (simp_all add: share_step_invites same_sharing_outsider [OF s])
  then show ?case using same_sharing_trans [OF s] by simp
qed (simp add: same_sharing_refl)

subsection \<open>The creator\<close>

definition creator_holds :: "web_db \<Rightarrow> uuid \<Rightarrow> uuid \<Rightarrow> bool" where
  "creator_holds d b c \<longleftrightarrow> owns d b c \<and> (\<exists>r. get_board d b = Some r \<and> bo_owner_id r = c)"

lemma creator_same: "creator_holds d b c \<Longrightarrow> same_sharing d b d' \<Longrightarrow> creator_holds d' b c"
  by (simp add: creator_holds_def same_sharing_def)

lemma creator_role: "creator_holds d b c \<Longrightarrow> w_boards d' = w_boards d \<Longrightarrow>
    get_member_role d' b c = get_member_role d b c \<Longrightarrow> creator_holds d' b c"
  by (simp add: creator_holds_def owns_def get_board_def)

lemma creator_only_refuses:
  "creator_holds d b c \<Longrightarrow> up QTargetRole \<Longrightarrow> \<not> is_admin u \<Longrightarrow> us_id u \<noteq> c \<Longrightarrow> creator_only up d b u c m \<noteq> Inr ()"
  by (auto simp: creator_only_def creator_holds_def owns_def role_or_none_def result_simps split: if_splits)

lemma creator_add_row:
  assumes "creator_holds d b c" "add_board_member now b0 u role d = Inr d'" "b0 \<noteq> b \<or> u \<noteq> c"
  shows "creator_holds d' b c"
proof (rule creator_role [OF assms(1)])
  show "w_boards d' = w_boards d" using add_member_frame [OF assms(2)] by simp
  show "get_member_role d' b c = get_member_role d b c" using member_role_add [OF assms(2)] assms(3) by auto
qed

lemma creator_remove_row:
  assumes "creator_holds d b c" "b0 \<noteq> b \<or> u \<noteq> c"
  shows "creator_holds (remove_board_member b0 u d) b c"
proof (rule creator_role [OF assms(1)])
  show "w_boards (remove_board_member b0 u d) = w_boards d" by (simp add: remove_board_member_def)
  show "get_member_role (remove_board_member b0 u d) b c = get_member_role d b c"
    using member_role_remove assms(2) by auto
qed

text \<open>What a handler that writes member rows may have done, and under which checks.\<close>

definition member_effect :: "web_db \<Rightarrow> (uuid \<Rightarrow> uuid \<Rightarrow> bool) \<Rightarrow> web_db \<Rightarrow> bool" where
  "member_effect d allowed d' \<longleftrightarrow>
     d' = d \<or> (\<exists>b t. allowed b t \<and> (d' = remove_board_member b t d \<or> (\<exists>now role. add_board_member now b t role d = Inr d')))"

lemma member_effect_refl: "member_effect d A d"
  by (simp add: member_effect_def)

lemma member_effect_add: "add_board_member now b t role d = Inr d' \<Longrightarrow> A b t \<Longrightarrow> member_effect d A d'"
  unfolding member_effect_def by blast

lemma member_effect_remove: "A b t \<Longrightarrow> member_effect d A (remove_board_member b t d)"
  unfolding member_effect_def by blast

lemma creator_member:
  assumes "creator_holds d b c" "member_effect d A d'" "\<not> A b c"
  shows "creator_holds d' b c"
  using assms(2) unfolding member_effect_def
proof (elim disjE exE conjE)
  fix b0 t now role
  assume "A b0 t" "add_board_member now b0 t role d = Inr d'"
  then show ?thesis using creator_add_row [OF assms(1), of now b0 t role d'] assms(3) by blast
next
  fix b0 t
  assume "A b0 t" "d' = remove_board_member b0 t d"
  then show ?thesis using creator_remove_row [OF assms(1), of b0 t] assms(3) by blast
qed (simp add: assms(1))

lemma add_member_effect:
  "member_effect d (\<lambda>b t. \<exists>m. creator_only up d b u t m = Inr ()) (snd (add_board_member_handler P up now ident u target role d))"
  unfolding add_board_member_handler_def
  by (rule snd_settleI [where Q = "member_effect d (\<lambda>b t. \<exists>m. creator_only up d b u t m = Inr ())"])
     (rule member_effect_refl, simp add: result_simps, elim exE conjE, erule member_effect_add, blast)

lemma remove_member_effect:
  "member_effect d (\<lambda>b t. t = us_id u \<or> (\<exists>m. creator_only up d b u t m = Inr ()))
     (snd (remove_board_member_handler P up ident u target d))"
  unfolding remove_board_member_handler_def
proof (rule snd_settleI [where Q = "member_effect d (\<lambda>b t. t = us_id u \<or> (\<exists>m. creator_only up d b u t m = Inr ()))"],
    goal_cases)
  case (2 x d')
  from 2 obtain b where d': "d' = remove_board_member b target d"
    and checked: "target = us_id u \<or> (\<exists>m. creator_only up d b u target m = Inr ())"
    by (cases "target = us_id u") (simp_all add: result_simps, blast+)
  show ?case unfolding d' by (rule member_effect_remove) (use checked in blast)
qed (rule member_effect_refl)

lemma accept_effect: "member_effect d (\<lambda>b t. t = us_id u) (snd (accept_invite_handler up now token u d))"
  unfolding accept_invite_handler_def
  by (rule snd_settleI [where Q = "member_effect d (\<lambda>b t. t = us_id u)"])
     (rule member_effect_refl, simp add: result_simps, elim exE conjE, erule member_effect_add, rule refl)

lemma creator_members:
  assumes c: "creator_holds d b c" and u: "\<not> is_admin u" "us_id u \<noteq> c" and up: "up QTargetRole"
  shows "creator_holds (snd (add_board_member_handler P up now ident u target role d)) b c"
    "creator_holds (snd (remove_board_member_handler P up ident u target d)) b c"
    "creator_holds (snd (accept_invite_handler up now token u d)) b c"
  by (rule creator_member [OF c add_member_effect] creator_member [OF c remove_member_effect]
      creator_member [OF c accept_effect]; use creator_only_refuses [of d b c up u, OF c up u] u in auto)+

lemma creator_board_row:
  assumes "creator_holds d b c" "fetch_board_by_id up d b0 = Inr r" "bo_owner_id r \<noteq> c"
  shows "b \<noteq> b0"
  using assms by (auto simp: creator_holds_def fetch_board_by_id_def result_simps split: if_splits)

lemma update_row_same: "update_board_row title visibility link_access b0 d = Inr (x, d') \<Longrightarrow> b \<noteq> b0 \<Longrightarrow> same_sharing d b d'"
  by (auto simp: update_board_row_def Let_def intro!: map_board_same split: option.splits)

lemma toggle_row_same: "toggle_board_favorite_row b0 d = Inr (x, d') \<Longrightarrow> b \<noteq> b0 \<Longrightarrow> same_sharing d b d'"
  by (auto simp: toggle_board_favorite_row_def Let_def intro!: map_board_same split: option.splits)

lemma creator_board:
  assumes c: "creator_holds d b c" and u: "\<not> is_admin u" "us_id u \<noteq> c"
  shows "creator_holds (snd (update_board_handler P up ident u title visibility link_access d)) b c"
    "creator_holds (snd (toggle_board_favorite_handler P up ident u d)) b c"
    "creator_holds (snd (delete_board_handler P U up now ident u d)) b c"
proof -
  note own = creator_board_row [OF c, of up]
  show "creator_holds (snd (update_board_handler P up ident u title visibility link_access d)) b c"
    unfolding update_board_handler_def
    using c u by (intro snd_settleI [where Q = "\<lambda>d. creator_holds d b c"])
      (auto simp: result_simps dest!: own elim!: creator_same update_row_same)
  show "creator_holds (snd (toggle_board_favorite_handler P up ident u d)) b c"
    unfolding toggle_board_favorite_handler_def
    using c u by (intro snd_settleI [where Q = "\<lambda>d. creator_holds d b c"])
      (auto simp: result_simps dest!: own elim!: creator_same toggle_row_same)
  show "creator_holds (snd (delete_board_handler P U up now ident u d)) b c"
    unfolding delete_board_handler_def
    using c u by (intro snd_settleI [where Q = "\<lambda>d. creator_holds d b c"])
      (auto simp: result_simps dest!: own elim!: creator_same intro!: delete_board_same)
qed

text \<open>The other handlers write neither board rows nor member rows.\<close>

lemma creator_frame:
  "creator_holds d b c \<Longrightarrow> w_boards d' = w_boards d \<Longrightarrow> w_members d' = w_members d \<Longrightarrow> creator_holds d' b c"
  by (simp add: creator_holds_def owns_def get_board_def get_member_role_def)

lemma create_embed_frame: "create_embed_token now b token u e d = Inr d' \<Longrightarrow> w_boards d' = w_boards d \<and> w_members d' = w_members d"
  by (auto simp: create_embed_token_def split: if_splits)

lemma creator_links:
  assumes c: "creator_holds d b c"
  shows "creator_holds (snd (create_invite_link_handler P up new_id now token ident u role d)) b c"
    "creator_holds (snd (delete_invite_link_handler P up ident u link d)) b c"
    "creator_holds (snd (create_embed_token_handler P up now token ident u d)) b c"
    "creator_holds (snd (delete_embed_token_handler P up ident u d)) b c"
proof -
  let ?Q = "\<lambda>d'. creator_holds d' b c"
  show "?Q (snd (create_invite_link_handler P up new_id now token ident u role d))"
    unfolding create_invite_link_handler_def using c
    by (intro snd_settleI [where Q = ?Q])
      (auto simp: result_simps create_invite_link_def Let_def intro: creator_frame split: if_splits)
  show "?Q (snd (delete_invite_link_handler P up ident u link d))"
    unfolding delete_invite_link_handler_def using c
    by (intro snd_settleI [where Q = ?Q]) (auto simp: result_simps delete_invite_link_def intro: creator_frame)
  show "?Q (snd (create_embed_token_handler P up now token ident u d))"
    using create_embed_result [of u up now token d P ident] c
    by (auto simp: embed_effect_def dest!: create_embed_frame intro: creator_frame [OF c])
  show "?Q (snd (delete_embed_token_handler P up ident u d))"
    unfolding delete_embed_token_handler_def using c
    by (intro snd_settleI [where Q = ?Q]) (auto simp: result_simps delete_embed_tokens_def intro: creator_frame)
qed

lemma creator_step:
  assumes "creator_holds d b c" "\<not> is_admin (sr_user q)" "us_id (sr_user q) \<noteq> c" "sr_up q QTargetRole"
  shows "creator_holds (share_step P U q d) b c"
  using assms by (cases "sr_op q") (simp_all add: share_step_def creator_links creator_board creator_members)

text \<open>C16: The creator keeps the board against its co-owners: as long as every request's read of the target's
  role succeeds (without it the rule is skipped, as \<open>target_role_fails_open\<close> shows), no sequence of the
  ten sharing requests of non-administrators other than the creator, co-owners included, takes the owner role or the
  board itself from the user who created it. Deleting the whole project is not one of these requests.\<close>

theorem creator_keeps_ownership:
  assumes "creator_holds d b c"
    and "\<forall>q \<in> set requests. \<not> is_admin (sr_user q) \<and> us_id (sr_user q) \<noteq> c \<and> sr_up q QTargetRole"
  shows "creator_holds (fold (share_step P U) requests d) b c"
  using assms by (induction requests arbitrary: d) (simp_all add: creator_step)

text \<open>
  Two ways round that rule.  When reading the target's role fails, the check is skipped and a co-owner removes the
  creator; and a creator who follows an invitation link of the board loses the owner role himself.
\<close>

definition co_owned :: web_db where
  "co_owned = sample_web\<lparr>w_members :=
     [\<lparr>bm_board_id = 1, bm_user_id = 7, bm_role = ''owner'', bm_created_at = 0\<rparr>,
      \<lparr>bm_board_id = 1, bm_user_id = 8, bm_role = ''owner'', bm_created_at = 0\<rparr>],
     w_invites := [\<lparr>il_id = 5, il_board_id = 1, il_token = ''t'', il_role = ''viewer'', il_created_by = 7,
       il_expires_at = None, il_created_at = 0\<rparr>]\<rparr>"

definition sample_request :: "uuid \<Rightarrow> db_up \<Rightarrow> share_op \<Rightarrow> share_request" where
  "sample_request i up a = \<lparr>sr_user = sample_user i 1, sr_up = up, sr_now = 1, sr_op = a\<rparr>"

lemmas sharing_samples = co_owned_def sample_request_def sample_web_def sample_board_def sample_user_def

theorem sharing_needs_ownership_witness:
  "same_sharing co_owned 1 (fold (share_step (\<lambda>_. Some 1) (\<lambda>_. ''u''))
     [sample_request 9 (\<lambda>_. True) (AcceptInvite ''t''), sample_request 9 (\<lambda>_. False) (AddMember ''b'' 9 ''owner''),
      sample_request 9 (\<lambda>_. True) (DeleteBoard ''b'')] co_owned)"
  by (rule sharing_needs_ownership)
     (simp_all add: sharing_samples invites_ok_def outsider_def owns_def get_member_role_def get_board_def is_admin_def)

theorem creator_keeps_ownership_witness:
  "creator_holds (fold (share_step (\<lambda>_. Some 1) (\<lambda>_. ''u''))
     [sample_request 8 (\<lambda>_. True) (RemoveMember ''b'' 7), sample_request 8 (\<lambda>_. True) (DeleteBoard ''b'')] co_owned) 1 7"
  by (rule creator_keeps_ownership)
     (simp_all add: sharing_samples creator_holds_def owns_def get_member_role_def get_board_def is_admin_def)

lemma target_role_fails_open:
  "\<not> creator_holds (share_step (\<lambda>_. Some 1) (\<lambda>_. ''u'')
     (sample_request 8 (\<lambda>q. q \<noteq> QTargetRole) (RemoveMember ''b'' 7)) co_owned) 1 7"
  by (simp add: sharing_samples share_step_def remove_board_member_handler_def creator_only_def deny_def
      parse_board_id_def role_or_none_def get_member_role_def is_admin_def remove_board_member_def creator_holds_def owns_def)

lemma accepting_demotes:
  "\<not> creator_holds (share_step (\<lambda>_. Some 1) (\<lambda>_. ''u'') (sample_request 7 (\<lambda>_. True) (AcceptInvite ''t'')) co_owned) 1 7"
  by (simp add: sharing_samples share_step_def accept_invite_handler_def deny_def get_invite_link_by_token_def
      get_member_role_def get_board_def user_exists_def add_board_member_def creator_holds_def owns_def)

end
