(* ===== verification/Quotas.thy ===== *)
theory Quotas
  imports Sharing
begin

text \<open>
  The tier quotas over time.  Every quota transaction holds the owner's advisory lock (\<open>lock_owner_quota\<close>), so the
  quota-consuming statements of one owner are atomic steps; the checks the handlers make beforehand are not trusted.
\<close>

subsection \<open>Steps\<close>

inductive quota_step :: "(uuid \<Rightarrow> string) \<Rightarrow> web_db \<Rightarrow> web_db \<Rightarrow> bool" for U where
  create: "create_board_row new_id now owner body d = Inr (r, d') \<Longrightarrow> new_id \<notin> bo_id ` set (w_boards d) \<Longrightarrow>
    quota_step U d d'"
| upload: "insert_board_file new_id now (bo_owner_id r) payload d = Inr (f, d') \<Longrightarrow>
    get_board d (bf_board_id payload) = Some r \<Longrightarrow> quota_step U d d'"
| import_board: "record_imported_storage owner b size_bytes d = Inr d' \<Longrightarrow> quota_step U d d'"
| drop_file: "quota_step U d (delete_board_file f d)"
| drop_board: "quota_step U d (delete_board_by_id U now b d)"
| update_row: "update_board_row title visibility link_access b d = Inr (r, d') \<Longrightarrow> quota_step U d d'"
| toggle: "toggle_board_favorite_row b d = Inr (r, d') \<Longrightarrow> quota_step U d d'"
| add_member: "add_board_member now b u role d = Inr d' \<Longrightarrow> quota_step U d d'"
| remove_member: "quota_step U d (remove_board_member b u d)"

definition within_tier :: "tier_quota \<Rightarrow> quota_usage \<Rightarrow> bool" where
  "within_tier tier usage \<longleftrightarrow> (\<forall>limit. tq_max_owned_boards tier = Some limit \<longrightarrow> qu_owned_boards usage \<le> limit)
     \<and> qu_storage_bytes usage \<le> tq_max_storage_bytes tier"

text \<open>Keys are unique, files belong to boards, sizes are not negative, and no limit is the largest 64-bit number.\<close>

definition sizes_ok :: "web_db \<Rightarrow> bool" where
  "sizes_ok d \<longleftrightarrow> distinct (map bo_id (w_boards d))
     \<and> (\<forall>f \<in> set (w_files d). 0 \<le> bf_size_bytes f \<and> bf_board_id f \<in> bo_id ` set (w_boards d))
     \<and> (\<forall>r \<in> set (w_boards d). 0 \<le> bo_imported_storage_bytes r)
     \<and> (\<forall>t \<in> set (w_tiers d). tq_max_storage_bytes t < 2 ^ 63 - 1)"

definition quotas_ok :: "web_db \<Rightarrow> bool" where
  "quotas_ok d \<longleftrightarrow> sizes_ok d \<and> (\<forall>u tier. tier_for_user d u = Inr tier \<longrightarrow> within_tier tier (usage_for_owner d u))"

subsection \<open>Usage after each step\<close>

lemma tier_frame: "w_users d' = w_users d \<Longrightarrow> w_tiers d' = w_tiers d \<Longrightarrow> tier_for_user d' u = tier_for_user d u"
  by (simp add: tier_for_user_def find_user_def)

lemma sat_add_le: "sat_add a b \<le> m \<Longrightarrow> m < 2 ^ 63 - 1 \<Longrightarrow> a + b \<le> m"
  by (auto simp: sat_add_def max_def min_def split: if_splits)

lemma tier_in: "tier_for_user d u = Inr tier \<Longrightarrow> tier \<in> set (w_tiers d)"
  by (auto simp: tier_for_user_def result_simps bind_eq_Some_conv find_Some_iff)

lemma storage_evaluated:
  assumes "sizes_ok d" "tier_for_user d u = Inr tier" "evaluate_storage tier usage n = Inr ()"
  shows "qu_storage_bytes usage + n \<le> tq_max_storage_bytes tier"
proof (rule sat_add_le)
  show "sat_add (qu_storage_bytes usage) n \<le> tq_max_storage_bytes tier"
    using assms(3) by (auto simp: evaluate_storage_def split: if_splits)
  show "tq_max_storage_bytes tier < 2 ^ 63 - 1" using assms(1) tier_in [OF assms(2)] by (auto simp: sizes_ok_def)
qed

lemma sum_filter_le:
  assumes "\<And>x. x \<in> set xs \<Longrightarrow> P x \<Longrightarrow> Q x" "\<And>x. x \<in> set xs \<Longrightarrow> 0 \<le> (f x :: int)"
  shows "sum_list (map f (filter P xs)) \<le> sum_list (map f (filter Q xs))"
  using assms
proof (induction xs)
  case (Cons x xs)
  have "sum_list (map f (filter P xs)) \<le> sum_list (map f (filter Q xs))" using Cons by simp
  then show ?case using Cons.prems [of x] by auto
qed simp

definition less_usage :: "web_db \<Rightarrow> web_db \<Rightarrow> bool" where
  "less_usage d d' \<longleftrightarrow> w_users d' = w_users d \<and> w_tiers d' = w_tiers d
     \<and> (\<forall>u. qu_owned_boards (usage_for_owner d' u) \<le> qu_owned_boards (usage_for_owner d u)
         \<and> qu_storage_bytes (usage_for_owner d' u) \<le> qu_storage_bytes (usage_for_owner d u))"

lemma less_usage_ok: "quotas_ok d \<Longrightarrow> sizes_ok d' \<Longrightarrow> less_usage d d' \<Longrightarrow> quotas_ok d'"
  unfolding quotas_ok_def [of d']
proof (intro conjI allI impI)
  fix u tier
  assume ok: "quotas_ok d" and less: "less_usage d d'" and t: "tier_for_user d' u = Inr tier"
  have "tier_for_user d u = Inr tier" using t tier_frame [of d' d u] less by (simp add: less_usage_def)
  then have "within_tier tier (usage_for_owner d u)" using ok by (simp add: quotas_ok_def)
  then show "within_tier tier (usage_for_owner d' u)"
    using less unfolding within_tier_def less_usage_def by (meson order_trans)
qed

text \<open>A step that lets one owner use more, within his tier.\<close>

lemma one_owner_ok:
  assumes ok: "quotas_ok d" and sizes: "sizes_ok d'" and frame: "w_users d' = w_users d" "w_tiers d' = w_tiers d"
    and others: "\<And>u. u \<noteq> owner \<Longrightarrow> usage_for_owner d' u = usage_for_owner d u"
    and mine: "\<And>tier. tier_for_user d owner = Inr tier \<Longrightarrow> within_tier tier (usage_for_owner d' owner)"
  shows "quotas_ok d'"
  unfolding quotas_ok_def
proof (intro conjI allI impI sizes)
  fix u tier
  assume "tier_for_user d' u = Inr tier"
  then have t: "tier_for_user d u = Inr tier" using tier_frame [OF frame] by simp
  show "within_tier tier (usage_for_owner d' u)"
    using ok mine others t by (cases "u = owner") (auto simp: quotas_ok_def)
qed

lemma same_boards_less:
  assumes "w_users d' = w_users d" "w_tiers d' = w_tiers d" "w_files d' = w_files d"
    and f: "w_boards d' = map f (w_boards d)"
    and same: "\<And>r. bo_id (f r) = bo_id r \<and> bo_owner_id (f r) = bo_owner_id r
        \<and> bo_imported_storage_bytes (f r) = bo_imported_storage_bytes r"
  shows "less_usage d d'" "sizes_ok d \<Longrightarrow> sizes_ok d'"
proof -
  have o: "owner_boards d' u = map f (owner_boards d u)" for u
    using same by (simp add: owner_boards_def f filter_map o_def)
  have i: "bo_id ` f ` A = bo_id ` A" for A using same by (simp add: image_image)
  show "less_usage d d'"
    using same by (simp add: less_usage_def assms usage_for_owner_def o i o_def)
  show "sizes_ok d \<Longrightarrow> sizes_ok d'"
    using same by (simp add: sizes_ok_def assms i o_def)
qed

lemma map_board_less:
  assumes same: "\<And>r. bo_id (f r) = bo_id r \<and> bo_owner_id (f r) = bo_owner_id r
        \<and> bo_imported_storage_bytes (f r) = bo_imported_storage_bytes r"
  shows "less_usage d (map_board b f d)" "sizes_ok d \<Longrightarrow> sizes_ok (map_board b f d)"
proof -
  have "bo_id (if bo_id r = b then f r else r) = bo_id r \<and> bo_owner_id (if bo_id r = b then f r else r) = bo_owner_id r
      \<and> bo_imported_storage_bytes (if bo_id r = b then f r else r) = bo_imported_storage_bytes r" for r
    using same by simp
  note m = same_boards_less [of "map_board b f d" d "\<lambda>r. if bo_id r = b then f r else r", OF _ _ _ _ this]
  show "less_usage d (map_board b f d)" by (rule m(1)) (simp_all add: map_board_def)
  show "sizes_ok d \<Longrightarrow> sizes_ok (map_board b f d)" by (rule m(2)) (simp_all add: map_board_def)
qed

lemma update_row_less:
  assumes "update_board_row title visibility link_access b d = Inr (r, d')"
  shows "less_usage d d'" "sizes_ok d \<Longrightarrow> sizes_ok d'"
  using assms by (auto simp: update_board_row_def Let_def intro!: map_board_less split: option.splits)

lemma toggle_less:
  assumes "toggle_board_favorite_row b d = Inr (r, d')"
  shows "less_usage d d'" "sizes_ok d \<Longrightarrow> sizes_ok d'"
  using assms by (auto simp: toggle_board_favorite_row_def Let_def intro!: map_board_less split: option.splits)

lemma drop_file_less:
  assumes ok: "sizes_ok d"
  shows "less_usage d (delete_board_file f d)" "sizes_ok (delete_board_file f d)"
proof -
  have "sum_list (map bf_size_bytes (filter P (filter (\<lambda>r. bf_id r \<noteq> f) (w_files d))))
      \<le> sum_list (map bf_size_bytes (filter P (w_files d)))" for P
    unfolding filter_filter by (rule sum_filter_le) (use ok in \<open>auto simp: sizes_ok_def\<close>)
  then show "less_usage d (delete_board_file f d)"
    by (simp add: less_usage_def usage_for_owner_def owner_boards_def delete_board_file_def)
  show "sizes_ok (delete_board_file f d)" using ok by (simp add: sizes_ok_def delete_board_file_def)
qed

lemma length_filter_conj: "length (filter (\<lambda>x. P x \<and> Q x) xs) \<le> length (filter Q xs)"
  by (induction xs) auto

lemma drop_board_less:
  assumes ok: "sizes_ok d"
  shows "less_usage d (delete_board_by_id U now b d)" "sizes_ok (delete_board_by_id U now b d)"
proof -
  let ?bs = "\<lambda>u. filter (\<lambda>r. bo_owner_id r = u) (filter (\<lambda>x. bo_id x \<noteq> b) (w_boards d))"
  have files: "sum_list (map bf_size_bytes (filter (\<lambda>f. bf_board_id f \<in> bo_id ` set (?bs u)) (filter (\<lambda>x. bf_board_id x \<noteq> b) (w_files d))))
      \<le> sum_list (map bf_size_bytes (filter (\<lambda>f. bf_board_id f \<in> bo_id ` set (owner_boards d u)) (w_files d)))" for u
    unfolding filter_filter by (rule sum_filter_le) (use ok in \<open>auto simp: sizes_ok_def owner_boards_def\<close>)
  have imported: "sum_list (map bo_imported_storage_bytes (?bs u)) \<le> sum_list (map bo_imported_storage_bytes (owner_boards d u))" for u
    unfolding filter_filter owner_boards_def by (rule sum_filter_le) (use ok in \<open>auto simp: sizes_ok_def\<close>)
  have count: "length (?bs u) \<le> length (owner_boards d u)" for u
    unfolding filter_filter owner_boards_def by (rule length_filter_conj)
  show "less_usage d (delete_board_by_id U now b d)"
    using files imported count
    by (cases "get_board d b")
      (auto simp: delete_board_by_id_def less_usage_def usage_for_owner_def owner_boards_def [of "_ \<lparr>w_boards := _\<rparr>"]
        owner_boards_def intro!: add_mono)
  show "sizes_ok (delete_board_by_id U now b d)"
    using ok by (auto simp: delete_board_by_id_def sizes_ok_def distinct_map_filter split: option.splits)
qed

subsection \<open>The consuming steps\<close>

lemma create_row_ok:
  assumes ok: "quotas_ok d" and create: "create_board_row new_id now owner body d = Inr (r, d')"
    and fresh: "new_id \<notin> bo_id ` set (w_boards d)"
  shows "quotas_ok d'"
proof -
  have r: "bo_id r = new_id" "bo_owner_id r = owner" "bo_imported_storage_bytes r = 0" "d' = d\<lparr>w_boards := w_boards d @ [r]\<rparr>"
    and avail: "ensure_board_available d owner \<noteq> Inl e" for e
    using create by (auto simp: create_board_row_def Let_def result_simps split: if_splits)
  obtain tier where t: "tier_for_user d owner = Inr tier" "evaluate_board tier (usage_for_owner d owner) = Inr ()"
    using create by (auto simp: create_board_row_def ensure_board_available_def result_simps)
  have sizes: "sizes_ok d" using ok by (simp add: quotas_ok_def)
  have o: "owner_boards d' u = owner_boards d u @ (if u = owner then [r] else [])" for u
    by (simp add: owner_boards_def r)
  have wf: "w_files d' = w_files d" by (simp add: r(4))
  have files: "filter (\<lambda>f. bf_board_id f \<in> bo_id ` set (owner_boards d' u)) (w_files d)
      = filter (\<lambda>f. bf_board_id f \<in> bo_id ` set (owner_boards d u)) (w_files d)" for u
    using sizes fresh by (intro filter_cong) (auto simp: o sizes_ok_def r(1))
  have u: "usage_for_owner d' u = (usage_for_owner d u)\<lparr>qu_owned_boards := int (length (owner_boards d' u))\<rparr>" for u
    unfolding usage_for_owner_def wf files by (simp add: o r(3))
  show ?thesis
  proof (rule one_owner_ok [OF ok])
    show "sizes_ok d'" using sizes fresh by (auto simp: sizes_ok_def r)
    show "usage_for_owner d' u = usage_for_owner d u" if "u \<noteq> owner" for u
      using that by (simp add: u o) (simp add: usage_for_owner_def)
    show "within_tier tier' (usage_for_owner d' owner)" if "tier_for_user d owner = Inr tier'" for tier'
    proof -
      have "tier' = tier" "within_tier tier (usage_for_owner d owner)" using that t(1) ok by (simp_all add: quotas_ok_def)
      moreover have "qu_owned_boards (usage_for_owner d owner) = int (length (owner_boards d owner))"
        by (simp add: usage_for_owner_def)
      ultimately show ?thesis
        using t(2) by (auto simp: within_tier_def u o evaluate_board_def split: option.splits if_splits)
    qed
  qed (simp_all add: r)
qed

lemma board_of_id:
  "sizes_ok d \<Longrightarrow> get_board d b = Some r \<Longrightarrow> b \<in> bo_id ` set (owner_boards d u) \<longleftrightarrow> u = bo_owner_id r"
  by (auto simp: sizes_ok_def get_board_def owner_boards_def find_Some_iff distinct_map dest: inj_onD)

lemma upload_row_ok:
  assumes ok: "quotas_ok d" and ins: "insert_board_file new_id now (bo_owner_id r) payload d = Inr (f, d')"
    and r: "get_board d (bf_board_id payload) = Some r"
  shows "quotas_ok d'"
proof -
  let ?n = "bf_size_bytes payload" and ?o = "bo_owner_id r"
  have f: "bf_board_id f = bf_board_id payload" "bf_size_bytes f = ?n" "d' = d\<lparr>w_files := w_files d @ [f]\<rparr>"
    using ins by (auto simp: insert_board_file_def Let_def result_simps split: if_splits)
  obtain tier where t: "tier_for_user d ?o = Inr tier" "evaluate_upload tier (usage_for_owner d ?o) ?n = Inr ()"
    using ins by (auto simp: insert_board_file_def ensure_upload_available_def result_simps)
  have sizes: "sizes_ok d" using ok by (simp add: quotas_ok_def)
  have pos: "0 \<le> ?n" and st: "evaluate_storage tier (usage_for_owner d ?o) ?n = Inr ()"
    using t(2) by (auto simp: evaluate_upload_def evaluate_file_size_def result_simps split: if_splits)
  have ob: "owner_boards d' u = owner_boards d u" for u by (simp add: owner_boards_def f)
  have u: "usage_for_owner d' u
      = (usage_for_owner d u)\<lparr>qu_storage_bytes := qu_storage_bytes (usage_for_owner d u) + (if u = ?o then ?n else 0)\<rparr>" for u
    using board_of_id [OF sizes r, of u] by (cases "u = ?o") (simp_all add: usage_for_owner_def ob, simp_all add: f)
  have "r \<in> set (w_boards d)" "bo_id r = bf_board_id payload" using r by (auto simp: get_board_def find_Some_iff)
  then have board: "bf_board_id payload \<in> bo_id ` set (w_boards d)" by (metis image_eqI)
  show ?thesis
  proof (rule one_owner_ok [OF ok])
    show "sizes_ok d'" using sizes pos board by (auto simp: sizes_ok_def f)
    show "usage_for_owner d' u = usage_for_owner d u" if "u \<noteq> ?o" for u using that by (simp add: u)
    show "within_tier tier' (usage_for_owner d' ?o)" if "tier_for_user d ?o = Inr tier'" for tier'
    proof -
      have "tier' = tier" "within_tier tier (usage_for_owner d ?o)" using that t(1) ok by (simp_all add: quotas_ok_def)
      then show ?thesis using storage_evaluated [OF sizes t(1) st] by (simp add: within_tier_def u)
    qed
  qed (simp_all add: f)
qed

lemma sum_update_one:
  assumes "distinct (map bo_id xs)" "\<forall>r \<in> set xs. 0 \<le> bo_imported_storage_bytes r" "0 \<le> n"
  shows "sum_list (map (\<lambda>r. bo_imported_storage_bytes (if bo_id r = b then r\<lparr>bo_imported_storage_bytes := n\<rparr> else r)) xs)
    \<le> sum_list (map bo_imported_storage_bytes xs) + n"
  using assms
proof (induction xs)
  case (Cons x xs)
  show ?case
  proof (cases "bo_id x = b")
    case True
    then have "sum_list (map (\<lambda>r. bo_imported_storage_bytes (if bo_id r = b then r\<lparr>bo_imported_storage_bytes := n\<rparr> else r)) xs)
        = sum_list (map bo_imported_storage_bytes xs)"
      using Cons.prems(1) by (intro arg_cong [where f = sum_list] map_cong) (auto simp: image_iff)
    then show ?thesis using True Cons.prems(2) by simp
  next
    case False
    then show ?thesis using Cons by simp
  qed
qed simp

lemma import_row_ok:
  assumes ok: "quotas_ok d" and imp: "record_imported_storage owner b n d = Inr d'"
  shows "quotas_ok d'"
proof -
  define f :: "board \<Rightarrow> board" where "f = (\<lambda>r. if bo_id r = b \<and> bo_owner_id r = owner then r\<lparr>bo_imported_storage_bytes := n\<rparr> else r)"
  have d': "d' = d\<lparr>w_boards := map f (w_boards d)\<rparr>" and pos: "0 \<le> n"
    using imp by (auto simp: f_def record_imported_storage_def result_simps split: if_splits)
  obtain tier where t: "tier_for_user d owner = Inr tier" "evaluate_storage tier (usage_for_owner d owner) n = Inr ()"
    using imp by (auto simp: record_imported_storage_def ensure_storage_available_def result_simps)
  have sizes: "sizes_ok d" using ok by (simp add: quotas_ok_def)
  have id: "bo_id (f r) = bo_id r" "bo_owner_id (f r) = bo_owner_id r" for r by (simp_all add: f_def)
  have o: "owner_boards d' u = map f (owner_boards d u)" for u
    unfolding owner_boards_def d' by (simp add: filter_map o_def id cong: filter_cong)
  have ids: "bo_id ` f ` A = bo_id ` A" for A by (simp add: image_image id)
  have other: "map f (owner_boards d u) = owner_boards d u" if "u \<noteq> owner" for u
    using that by (intro map_idI) (auto simp: owner_boards_def f_def)
  have mine: "map (\<lambda>r. bo_imported_storage_bytes (f r)) (owner_boards d owner)
      = map (\<lambda>r. bo_imported_storage_bytes (if bo_id r = b then r\<lparr>bo_imported_storage_bytes := n\<rparr> else r)) (owner_boards d owner)"
    by (intro map_cong) (auto simp: owner_boards_def f_def)
  have "sum_list (map (\<lambda>r. bo_imported_storage_bytes (f r)) (owner_boards d owner))
      \<le> sum_list (map bo_imported_storage_bytes (owner_boards d owner)) + n"
    unfolding mine by (rule sum_update_one) (use sizes pos in \<open>auto simp: sizes_ok_def owner_boards_def distinct_map_filter\<close>)
  then have more: "qu_storage_bytes (usage_for_owner d' owner) \<le> qu_storage_bytes (usage_for_owner d owner) + n"
    "qu_owned_boards (usage_for_owner d' owner) = qu_owned_boards (usage_for_owner d owner)"
    by (simp_all add: usage_for_owner_def o ids o_def) (simp add: d')
  show ?thesis
  proof (rule one_owner_ok [OF ok])
    have "0 \<le> bo_imported_storage_bytes (f r)" if "r \<in> set (w_boards d)" for r
      using that sizes pos by (simp add: f_def sizes_ok_def)
    then show "sizes_ok d'" using sizes by (auto simp: sizes_ok_def d' o_def id image_image)
    show "usage_for_owner d' u = usage_for_owner d u" if "u \<noteq> owner" for u
      unfolding usage_for_owner_def o other [OF that] by (simp add: d')
    show "within_tier tier' (usage_for_owner d' owner)" if "tier_for_user d owner = Inr tier'" for tier'
    proof -
      have "tier' = tier" "within_tier tier (usage_for_owner d owner)" using that t(1) ok by (simp_all add: quotas_ok_def)
      then show ?thesis using storage_evaluated [OF sizes t] more by (simp add: within_tier_def)
    qed
  qed (simp_all add: d')
qed

lemma member_less:
  assumes "w_users d' = w_users d" "w_tiers d' = w_tiers d" "w_files d' = w_files d" "w_boards d' = w_boards d"
  shows "quotas_ok d \<Longrightarrow> quotas_ok d'"
proof -
  assume ok: "quotas_ok d"
  then have "sizes_ok d" by (simp add: quotas_ok_def)
  then show ?thesis using less_usage_ok [OF ok] same_boards_less [of d' d id] assms by simp
qed

lemma quota_step_ok: "quota_step U d d' \<Longrightarrow> quotas_ok d \<Longrightarrow> quotas_ok d'"
proof (induction rule: quota_step.induct)
  case create
  then show ?case using create_row_ok by blast
next
  case upload
  then show ?case using upload_row_ok by blast
next
  case import_board
  then show ?case using import_row_ok by blast
next
  case (drop_file d f)
  then have "sizes_ok d" by (simp add: quotas_ok_def)
  then show ?case using less_usage_ok [OF drop_file] drop_file_less by blast
next
  case (drop_board d now b)
  then have "sizes_ok d" by (simp add: quotas_ok_def)
  then show ?case using less_usage_ok [OF drop_board] drop_board_less by blast
next
  case (update_row title visibility link_access b d r d')
  then have "sizes_ok d" by (simp add: quotas_ok_def)
  then show ?case using less_usage_ok [OF update_row(2)] update_row_less [OF update_row(1)] by blast
next
  case (toggle b d r d')
  then have "sizes_ok d" by (simp add: quotas_ok_def)
  then show ?case using less_usage_ok [OF toggle(2)] toggle_less [OF toggle(1)] by blast
next
  case (add_member now b u role d d')
  show ?case by (rule member_less [OF _ _ _ _ add_member(2)]) (use add_member(1) in \<open>auto simp: add_board_member_def split: if_splits\<close>)
next
  case (remove_member d b u)
  show ?case by (rule member_less [OF _ _ _ _ remove_member]) (simp_all add: remove_board_member_def)
qed

text \<open>C10: No owner ever exceeds his tier: however board creations, uploads, imports, deletions and edits of all users
  interleave, and whatever the handlers saw before their transactions, nobody owns more boards or stores more bytes
  (uploaded files and imported objects together) than his tier allows.\<close>

theorem quotas_never_exceeded:
  assumes "quotas_ok d" and "(quota_step U)\<^sup>*\<^sup>* d d'" and "tier_for_user d' u = Inr tier"
  shows "within_tier tier (usage_for_owner d' u)"
proof -
  have "quotas_ok d'" using assms(2,1) by (induction rule: rtranclp_induct) (auto intro: quota_step_ok)
  then show ?thesis using assms(3) by (simp add: quotas_ok_def)
qed

theorem quotas_never_exceeded_witness:
  "\<exists>d' r f. create_board_row 5 0 7 \<lparr>cb_project_id = 2, cb_title = ''t'', cb_visibility = ''private'', cb_grid_type = None,
       cb_background_color = None, cb_link_access = None\<rparr> sample_web = Inr (r, d')
     \<and> within_tier (hd (w_tiers sample_web)) (usage_for_owner d' 7)"
proof -
  let ?body = "\<lparr>cb_project_id = 2, cb_title = ''t'', cb_visibility = ''private'', cb_grid_type = None,
       cb_background_color = None, cb_link_access = None\<rparr>"
  have ok: "quotas_ok sample_web"
    by (auto simp: quotas_ok_def sizes_ok_def sample_web_def sample_board_def sample_user_def tier_for_user_def find_user_def
        within_tier_def usage_for_owner_def owner_boards_def result_simps split: if_splits)
  obtain r d' where c: "create_board_row 5 0 7 ?body sample_web = Inr (r, d')"
    by (simp add: create_board_row_def ensure_board_available_def tier_for_user_def find_user_def evaluate_board_def
        usage_for_owner_def owner_boards_def sample_web_def sample_board_def sample_user_def get_project_def Let_def)
  have "(quota_step (\<lambda>_. ''u''))\<^sup>*\<^sup>* sample_web d'"
    by (rule r_into_rtranclp, rule quota_step.create [OF c]) (simp add: sample_web_def sample_board_def)
  moreover have "tier_for_user d' 7 = Inr (hd (w_tiers sample_web))"
    using c by (auto simp: create_board_row_def Let_def result_simps sample_web_def sample_user_def tier_for_user_def
        find_user_def split: if_splits)
  ultimately have "within_tier (hd (w_tiers sample_web)) (usage_for_owner d' 7)"
    by (rule quotas_never_exceeded [OF ok])
  then show ?thesis using c by blast
qed

end
