(* ===== verification/Storage.thy ===== *)
theory Storage
  imports Sharing Samples
begin

text \<open>
  Objects in S3-compatible storage: \<open>src/src/storage/upload.rs\<close>, \<open>storage/delete.rs\<close> and the cleanup jobs of
  \<open>src/src/jobs/storage_cleanup.rs\<close>.  The service is the record \<open>s3\<close> of the calls the code makes, over a type of
  store states; what the code relies on is stated as \<open>s3_laws\<close>.
\<close>

subsection \<open>The service\<close>

record s3_error =
  se_code :: "string option"
  se_message :: "string option"

record s3_object =
  so_key :: "string option"
  so_modified :: "int option"

record s3_page =
  pg_contents :: "s3_object list"
  pg_truncated :: "bool option"
  pg_next :: "string option"

record 's s3 =
  put_object :: "string \<Rightarrow> string \<Rightarrow> bytes \<Rightarrow> 's \<Rightarrow> (s3_error + unit) \<times> 's"
  create_bucket :: "string \<Rightarrow> 's \<Rightarrow> (s3_error + unit) \<times> 's"
  delete_object :: "string \<Rightarrow> string \<Rightarrow> 's \<Rightarrow> (s3_error + unit) \<times> 's"
  list_objects :: "'s \<Rightarrow> string \<Rightarrow> string \<Rightarrow> string option \<Rightarrow> s3_error + s3_page"

definition error_text :: "s3_error \<Rightarrow> string" where
  "error_text e =
     ''(code: '' @ (case se_code e of Some c \<Rightarrow> c | None \<Rightarrow> ''Unknown'') @ ''): ''
       @ (case se_message e of Some m \<Rightarrow> m | None \<Rightarrow> ''No error message provided'')"

subsection \<open>Uploading\<close>

definition upload_result :: "string \<Rightarrow> string \<Rightarrow> string \<Rightarrow> (s3_error + unit) \<times> 's \<Rightarrow> (string + string) \<times> 's" where
  "upload_result endpoint bucket object_key r =
     (case fst r of
        Inr _ \<Rightarrow> Inr (trim_end_matches (\<lambda>c. c = CHR ''/'') endpoint @ ''/'' @ bucket @ ''/'' @ object_key)
      | Inl e \<Rightarrow> Inl (''Failed to upload to storage '' @ error_text e), snd r)"

definition upload_to_storage ::
  "'s s3 \<Rightarrow> bool \<Rightarrow> string \<Rightarrow> string \<Rightarrow> string \<Rightarrow> bytes \<Rightarrow> 's \<Rightarrow> (string + string) \<times> 's" where
  "upload_to_storage S production endpoint bucket object_key data s =
     (if trim bucket = [] then (Inl ''Upload error: bucket name is empty'', s)
      else if trim object_key = [] then (Inl ''Upload error: object key is empty'', s)
      else if data = [] then (Inl ''Upload error: data buffer is empty'', s)
      else
        (case put_object S bucket object_key data s of
           (Inl e, s1) \<Rightarrow>
             (if se_code e = Some ''NoSuchBucket'' then
                (if production
                 then (Inl (''Bucket '' @ [CHR 0x27] @ bucket @ [CHR 0x27] @ '' does not exist. In production, buckets must be created beforehand.''), s1)
                 else
                   (case create_bucket S bucket s1 of
                      (Inl e', s2) \<Rightarrow> (Inl (''Failed to create bucket '' @ bucket @ '' '' @ error_text e'), s2)
                    | (Inr _, s2) \<Rightarrow> upload_result endpoint bucket object_key (put_object S bucket object_key data s2)))
              else upload_result endpoint bucket object_key (Inl e, s1))
         | (Inr u, s1) \<Rightarrow> upload_result endpoint bucket object_key (Inr u, s1)))"

subsection \<open>Deleting\<close>

definition object_key_from_stored_url :: "string \<Rightarrow> string \<Rightarrow> string \<Rightarrow> string option" where
  "object_key_from_stored_url endpoint_url bucket stored_url =
     (let endpoint = trim_end_matches (\<lambda>c. c = CHR ''/'') endpoint_url in
      if endpoint = [] \<or> bucket = [] then None
      else
        Option.bind (strip_prefix stored_url endpoint) (\<lambda>r. Option.bind (strip_prefix r ''/'') (\<lambda>storage_path.
        Option.bind (strip_prefix storage_path bucket) (\<lambda>r'. Option.bind (strip_prefix r' ''/'') (\<lambda>object_key.
        if object_key = [] then None else Some object_key)))))"

definition delete_from_storage :: "'s s3 \<Rightarrow> string \<Rightarrow> string \<Rightarrow> 's \<Rightarrow> (string + unit) \<times> 's" where
  "delete_from_storage S bucket object_key s =
     (if trim bucket = [] then (Inl ''Delete error: bucket name is empty'', s)
      else if trim object_key = [] then (Inl ''Delete error: object key is empty'', s)
      else
        (case delete_object S bucket object_key s of
           (Inr _, s') \<Rightarrow> (Inr (), s')
         | (Inl e, s') \<Rightarrow>
             (Inl (''Failed to delete '' @ bucket @ ''/'' @ object_key @ '' '' @ error_text e), s')))"

definition validate_deletion_prefix :: "string \<Rightarrow> string + unit" where
  "validate_deletion_prefix prefix =
     (if trim prefix = [] then Inl ''Delete-prefix error: object prefix is empty''
      else if \<not> ends_with prefix ''/'' then Inl (''Delete-prefix error: object prefix must end with '/'' @ [CHR 0x27])
      else Inr ())"

text \<open>
  The paging loop of the two listings; it ends when the service stops sending pages, so it is partial.
  \<open>missing\<close> is the error for a truncated page without a token, \<open>None\<close> where the caller just stops.
\<close>

partial_function (option) list_pages ::
  "'s s3 \<Rightarrow> 's \<Rightarrow> string \<Rightarrow> string \<Rightarrow> string option \<Rightarrow> string option \<Rightarrow> s3_object list \<Rightarrow>
   (string + s3_object list) option" where
  "list_pages S s bucket prefix missing token acc =
     (case list_objects S s bucket prefix token of
        Inl e \<Rightarrow> Some (Inl (''Failed to list objects below '' @ bucket @ ''/'' @ prefix @ '' '' @ error_text e))
      | Inr pg \<Rightarrow>
          (if pg_truncated pg = Some True then
             (case pg_next pg of
                Some t \<Rightarrow> list_pages S s bucket prefix missing (Some t) (acc @ pg_contents pg)
              | None \<Rightarrow> Some (case missing of Some m \<Rightarrow> Inl m | None \<Rightarrow> Inr (acc @ pg_contents pg)))
           else Some (Inr (acc @ pg_contents pg))))"

fun delete_keys :: "'s s3 \<Rightarrow> string \<Rightarrow> string list \<Rightarrow> 's \<Rightarrow> (string + unit) \<times> 's" where
  "delete_keys S bucket [] s = (Inr (), s)"
| "delete_keys S bucket (k # ks) s =
     (case delete_from_storage S bucket k s of
        (Inl e, s') \<Rightarrow> (Inl e, s')
      | (Inr _, s') \<Rightarrow> delete_keys S bucket ks s')"

definition delete_objects_with_prefix :: "'s s3 \<Rightarrow> string \<Rightarrow> string \<Rightarrow> 's \<Rightarrow> ((string + nat) \<times> 's) option" where
  "delete_objects_with_prefix S bucket prefix s =
     (if trim bucket = [] then Some (Inl ''Delete-prefix error: bucket name is empty'', s)
      else
        (case validate_deletion_prefix prefix of
           Inl e \<Rightarrow> Some (Inl e, s)
         | Inr _ \<Rightarrow>
             (case list_pages S s bucket prefix
                (Some (''S3 returned a truncated listing without a continuation token for '' @ bucket @ ''/'' @ prefix))
                None [] of
                None \<Rightarrow> None
              | Some (Inl e) \<Rightarrow> Some (Inl e, s)
              | Some (Inr objects) \<Rightarrow>
                  (let keys = List.map_filter so_key objects in
                   case delete_keys S bucket keys s of
                     (Inl e, s') \<Rightarrow> Some (Inl e, s')
                   | (Inr _, s') \<Rightarrow> Some (Inr (length keys), s')))))"

subsection \<open>Garbage collection\<close>

text \<open>Documents by id with the newest modification and their keys, in the order they were listed.\<close>

type_synonym pdf_docs = "(string \<times> int \<times> string list) list"

definition add_doc_key :: "string \<Rightarrow> int \<Rightarrow> string \<Rightarrow> pdf_docs \<Rightarrow> pdf_docs" where
  "add_doc_key doc_id modified key docs =
     (if doc_id \<in> fst ` set docs
      then map (\<lambda>(d, newest, keys). if d = doc_id then (d, max newest modified, keys @ [key]) else (d, newest, keys)) docs
      else docs @ [(doc_id, max 0 modified, [key])])"

definition group_object :: "string \<Rightarrow> s3_object \<Rightarrow> pdf_docs \<Rightarrow> pdf_docs" where
  "group_object prefix ob docs =
     (case so_key ob of
        None \<Rightarrow> docs
      | Some key \<Rightarrow>
          (case strip_prefix key prefix of
             None \<Rightarrow> docs
           | Some rest \<Rightarrow>
               (let doc_id = hd (split_char CHR ''/'' rest) in
                if doc_id = [] then docs
                else add_doc_key doc_id (case so_modified ob of Some t \<Rightarrow> t | None \<Rightarrow> 0) key docs)))"

definition gc_orphaned_pdf_docs ::
  "'s s3 \<Rightarrow> string \<Rightarrow> string \<Rightarrow> int \<Rightarrow> string list \<Rightarrow> int \<Rightarrow> 's \<Rightarrow> 's option" where
  "gc_orphaned_pdf_docs S bucket prefix now referenced grace_secs s =
     (case list_pages S s bucket prefix None None [] of
        None \<Rightarrow> None
      | Some (Inl _) \<Rightarrow> Some s
      | Some (Inr objects) \<Rightarrow>
          Some (fold (\<lambda>(doc_id, newest, keys) s.
              if doc_id \<in> set referenced \<or> now - newest < grace_secs then s
              else fold (\<lambda>key s. snd (delete_from_storage S bucket key s)) keys s)
            (fold (group_object prefix) objects []) s))"

text \<open>\<open>up_delete\<close> says for which rows the metadata delete succeeds.\<close>

definition gc_file ::
  "'s s3 \<Rightarrow> string \<Rightarrow> string \<Rightarrow> int \<Rightarrow> string list \<Rightarrow> int \<Rightarrow> (uuid \<Rightarrow> bool) \<Rightarrow> board_file \<Rightarrow> web_db \<times> 's \<Rightarrow> web_db \<times> 's" where
  "gc_file S bucket pdf_prefix now referenced grace_secs up_delete f st =
     (case st of (d, s) \<Rightarrow>
        if starts_with (bf_object_key f) pdf_prefix \<or> bf_object_key f \<in> set referenced
           \<or> now - bf_created_at f < grace_secs then (d, s)
        else
          (case delete_from_storage S bucket (bf_object_key f) s of
             (Inl _, s') \<Rightarrow> (d, s')
           | (Inr _, s') \<Rightarrow> (if up_delete (bf_id f) then delete_board_file (bf_id f) d else d, s')))"

definition gc_orphaned_board_files ::
  "'s s3 \<Rightarrow> string \<Rightarrow> string \<Rightarrow> int \<Rightarrow> bool \<Rightarrow> (uuid \<Rightarrow> bool) \<Rightarrow> uuid \<Rightarrow> string list \<Rightarrow> int \<Rightarrow> web_db \<times> 's \<Rightarrow> web_db \<times> 's" where
  "gc_orphaned_board_files S bucket pdf_prefix now up_list up_delete board_id referenced grace_secs st =
     (if \<not> up_list then st
      else fold (gc_file S bucket pdf_prefix now referenced grace_secs up_delete)
             (list_board_files_by_board_id (fst st) board_id) st)"

definition board_pdf_prefix :: "(uuid \<Rightarrow> string) \<Rightarrow> uuid \<Rightarrow> string" where
  "board_pdf_prefix U board_id = ''boards/'' @ U board_id @ ''/pdf/''"

definition gc_orphaned_board_storage ::
  "'s s3 \<Rightarrow> (uuid \<Rightarrow> string) \<Rightarrow> string \<Rightarrow> int \<Rightarrow> bool \<Rightarrow> (uuid \<Rightarrow> bool) \<Rightarrow> uuid \<Rightarrow> string list \<Rightarrow> string list \<Rightarrow> int \<Rightarrow>
   web_db \<times> 's \<Rightarrow> (web_db \<times> 's) option" where
  "gc_orphaned_board_storage S U bucket now up_list up_delete board_id referenced_docs referenced_keys grace_secs st =
     (case gc_orphaned_pdf_docs S bucket (board_pdf_prefix U board_id) now referenced_docs grace_secs (snd st) of
        None \<Rightarrow> None
      | Some s \<Rightarrow>
          Some (gc_orphaned_board_files S bucket (board_pdf_prefix U board_id) now up_list up_delete board_id
                  referenced_keys grace_secs (fst st, s)))"

text \<open>\<open>up_tx\<close> says whether the fence transaction begins, locks and reads; \<open>j\<close> is the board's journal under the fence.\<close>

definition gc_from_read_model ::
  "'s s3 \<Rightarrow> (uuid \<Rightarrow> string) \<Rightarrow> string \<Rightarrow> bool \<Rightarrow> bool \<Rightarrow> bool \<Rightarrow> (uuid \<Rightarrow> bool) \<Rightarrow> int \<Rightarrow> bdb \<Rightarrow> uuid \<Rightarrow> int \<Rightarrow>
   web_db \<times> 's \<Rightarrow> (web_db \<times> 's) option" where
  "gc_from_read_model S U bucket delete_enabled up_tx up_list up_delete now j board_id grace_secs st =
     (if \<not> delete_enabled \<or> \<not> up_tx then Some st
      else
        (case read_if_fresh_tx j of
           None \<Rightarrow> Some st
         | Some (referenced_keys, referenced_docs) \<Rightarrow>
             gc_orphaned_board_storage S U bucket now up_list up_delete board_id referenced_docs referenced_keys
               grace_secs st))"

subsection \<open>Cleanup jobs\<close>

definition delete_job_objects :: "'s s3 \<Rightarrow> string \<Rightarrow> storage_deletion_job \<Rightarrow> 's \<Rightarrow> ((string + nat) \<times> 's) option" where
  "delete_job_objects S bucket job s =
     (case delete_objects_with_prefix S bucket (dj_object_prefix job) s of
        None \<Rightarrow> None
      | Some (Inl e, s') \<Rightarrow> Some (Inl e, s')
      | Some (Inr deleted, s') \<Rightarrow>
          (case dj_preview_object_key job of
             None \<Rightarrow> Some (Inr deleted, s')
           | Some preview_key \<Rightarrow>
               (if trim preview_key \<noteq> [] \<and> \<not> starts_with preview_key (dj_object_prefix job)
                then (case delete_from_storage S bucket preview_key s' of
                        (Inl e, s'') \<Rightarrow> Some (Inl e, s'')
                      | (Inr _, s'') \<Rightarrow> Some (Inr (Suc deleted), s''))
                else Some (Inr deleted, s'))))"

text \<open>\<open>up_complete\<close> and \<open>up_record\<close> say whether the two statements reach the database.\<close>

definition process_job ::
  "'s s3 \<Rightarrow> string \<Rightarrow> bool \<Rightarrow> bool \<Rightarrow> int \<Rightarrow> storage_deletion_job \<Rightarrow> web_db \<times> 's \<Rightarrow> (web_db \<times> 's) option" where
  "process_job S bucket up_complete up_record now job st =
     (case delete_job_objects S bucket job (snd st) of
        None \<Rightarrow> None
      | Some (Inr _, s') \<Rightarrow>
          Some (if up_complete then complete_job (dj_board_id job) (dj_object_prefix job) (fst st) else fst st, s')
      | Some (Inl e, s') \<Rightarrow>
          Some (if up_record then record_failure now (dj_board_id job) (dj_object_prefix job) e (fst st) else fst st, s'))"

fun process_jobs ::
  "'s s3 \<Rightarrow> string \<Rightarrow> (uuid \<Rightarrow> bool) \<Rightarrow> (uuid \<Rightarrow> bool) \<Rightarrow> int \<Rightarrow> storage_deletion_job list \<Rightarrow> web_db \<times> 's \<Rightarrow>
   (web_db \<times> 's) option" where
  "process_jobs S bucket up_complete up_record now [] st = Some st"
| "process_jobs S bucket up_complete up_record now (job # jobs) st =
     Option.bind (process_job S bucket (up_complete (dj_board_id job)) (up_record (dj_board_id job)) now job st)
       (process_jobs S bucket up_complete up_record now jobs)"

definition clamp_batch :: "int \<Rightarrow> nat" where
  "clamp_batch batch_limit = nat (max 1 (min 100 batch_limit))"

definition run_cleanup_cycle ::
  "'s s3 \<Rightarrow> string \<Rightarrow> bool \<Rightarrow> (uuid \<Rightarrow> bool) \<Rightarrow> (uuid \<Rightarrow> bool) \<Rightarrow> int \<Rightarrow> int \<Rightarrow> web_db \<times> 's \<Rightarrow> (web_db \<times> 's) option" where
  "run_cleanup_cycle S bucket up_list up_complete up_record batch_limit now st =
     (if \<not> up_list then Some st
      else process_jobs S bucket up_complete up_record now (list_pending now (clamp_batch batch_limit) (fst st)) st)"

definition cleanup_board_storage_now ::
  "'s s3 \<Rightarrow> string \<Rightarrow> bool \<Rightarrow> bool \<Rightarrow> int \<Rightarrow> uuid \<Rightarrow> web_db \<times> 's \<Rightarrow> (web_db \<times> 's) option" where
  "cleanup_board_storage_now S bucket up_get up_record now board_id st =
     (case (if up_get then get_job_by_board_id (fst st) board_id else None) of
        None \<Rightarrow> Some st
      | Some job \<Rightarrow>
          (case delete_job_objects S bucket job (snd st) of
             None \<Rightarrow> None
           | Some (Inr _, s') \<Rightarrow> Some (fst st, s')
           | Some (Inl e, s') \<Rightarrow>
               Some (if up_record then record_failure now board_id (dj_object_prefix job) e (fst st) else fst st, s')))"

subsection \<open>What the code relies on\<close>

text \<open>
  \<open>obs\<close> reads the bucket and key of every stored object.  A call that succeeds has done what it says; one that fails
  may or may not have done it (the request can be carried out and its answer lost), and no call touches another object.
\<close>

definition s3_laws :: "'s s3 \<Rightarrow> ('s \<Rightarrow> (string \<times> string) set) \<Rightarrow> bool" where
  "s3_laws S obs \<longleftrightarrow>
     (\<forall>b k x s. obs s \<subseteq> obs (snd (put_object S b k x s)) \<and> obs (snd (put_object S b k x s)) \<subseteq> insert (b, k) (obs s)
        \<and> (fst (put_object S b k x s) = Inr () \<longrightarrow> (b, k) \<in> obs (snd (put_object S b k x s))))
     \<and> (\<forall>b s. obs (snd (create_bucket S b s)) = obs s)
     \<and> (\<forall>b k s. obs s - {(b, k)} \<subseteq> obs (snd (delete_object S b k s)) \<and> obs (snd (delete_object S b k s)) \<subseteq> obs s
        \<and> (fst (delete_object S b k s) = Inr () \<longrightarrow> (b, k) \<notin> obs (snd (delete_object S b k s))))"

text \<open>A listing whose continuation tokens run out.\<close>

inductive pages_end :: "'s s3 \<Rightarrow> 's \<Rightarrow> string \<Rightarrow> string \<Rightarrow> string option \<Rightarrow> bool"
  for S s bucket prefix where
  fails: "list_objects S s bucket prefix token = Inl e \<Longrightarrow> pages_end S s bucket prefix token"
| ends: "list_objects S s bucket prefix token = Inr pg \<Longrightarrow> pg_truncated pg \<noteq> Some True \<or> pg_next pg = None \<Longrightarrow>
    pages_end S s bucket prefix token"
| continues: "list_objects S s bucket prefix token = Inr pg \<Longrightarrow> pg_next pg = Some t \<Longrightarrow>
    pages_end S s bucket prefix (Some t) \<Longrightarrow> pages_end S s bucket prefix token"

lemma list_pages_ends: "pages_end S s bucket prefix token \<Longrightarrow> list_pages S s bucket prefix missing token acc \<noteq> None"
proof (induction arbitrary: acc rule: pages_end.induct)
  case (continues token pg t)
  then show ?case by (subst list_pages.simps) (auto split: option.splits)
qed (subst list_pages.simps; auto split: option.splits)+

lemma delete_from_storage_obs:
  assumes "s3_laws S obs"
  shows "obs s - {(b, k)} \<subseteq> obs (snd (delete_from_storage S b k s)) \<and> obs (snd (delete_from_storage S b k s)) \<subseteq> obs s
    \<and> (fst (delete_from_storage S b k s) = Inr () \<longrightarrow> obs (snd (delete_from_storage S b k s)) = obs s - {(b, k)})"
proof -
  have "obs s - {(b, k)} \<subseteq> obs (snd (delete_object S b k s)) \<and> obs (snd (delete_object S b k s)) \<subseteq> obs s
        \<and> (fst (delete_object S b k s) = Inr () \<longrightarrow> (b, k) \<notin> obs (snd (delete_object S b k s)))"
    using assms by (simp add: s3_laws_def)
  then show ?thesis by (auto simp: delete_from_storage_def split: prod.splits sum.splits)
qed

lemma delete_from_storage_keeps:
  "s3_laws S obs \<Longrightarrow> p \<in> obs s \<Longrightarrow> p \<noteq> (b, k) \<Longrightarrow> p \<in> obs (snd (delete_from_storage S b k s))"
  using delete_from_storage_obs [of S obs s b k] by blast

lemma upload_to_storage_obs:
  assumes "s3_laws S obs"
  shows "obs s \<subseteq> obs (snd (upload_to_storage S production endpoint b k x s))
    \<and> obs (snd (upload_to_storage S production endpoint b k x s)) \<subseteq> insert (b, k) (obs s)
    \<and> ((\<exists>url. fst (upload_to_storage S production endpoint b k x s) = Inr url) \<longrightarrow>
        obs (snd (upload_to_storage S production endpoint b k x s)) = insert (b, k) (obs s))"
proof -
  have put: "obs t \<subseteq> obs (snd (put_object S b k x t)) \<and> obs (snd (put_object S b k x t)) \<subseteq> insert (b, k) (obs t)
      \<and> (fst (put_object S b k x t) = Inr () \<longrightarrow> (b, k) \<in> obs (snd (put_object S b k x t)))"
    and new: "obs (snd (create_bucket S b t)) = obs t" for t
    using assms by (simp_all add: s3_laws_def)
  show ?thesis
    using put [of s] new [of "snd (put_object S b k x s)"] put [of "snd (create_bucket S b (snd (put_object S b k x s)))"]
    by (auto simp: upload_to_storage_def upload_result_def split: prod.splits sum.splits)
qed

subsection \<open>Garbage collection keeps what is referenced\<close>

definition in_doc :: "string \<Rightarrow> string \<Rightarrow> string \<Rightarrow> bool" where
  "in_doc prefix doc_id key \<longleftrightarrow> (\<exists>rest. key = prefix @ rest \<and> hd (split_char CHR ''/'' rest) = doc_id)"

definition docs_ok :: "string \<Rightarrow> pdf_docs \<Rightarrow> bool" where
  "docs_ok prefix docs \<longleftrightarrow> (\<forall>d n keys k. (d, n, keys) \<in> set docs \<longrightarrow> k \<in> set keys \<longrightarrow> in_doc prefix d k)"

lemma add_doc_key_ok: "docs_ok prefix docs \<Longrightarrow> in_doc prefix doc_id key \<Longrightarrow> docs_ok prefix (add_doc_key doc_id t key docs)"
  unfolding docs_ok_def add_doc_key_def by (auto split: if_splits)

lemma group_object_ok: "docs_ok prefix docs \<Longrightarrow> docs_ok prefix (group_object prefix ob docs)"
  by (auto simp: group_object_def Let_def strip_prefix_Some in_doc_def intro!: add_doc_key_ok split: option.splits)

lemma group_objects_ok: "docs_ok prefix docs \<Longrightarrow> docs_ok prefix (fold (group_object prefix) obs docs)"
  by (induction obs arbitrary: docs) (simp_all add: group_object_ok)

lemma fold_deletes_keep:
  assumes laws: "s3_laws S obs"
  shows "p \<in> obs s \<Longrightarrow> p \<notin> Pair bucket ` set keys
    \<Longrightarrow> p \<in> obs (fold (\<lambda>key s. snd (delete_from_storage S bucket key s)) keys s)"
  by (induction keys arbitrary: s) (auto simp: delete_from_storage_keeps [OF laws])

lemma gc_docs_keep:
  assumes laws: "s3_laws S obs" and "docs_ok prefix docs" and "p \<in> obs s"
    and keep: "\<forall>rest. p = (bucket, prefix @ rest) \<longrightarrow> hd (split_char CHR ''/'' rest) \<in> set referenced"
  shows "p \<in> obs (fold (\<lambda>(doc_id, newest, keys) s. if doc_id \<in> set referenced \<or> now - newest < grace_secs then s
              else fold (\<lambda>key s. snd (delete_from_storage S bucket key s)) keys s) docs s)"
  using assms(2,3)
proof (induction docs arbitrary: s)
  case (Cons x docs)
  obtain d n keys where x: "x = (d, n, keys)" by (cases x) auto
  have rest: "docs_ok prefix docs" using Cons.prems(1) unfolding docs_ok_def by (meson list.set_intros(2))
  have "p \<notin> Pair bucket ` set keys" if "d \<notin> set referenced"
  proof
    assume "p \<in> Pair bucket ` set keys"
    then obtain k where k: "p = (bucket, k)" "k \<in> set keys" by blast
    then have "in_doc prefix d k" using Cons.prems(1) unfolding docs_ok_def x by (meson list.set_intros(1))
    then show False using that keep k(1) by (auto simp: in_doc_def)
  qed
  then show ?case
    using Cons.IH [OF rest] Cons.prems(2) fold_deletes_keep [OF laws, of p s bucket keys] by (auto simp: x)
qed simp

lemma gc_files_keep:
  assumes laws: "s3_laws S obs"
    and "p \<in> obs (snd st)"
    and keep: "\<forall>f \<in> set files. p = (bucket, bf_object_key f) \<longrightarrow>
        starts_with (bf_object_key f) pdf_prefix \<or> bf_object_key f \<in> set referenced"
  shows "p \<in> obs (snd (fold (gc_file S bucket pdf_prefix now referenced grace_secs up_delete) files st))"
  using assms(2,3)
proof (induction files arbitrary: st)
  case (Cons f files)
  have "p \<in> obs (snd (gc_file S bucket pdf_prefix now referenced grace_secs up_delete f st))"
    using Cons.prems delete_from_storage_keeps [OF laws, of p "snd st" bucket "bf_object_key f"]
    by (auto simp: gc_file_def split: prod.splits sum.splits)
  then show ?case using Cons by simp
qed simp

text \<open>The references an object key or a document of the projected state gives.\<close>

definition asset_projection_of :: "bdb \<Rightarrow> stable_asset_refs \<Rightarrow> bool" where
  "asset_projection_of j refs \<longleftrightarrow> (\<exists>d seq gen. j = replace_projection_tx d seq gen (ar_object_keys refs) (ar_pdf_doc_ids refs)
       (if ar_unstable refs then Some ''unrecognized_internal_url'' else None))"

lemma write_assets_projects: "asset_projection_of (write_assets rb pn seq d) (pn_assets pn)"
  unfolding asset_projection_of_def write_assets_def by blast

lemma split_refs_mono: "split_refs rows ks ds = Some (ks', ds') \<Longrightarrow> set ks \<subseteq> set ks' \<and> set ds \<subseteq> set ds'"
  by (induction rows ks ds rule: split_refs.induct) (auto split: if_splits)

lemma split_refs_finds:
  assumes "split_refs rows ks ds = Some (ks', ds')"
  shows "((''object_key'', r, x) \<in> set rows \<longrightarrow> r \<in> set ks') \<and> ((''pdf_doc'', r, x) \<in> set rows \<longrightarrow> r \<in> set ds')"
  using assms
proof (induction rows ks ds rule: split_refs.induct)
  case (2 k v y rest ks ds)
  consider "k = ''object_key''" | "k = ''pdf_doc''" using "2.prems" by (simp split: if_splits)
  then show ?case
  proof cases
    case 1
    then have s: "split_refs rest (List.insert v ks) ds = Some (ks', ds')" using "2.prems" by simp
    show ?thesis using "2.IH"(1) [OF 1 s] split_refs_mono [OF s] by (auto simp: 1)
  next
    case k: 2
    then have s: "split_refs rest ks (List.insert v ds) = Some (ks', ds')" using "2.prems" by simp
    have "k \<noteq> ''object_key''" using k by simp
    from "2.IH"(2) [OF this k s] show ?thesis using split_refs_mono [OF s] by (auto simp: k)
  qed
qed simp

lemma fresh_read_finds:
  assumes "asset_projection_of j refs" "read_if_fresh_tx j = Some (keys, docs)"
  shows "set (ar_object_keys refs) \<subseteq> set keys \<and> set (ar_pdf_doc_ids refs) \<subseteq> set docs \<and> \<not> ar_unstable refs"
proof -
  obtain d seq gen where j: "j = replace_projection_tx d seq gen (ar_object_keys refs) (ar_pdf_doc_ids refs)
       (if ar_unstable refs then Some ''unrecognized_internal_url'' else None)"
    using assms(1) unfolding asset_projection_of_def by blast
  have u: "\<not> ar_unstable refs" and r: "split_refs (d_asset_refs j) [] [] = Some (keys, docs)"
    using assms(2) by (auto simp: read_if_fresh_tx_def j replace_projection_tx_def split: option.splits if_splits)
  have "(''object_key'', k, seq, gen) \<in> set (d_asset_refs j)" if "k \<in> set (ar_object_keys refs)" for k
    using that u by (simp add: j replace_projection_tx_def)
  moreover have "(''pdf_doc'', k, seq, gen) \<in> set (d_asset_refs j)" if "k \<in> set (ar_pdf_doc_ids refs)" for k
    using that u by (simp add: j replace_projection_tx_def)
  ultimately show ?thesis using split_refs_finds [OF r] u by blast
qed

text \<open>An object some component of the state names, by key outside the PDF folder or by document inside it.\<close>

definition state_refers :: "string \<Rightarrow> json \<Rightarrow> string \<Rightarrow> bool" where
  "state_refers pdf_prefix state k \<longleftrightarrow>
     (\<exists>m \<in> set (objects_in state).
        (\<exists>p \<in> set m. is_object_key (fst p) \<and> snd p = JStr k \<and> k \<noteq> []) \<and> \<not> starts_with k pdf_prefix
        \<or> (\<exists>doc_id. pdf_doc m = Some doc_id \<and> in_doc pdf_prefix doc_id k))"

lemma projection_finds:
  assumes "m \<in> set (objects_in state)"
  shows "pdf_doc m = Some doc_id \<Longrightarrow> doc_id \<in> set (ar_pdf_doc_ids (project_stable_refs state board))"
    and "p \<in> set m \<Longrightarrow> is_object_key (fst p) \<Longrightarrow> snd p = JStr k \<Longrightarrow> k \<noteq> [] \<Longrightarrow>
      k \<in> set (ar_object_keys (project_stable_refs state board))"
  using walk_object_le [OF assms, of "''/boards/'' @ board @ ''/''" no_refs]
  by (fastforce simp: project_stable_refs_def visit_pdf_def entry_refs_def visit_entry_def nonempty_str_def refs_le_def)+

text \<open>C11: Garbage collection keeps what the board uses: run against the asset read model of any committed
  projection, with a listing that ends, it returns, and these objects are still stored: every object outside the
  board's PDF folder that a component of the projection names by its key, every object inside the PDF folder whose
  document id a PDF page component of the projection carries, and every object of any other bucket. A stale, absent or
  blocked read model deletes nothing. A key inside the PDF folder protects nothing by itself: only the document id
  counts there, and \<open>gc_deletes_referenced_source\<close> is a board that loses an object it names by
  key.\<close>

theorem gc_keeps_referenced:
  assumes laws: "s3_laws S obs"
    and proj: "asset_projection_of j (project_stable_refs state (U b))"
    and paging: "pages_end S (snd st) bucket (board_pdf_prefix U b) None"
  shows "\<exists>d' s'. gc_from_read_model S U bucket enabled up_tx up_list up_delete now j b grace_secs st = Some (d', s')
     \<and> (\<forall>k. (bucket, k) \<in> obs (snd st) \<longrightarrow> state_refers (board_pdf_prefix U b) state k \<longrightarrow> (bucket, k) \<in> obs s')
     \<and> (\<forall>b' k. b' \<noteq> bucket \<longrightarrow> (b', k) \<in> obs (snd st) \<longrightarrow> (b', k) \<in> obs s')
     \<and> (read_if_fresh_tx j = None \<longrightarrow> (d', s') = st)"
proof (cases "enabled \<and> up_tx \<and> read_if_fresh_tx j \<noteq> None")
  case False
  then show ?thesis by (cases st) (auto simp: gc_from_read_model_def split: option.splits)
next
  case True
  then obtain keys docs where read: "read_if_fresh_tx j = Some (keys, docs)" by auto
  let ?pre = "board_pdf_prefix U b"
  have found: "set (ar_object_keys (project_stable_refs state (U b))) \<subseteq> set keys"
    "set (ar_pdf_doc_ids (project_stable_refs state (U b))) \<subseteq> set docs"
    using fresh_read_finds [OF proj read] by simp_all
  obtain r where r: "list_pages S (snd st) bucket ?pre None None [] = Some r"
    using list_pages_ends [OF paging] by blast
  have keepdoc: "(bucket', k) \<in> obs s'" if "gc_orphaned_pdf_docs S bucket ?pre now docs grace_secs (snd st) = Some s'"
    "(bucket', k) \<in> obs (snd st)" "bucket' = bucket \<longrightarrow> (\<forall>rest. k = ?pre @ rest \<longrightarrow> hd (split_char CHR ''/'' rest) \<in> set docs)"
    for s' bucket' k
    using that r gc_docs_keep [OF laws, of ?pre "fold (group_object ?pre) objs []" "(bucket', k)" "snd st" bucket docs for objs]
      group_objects_ok [of ?pre "[]"]
    by (auto simp: gc_orphaned_pdf_docs_def docs_ok_def [of _ "[]"] split: sum.splits)
  obtain s1 where s1: "gc_orphaned_pdf_docs S bucket ?pre now docs grace_secs (snd st) = Some s1"
    using r by (cases r) (simp_all add: gc_orphaned_pdf_docs_def)
  let ?st' = "gc_orphaned_board_files S bucket ?pre now up_list up_delete b keys grace_secs (fst st, s1)"
  have gc: "gc_from_read_model S U bucket enabled up_tx up_list up_delete now j b grace_secs st = Some ?st'"
    using True by (simp add: gc_from_read_model_def read gc_orphaned_board_storage_def s1)
  have files: "p \<in> obs (snd ?st')" if "p \<in> obs s1" "\<forall>k. p = (bucket, k) \<longrightarrow> starts_with k ?pre \<or> k \<in> set keys" for p
    using that gc_files_keep [OF laws, of p "(fst st, s1)" "list_board_files_by_board_id (fst st) b" bucket ?pre keys]
    by (simp add: gc_orphaned_board_files_def)
  have "(bucket, k) \<in> obs (snd ?st')" if here: "(bucket, k) \<in> obs (snd st)" and refers: "state_refers ?pre state k" for k
  proof -
    obtain m where m: "m \<in> set (objects_in state)"
      and "(\<exists>p \<in> set m. is_object_key (fst p) \<and> snd p = JStr k \<and> k \<noteq> []) \<and> \<not> starts_with k ?pre
        \<or> (\<exists>doc_id. pdf_doc m = Some doc_id \<and> in_doc ?pre doc_id k)"
      using refers unfolding state_refers_def by blast
    then consider p where "p \<in> set m" "is_object_key (fst p)" "snd p = JStr k" "k \<noteq> []" "\<not> starts_with k ?pre"
      | doc_id where "pdf_doc m = Some doc_id" "in_doc ?pre doc_id k" by blast
    then show ?thesis
    proof cases
      case 1
      have "k \<in> set keys" using projection_finds(2) [OF m 1(1-4)] found(1) by blast
      moreover have "(bucket, k) \<in> obs s1" using 1(5) by (intro keepdoc [OF s1 here]) auto
      ultimately show ?thesis by (intro files) simp_all
    next
      case 2
      have "doc_id \<in> set docs" using projection_finds(1) [OF m 2(1)] found(2) by blast
      then have "(bucket, k) \<in> obs s1" using 2(2) by (intro keepdoc [OF s1 here]) (auto simp: in_doc_def)
      then show ?thesis using 2(2) by (intro files) (auto simp: in_doc_def)
    qed
  qed
  moreover have "(b', k) \<in> obs (snd ?st')" if "b' \<noteq> bucket" "(b', k) \<in> obs (snd st)" for b' k
    using that keepdoc [OF s1 that(2)] by (intro files) auto
  ultimately show ?thesis using gc read by (cases ?st') auto
qed

subsection \<open>A store in memory\<close>

definition mem_s3 :: "(string \<times> string) list s3" where
  "mem_s3 = \<lparr>put_object = (\<lambda>b k x s. (Inr (), List.insert (b, k) s)), create_bucket = (\<lambda>b s. (Inr (), s)),
     delete_object = (\<lambda>b k s. (Inr (), removeAll (b, k) s)),
     list_objects = (\<lambda>s b p token. Inr \<lparr>pg_contents = map (\<lambda>x. \<lparr>so_key = Some (snd x), so_modified = Some 0\<rparr>)
        (filter (\<lambda>x. fst x = b \<and> starts_with (snd x) p) s), pg_truncated = None, pg_next = None\<rparr>)\<rparr>"

lemma mem_s3_laws: "s3_laws mem_s3 set"
  by (auto simp: s3_laws_def mem_s3_def)

lemma mem_s3_ends: "pages_end mem_s3 s bucket prefix token"
  by (rule pages_end.ends, simp add: mem_s3_def, simp)

definition sample_state :: json where
  "sample_state = JArr [JObj [(''objectKey'', JStr ''boards/u/a.png'')], JObj [(''type'', JStr ''pdf.page''), (''docId'', JStr ''d'')]]"

definition sample_projected :: "json \<Rightarrow> bdb \<Rightarrow> bdb" where
  "sample_projected state d =
     (let refs = project_stable_refs state ''u'' in
      replace_projection_tx d 3 0 (ar_object_keys refs) (ar_pdf_doc_ids refs)
        (if ar_unstable refs then Some ''unrecognized_internal_url'' else None))"

lemma sample_projection_of: "asset_projection_of (sample_projected state d) (project_stable_refs state ''u'')"
  unfolding asset_projection_of_def sample_projected_def Let_def by blast

lemma object_key_name: "is_object_key ''objectKey''"
  by code_simp

theorem gc_keeps_referenced_witness:
  "\<exists>d' s'. gc_from_read_model mem_s3 (\<lambda>_. ''u'') ''files'' True True True (\<lambda>_. True) 900 (sample_projected sample_state sample_db) 1 60
       (sample_web, [(''files'', ''boards/u/a.png''), (''files'', ''boards/u/pdf/d/page-0.svg''), (''files'', ''boards/u/pdf/e/page-0.svg'')])
     = Some (d', s') \<and> (''files'', ''boards/u/a.png'') \<in> set s' \<and> (''files'', ''boards/u/pdf/d/page-0.svg'') \<in> set s'"
proof -
  let ?s = "[(''files'', ''boards/u/a.png''), (''files'', ''boards/u/pdf/d/page-0.svg''), (''files'', ''boards/u/pdf/e/page-0.svg'')]"
  have "state_refers (board_pdf_prefix (\<lambda>_. ''u'') 1) sample_state ''boards/u/a.png''"
    "state_refers (board_pdf_prefix (\<lambda>_. ''u'') 1) sample_state ''boards/u/pdf/d/page-0.svg''"
    by (simp_all add: state_refers_def sample_state_def object_key_name starts_with_def board_pdf_prefix_def pdf_doc_def
        nonempty_str_def as_str_def in_doc_def)
  note refers = this
  obtain d' s' where gc: "gc_from_read_model mem_s3 (\<lambda>_. ''u'') ''files'' True True True (\<lambda>_. True) 900
        (sample_projected sample_state sample_db) 1 60 (sample_web, ?s) = Some (d', s')"
    and kept: "\<forall>k. (''files'', k) \<in> set ?s \<longrightarrow> state_refers (board_pdf_prefix (\<lambda>_. ''u'') 1) sample_state k \<longrightarrow> (''files'', k) \<in> set s'"
    using gc_keeps_referenced [where U = "\<lambda>_. ''u''" and b = 1 and st = "(sample_web, ?s)" and j = "sample_projected sample_state sample_db"
        and bucket = "''files''" and enabled = True and up_tx = True and up_list = True and up_delete = "\<lambda>_. True"
        and now = 900 and grace_secs = 60, OF mem_s3_laws sample_projection_of mem_s3_ends]
    unfolding snd_conv by - (elim exE conjE, rule that, assumption+)
  show ?thesis
    by (intro exI conjI, rule gc) (use kept refers in simp_all)
qed

text \<open>
  The PDF pass does not look at the object keys: the source file of a document that only a file card names (by its key,
  without a page of the document on the board) is deleted while it is referenced.
\<close>

definition source_card :: json where
  "source_card = JArr [JObj [(''objectKey'', JStr ''boards/u/pdf/e/original.pdf'')]]"

lemma source_card_read:
  assumes "d_head d = Some h" "hr_state h = ''ready''" "hr_processed_seq h = 3" "hr_base_generation h = 0"
  shows "read_if_fresh_tx (sample_projected source_card d) = Some ([''boards/u/pdf/e/original.pdf''], [])"
proof -
  have "project_stable_refs source_card ''u''
      = \<lparr>ar_object_keys = [''boards/u/pdf/e/original.pdf''], ar_pdf_doc_ids = [], ar_unstable = False\<rparr>"
    by code_simp
  then show ?thesis
    using assms by (simp add: sample_projected_def Let_def replace_projection_tx_def read_if_fresh_tx_def)
qed

lemma gc_deletes_referenced_source:
  assumes "d_head d = Some h" "hr_state h = ''ready''" "hr_processed_seq h = 3" "hr_base_generation h = 0" "w_files w = []"
  shows "gc_from_read_model mem_s3 (\<lambda>_. ''u'') ''files'' True True True (\<lambda>_. True) 900 (sample_projected source_card d) 1 60
     (w, [(''files'', ''boards/u/pdf/e/original.pdf'')]) = Some (w, [])"
proof -
  have t: "trim ''files'' \<noteq> []" "trim ''boards/u/pdf/e/original.pdf'' \<noteq> []" by code_simp+
  have l: "list_pages mem_s3 [(''files'', ''boards/u/pdf/e/original.pdf'')] ''files'' ''boards/u/pdf/'' None None []
      = Some (Inr [\<lparr>so_key = Some ''boards/u/pdf/e/original.pdf'', so_modified = Some 0\<rparr>])"
    by (subst list_pages.simps) (simp add: mem_s3_def starts_with_def)
  show ?thesis
    using t l by (simp add: gc_from_read_model_def source_card_read [OF assms(1-4)] gc_orphaned_board_storage_def
        gc_orphaned_pdf_docs_def board_pdf_prefix_def group_object_def strip_prefix_def starts_with_def add_doc_key_def
        delete_from_storage_def gc_orphaned_board_files_def list_board_files_by_board_id_def assms(5))
      (simp add: mem_s3_def)
qed

end
