(* ===== verification/Cleanup.thy ===== *)
theory Cleanup
  imports Storage
begin

text \<open>
  The deletion outbox of \<open>src/src/jobs/storage_cleanup.rs\<close> over time: a job that keeps failing never starves the
  others, because a failure moves it to the end of the queue.
\<close>

definition job_ids :: "web_db \<Rightarrow> uuid list" where
  "job_ids d = map dj_board_id (w_jobs d)"

text \<open>The jobs the next cycles would pick before one last touched at \<open>u\<close>.\<close>

definition jobs_ahead :: "web_db \<Rightarrow> uuid \<Rightarrow> int \<Rightarrow> uuid set" where
  "jobs_ahead d b u = dj_board_id ` {k \<in> set (w_jobs d). dj_board_id k \<noteq> b \<and> dj_updated_at k \<le> u}"

lemma same_job: "distinct (job_ids d) \<Longrightarrow> j \<in> set (w_jobs d) \<Longrightarrow> k \<in> set (w_jobs d) \<Longrightarrow> dj_board_id j = dj_board_id k \<Longrightarrow> j = k"
  by (auto simp: job_ids_def distinct_map dest: inj_onD)

lemma complete_job_effect:
  assumes "distinct (job_ids d)" "job \<in> set (w_jobs d)"
  shows "distinct (job_ids (complete_job (dj_board_id job) (dj_object_prefix job) d))"
    "set (w_jobs (complete_job (dj_board_id job) (dj_object_prefix job) d))
      = {k \<in> set (w_jobs d). dj_board_id k \<noteq> dj_board_id job}"
proof -
  have one: "dj_object_prefix k = dj_object_prefix job" if "k \<in> set (w_jobs d)" "dj_board_id k = dj_board_id job" for k
    using same_job [OF assms that(1)] that(2) by simp
  show "distinct (job_ids (complete_job (dj_board_id job) (dj_object_prefix job) d))"
    using assms(1) by (simp add: complete_job_def job_ids_def distinct_map_filter)
  show "set (w_jobs (complete_job (dj_board_id job) (dj_object_prefix job) d))
      = {k \<in> set (w_jobs d). dj_board_id k \<noteq> dj_board_id job}"
    using one by (auto simp: complete_job_def)
qed

lemma record_failure_effect:
  assumes "distinct (job_ids d)" "job \<in> set (w_jobs d)"
  shows "distinct (job_ids (record_failure now (dj_board_id job) (dj_object_prefix job) e d))"
    "dj_board_id k \<noteq> dj_board_id job \<Longrightarrow>
      k \<in> set (w_jobs (record_failure now (dj_board_id job) (dj_object_prefix job) e d)) \<longleftrightarrow> k \<in> set (w_jobs d)"
    "k \<in> set (w_jobs (record_failure now (dj_board_id job) (dj_object_prefix job) e d)) \<Longrightarrow>
      dj_board_id k = dj_board_id job \<Longrightarrow> dj_updated_at k = now"
proof -
  let ?f = "\<lambda>j. if dj_board_id j = dj_board_id job \<and> dj_object_prefix j = dj_object_prefix job
      then j\<lparr>dj_attempts := dj_attempts j + 1, dj_last_error := Some e, dj_updated_at := now\<rparr> else j"
  have f: "w_jobs (record_failure now (dj_board_id job) (dj_object_prefix job) e d) = map ?f (w_jobs d)"
    by (simp add: record_failure_def)
  have i: "dj_board_id (?f k) = dj_board_id k" for k by simp
  show "distinct (job_ids (record_failure now (dj_board_id job) (dj_object_prefix job) e d))"
    using assms(1) by (simp add: job_ids_def f o_def i cong: map_cong)
  show "k \<in> set (w_jobs (record_failure now (dj_board_id job) (dj_object_prefix job) e d)) \<longleftrightarrow> k \<in> set (w_jobs d)"
    if "dj_board_id k \<noteq> dj_board_id job"
    using that unfolding f by (auto simp: image_iff)
  show "dj_updated_at k = now"
    if k: "k \<in> set (w_jobs (record_failure now (dj_board_id job) (dj_object_prefix job) e d))" "dj_board_id k = dj_board_id job"
  proof -
    obtain k0 where "k0 \<in> set (w_jobs d)" "k = ?f k0" using k(1) unfolding f by auto
    moreover have "dj_board_id k0 = dj_board_id job" using k(2) calculation(2) by (auto split: if_splits)
    then have "k0 = job" using same_job [OF assms calculation(1)] by simp
    ultimately show ?thesis by simp
  qed
qed

text \<open>What processing does to the queue; the database is reachable.\<close>

definition queue_effect :: "int \<Rightarrow> uuid set \<Rightarrow> web_db \<Rightarrow> web_db \<Rightarrow> bool" where
  "queue_effect now done d d' \<longleftrightarrow> distinct (job_ids d')
     \<and> (\<forall>k. dj_board_id k \<notin> done \<longrightarrow> (k \<in> set (w_jobs d') \<longleftrightarrow> k \<in> set (w_jobs d)))
     \<and> (\<forall>k \<in> set (w_jobs d'). dj_board_id k \<in> done \<longrightarrow> dj_updated_at k = now)"

lemma queue_effect_trans:
  assumes "queue_effect now {b} d d1" "queue_effect now B d1 d2"
  shows "queue_effect now (insert b B) d d2"
  unfolding queue_effect_def
proof (intro conjI allI impI ballI)
  show "distinct (job_ids d2)" using assms(2) by (simp add: queue_effect_def)
  show "k \<in> set (w_jobs d2) \<longleftrightarrow> k \<in> set (w_jobs d)" if "dj_board_id k \<notin> insert b B" for k
    using assms that by (simp add: queue_effect_def)
  show "dj_updated_at k = now" if "k \<in> set (w_jobs d2)" "dj_board_id k \<in> insert b B" for k
    using assms that by (cases "dj_board_id k \<in> B") (simp_all add: queue_effect_def)
qed

lemma process_job_effect:
  assumes "distinct (job_ids d)" "job \<in> set (w_jobs d)" "process_job S bucket True True now job (d, s) = Some (d', s')"
  shows "queue_effect now {dj_board_id job} d d'"
    "delete_job_objects S bucket job s = Some (Inr n, s'') \<Longrightarrow> dj_board_id job \<notin> set (job_ids d')"
  using assms(3) complete_job_effect [OF assms(1,2)] record_failure_effect [OF assms(1,2), where now = now]
  by (auto simp: process_job_def queue_effect_def job_ids_def split: option.splits sum.splits prod.splits)

lemma process_jobs_effect:
  assumes "distinct (job_ids d)" "set jobs \<subseteq> set (w_jobs d)" "distinct (map dj_board_id jobs)"
    "process_jobs S bucket (\<lambda>_. True) (\<lambda>_. True) now jobs (d, s) = Some (d', s')"
  shows "queue_effect now (dj_board_id ` set jobs) d d'
    \<and> (\<forall>j \<in> set jobs. (\<forall>s. \<exists>n s'. delete_job_objects S bucket j s = Some (Inr n, s')) \<longrightarrow> dj_board_id j \<notin> set (job_ids d'))"
  using assms
proof (induction jobs arbitrary: d s)
  case Nil
  then show ?case by (simp add: queue_effect_def)
next
  case (Cons job jobs)
  obtain d1 s1 where one: "process_job S bucket True True now job (d, s) = Some (d1, s1)"
    and rest: "process_jobs S bucket (\<lambda>_. True) (\<lambda>_. True) now jobs (d1, s1) = Some (d', s')"
    using Cons.prems(4) by (auto simp: bind_eq_Some_conv)
  have job: "job \<in> set (w_jobs d)" using Cons.prems(2) by simp
  note e1 = process_job_effect [OF Cons.prems(1) job one]
  have sub: "set jobs \<subseteq> set (w_jobs d1)"
  proof
    fix k assume k: "k \<in> set jobs"
    then have "dj_board_id k \<noteq> dj_board_id job" "k \<in> set (w_jobs d)" using Cons.prems(2,3) by (auto simp: image_iff)
    then show "k \<in> set (w_jobs d1)" using e1(1) by (simp add: queue_effect_def)
  qed
  have "distinct (job_ids d1)" using e1(1) by (simp add: queue_effect_def)
  note e2 = Cons.IH [OF this sub _ rest]
  have q2: "queue_effect now (dj_board_id ` set jobs) d1 d'" using e2 Cons.prems(3) by simp
  have q: "queue_effect now (insert (dj_board_id job) (dj_board_id ` set jobs)) d d'"
    by (rule queue_effect_trans [OF e1(1) q2])
  moreover have "dj_board_id job \<notin> set (job_ids d')" if works: "\<forall>s. \<exists>n s'. delete_job_objects S bucket job s = Some (Inr n, s')"
  proof -
    obtain n s'' where "delete_job_objects S bucket job s = Some (Inr n, s'')" using works by blast
    then have "dj_board_id job \<notin> set (job_ids d1)" by (rule e1(2))
    moreover have "dj_board_id job \<notin> dj_board_id ` set jobs" using Cons.prems(3) by simp
    ultimately show ?thesis using q2 by (auto simp: queue_effect_def job_ids_def)
  qed
  ultimately show ?case using e2 Cons.prems(3) by simp
qed

text \<open>One cycle: the batch is the oldest due jobs.\<close>

lemma sort_key_take_le:
  assumes "x \<in> set xs" "x \<notin> set (take n (sort_key f xs))"
  shows "length (take n (sort_key f xs)) = n \<and> (\<forall>y \<in> set (take n (sort_key f xs)). f y \<le> f x)"
proof -
  let ?l = "sort_key f xs"
  have x: "x \<in> set (drop n ?l)" using assms by (metis Un_iff append_take_drop_id set_append set_sort)
  have "sorted (map f (take n ?l @ drop n ?l))" unfolding append_take_drop_id by (rule sorted_sort_key)
  then have "\<forall>y \<in> set (take n ?l). \<forall>z \<in> set (drop n ?l). f y \<le> f z" unfolding map_append sorted_append by simp
  then have "\<forall>y \<in> set (take n ?l). f y \<le> f x" using x by blast
  moreover have "n \<le> length ?l" using x by (cases "n \<le> length ?l") auto
  ultimately show ?thesis by simp
qed

lemma pending_sub: "set (list_pending now n d) \<subseteq> set (w_jobs d)"
  using set_take_subset [of n "sort_key dj_updated_at (filter (\<lambda>j. dj_cleanup_after j \<le> now) (w_jobs d))"]
  by (auto simp: list_pending_def)

lemma pending_distinct:
  assumes "distinct (job_ids d)"
  shows "distinct (map dj_board_id (list_pending now n d))"
proof -
  let ?due = "filter (\<lambda>j. dj_cleanup_after j \<le> now) (w_jobs d)"
  have "distinct (map dj_board_id ?due)" using assms by (simp add: job_ids_def distinct_map_filter)
  then have "distinct (map dj_board_id (sort_key dj_updated_at ?due))"
    unfolding distinct_map set_sort distinct_sort .
  then show ?thesis unfolding list_pending_def by (metis distinct_take take_map)
qed

lemma cycle_ids:
  assumes d: "distinct (job_ids d)"
    and run: "run_cleanup_cycle S bucket True (\<lambda>_. True) (\<lambda>_. True) limit now (d, s) = Some (d', s')"
  shows "distinct (job_ids d') \<and> set (job_ids d') \<subseteq> set (job_ids d)"
proof -
  let ?batch = "list_pending now (clamp_batch limit) d"
  have sub: "set ?batch \<subseteq> set (w_jobs d)" by (rule pending_sub)
  have run': "process_jobs S bucket (\<lambda>_. True) (\<lambda>_. True) now ?batch (d, s) = Some (d', s')"
    using run by (simp add: run_cleanup_cycle_def)
  have q: "queue_effect now (dj_board_id ` set ?batch) d d'"
    using process_jobs_effect [OF d sub pending_distinct [OF d] run'] by blast
  have "b \<in> set (job_ids d)" if b: "b \<in> set (job_ids d')" for b
  proof -
    obtain k where k: "k \<in> set (w_jobs d')" "b = dj_board_id k" using b by (auto simp: job_ids_def)
    show ?thesis
    proof (cases "b \<in> dj_board_id ` set ?batch")
      case True
      then show ?thesis using sub by (auto simp: job_ids_def)
    next
      case False
      then show ?thesis using q k by (auto simp: queue_effect_def job_ids_def)
    qed
  qed
  then show ?thesis using q by (auto simp: queue_effect_def)
qed

lemma cycle_effect:
  assumes d: "distinct (job_ids d)"
    and run: "run_cleanup_cycle S bucket True (\<lambda>_. True) (\<lambda>_. True) limit now (d, s) = Some (d', s')"
    and j: "j \<in> set (w_jobs d)" "dj_cleanup_after j \<le> now" "dj_updated_at j < now"
    and works: "\<forall>s. \<exists>n s'. delete_job_objects S bucket j s = Some (Inr n, s')"
  shows "distinct (job_ids d') \<and> set (job_ids d') \<subseteq> set (job_ids d) \<and>
    (dj_board_id j \<notin> set (job_ids d')
     \<or> j \<in> set (w_jobs d')
       \<and> card (jobs_ahead d' (dj_board_id j) (dj_updated_at j)) + clamp_batch limit
           \<le> card (jobs_ahead d (dj_board_id j) (dj_updated_at j)))"
proof -
  let ?due = "filter (\<lambda>j. dj_cleanup_after j \<le> now) (w_jobs d)" and ?n = "clamp_batch limit"
  let ?batch = "take ?n (sort_key dj_updated_at ?due)"
  have sub: "set ?batch \<subseteq> set (w_jobs d)" using pending_sub [of now ?n d] by (simp add: list_pending_def)
  have dist: "distinct (map dj_board_id ?batch)" using pending_distinct [OF d] by (simp add: list_pending_def)
  have run': "process_jobs S bucket (\<lambda>_. True) (\<lambda>_. True) now ?batch (d, s) = Some (d', s')"
    using run by (simp add: run_cleanup_cycle_def list_pending_def)
  note e = process_jobs_effect [OF d sub dist run']
  have q: "queue_effect now (dj_board_id ` set ?batch) d d'" using e by blast
  have ids: "set (job_ids d') \<subseteq> set (job_ids d)" using cycle_ids [OF d run] by simp
  show ?thesis
  proof (cases "j \<in> set ?batch")
    case True
    then show ?thesis using e works ids by (auto simp: queue_effect_def)
  next
    case False
    let ?b = "dj_board_id j" and ?u = "dj_updated_at j"
    have full: "length ?batch = ?n" "\<forall>y \<in> set ?batch. dj_updated_at y \<le> ?u"
      using sort_key_take_le [OF _ False] j by auto
    have nb: "?b \<notin> dj_board_id ` set ?batch" using False same_job [OF d j(1)] sub by auto
    have "jobs_ahead d' ?b ?u \<subseteq> jobs_ahead d ?b ?u - dj_board_id ` set ?batch"
    proof
      fix b assume "b \<in> jobs_ahead d' ?b ?u"
      then obtain k where k: "k \<in> set (w_jobs d')" "b = dj_board_id k" "dj_board_id k \<noteq> ?b" "dj_updated_at k \<le> ?u"
        by (auto simp: jobs_ahead_def)
      have "b \<notin> dj_board_id ` set ?batch" using q k j(3) by (auto simp: queue_effect_def)
      moreover from this have "k \<in> set (w_jobs d)" using q k by (auto simp: queue_effect_def)
      ultimately show "b \<in> jobs_ahead d ?b ?u - dj_board_id ` set ?batch" using k by (auto simp: jobs_ahead_def)
    qed
    moreover have in_ahead: "dj_board_id ` set ?batch \<subseteq> jobs_ahead d ?b ?u"
    proof (rule image_subsetI)
      fix y assume y: "y \<in> set ?batch"
      then have "y \<in> set (w_jobs d)" "dj_updated_at y \<le> ?u" using sub full(2) by blast+
      moreover have "dj_board_id y \<noteq> ?b" using y nb by (metis image_eqI)
      ultimately show "dj_board_id y \<in> jobs_ahead d ?b ?u" unfolding jobs_ahead_def by blast
    qed
    moreover have fin: "finite (jobs_ahead d ?b ?u)" by (simp add: jobs_ahead_def)
    ultimately have "card (jobs_ahead d' ?b ?u) \<le> card (jobs_ahead d ?b ?u) - card (dj_board_id ` set ?batch)"
      by (metis card_Diff_subset card_mono finite_Diff finite_imageI List.finite_set)
    moreover have "card (dj_board_id ` set ?batch) = ?n" using dist full(1) by (metis distinct_card length_map set_map)
    moreover have "card (dj_board_id ` set ?batch) \<le> card (jobs_ahead d ?b ?u)" by (rule card_mono [OF fin in_ahead])
    moreover have "j \<in> set (w_jobs d')" using q nb j(1) by (simp add: queue_effect_def)
    moreover have "distinct (job_ids d')" using q by (simp add: queue_effect_def)
    ultimately show ?thesis using ids by linarith
  qed
qed

subsection \<open>What is deleted\<close>

lemma delete_keys_obs:
  assumes laws: "s3_laws S obs"
  shows "obs s - Pair b ` set ks \<subseteq> obs (snd (delete_keys S b ks s)) \<and> obs (snd (delete_keys S b ks s)) \<subseteq> obs s
    \<and> (fst (delete_keys S b ks s) = Inr () \<longrightarrow> obs (snd (delete_keys S b ks s)) \<inter> Pair b ` set ks = {})"
proof (induction ks arbitrary: s)
  case (Cons k ks)
  obtain r t where one: "delete_from_storage S b k s = (r, t)" by fastforce
  have t: "obs s - {(b, k)} \<subseteq> obs t" "obs t \<subseteq> obs s" "r = Inr () \<longrightarrow> obs t = obs s - {(b, k)}"
    using delete_from_storage_obs [OF laws, of s b k] one by simp_all
  show ?case
  proof (cases r)
    case (Inl e)
    then show ?thesis using one t by auto
  next
    case (Inr u)
    then show ?thesis using one t Cons.IH [of t] by auto
  qed
qed simp

text \<open>A listing that returns names every object below the prefix.\<close>

definition lists_all :: "'s s3 \<Rightarrow> ('s \<Rightarrow> (string \<times> string) set) \<Rightarrow> string \<Rightarrow> bool" where
  "lists_all S obs bucket \<longleftrightarrow> (\<forall>s prefix m os k. list_pages S s bucket prefix m None [] = Some (Inr os) \<longrightarrow>
     (bucket, k) \<in> obs s \<longrightarrow> starts_with k prefix \<longrightarrow> Some k \<in> so_key ` set os)"

definition cleared :: "('s \<Rightarrow> (string \<times> string) set) \<Rightarrow> string \<Rightarrow> string \<Rightarrow> 's \<Rightarrow> bool" where
  "cleared obs bucket prefix s \<longleftrightarrow> (\<forall>k. starts_with k prefix \<longrightarrow> (bucket, k) \<notin> obs s)"

lemma cleared_mono: "cleared obs bucket prefix s \<Longrightarrow> obs s' \<subseteq> obs s \<Longrightarrow> cleared obs bucket prefix s'"
  by (auto simp: cleared_def)

lemma delete_keys_exact:
  assumes laws: "s3_laws S obs"
  shows "fst (delete_keys S b ks s) = Inr () \<Longrightarrow> obs (snd (delete_keys S b ks s)) = obs s - Pair b ` set ks"
proof (induction ks arbitrary: s)
  case (Cons k ks)
  obtain r t where one: "delete_from_storage S b k s = (r, t)" by fastforce
  show ?case using Cons delete_from_storage_obs [OF laws, of s b k] one by (cases r) auto
qed simp

lemma set_map_filter: "set (List.map_filter f xs) = {y. \<exists>x \<in> set xs. f x = Some y}"
  by (induction xs) (auto simp: List.map_filter_simps split: option.splits)

lemma delete_from_storage_shrinks:
  "s3_laws S obs \<Longrightarrow> delete_from_storage S b k s = (r, s') \<Longrightarrow> obs s' \<subseteq> obs s"
  using delete_from_storage_obs [of S obs s b k] by auto

lemma delete_prefix_obs:
  assumes laws: "s3_laws S obs" and del: "delete_objects_with_prefix S bucket prefix s = Some (r, s')"
  shows "obs s' \<subseteq> obs s" "lists_all S obs bucket \<Longrightarrow> r = Inr n \<Longrightarrow> cleared obs bucket prefix s'"
proof -
  let ?m = "Some (''S3 returned a truncated listing without a continuation token for '' @ bucket @ ''/'' @ prefix)"
  consider e where "(r, s') = (Inl e, s)"
    | os where "list_pages S s bucket prefix ?m None [] = Some (Inr os)"
        "(r, s') = (case delete_keys S bucket (List.map_filter so_key os) s of
           (Inl e, s') \<Rightarrow> (Inl e, s') | (Inr _, s') \<Rightarrow> (Inr (length (List.map_filter so_key os)), s'))"
    using del by (auto simp: delete_objects_with_prefix_def Let_def split: if_splits sum.splits option.splits prod.splits)
  then have both: "obs s' \<subseteq> obs s \<and> (lists_all S obs bucket \<longrightarrow> (\<exists>n. r = Inr n) \<longrightarrow> cleared obs bucket prefix s')"
  proof cases
    case 2
    let ?ks = "List.map_filter so_key os"
    note d = delete_keys_obs [OF laws, of s bucket ?ks]
    have s': "s' = snd (delete_keys S bucket ?ks s)" "(\<exists>n. r = Inr n) \<longrightarrow> fst (delete_keys S bucket ?ks s) = Inr ()"
      using 2(2) by (auto split: prod.splits sum.splits)
    have ks: "set ?ks = {k. Some k \<in> so_key ` set os}"
      by (auto simp: set_map_filter image_iff) (metis)
    have "cleared obs bucket prefix s'" if all: "lists_all S obs bucket" and ok: "\<exists>n. r = Inr n"
      unfolding cleared_def
    proof (intro allI impI notI)
      fix k assume k: "starts_with k prefix" "(bucket, k) \<in> obs s'"
      then have "(bucket, k) \<in> obs s" using d s'(1) by blast
      then have "k \<in> set ?ks" using all 2(1) k(1) unfolding lists_all_def ks by blast
      then show False using d s' ok k(2) by blast
    qed
    then show ?thesis using d s'(1) by simp
  qed simp
  show "obs s' \<subseteq> obs s" using both by blast
  show "lists_all S obs bucket \<Longrightarrow> r = Inr n \<Longrightarrow> cleared obs bucket prefix s'" using both by blast
qed

lemma delete_job_obs:
  assumes laws: "s3_laws S obs" and del: "delete_job_objects S bucket job s = Some (r, s')"
  shows "obs s' \<subseteq> obs s"
    "lists_all S obs bucket \<Longrightarrow> r = Inr n \<Longrightarrow> cleared obs bucket (dj_object_prefix job) s'"
proof -
  obtain r1 s1 where one: "delete_objects_with_prefix S bucket (dj_object_prefix job) s = Some (r1, s1)"
    using del by (auto simp: delete_job_objects_def split: option.splits)
  note p = delete_prefix_obs [OF laws one]
  have r: "obs s' \<subseteq> obs s1 \<and> ((\<exists>n. r = Inr n) \<longrightarrow> (\<exists>n. r1 = Inr n))"
  proof (cases r1)
    case (Inl e)
    then show ?thesis using del by (simp add: delete_job_objects_def one)
  next
    case (Inr m)
    have "obs s' \<subseteq> obs s1"
    proof (cases "dj_preview_object_key job")
      case None
      then show ?thesis using del by (simp add: delete_job_objects_def one Inr)
    next
      case (Some key)
      obtain x t where x: "delete_from_storage S bucket key s1 = (x, t)" by fastforce
      have "s' = s1 \<or> s' = t"
        using del by (cases x) (auto simp: delete_job_objects_def one Inr Some x split: if_splits)
      then show ?thesis using delete_from_storage_shrinks [OF laws x] by blast
    qed
    then show ?thesis using Inr by simp
  qed
  show "obs s' \<subseteq> obs s" using r p(1) by blast
  show "cleared obs bucket (dj_object_prefix job) s'" if "lists_all S obs bucket" "r = Inr n"
  proof -
    obtain n1 where "r1 = Inr n1" using r \<open>r = Inr n\<close> by blast
    then have "cleared obs bucket (dj_object_prefix job) s1" using p(2) [OF that(1)] by simp
    then show ?thesis by (rule cleared_mono) (use r in blast)
  qed
qed

lemma process_job_obs:
  "s3_laws S obs \<Longrightarrow> process_job S bucket u v now job st = Some st' \<Longrightarrow> obs (snd st') \<subseteq> obs (snd st)"
  by (auto simp: process_job_def split: option.splits sum.splits prod.splits dest!: delete_job_obs(1))

lemma process_jobs_obs:
  assumes laws: "s3_laws S obs"
  shows "process_jobs S bucket u v now jobs st = Some st' \<Longrightarrow> obs (snd st') \<subseteq> obs (snd st)"
proof (induction jobs arbitrary: st)
  case (Cons job jobs)
  then obtain st1 where "process_job S bucket (u (dj_board_id job)) (v (dj_board_id job)) now job st = Some st1"
    "process_jobs S bucket u v now jobs st1 = Some st'"
    by (auto simp: bind_eq_Some_conv)
  then show ?case using Cons.IH process_job_obs [OF laws] by (meson order_trans)
qed simp

lemma process_jobs_clear:
  assumes laws: "s3_laws S obs" and all: "lists_all S obs bucket"
    and works: "\<forall>s. \<exists>n s'. delete_job_objects S bucket j s = Some (Inr n, s')"
  shows "j \<in> set jobs \<Longrightarrow> process_jobs S bucket u v now jobs st = Some st' \<Longrightarrow> cleared obs bucket (dj_object_prefix j) (snd st')"
proof (induction jobs arbitrary: st)
  case (Cons job jobs)
  then obtain st1 where one: "process_job S bucket (u (dj_board_id job)) (v (dj_board_id job)) now job st = Some st1"
    and rest: "process_jobs S bucket u v now jobs st1 = Some st'"
    by (auto simp: bind_eq_Some_conv)
  show ?case
  proof (cases "job = j")
    case True
    obtain n s' where d: "delete_job_objects S bucket j (snd st) = Some (Inr n, s')" using works by blast
    have "snd st1 = s'" using one by (auto simp: process_job_def True d)
    then have "cleared obs bucket (dj_object_prefix j) (snd st1)" using delete_job_obs(2) [OF laws d all] by simp
    then show ?thesis by (rule cleared_mono) (rule process_jobs_obs [OF laws rest])
  next
    case False
    then show ?thesis using Cons rest by auto
  qed
qed simp

subsection \<open>No job starves\<close>

lemma delete_job_returns:
  assumes "\<And>s prefix. pages_end S s bucket prefix None"
  shows "delete_job_objects S bucket job s \<noteq> None"
proof -
  have "delete_objects_with_prefix S bucket prefix s \<noteq> None" for prefix
    using list_pages_ends [OF assms, of s prefix
        "Some (''S3 returned a truncated listing without a continuation token for '' @ bucket @ ''/'' @ prefix)" "[]"]
    by (auto simp del: append_Cons simp: delete_objects_with_prefix_def Let_def
        split: sum.splits option.splits prod.splits)
  then show ?thesis
    by (auto simp: delete_job_objects_def split: sum.splits option.splits prod.splits)
qed

lemma process_jobs_returns:
  assumes "\<And>s prefix. pages_end S s bucket prefix None"
  shows "process_jobs S bucket u v now jobs st \<noteq> None"
proof (induction jobs arbitrary: st)
  case (Cons job jobs)
  have "process_job S bucket a b now job st \<noteq> None" for a b
    using delete_job_returns [OF assms, of job "snd st"] by (auto simp: process_job_def split: option.splits sum.splits)
  then show ?case using Cons.IH by (auto simp: bind_eq_None_conv)
qed simp

text \<open>The ticks of the worker; between them nobody else touches the queue.\<close>

fun cleanup_cycles :: "'s s3 \<Rightarrow> string \<Rightarrow> int \<Rightarrow> int list \<Rightarrow> web_db \<times> 's \<Rightarrow> (web_db \<times> 's) option" where
  "cleanup_cycles S bucket limit [] st = Some st"
| "cleanup_cycles S bucket limit (now # ticks) st =
     Option.bind (run_cleanup_cycle S bucket True (\<lambda>_. True) (\<lambda>_. True) limit now st) (cleanup_cycles S bucket limit ticks)"

lemma cycle_obs:
  "s3_laws S obs \<Longrightarrow> run_cleanup_cycle S bucket True (\<lambda>_. True) (\<lambda>_. True) limit now st = Some st' \<Longrightarrow> obs (snd st') \<subseteq> obs (snd st)"
  by (simp add: run_cleanup_cycle_def process_jobs_obs)

lemma cycle_clears:
  assumes laws: "s3_laws S obs" and all: "lists_all S obs bucket" and d: "distinct (job_ids d)"
    and run: "run_cleanup_cycle S bucket True (\<lambda>_. True) (\<lambda>_. True) limit now (d, s) = Some (d', s')"
    and j: "j \<in> set (w_jobs d)" and works: "\<forall>s. \<exists>n s'. delete_job_objects S bucket j s = Some (Inr n, s')"
    and gone: "dj_board_id j \<notin> set (job_ids d')"
  shows "cleared obs bucket (dj_object_prefix j) s'"
proof -
  let ?batch = "list_pending now (clamp_batch limit) d"
  have run': "process_jobs S bucket (\<lambda>_. True) (\<lambda>_. True) now ?batch (d, s) = Some (d', s')"
    using run by (simp add: run_cleanup_cycle_def)
  have sub: "set ?batch \<subseteq> set (w_jobs d)" by (rule pending_sub)
  have "j \<in> set ?batch"
  proof (rule ccontr)
    assume "j \<notin> set ?batch"
    then have "dj_board_id j \<notin> dj_board_id ` set ?batch" using same_job [OF d j] sub by blast
    moreover have "distinct (map dj_board_id ?batch)"
      using pending_distinct [OF d] .
    ultimately have "j \<in> set (w_jobs d')"
      using process_jobs_effect [OF d sub _ run'] j by (simp add: queue_effect_def)
    then show False using gone by (simp add: job_ids_def)
  qed
  then show ?thesis using process_jobs_clear [OF laws all works _ run'] by simp
qed

text \<open>C24: No deletion job starves: whatever other jobs of the outbox keep failing, a due job whose objects the service
  can delete is done after as many ticks as the jobs in front of it need at the batch size; then the job is gone and
  nothing is left below the deleted board's prefix.\<close>

theorem cleanup_not_starved:
  assumes laws: "s3_laws S obs" and all: "lists_all S obs bucket"
    and paging: "\<And>s prefix. pages_end S s bucket prefix None"
    and works: "\<forall>s. \<exists>n s'. delete_job_objects S bucket j s = Some (Inr n, s')"
    and queue: "distinct (job_ids d)" "j \<in> set (w_jobs d)"
    and ticks: "\<forall>now \<in> set ticks. dj_cleanup_after j \<le> now \<and> dj_updated_at j < now"
    and enough: "card (jobs_ahead d (dj_board_id j) (dj_updated_at j)) < length ticks * clamp_batch limit"
  shows "\<exists>d' s'. cleanup_cycles S bucket limit ticks (d, s) = Some (d', s')
     \<and> dj_board_id j \<notin> set (job_ids d') \<and> cleared obs bucket (dj_object_prefix j) s'"
proof -
  have total: "\<exists>d' s'. run_cleanup_cycle S bucket True (\<lambda>_. True) (\<lambda>_. True) limit now st = Some (d', s')" for now st
    using process_jobs_returns [OF paging] by (auto simp: run_cleanup_cycle_def)
  have cycles: "\<exists>d' s'. cleanup_cycles S bucket limit ticks (d, s) = Some (d', s')
      \<and> dj_board_id j \<notin> set (job_ids d') \<and> cleared obs bucket (dj_object_prefix j) s'"
    if "distinct (job_ids d)" "\<forall>now \<in> set ticks. dj_cleanup_after j \<le> now \<and> dj_updated_at j < now"
      "dj_board_id j \<notin> set (job_ids d) \<and> cleared obs bucket (dj_object_prefix j) s
       \<or> j \<in> set (w_jobs d) \<and> card (jobs_ahead d (dj_board_id j) (dj_updated_at j)) < length ticks * clamp_batch limit" for d s ticks
    using that
  proof (induction ticks arbitrary: d s)
    case (Cons now ticks)
    obtain d1 s1 where run: "run_cleanup_cycle S bucket True (\<lambda>_. True) (\<lambda>_. True) limit now (d, s) = Some (d1, s1)"
      using total by blast
    have shrink: "obs s1 \<subseteq> obs s" using cycle_obs [OF laws run] by simp
    have next_state: "distinct (job_ids d1) \<and> (dj_board_id j \<notin> set (job_ids d1) \<and> cleared obs bucket (dj_object_prefix j) s1
       \<or> j \<in> set (w_jobs d1) \<and> card (jobs_ahead d1 (dj_board_id j) (dj_updated_at j)) < length ticks * clamp_batch limit)"
    proof (cases "j \<in> set (w_jobs d)")
      case True
      have b: "card (jobs_ahead d (dj_board_id j) (dj_updated_at j)) < clamp_batch limit + length ticks * clamp_batch limit"
        using Cons.prems(3) True by (auto simp: job_ids_def)
      note e = cycle_effect [OF Cons.prems(1) run True _ _ works]
      show ?thesis
        using e Cons.prems(2) b cycle_clears [OF laws all Cons.prems(1) run True works] by auto
    next
      case False
      then have gone: "dj_board_id j \<notin> set (job_ids d)" "cleared obs bucket (dj_object_prefix j) s" using Cons.prems(3) by blast+
      show ?thesis
        using cycle_ids [OF Cons.prems(1) run] gone(1) cleared_mono [OF gone(2) shrink] by blast
    qed
    then show ?case using Cons.IH [of d1 s1] Cons.prems(2) run by auto
  qed auto
  show ?thesis using cycles [OF queue(1) ticks] queue(2) enough by blast
qed

text \<open>A job whose prefix is no folder fails for ever; the board's job behind it is done at the second tick.\<close>

lemma trim_visible: "\<not> is_space c \<Longrightarrow> trim (c # s) \<noteq> []"
  by (auto simp: trim_def trim_end_matches_def dropWhile_eq_Nil_conv)

lemma mem_delete_keys:
  "trim b \<noteq> [] \<Longrightarrow> \<forall>k \<in> set ks. trim k \<noteq> [] \<Longrightarrow> fst (delete_keys mem_s3 b ks s) = Inr ()"
  by (induction ks arbitrary: s) (simp_all add: delete_from_storage_def, simp_all add: mem_s3_def)

lemma mem_list_pages:
  "list_pages mem_s3 s b p m None [] = Some (Inr (map (\<lambda>x. \<lparr>so_key = Some (snd x), so_modified = Some 0\<rparr>)
     (filter (\<lambda>x. fst x = b \<and> starts_with (snd x) p) s)))"
  by (subst list_pages.simps) (simp add: mem_s3_def)

definition sample_job :: "uuid \<Rightarrow> string \<Rightarrow> int \<Rightarrow> storage_deletion_job" where
  "sample_job b prefix t = \<lparr>dj_board_id = b, dj_object_prefix = prefix, dj_preview_object_key = None, dj_attempts = 0,
     dj_last_error = None, dj_updated_at = t, dj_cleanup_after = 30\<rparr>"

lemma mem_delete_prefix:
  assumes "validate_deletion_prefix (CHR ''b'' # p) = Inr ()"
  shows "\<exists>n s'. delete_objects_with_prefix mem_s3 ''files'' (CHR ''b'' # p) s = Some (Inr n, s')"
proof -
  let ?ks = "List.map_filter so_key (map (\<lambda>x. \<lparr>so_key = Some (snd x), so_modified = Some 0\<rparr>)
     (filter (\<lambda>x. fst x = ''files'' \<and> starts_with (snd x) (CHR ''b'' # p)) s))"
  have t: "trim ''files'' \<noteq> []" by code_simp
  have "trim k \<noteq> []" if "k \<in> set ?ks" for k
  proof -
    have "starts_with k (CHR ''b'' # p)" using that by (auto simp: set_map_filter)
    then obtain r where "k = CHR ''b'' # r" by (auto simp: starts_with_iff)
    then show ?thesis using trim_visible [of "CHR ''b''" r] by (simp add: is_space_def)
  qed
  then have "fst (delete_keys mem_s3 ''files'' ?ks s) = Inr ()" by (intro mem_delete_keys t) blast
  then show ?thesis
    using t assms by (cases "delete_keys mem_s3 ''files'' ?ks s")
      (simp add: delete_objects_with_prefix_def mem_list_pages Let_def)
qed

lemma sample_job_works:
  "\<exists>n s'. delete_job_objects mem_s3 ''files'' (sample_job 2 ''boards/u/'' 0) s = Some (Inr n, s')"
proof -
  have "validate_deletion_prefix ''boards/u/'' = Inr ()" by code_simp
  from mem_delete_prefix [OF this, of s] show ?thesis by (auto simp: delete_job_objects_def sample_job_def)
qed

lemma mem_lists_all: "lists_all mem_s3 set b"
  by (force simp: lists_all_def mem_list_pages image_iff)

theorem cleanup_not_starved_witness:
  "\<exists>d' s'. cleanup_cycles mem_s3 ''files'' 0 [40, 50]
       (sample_web\<lparr>w_jobs := [sample_job 1 ''bad'' (-5), sample_job 2 ''boards/u/'' 0]\<rparr>, [(''files'', ''boards/u/a.png'')]) = Some (d', s')
     \<and> 2 \<notin> set (job_ids d') \<and> cleared set ''files'' ''boards/u/'' s'"
proof -
  let ?d = "sample_web\<lparr>w_jobs := [sample_job 1 ''bad'' (-5), sample_job 2 ''boards/u/'' 0]\<rparr>" and ?j = "sample_job 2 ''boards/u/'' 0"
  have "jobs_ahead ?d (dj_board_id ?j) (dj_updated_at ?j) \<subseteq> {1}"
    by (auto simp: jobs_ahead_def sample_job_def)
  then have "card (jobs_ahead ?d (dj_board_id ?j) (dj_updated_at ?j)) \<le> card {1 :: uuid}"
    by (intro card_mono) simp_all
  then have "card (jobs_ahead ?d (dj_board_id ?j) (dj_updated_at ?j)) < length [40, 50 :: int] * clamp_batch 0"
    by (simp add: clamp_batch_def)
  then have "\<exists>d' s'. cleanup_cycles mem_s3 ''files'' 0 [40, 50] (?d, [(''files'', ''boards/u/a.png'')]) = Some (d', s')
     \<and> dj_board_id ?j \<notin> set (job_ids d') \<and> cleared set ''files'' (dj_object_prefix ?j) s'"
    by (intro cleanup_not_starved mem_s3_laws mem_lists_all mem_s3_ends allI sample_job_works)
      (simp_all add: job_ids_def sample_job_def)
  then show ?thesis by (simp add: sample_job_def)
qed

end
