(* ===== verification/Uploads.thy ===== *)
theory Uploads
  imports Cleanup
begin

text \<open>
  Uploading files to a board (the upload handlers of \<open>src/src/handlers/boards.rs\<close>) and the quotas of
  \<open>src/src/database/quotas.rs\<close> over time.  A handler checks the database it finds on entry and inserts the metadata
  row into the one it finds when the object is stored; both are arguments.
\<close>

subsection \<open>Requests\<close>

text \<open>\<open>None\<close> in a multipart body is a transport error, \<open>None\<close> in \<open>mp_bytes\<close> a failing read of the field.\<close>

record multipart_field =
  mp_name :: "string option"
  mp_content_type :: "string option"
  mp_file_name :: "string option"
  mp_bytes :: "bytes option"

type_synonym multipart = "multipart_field option list"

record 's upload_env =
  ue_s3 :: "'s s3"
  ue_production :: bool
  ue_endpoint :: string
  ue_bucket :: string
  ue_presign :: "string \<Rightarrow> string \<Rightarrow> string option"
  ue_parse :: "string \<Rightarrow> uuid option"
  ue_text :: "uuid \<Rightarrow> string"
  ue_up :: db_up
  ue_new_id :: uuid
  ue_row_id :: uuid
  ue_now :: int

definition check_upload_quota :: "db_up \<Rightarrow> web_db \<Rightarrow> uuid \<Rightarrow> int \<Rightarrow> quota_error + unit" where
  "check_upload_quota up d owner size_bytes =
     (if \<not> up QTier \<or> \<not> up QUsage then Inl (QuotaDatabase RowNotFound)
      else bindE (ensure_upload_available d owner size_bytes) (\<lambda>_. Inr ()))"

definition validate_upload_quota :: "db_up \<Rightarrow> web_db \<Rightarrow> uuid \<Rightarrow> nat \<Rightarrow> api_error + unit" where
  "validate_upload_quota up d owner len =
     map_errE quota_api_error (check_upload_quota up d owner (min (2 ^ 63 - 1) (int len)))"

definition file_payload ::
  "'s upload_env \<Rightarrow> uuid \<Rightarrow> uuid \<Rightarrow> string \<Rightarrow> string \<Rightarrow> nat \<Rightarrow> string option \<Rightarrow> string \<Rightarrow> board_file" where
  "file_payload E board_id uploader object_key content_type len original_name url =
     \<lparr>bf_id = 0, bf_board_id = board_id, bf_uploader_id = Some uploader, bf_object_key = object_key,
      bf_content_type = content_type, bf_size_bytes = int len, bf_original_name = original_name, bf_url = url,
      bf_created_at = 0\<rparr>"

definition record_uploaded_file ::
  "'s upload_env \<Rightarrow> uuid \<Rightarrow> board_file \<Rightarrow> web_db \<times> 's \<Rightarrow> (api_error + board_file) \<times> web_db \<times> 's" where
  "record_uploaded_file E owner payload st =
     (case (if \<not> ue_up E QWrite then Inl (QuotaDatabase RowNotFound)
            else insert_board_file (ue_row_id E) (ue_now E) owner payload (fst st)) of
        Inr (f, d') \<Rightarrow> (Inr f, d', snd st)
      | Inl e \<Rightarrow>
          (Inl (quota_api_error e), fst st,
           snd (delete_from_storage (ue_s3 E) (ue_bucket E) (bf_object_key payload) (snd st))))"

subsection \<open>Media\<close>

fun find_field :: "string \<Rightarrow> multipart \<Rightarrow> api_error + multipart_field option" where
  "find_field name [] = Inr None"
| "find_field name (None # parts) = Inl (api_err 400 ''Invalid file data'')"
| "find_field name (Some field # parts) =
     (if mp_name field = Some name then Inr (Some field) else find_field name parts)"

text \<open>\<open>media_ext\<close> gives the extension of a field or refuses it; the bytes are read after that.\<close>

definition accept_field ::
  "'s upload_env \<Rightarrow> web_db \<Rightarrow> string \<Rightarrow> app_user \<Rightarrow> string \<Rightarrow> string \<Rightarrow> (multipart_field \<Rightarrow> api_error + string) \<Rightarrow>
   multipart \<Rightarrow> api_error + board \<times> multipart_field \<times> string \<times> bytes" where
  "accept_field E d ident u name missing media_ext parts =
     bindE (parse_board_id (ue_parse E) ident) (\<lambda>board_id.
     bindE (ensure_board_edit_access (ue_up E) d board_id u) (\<lambda>b.
     bindE (find_field name parts) (\<lambda>found.
     bindE (ok_orE (api_err 400 missing) found) (\<lambda>field.
     bindE (media_ext field) (\<lambda>ext.
     bindE (ok_orE (api_err 400 ''Failed to read file'') (mp_bytes field)) (\<lambda>data.
     bindE (validate_upload_quota (ue_up E) d (bo_owner_id b) (length data)) (\<lambda>_.
     Inr (b, field, ext, data))))))))"

definition content_type_of :: "multipart_field \<Rightarrow> string" where
  "content_type_of field = (case mp_content_type field of Some t \<Rightarrow> t | None \<Rightarrow> [])"

definition media_key :: "'s upload_env \<Rightarrow> uuid \<Rightarrow> string \<Rightarrow> string" where
  "media_key E board_id ext = ''boards/'' @ ue_text E board_id @ ''/'' @ ue_text E (ue_new_id E) @ ''.'' @ ext"

text \<open>The response is the row with the presigned URL, if signing works.\<close>

definition upload_media ::
  "'s upload_env \<Rightarrow> web_db \<Rightarrow> string \<Rightarrow> app_user \<Rightarrow> string \<Rightarrow> string \<Rightarrow> (multipart_field \<Rightarrow> api_error + string) \<Rightarrow>
   multipart \<Rightarrow> web_db \<times> 's \<Rightarrow> (api_error + board_file \<times> string option) \<times> web_db \<times> 's" where
  "upload_media E d0 ident u name missing media_ext parts st =
     (case accept_field E d0 ident u name missing media_ext parts of
        Inl e \<Rightarrow> (Inl e, st)
      | Inr (b, field, ext, data) \<Rightarrow>
          (let object_key = media_key E (bo_id b) ext in
           case upload_to_storage (ue_s3 E) (ue_production E) (ue_endpoint E) (ue_bucket E) object_key data (snd st) of
             (Inl _, s') \<Rightarrow> (Inl (api_err 500 ''Upload failed''), fst st, s')
           | (Inr url, s') \<Rightarrow>
               (case record_uploaded_file E (bo_owner_id b)
                  (file_payload E (bo_id b) (us_id u) object_key (content_type_of field) (length data) (mp_file_name field) url)
                  (fst st, s') of
                  (Inl e, st') \<Rightarrow> (Inl e, st')
                | (Inr f, st') \<Rightarrow> (Inr (f, ue_presign E (ue_bucket E) object_key), st'))))"

definition ext_table :: "(string list \<times> string) list \<Rightarrow> string \<Rightarrow> multipart_field \<Rightarrow> api_error + string" where
  "ext_table table refusal field =
     ok_orE (api_err 415 refusal) (map_option snd (find (\<lambda>(types, ext). content_type_of field \<in> set types) table))"

definition image_ext :: "multipart_field \<Rightarrow> api_error + string" where
  "image_ext = ext_table [([''image/png''], ''png''), ([''image/jpeg''], ''jpg''), ([''image/jpg''], ''jpg''),
     ([''image/gif''], ''gif'')] ''Only PNG, JPEG and GIF formats allowed''"

definition audio_ext :: "multipart_field \<Rightarrow> api_error + string" where
  "audio_ext = ext_table [([''audio/mpeg'', ''audio/mp3''], ''mp3''),
     ([''audio/wav'', ''audio/x-wav'', ''audio/wave''], ''wav''), ([''audio/ogg'', ''audio/oga''], ''ogg''),
     ([''audio/mp4'', ''audio/x-m4a'', ''audio/aac''], ''m4a''), ([''audio/webm''], ''webm''),
     ([''audio/flac'', ''audio/x-flac''], ''flac'')] ''Only audio files are allowed''"

definition video_ext :: "multipart_field \<Rightarrow> api_error + string" where
  "video_ext = ext_table [([''video/mp4'', ''video/x-m4v''], ''mp4''), ([''video/webm''], ''webm''),
     ([''video/quicktime''], ''mov''), ([''video/ogg''], ''ogv'')] ''Only video files are allowed''"

text \<open>\<open>Path::extension\<close> of the last normal component.\<close>

definition rsplit_once :: "char \<Rightarrow> string \<Rightarrow> (string \<times> string) option" where
  "rsplit_once c s = map_option (\<lambda>(a, b). (rev b, rev a)) (split_once c (rev s))"

definition path_extension :: "string \<Rightarrow> string option" where
  "path_extension name =
     (case rev (filter (\<lambda>p. p \<noteq> [] \<and> p \<noteq> ''.'') (split_char CHR ''/'' name)) of
        [] \<Rightarrow> None
      | file_name # _ \<Rightarrow>
          (if file_name = ''..'' then None
           else (case rsplit_once CHR ''.'' file_name of
                   Some (before, after) \<Rightarrow> (if before = [] then None else Some after)
                 | None \<Rightarrow> None)))"

definition file_ext :: "multipart_field \<Rightarrow> api_error + string" where
  "file_ext field =
     Inr (case map_option to_ascii_lowercase (Option.bind (mp_file_name field) path_extension) of
            Some (c # cs) \<Rightarrow> c # cs | _ \<Rightarrow> ''bin'')"

definition upload_board_image where
  "upload_board_image E d0 ident u = upload_media E d0 ident u ''image'' ''No image uploaded'' image_ext"

definition upload_board_audio where
  "upload_board_audio E d0 ident u = upload_media E d0 ident u ''audio'' ''No audio uploaded'' audio_ext"

definition upload_board_video where
  "upload_board_video E d0 ident u = upload_media E d0 ident u ''video'' ''No video uploaded'' video_ext"

definition upload_board_file where
  "upload_board_file E d0 ident u = upload_media E d0 ident u ''file'' ''No file uploaded'' file_ext"

subsection \<open>PDF documents\<close>

text \<open>\<open>f32\<close> parsing and the positivity test are parameters.\<close>

record 'f f32_ops =
  f32_parse :: "string \<Rightarrow> 'f option"
  f32_positive :: "'f \<Rightarrow> bool"

fun find_after :: "string \<Rightarrow> string \<Rightarrow> string option" where
  "find_after key [] = (if key = [] then Some [] else None)"
| "find_after key (c # s) = (if starts_with (c # s) key then Some (drop (length key) (c # s)) else find_after key s)"

definition quoted_attr :: "string \<Rightarrow> string \<Rightarrow> string option" where
  "quoted_attr name head =
     Option.bind (find_after (name @ ''=\"'') head) (\<lambda>rest. map_option fst (split_once CHR 0x22 rest))"

fun split_where :: "(char \<Rightarrow> bool) \<Rightarrow> string \<Rightarrow> string list" where
  "split_where p [] = [[]]"
| "split_where p (c # s) =
     (if p c then [] # split_where p s
      else (case split_where p s of [] \<Rightarrow> [[c]] | w # ws \<Rightarrow> (c # w) # ws))"

definition parse_svg_dims :: "'f f32_ops \<Rightarrow> bytes \<Rightarrow> ('f \<times> 'f) option" where
  "parse_svg_dims F svg =
     (let head_bytes = take 1024 svg in
      if \<not> valid_utf8 head_bytes then None
      else
        (let head = of_bytes head_bytes;
             attr = (\<lambda>name. Option.bind (quoted_attr name head)
               (\<lambda>v. f32_parse F (takeWhile (\<lambda>c. is_ascii_digit c \<or> c = CHR ''.'') v)));
             view_box = Option.bind (quoted_attr ''viewBox'' head) (\<lambda>v.
               let nums = List.map_filter (f32_parse F) (split_where (\<lambda>c. c = CHR '','' \<or> is_space c) v)
               in if length nums = 4 \<and> f32_positive F (nums ! 2) \<and> f32_positive F (nums ! 3)
                  then Some (nums ! 2, nums ! 3) else None)
         in case (attr ''width'', attr ''height'') of
              (Some w, Some h) \<Rightarrow> (if f32_positive F w \<and> f32_positive F h then Some (w, h) else view_box)
            | _ \<Rightarrow> view_box))"

text \<open>What the converter leaves: the pages it wrote, or the failure of a step.\<close>

datatype conversion = NoWorkDir | NoTool | ToolFailed | Pages "bytes list"

definition document_prefix :: "'s upload_env \<Rightarrow> uuid \<Rightarrow> string" where
  "document_prefix E board_id = ''boards/'' @ ue_text E board_id @ ''/pdf/'' @ ue_text E (ue_new_id E) @ ''/''"

definition page_key :: "'s upload_env \<Rightarrow> uuid \<Rightarrow> nat \<Rightarrow> string" where
  "page_key E board_id n = document_prefix E board_id @ ''page-'' @ nat_str n @ ''.svg''"

definition cleanup_failed_pdf_upload :: "'s upload_env \<Rightarrow> uuid \<Rightarrow> 's \<Rightarrow> 's option" where
  "cleanup_failed_pdf_upload E board_id s =
     map_option snd (delete_objects_with_prefix (ue_s3 E) (ue_bucket E) (document_prefix E board_id) s)"

text \<open>The page loop; a failing page ends it with \<open>False\<close>.\<close>

fun store_pages :: "'s upload_env \<Rightarrow> uuid \<Rightarrow> nat \<Rightarrow> bytes list \<Rightarrow> 's \<Rightarrow> bool \<times> 's" where
  "store_pages E board_id n [] s = (True, s)"
| "store_pages E board_id n (svg # pages) s =
     (case upload_to_storage (ue_s3 E) (ue_production E) (ue_endpoint E) (ue_bucket E) (page_key E board_id n) svg s of
        (Inl _, s') \<Rightarrow> (False, s')
      | (Inr _, s') \<Rightarrow> store_pages E board_id (Suc n) pages s')"

record 'f pdf_response =
  pr_doc_id :: string
  pr_page_count :: nat
  pr_page_size :: "'f \<times> 'f"
  pr_page_svg_url_template :: string
  pr_source_object_key :: string
  pr_source_name :: string

fun find_pdf :: "multipart \<Rightarrow> api_error + (string option \<times> bytes) option" where
  "find_pdf [] = Inr None"
| "find_pdf (None # parts) = Inl (api_err 400 ''Invalid file data'')"
| "find_pdf (Some field # parts) =
     (if mp_name field = Some ''pdf''
      then bindE (ok_orE (api_err 400 ''Failed to read file'') (mp_bytes field)) (\<lambda>data. Inr (Some (mp_file_name field, data)))
      else find_pdf parts)"

definition accept_pdf ::
  "'s upload_env \<Rightarrow> web_db \<Rightarrow> string \<Rightarrow> app_user \<Rightarrow> multipart \<Rightarrow> api_error + board \<times> string option \<times> bytes" where
  "accept_pdf E d ident u parts =
     bindE (parse_board_id (ue_parse E) ident) (\<lambda>board_id.
     bindE (ensure_board_edit_access (ue_up E) d board_id u) (\<lambda>b.
     bindE (find_pdf parts) (\<lambda>found.
     bindE (ok_orE (api_err 400 ''No pdf uploaded'') found) (\<lambda>(pdf_name, data).
     bindE (validate_upload_quota (ue_up E) d (bo_owner_id b) (length data)) (\<lambda>_.
     if \<not> starts_with (of_bytes data) ''%PDF'' then Inl (api_err 415 ''Not a PDF'')
     else Inr (b, pdf_name, data))))))"

definition pdf_source_name :: "string option \<Rightarrow> string" where
  "pdf_source_name name = (case name of Some n \<Rightarrow> (if trim n \<noteq> [] then n else ''document.pdf'') | None \<Rightarrow> ''document.pdf'')"

definition pages_of :: "conversion \<Rightarrow> api_error + bytes list" where
  "pages_of c =
     (case c of
        NoWorkDir \<Rightarrow> Inl (api_err 500 ''Could not prepare conversion'')
      | NoTool \<Rightarrow> Inl (api_err 500 ''PDF conversion tool unavailable'')
      | ToolFailed \<Rightarrow> Inl (api_err 500 ''PDF conversion failed'')
      | Pages pages \<Rightarrow> Inr pages)"

text \<open>The failures that clean up what is stored so far.\<close>

definition abandon_pdf ::
  "'s upload_env \<Rightarrow> uuid \<Rightarrow> api_error \<Rightarrow> web_db \<times> 's \<Rightarrow> ((api_error + 'r) \<times> web_db \<times> 's) option" where
  "abandon_pdf E board_id e st =
     map_option (\<lambda>s. (Inl e, fst st, s)) (cleanup_failed_pdf_upload E board_id (snd st))"

definition upload_board_pdf ::
  "'f f32_ops \<Rightarrow> 'f \<times> 'f \<Rightarrow> (bytes \<Rightarrow> conversion) \<Rightarrow> 's upload_env \<Rightarrow> web_db \<Rightarrow> string \<Rightarrow> app_user \<Rightarrow> multipart \<Rightarrow>
   web_db \<times> 's \<Rightarrow> ((api_error + 'f pdf_response) \<times> web_db \<times> 's) option" where
  "upload_board_pdf F a4 convert E d0 ident u parts st =
     (case bindE (accept_pdf E d0 ident u parts) (\<lambda>(b, pdf_name, data).
             bindE (pages_of (convert data)) (\<lambda>pages. Inr (b, pdf_name, data, pages))) of
        Inl e \<Rightarrow> Some (Inl e, st)
      | Inr (b, pdf_name, data, pages) \<Rightarrow>
          (let board_id = bo_id b; source_key = document_prefix E board_id @ ''original.pdf'' in
           case store_pages E board_id 0 pages (snd st) of
             (False, s1) \<Rightarrow> abandon_pdf E board_id (api_err 500 ''Failed to store page'') (fst st, s1)
           | (True, s1) \<Rightarrow>
               (if pages = [] then Some (Inl (api_err 500 ''PDF produced no pages''), fst st, s1)
                else
                  (case upload_to_storage (ue_s3 E) (ue_production E) (ue_endpoint E) (ue_bucket E) source_key data s1 of
                     (Inl _, s2) \<Rightarrow> abandon_pdf E board_id (api_err 500 ''Failed to store original PDF'') (fst st, s2)
                   | (Inr url, s2) \<Rightarrow>
                       (case record_uploaded_file E (bo_owner_id b)
                          (file_payload E board_id (us_id u) source_key ''application/pdf'' (length data)
                             (Some (pdf_source_name pdf_name)) url) (fst st, s2) of
                          (Inl e, st3) \<Rightarrow> abandon_pdf E board_id e st3
                        | (Inr _, st3) \<Rightarrow>
                            Some (Inr \<lparr>pr_doc_id = ue_text E (ue_new_id E), pr_page_count = length pages,
                               pr_page_size = (case parse_svg_dims F (hd pages) of Some wh \<Rightarrow> wh | None \<Rightarrow> a4),
                               pr_page_svg_url_template = ''/boards/'' @ ue_text E board_id @ ''/pdf/''
                                  @ ue_text E (ue_new_id E) @ ''/page/{n}'',
                               pr_source_object_key = source_key, pr_source_name = pdf_source_name pdf_name\<rparr>, st3))))))"

function trim_end_str :: "string \<Rightarrow> string \<Rightarrow> string" where
  "trim_end_str p s = (if p \<noteq> [] \<and> ends_with s p then trim_end_str p (take (length s - length p) s) else s)"
  by pat_completeness auto
termination
  by (relation "measure (length \<circ> snd)")
    (auto simp: ends_with_def intro!: diff_less order_less_le_trans [of 0 "length p" "length s" for p s])

declare trim_end_str.simps [simp del]

text \<open>\<open>fetch\<close> reads an object: \<open>None\<close> when the request fails, \<open>Some None\<close> when its body does.\<close>

definition get_pdf_page ::
  "(string \<Rightarrow> uuid option) \<Rightarrow> (uuid \<Rightarrow> string) \<Rightarrow> (string \<Rightarrow> bytes option option) \<Rightarrow> string \<Rightarrow> string \<Rightarrow> string \<Rightarrow>
   api_error + bytes" where
  "get_pdf_page P U fetch ident doc_id page =
     bindE (parse_board_id P ident) (\<lambda>board_id.
     bindE (ok_orE (api_err 400 ''Invalid document id.'') (P doc_id)) (\<lambda>_.
     bindE (ok_orE (api_err 400 ''Invalid page.'') (parse_uint (2 ^ 32 - 1) (trim_end_str ''.svg'' page))) (\<lambda>page_n.
     bindE (ok_orE (api_err 404 ''Page not found.'')
              (fetch (''boards/'' @ U board_id @ ''/pdf/'' @ doc_id @ ''/page-'' @ nat_str page_n @ ''.svg''))) (\<lambda>body.
     ok_orE (api_err 500 ''Failed to read page.'') body))))"

subsection \<open>All or nothing\<close>

lemma insert_board_file_row:
  assumes "insert_board_file new_id now owner payload d = Inr (f, d')"
  shows "f = payload\<lparr>bf_id := new_id, bf_created_at := now\<rparr>" "d' = d\<lparr>w_files := w_files d @ [f]\<rparr>"
    "get_board d (bf_board_id payload) \<noteq> None" "ensure_upload_available d owner (bf_size_bytes payload) \<noteq> Inl e"
  using assms by (auto simp: insert_board_file_def Let_def result_simps split: if_splits)

lemma record_uploaded_cases:
  assumes rec: "record_uploaded_file E owner payload (d, s) = (r, d', s')"
  shows "case r of
      Inr f \<Rightarrow> f = payload\<lparr>bf_id := ue_row_id E, bf_created_at := ue_now E\<rparr> \<and> s' = s \<and> d' = d\<lparr>w_files := w_files d @ [f]\<rparr>
    | Inl e \<Rightarrow> d' = d \<and> s' = snd (delete_from_storage (ue_s3 E) (ue_bucket E) (bf_object_key payload) s)"
proof (cases "\<exists>f d1. ue_up E QWrite \<and> insert_board_file (ue_row_id E) (ue_now E) owner payload d = Inr (f, d1)")
  case True
  then obtain f d1 where i: "ue_up E QWrite" "insert_board_file (ue_row_id E) (ue_now E) owner payload d = Inr (f, d1)" by blast
  then show ?thesis using rec insert_board_file_row [OF i(2)] by (auto simp: record_uploaded_file_def)
next
  case False
  then obtain e where e: "(if \<not> ue_up E QWrite then Inl (QuotaDatabase RowNotFound)
            else insert_board_file (ue_row_id E) (ue_now E) owner payload d) = Inl e"
    by (cases "insert_board_file (ue_row_id E) (ue_now E) owner payload d"; cases "ue_up E QWrite") auto
  have "(r, d', s') = (Inl (quota_api_error e), d, snd (delete_from_storage (ue_s3 E) (ue_bucket E) (bf_object_key payload) s))"
    using rec unfolding record_uploaded_file_def fst_conv snd_conv e by simp
  then show ?thesis by simp
qed

text \<open>C25: An upload is all or nothing up to its own object: whichever media endpoint and whatever changed in
  the database between the checks and the insertion, with an object key that is not in use, a successful upload leaves
  exactly one new object and one row that names it with its true size. A refused or failing one leaves the metadata as
  they were and every object in place, and adds to the store at most the one object of this upload; it adds none if
  the deletions of the clean-up succeed, except when the upload of the object itself is what failed (such a request
  may have been carried out, and is not cleaned up).\<close>

theorem upload_all_or_nothing:
  assumes laws: "s3_laws (ue_s3 E) obs"
    and fresh: "\<And>ext b. (ue_bucket E, media_key E b ext) \<notin> obs s"
  shows "case upload_media E d0 ident u name missing media_ext parts (d, s) of
      (Inr (f, url), d', s') \<Rightarrow> obs s' = insert (ue_bucket E, bf_object_key f) (obs s) \<and> d' = d\<lparr>w_files := w_files d @ [f]\<rparr>
        \<and> (\<exists>field data. Some field \<in> set parts \<and> mp_bytes field = Some data \<and> bf_size_bytes f = int (length data))
    | (Inl e, d', s') \<Rightarrow> d' = d \<and> obs s \<subseteq> obs s' \<and> (\<exists>b ext. obs s' \<subseteq> insert (ue_bucket E, media_key E b ext) (obs s))
        \<and> ((\<forall>b ext s. fst (delete_from_storage (ue_s3 E) (ue_bucket E) (media_key E b ext) s) = Inr ()) \<longrightarrow>
             e \<noteq> api_err 500 ''Upload failed'' \<longrightarrow> obs s' = obs s)"
proof (cases "accept_field E d0 ident u name missing media_ext parts")
  case (Inl e)
  then have "upload_media E d0 ident u name missing media_ext parts (d, s) = (Inl e, d, s)" by (simp add: upload_media_def)
  then show ?thesis by (simp only: prod.case sum.case) blast
next
  case (Inr x)
  obtain b field ext data where x: "x = (b, field, ext, data)" by (cases x) auto
  have acc: "find_field name parts = Inr (Some field)" "mp_bytes field = Some data"
    using Inr unfolding x accept_field_def by (auto simp: result_simps)
  have "find_field name parts = Inr (Some field) \<Longrightarrow> Some field \<in> set parts" for parts
    by (induction name parts rule: find_field.induct) (auto split: if_splits)
  with acc have field: "Some field \<in> set parts" by blast
  let ?k = "media_key E (bo_id b) ext"
  obtain r s1 where up: "upload_to_storage (ue_s3 E) (ue_production E) (ue_endpoint E) (ue_bucket E) ?k data s = (r, s1)"
    by fastforce
  have o1: "obs s \<subseteq> obs s1" "obs s1 \<subseteq> insert (ue_bucket E, ?k) (obs s)"
    "(\<exists>url. r = Inr url) \<longrightarrow> obs s1 = insert (ue_bucket E, ?k) (obs s)"
    using upload_to_storage_obs [OF laws, of s "ue_production E" "ue_endpoint E" "ue_bucket E" ?k data] up by simp_all
  show ?thesis
  proof (cases r)
    case (Inl e)
    then have "upload_media E d0 ident u name missing media_ext parts (d, s) = (Inl (api_err 500 ''Upload failed''), d, s1)"
      by (simp add: upload_media_def \<open>accept_field E d0 ident u name missing media_ext parts = Inr x\<close> x up Let_def)
    then show ?thesis using o1 by (simp only: prod.case sum.case) blast
  next
    case r: (Inr url)
    let ?p = "file_payload E (bo_id b) (us_id u) ?k (content_type_of field) (length data) (mp_file_name field) url"
    obtain q d2 s2 where rec: "record_uploaded_file E (bo_owner_id b) ?p (d, s1) = (q, d2, s2)"
      by (cases "record_uploaded_file E (bo_owner_id b) ?p (d, s1)") auto
    have key: "bf_object_key ?p = ?k" "bf_size_bytes ?p = int (length data)" by (simp_all add: file_payload_def)
    have o: "obs s1 = insert (ue_bucket E, ?k) (obs s)" using o1(3) r by simp
    note c = record_uploaded_cases [OF rec]
    show ?thesis
    proof (cases q)
      case q: (Inl e)
      have m: "upload_media E d0 ident u name missing media_ext parts (d, s) = (Inl e, d2, s2)"
        by (simp add: upload_media_def \<open>accept_field E d0 ident u name missing media_ext parts = Inr x\<close> x up r rec q Let_def)
      have s2: "d2 = d" "s2 = snd (delete_from_storage (ue_s3 E) (ue_bucket E) ?k s1)" using c q key by simp_all
      note del = delete_from_storage_obs [OF laws, of s1 "ue_bucket E" ?k, folded s2(2)]
      have two: "obs s \<subseteq> obs s2" "obs s2 \<subseteq> insert (ue_bucket E, ?k) (obs s)"
        using del o fresh [of "bo_id b" ext] by auto
      have "obs s2 = obs s" if "\<forall>b ext s. fst (delete_from_storage (ue_s3 E) (ue_bucket E) (media_key E b ext) s) = Inr ()"
        using that del o fresh [of "bo_id b" ext] by auto
      then show ?thesis unfolding m prod.case sum.case using s2(1) two by blast
    next
      case q: (Inr f)
      then show ?thesis
        using c o field acc(2) key
        by (auto simp: upload_media_def \<open>accept_field E d0 ident u name missing media_ext parts = Inr x\<close> x up r rec Let_def)
    qed
  qed
qed

subsection \<open>All or nothing for PDF documents\<close>

text \<open>The objects of one document.\<close>

definition document_objects :: "'s upload_env \<Rightarrow> uuid \<Rightarrow> (string \<times> string) set" where
  "document_objects E b = {(ue_bucket E, k) | k. starts_with k (document_prefix E b)}"

definition lists_exactly :: "'s s3 \<Rightarrow> ('s \<Rightarrow> (string \<times> string) set) \<Rightarrow> string \<Rightarrow> bool" where
  "lists_exactly S obs bucket \<longleftrightarrow> (\<forall>s prefix m os k. list_pages S s bucket prefix m None [] = Some (Inr os) \<longrightarrow>
     (Some k \<in> so_key ` set os \<longleftrightarrow> (bucket, k) \<in> obs s \<and> starts_with k prefix))"

lemma delete_prefix_exact:
  assumes laws: "s3_laws S obs" and lists: "lists_exactly S obs bucket"
    and del: "delete_objects_with_prefix S bucket prefix s = Some (Inr n, s')"
  shows "obs s' = obs s - {(bucket, k) | k. starts_with k prefix}"
proof -
  obtain os m where os: "list_pages S s bucket prefix m None [] = Some (Inr os)"
    and d: "delete_keys S bucket (List.map_filter so_key os) s = (Inr (), s')"
    using del by (auto simp: delete_objects_with_prefix_def Let_def split: if_splits sum.splits option.splits prod.splits)
  have "set (List.map_filter so_key os) = {k. (bucket, k) \<in> obs s \<and> starts_with k prefix}"
    using lists os unfolding lists_exactly_def by (auto simp: set_map_filter image_iff) (metis, metis, metis)
  then show ?thesis using delete_keys_exact [OF laws, of bucket "List.map_filter so_key os" s] d by auto
qed

lemma store_pages_objects:
  assumes laws: "s3_laws (ue_s3 E) obs"
  shows "obs s \<subseteq> obs (snd (store_pages E b n pages s)) \<and> obs (snd (store_pages E b n pages s)) \<subseteq> obs s \<union> document_objects E b
    \<and> (fst (store_pages E b n pages s) \<longrightarrow> obs (snd (store_pages E b n pages s))
         = obs s \<union> (\<lambda>i. (ue_bucket E, page_key E b (n + i))) ` {..<length pages})"
proof (induction pages arbitrary: n s)
  case (Cons svg pages)
  obtain r t where up: "upload_to_storage (ue_s3 E) (ue_production E) (ue_endpoint E) (ue_bucket E) (page_key E b n) svg s = (r, t)"
    by fastforce
  have o: "obs s \<subseteq> obs t" "obs t \<subseteq> insert (ue_bucket E, page_key E b n) (obs s)"
    "(\<exists>url. r = Inr url) \<longrightarrow> obs t = insert (ue_bucket E, page_key E b n) (obs s)"
    using upload_to_storage_obs [OF laws, of s "ue_production E" "ue_endpoint E" "ue_bucket E" "page_key E b n" svg] up by simp_all
  have k: "(ue_bucket E, page_key E b n) \<in> document_objects E b" by (simp add: document_objects_def page_key_def)
  have shift: "(\<lambda>i. (ue_bucket E, page_key E b (n + i))) ` {..<length (svg # pages)}
      = insert (ue_bucket E, page_key E b n) ((\<lambda>i. (ue_bucket E, page_key E b (Suc n + i))) ` {..<length pages})"
    unfolding length_Cons lessThan_Suc_eq_insert_0 by (simp add: image_image)
  show ?case
  proof (cases r)
    case (Inl e)
    then show ?thesis using o k up by auto
  next
    case (Inr url)
    then show ?thesis using o up k Cons.IH [of t "Suc n"] unfolding shift by auto
  qed
qed simp

lemma delete_prefix_bounds:
  assumes laws: "s3_laws S obs" and lists: "lists_exactly S obs bucket"
    and del: "delete_objects_with_prefix S bucket prefix s = Some (r, s')"
  shows "obs s - {(bucket, k) | k. starts_with k prefix} \<subseteq> obs s' \<and> obs s' \<subseteq> obs s"
proof -
  let ?m = "Some (''S3 returned a truncated listing without a continuation token for '' @ bucket @ ''/'' @ prefix)"
  have "s' = s \<or> (\<exists>os. list_pages S s bucket prefix ?m None [] = Some (Inr os)
      \<and> s' = snd (delete_keys S bucket (List.map_filter so_key os) s))"
    using del unfolding delete_objects_with_prefix_def Let_def
    by (simp split: if_splits sum.splits option.splits prod.splits)
  then consider "s' = s"
    | os where "list_pages S s bucket prefix ?m None [] = Some (Inr os)" "s' = snd (delete_keys S bucket (List.map_filter so_key os) s)"
    by blast
  then show ?thesis
  proof cases
    case (2 os)
    have "set (List.map_filter so_key os) \<subseteq> {k. starts_with k prefix}"
    proof
      fix k assume "k \<in> set (List.map_filter so_key os)"
      then have "Some k \<in> so_key ` set os" by (auto simp: set_map_filter image_iff) (metis)
      then show "k \<in> {k. starts_with k prefix}" using lists 2(1) unfolding lists_exactly_def by blast
    qed
    then have "Pair bucket ` set (List.map_filter so_key os) \<subseteq> {(bucket, k) | k. starts_with k prefix}" by blast
    then have "obs s - {(bucket, k) | k. starts_with k prefix} \<subseteq> obs s - Pair bucket ` set (List.map_filter so_key os)"
      by (rule Diff_mono [OF order_refl])
    moreover have "obs s - Pair bucket ` set (List.map_filter so_key os) \<subseteq> obs s'" "obs s' \<subseteq> obs s"
      using delete_keys_obs [OF laws, of s bucket "List.map_filter so_key os"] 2(2) by simp_all
    ultimately show ?thesis by (intro conjI) (rule order_trans)
  qed blast
qed

text \<open>The clean-up removes nothing but objects of the document, and all of them if it succeeds.\<close>

lemma abandon_pdf_clean:
  assumes laws: "s3_laws (ue_s3 E) obs" and lists: "lists_exactly (ue_s3 E) obs (ue_bucket E)"
    and returns: "\<forall>s. delete_objects_with_prefix (ue_s3 E) (ue_bucket E) (document_prefix E b) s \<noteq> None"
  shows "\<exists>s'. abandon_pdf E b e (d, s) = Some (Inl e, d, s') \<and> obs s - document_objects E b \<subseteq> obs s' \<and> obs s' \<subseteq> obs s
    \<and> ((\<exists>n t. delete_objects_with_prefix (ue_s3 E) (ue_bucket E) (document_prefix E b) s = Some (Inr n, t)) \<longrightarrow>
        obs s' = obs s - document_objects E b)"
proof -
  obtain r s' where del: "delete_objects_with_prefix (ue_s3 E) (ue_bucket E) (document_prefix E b) s = Some (r, s')"
    using returns by fastforce
  have "abandon_pdf E b e (d, s) = Some (Inl e, d, s')"
    using del by (simp add: abandon_pdf_def cleanup_failed_pdf_upload_def split: sum.splits)
  then show ?thesis
    using delete_prefix_bounds [OF laws lists del] delete_prefix_exact [OF laws lists] del
    by (auto simp: document_objects_def)
qed

lemma clean_back: "A \<subseteq> B \<Longrightarrow> B \<subseteq> A \<union> D \<Longrightarrow> A \<inter> D = {} \<Longrightarrow> B - D = A"
  by blast

text \<open>C23: A PDF upload is all or nothing up to its own folder: with a document id that is not in use and a
  listing that shows what is stored and ends, the upload returns, and either every page and the source file are stored
  and exactly one row names the source, or (conversion, page, source or quota failing at any point, the quota check of
  the racing transaction included) the metadata are as before, no older object is lost and nothing is added but
  objects below the prefix of this document. If the deletions of the clean-up succeed, the store is then as before; a
  clean-up that fails is only logged and can leave pages of the document behind.\<close>

theorem pdf_all_or_nothing:
  fixes F :: "'f f32_ops"
  assumes laws: "s3_laws (ue_s3 E) obs" and lists: "lists_exactly (ue_s3 E) obs (ue_bucket E)"
    and returns: "\<And>b s. delete_objects_with_prefix (ue_s3 E) (ue_bucket E) (document_prefix E b) s \<noteq> None"
    and fresh: "\<And>b. obs s \<inter> document_objects E b = {}"
  shows "\<exists>r d' s'. upload_board_pdf F a4 convert E d0 ident u parts (d, s) = Some (r, d', s')
    \<and> (case r of
        Inl e \<Rightarrow> d' = d \<and> obs s \<subseteq> obs s' \<and> (\<exists>b. obs s' \<subseteq> obs s \<union> document_objects E b)
          \<and> ((\<forall>b s. \<exists>n t. delete_objects_with_prefix (ue_s3 E) (ue_bucket E) (document_prefix E b) s = Some (Inr n, t)) \<longrightarrow>
               obs s' = obs s)
      | Inr resp \<Rightarrow> (\<exists>f b. d' = d\<lparr>w_files := w_files d @ [f]\<rparr> \<and> bf_object_key f = pr_source_object_key resp
          \<and> obs s' = obs s \<union> (\<lambda>i. (ue_bucket E, page_key E b i)) ` {..<pr_page_count resp}
              \<union> {(ue_bucket E, pr_source_object_key resp)}))"
proof (cases "bindE (accept_pdf E d0 ident u parts) (\<lambda>(b, pdf_name, data).
             bindE (pages_of (convert data)) (\<lambda>pages. Inr (b, pdf_name, data, pages)))")
  case (Inl e)
  then show ?thesis by (simp add: upload_board_pdf_def)
next
  case acc: (Inr x)
  obtain b pdf_name data pages where x: "x = (b, pdf_name, data, pages)" by (cases x) auto
  let ?id = "bo_id b" and ?k = "document_prefix E (bo_id b) @ ''original.pdf''"
  let ?up = "upload_board_pdf F a4 convert E d0 ident u parts (d, s)"
  let ?D = "document_objects E ?id"
  let ?clean = "\<forall>b s. \<exists>n t. delete_objects_with_prefix (ue_s3 E) (ue_bucket E) (document_prefix E b) s = Some (Inr n, t)"
  let ?good = "\<lambda>X :: ((api_error + 'f pdf_response) \<times> web_db \<times> _) option. \<exists>r d' s'. X = Some (r, d', s') \<and> (case r of
        Inl e \<Rightarrow> d' = d \<and> obs s \<subseteq> obs s' \<and> (\<exists>b. obs s' \<subseteq> obs s \<union> document_objects E b) \<and> (?clean \<longrightarrow> obs s' = obs s)
      | Inr resp \<Rightarrow> (\<exists>f b. d' = d\<lparr>w_files := w_files d @ [f]\<rparr> \<and> bf_object_key f = pr_source_object_key resp
          \<and> obs s' = obs s \<union> (\<lambda>i. (ue_bucket E, page_key E b i)) ` {..<pr_page_count resp}
              \<union> {(ue_bucket E, pr_source_object_key resp)}))"
  have abandon: "?good (abandon_pdf E ?id e (d, t))" if t: "obs s \<subseteq> obs t" "obs t \<subseteq> obs s \<union> ?D" for e t
  proof -
    obtain s' where ab: "abandon_pdf E ?id e (d, t) = Some (Inl e :: api_error + 'f pdf_response, d, s')"
      and bounds: "obs t - ?D \<subseteq> obs s'" "obs s' \<subseteq> obs t" and exact: "?clean \<longrightarrow> obs s' = obs t - ?D"
      using abandon_pdf_clean [OF laws lists, of ?id e d t] returns by blast
    have "obs s \<subseteq> obs s'" "obs s' \<subseteq> obs s \<union> ?D" using bounds t fresh [of ?id] by blast+
    moreover have "?clean \<longrightarrow> obs s' = obs s" using exact clean_back [OF t fresh] by (simp only: simp_thms)
    ultimately show ?thesis using ab by (intro exI [of _ "Inl e"] exI [of _ d] exI [of _ s']) auto
  qed
  have kD: "(ue_bucket E, ?k) \<in> ?D" by (simp add: document_objects_def)
  obtain stored s1 where p: "store_pages E ?id 0 pages s = (stored, s1)" by fastforce
  note pg = store_pages_objects [OF laws, of s ?id 0 pages, unfolded p fst_conv snd_conv]
  show ?thesis
  proof (cases stored)
    case False
    then have "?up = abandon_pdf E ?id (api_err 500 ''Failed to store page'') (d, s1)"
      by (simp add: upload_board_pdf_def acc x p Let_def)
    moreover have "?good (abandon_pdf E ?id (api_err 500 ''Failed to store page'') (d, s1))" using pg by (intro abandon) simp_all
    ultimately show ?thesis by (simp only:)
  next
    case stored: True
    show ?thesis
    proof (cases "pages = []")
      case True
      then show ?thesis using pg stored by (simp add: upload_board_pdf_def acc x p Let_def)
    next
      case pages: False
      obtain r s2 where src: "upload_to_storage (ue_s3 E) (ue_production E) (ue_endpoint E) (ue_bucket E) ?k data s1 = (r, s2)"
        by fastforce
      have o2: "obs s1 \<subseteq> obs s2" "obs s2 \<subseteq> insert (ue_bucket E, ?k) (obs s1)"
        "(\<exists>url. r = Inr url) \<longrightarrow> obs s2 = insert (ue_bucket E, ?k) (obs s1)"
        using upload_to_storage_obs [OF laws, of s1 "ue_production E" "ue_endpoint E" "ue_bucket E" ?k data] src by simp_all
      have in2: "obs s \<subseteq> obs s2" "obs s2 \<subseteq> obs s \<union> ?D" using o2(1,2) pg kD by auto
      show ?thesis
      proof (cases r)
        case (Inl m)
        then have "?up = abandon_pdf E ?id (api_err 500 ''Failed to store original PDF'') (d, s2)"
          using stored pages by (simp add: upload_board_pdf_def acc x p src Let_def)
        then show ?thesis using abandon [OF in2, of "api_err 500 ''Failed to store original PDF''"] by (simp only:)
      next
        case url: (Inr url)
        let ?p = "file_payload E ?id (us_id u) ?k ''application/pdf'' (length data) (Some (pdf_source_name pdf_name)) url"
        obtain q d3 s3 where rec: "record_uploaded_file E (bo_owner_id b) ?p (d, s2) = (q, d3, s3)"
          by (cases "record_uploaded_file E (bo_owner_id b) ?p (d, s2)") auto
        note c = record_uploaded_cases [OF rec]
        have key: "bf_object_key ?p = ?k" by (simp add: file_payload_def)
        show ?thesis
        proof (cases q)
          case (Inl e)
          have st: "d3 = d" "s3 = snd (delete_from_storage (ue_s3 E) (ue_bucket E) ?k s2)" using c Inl key by simp_all
          have "(ue_bucket E, ?k) \<notin> obs s" using fresh [of ?id] kD by blast
          then have in3: "obs s \<subseteq> obs s3" "obs s3 \<subseteq> obs s \<union> ?D"
            using in2 delete_from_storage_obs [OF laws, of s2 "ue_bucket E" ?k] unfolding st(2) by blast+
          have "?up = abandon_pdf E ?id e (d, s3)"
            using stored pages url Inl st(1) by (simp add: upload_board_pdf_def acc x p src Let_def rec)
          then show ?thesis using abandon [OF in3, of e] by (simp only:)
        next
          case (Inr f)
          then have f: "d3 = d\<lparr>w_files := w_files d @ [f]\<rparr>" "s3 = s2" "bf_object_key f = ?k" using c key by simp_all
          have "obs s2 = obs s \<union> (\<lambda>i. (ue_bucket E, page_key E ?id i)) ` {..<length pages} \<union> {(ue_bucket E, ?k)}"
            using o2(3) pg url stored by auto
          then show ?thesis using stored pages url Inr f
            by (simp add: upload_board_pdf_def acc x p src Let_def rec) blast
        qed
      qed
    qed
  qed
qed

subsection \<open>Samples\<close>

definition sample_upload_env :: "(string \<times> string) list upload_env" where
  "sample_upload_env = \<lparr>ue_s3 = mem_s3, ue_production = True, ue_endpoint = ''http://s'', ue_bucket = ''files'',
     ue_presign = (\<lambda>_ _. None), ue_parse = (\<lambda>_. Some 1), ue_text = (\<lambda>_. ''u''), ue_up = (\<lambda>_. True),
     ue_new_id = 5, ue_row_id = 6, ue_now = 0\<rparr>"

definition sample_part :: "string \<Rightarrow> bytes \<Rightarrow> multipart_field" where
  "sample_part name data = \<lparr>mp_name = Some name, mp_content_type = Some ''image/png'', mp_file_name = None, mp_bytes = Some data\<rparr>"

theorem upload_all_or_nothing_witness:
  "case upload_media sample_upload_env sample_web ''b'' (sample_user 7 1) ''image'' ''No image uploaded'' image_ext
      [Some (sample_part ''image'' [1, 2])] (sample_web, []) of
      (Inr (f, url), d', s') \<Rightarrow> set s' = insert (''files'', bf_object_key f) (set []) \<and> d' = sample_web\<lparr>w_files := w_files sample_web @ [f]\<rparr>
        \<and> (\<exists>field data. Some field \<in> set [Some (sample_part ''image'' [1, 2])] \<and> mp_bytes field = Some data \<and> bf_size_bytes f = int (length data))
    | (Inl e, d', s') \<Rightarrow> d' = sample_web \<and> set [] \<subseteq> set s'"
proof -
  have e: "ue_s3 sample_upload_env = mem_s3" "ue_bucket sample_upload_env = ''files''" by (simp_all add: sample_upload_env_def)
  have "case upload_media sample_upload_env sample_web ''b'' (sample_user 7 1) ''image'' ''No image uploaded'' image_ext
      [Some (sample_part ''image'' [1, 2])] (sample_web, []) of
      (Inr (f, url), d', s') \<Rightarrow> set s' = insert (''files'', bf_object_key f) (set []) \<and> d' = sample_web\<lparr>w_files := w_files sample_web @ [f]\<rparr>
        \<and> (\<exists>field data. Some field \<in> set [Some (sample_part ''image'' [1, 2])] \<and> mp_bytes field = Some data \<and> bf_size_bytes f = int (length data))
    | (Inl e, d', s') \<Rightarrow> d' = sample_web \<and> set [] \<subseteq> set s' \<and> (\<exists>b ext. set s' \<subseteq> insert (''files'', media_key sample_upload_env b ext) (set []))
        \<and> ((\<forall>b ext s. fst (delete_from_storage mem_s3 ''files'' (media_key sample_upload_env b ext) s) = Inr ()) \<longrightarrow>
             e \<noteq> api_err 500 ''Upload failed'' \<longrightarrow> set s' = set [])"
    using upload_all_or_nothing [where E = sample_upload_env and obs = set and s = "[]", unfolded e, OF mem_s3_laws]
    by (simp del: insert_iff)
  then show ?thesis by (auto split: prod.splits sum.splits)
qed

lemma sample_upload_succeeds:
  "\<exists>f d' s'. upload_media sample_upload_env sample_web ''b'' (sample_user 7 1) ''image'' ''No image uploaded'' image_ext
      [Some (sample_part ''image'' [1, 2])] (sample_web, []) = (Inr (f, None), d', s')"
proof -
  have t: "trim ''files'' = ''files''" "trim ''boards/u/u.png'' = ''boards/u/u.png''" by code_simp+
  have acc: "accept_field sample_upload_env sample_web ''b'' (sample_user 7 1) ''image'' ''No image uploaded'' image_ext
      [Some (sample_part ''image'' [1, 2])] = Inr (Access.sample_board, sample_part ''image'' [1, 2], ''png'', [1, 2])"
    by (simp add: accept_field_def sample_upload_env_def sample_part_def sample_web_def sample_user_def Access.sample_board_def
        parse_board_id_def ensure_board_edit_access_def fetch_board_by_id_def get_board_def is_admin_def Let_def
        role_or_none_def get_member_role_def image_ext_def ext_table_def content_type_of_def validate_upload_quota_def
        check_upload_quota_def ensure_upload_available_def tier_for_user_def find_user_def evaluate_upload_def
        evaluate_file_size_def evaluate_storage_def usage_for_owner_def owner_boards_def sat_add_def)
  have put: "upload_to_storage mem_s3 True ''http://s'' ''files'' ''boards/u/u.png'' [1, 2] [] = (Inr url, [(''files'', ''boards/u/u.png'')])"
    if "url = trim_end_matches (\<lambda>c. c = CHR ''/'') ''http://s'' @ ''/files/boards/u/u.png''" for url
    unfolding upload_to_storage_def t that by (simp add: mem_s3_def upload_result_def)
  show ?thesis
    by (simp add: upload_media_def acc Let_def)
      (simp add: sample_upload_env_def media_key_def put [OF refl] record_uploaded_file_def insert_board_file_def
        file_payload_def ensure_upload_available_def tier_for_user_def find_user_def evaluate_upload_def
        evaluate_file_size_def evaluate_storage_def usage_for_owner_def owner_boards_def sat_add_def
        sample_web_def Access.sample_board_def sample_user_def get_board_def Let_def)
qed

lemma mem_lists_exactly: "lists_exactly mem_s3 set b"
  by (force simp: lists_exactly_def mem_list_pages image_iff)

theorem pdf_all_or_nothing_witness:
  "\<exists>r d' s'. upload_board_pdf \<lparr>f32_parse = (\<lambda>_. None), f32_positive = (\<lambda>_. True)\<rparr> (0 :: nat, 0) (\<lambda>data. Pages [data, []])
      sample_upload_env sample_web ''b'' (sample_user 7 1) [Some (sample_part ''pdf'' (as_bytes ''%PDF''))] (sample_web, [])
      = Some (r, d', s')"
proof -
  have e: "ue_s3 sample_upload_env = mem_s3" "ue_bucket sample_upload_env = ''files''" by (simp_all add: sample_upload_env_def)
  have p: "document_prefix sample_upload_env b = ''boards/u/pdf/u/''" for b
    by (simp add: document_prefix_def sample_upload_env_def)
  have v: "validate_deletion_prefix ''boards/u/pdf/u/'' = Inr ()" by code_simp
  have returns: "delete_objects_with_prefix mem_s3 ''files'' ''boards/u/pdf/u/'' s \<noteq> None" for s
    using mem_delete_prefix [OF v] by fastforce
  show ?thesis
    using pdf_all_or_nothing [where E = sample_upload_env and obs = set and s = "[]" and d = sample_web
        and ?d0.0 = sample_web and ident = "''b''" and u = "sample_user 7 1" and F = "\<lparr>f32_parse = (\<lambda>_. None), f32_positive = (\<lambda>_. True)\<rparr>"
        and ?a4.0 = "(0 :: nat, 0)" and convert = "\<lambda>data. Pages [data, []]"
        and parts = "[Some (sample_part ''pdf'' (as_bytes ''%PDF''))]",
        unfolded e p, OF mem_s3_laws mem_lists_exactly returns]
    by (simp del: ex_simps) (elim exE conjE, intro exI, assumption)
qed

end
