(* ===== verification/Presence.thy ===== *)
theory Presence
  imports Access
begin

text \<open>
  Board presence: the ephemeral records of \<open>src/src/cache/sessions.rs\<close>, the clean-up job of
  \<open>src/src/jobs/session_cleanup.rs\<close>, and the user lists built from them (\<open>src/src/handlers/realtime.rs\<close>).
  Redis is a list of keys with a value and an expiry, in the order a scan returns them; a command on a key of the
  wrong type fails, an expired key does not exist.  Times are milliseconds.
\<close>

subsection \<open>Redis\<close>

datatype rvalue = RSet "string list" | RText string

type_synonym redis = "(string \<times> rvalue \<times> int option) list"

definition r_live :: "int \<Rightarrow> int option \<Rightarrow> bool" where
  "r_live now expires = (case expires of None \<Rightarrow> True | Some t \<Rightarrow> now < t)"

definition r_find :: "int \<Rightarrow> redis \<Rightarrow> string \<Rightarrow> (rvalue \<times> int option) option" where
  "r_find now r k = (case map_of r k of Some (v, e) \<Rightarrow> if r_live now e then Some (v, e) else None | None \<Rightarrow> None)"

definition r_put :: "string \<Rightarrow> rvalue \<times> int option \<Rightarrow> redis \<Rightarrow> redis" where
  "r_put k v r = (k, v) # filter (\<lambda>p. fst p \<noteq> k) r"

definition r_del :: "string \<Rightarrow> redis \<Rightarrow> redis" where
  "r_del k r = filter (\<lambda>p. fst p \<noteq> k) r"

definition r_get :: "int \<Rightarrow> redis \<Rightarrow> string \<Rightarrow> string + string option" where
  "r_get now r k =
     (case r_find now r k of
        None \<Rightarrow> Inr None
      | Some (RText s, _) \<Rightarrow> Inr (Some s)
      | Some (RSet _, _) \<Rightarrow> Inl ''WRONGTYPE'')"

definition r_smembers :: "int \<Rightarrow> redis \<Rightarrow> string \<Rightarrow> string + string list" where
  "r_smembers now r k =
     (case r_find now r k of
        None \<Rightarrow> Inr []
      | Some (RSet ms, _) \<Rightarrow> Inr ms
      | Some (RText _, _) \<Rightarrow> Inl ''WRONGTYPE'')"

definition r_exists :: "int \<Rightarrow> redis \<Rightarrow> string \<Rightarrow> bool" where
  "r_exists now r k \<longleftrightarrow> r_find now r k \<noteq> None"

text \<open>\<open>SADD\<close> keeps the expiry of an existing set; removing the last member removes the key.\<close>

definition r_sadd :: "int \<Rightarrow> string \<Rightarrow> string \<Rightarrow> redis \<Rightarrow> string + redis" where
  "r_sadd now k m r =
     (case r_find now r k of
        None \<Rightarrow> Inr (r_put k (RSet [m], None) r)
      | Some (RSet ms, e) \<Rightarrow> Inr (r_put k (RSet (if m \<in> set ms then ms else ms @ [m]), e) r)
      | Some (RText _, _) \<Rightarrow> Inl ''WRONGTYPE'')"

definition r_srem :: "int \<Rightarrow> string \<Rightarrow> string \<Rightarrow> redis \<Rightarrow> string + redis" where
  "r_srem now k m r =
     (case r_find now r k of
        None \<Rightarrow> Inr r
      | Some (RSet ms, e) \<Rightarrow>
          (let ms' = filter (\<lambda>x. x \<noteq> m) ms in Inr (if ms' = [] then r_del k r else r_put k (RSet ms', e) r))
      | Some (RText _, _) \<Rightarrow> Inl ''WRONGTYPE'')"

definition r_expire :: "int \<Rightarrow> string \<Rightarrow> int \<Rightarrow> redis \<Rightarrow> redis" where
  "r_expire now k secs r =
     (case r_find now r k of None \<Rightarrow> r | Some (v, _) \<Rightarrow> r_put k (v, Some (now + 1000 * secs)) r)"

definition r_setex :: "int \<Rightarrow> string \<Rightarrow> string \<Rightarrow> int \<Rightarrow> redis \<Rightarrow> redis" where
  "r_setex now k v secs r = r_put k (RText v, Some (now + 1000 * secs)) r"

text \<open>Every operation first takes a connection of the pool.\<close>

definition pooled :: "bool \<Rightarrow> string + 'a \<Rightarrow> string + 'a" where
  "pooled up x = (if up then x else Inl ''Failed to get Redis connection'')"

subsection \<open>Sessions\<close>

definition session_key :: "string \<Rightarrow> string" where
  "session_key board_id = ''board:'' @ board_id @ '':sessions''"

definition session_value :: "string \<Rightarrow> string \<Rightarrow> string" where
  "session_value user_id session_id = user_id @ '':'' @ session_id"

definition SESSION_TTL_SECS :: int where "SESSION_TTL_SECS = 86400"
definition CURSOR_TTL_SECS :: int where "CURSOR_TTL_SECS = 300"
definition HEARTBEAT_TTL_SECS :: int where "HEARTBEAT_TTL_SECS = 60"

definition add_session :: "bool \<Rightarrow> int \<Rightarrow> string \<Rightarrow> string \<Rightarrow> string \<Rightarrow> redis \<Rightarrow> string + redis" where
  "add_session up now board_id user_id session_id r =
     pooled up (bindE (r_sadd now (session_key board_id) (session_value user_id session_id) r) (\<lambda>r'.
       Inr (r_expire now (session_key board_id) SESSION_TTL_SECS r')))"

definition remove_session :: "bool \<Rightarrow> int \<Rightarrow> string \<Rightarrow> string \<Rightarrow> string \<Rightarrow> redis \<Rightarrow> string + redis" where
  "remove_session up now board_id user_id session_id r =
     pooled up (r_srem now (session_key board_id) (session_value user_id session_id) r)"

definition get_session_values :: "bool \<Rightarrow> int \<Rightarrow> string \<Rightarrow> redis \<Rightarrow> string + string list" where
  "get_session_values up now board_id r = pooled up (r_smembers now r (session_key board_id))"

record session_info =
  si_user_id :: string
  si_session_id :: string

definition get_sessions :: "bool \<Rightarrow> int \<Rightarrow> string \<Rightarrow> redis \<Rightarrow> string + session_info list" where
  "get_sessions up now board_id r =
     pooled up (bindE (r_smembers now r (session_key board_id)) (\<lambda>members.
       Inr (List.map_filter (\<lambda>m. map_option (\<lambda>(u, s). \<lparr>si_user_id = u, si_session_id = s\<rparr>)
         (split_once (CHR '':'') m)) members)))"

definition cursor_key :: "string \<Rightarrow> string \<Rightarrow> string" where
  "cursor_key board_id user_id = ''board:'' @ board_id @ '':cursor:'' @ user_id"

definition set_cursor_position ::
  "('f \<Rightarrow> string) \<Rightarrow> bool \<Rightarrow> int \<Rightarrow> string \<Rightarrow> string \<Rightarrow> 'f \<Rightarrow> 'f \<Rightarrow> redis \<Rightarrow> string + redis" where
  "set_cursor_position show_f64 up now board_id user_id x y r =
     pooled up (Inr (r_setex now (cursor_key board_id user_id) (show_f64 x @ '','' @ show_f64 y) CURSOR_TTL_SECS r))"

definition parse_cursor :: "(string \<Rightarrow> 'f option) \<Rightarrow> string \<Rightarrow> ('f \<times> 'f) option" where
  "parse_cursor parse_f64 v =
     Option.bind (split_once (CHR '','') v) (\<lambda>(a, b).
     Option.bind (parse_f64 a) (\<lambda>x. map_option (\<lambda>y. (x, y)) (parse_f64 b)))"

fun get_cursors ::
  "(string \<Rightarrow> 'f option) \<Rightarrow> int \<Rightarrow> string \<Rightarrow> redis \<Rightarrow> string list \<Rightarrow> string + (string \<Rightarrow> ('f \<times> 'f) option)" where
  "get_cursors parse_f64 now board_id r [] = Inr Map.empty"
| "get_cursors parse_f64 now board_id r (uid # uids) =
     bindE (r_get now r (cursor_key board_id uid)) (\<lambda>val.
     bindE (get_cursors parse_f64 now board_id r uids) (\<lambda>result.
     Inr (case Option.bind val (parse_cursor parse_f64) of Some p \<Rightarrow> result(uid \<mapsto> p) | None \<Rightarrow> result)))"

definition get_cursor_positions ::
  "(string \<Rightarrow> 'f option) \<Rightarrow> bool \<Rightarrow> int \<Rightarrow> string \<Rightarrow> redis \<Rightarrow> string list \<Rightarrow> string + (string \<Rightarrow> ('f \<times> 'f) option)" where
  "get_cursor_positions parse_f64 up now board_id r uids = pooled up (get_cursors parse_f64 now board_id r uids)"

definition remove_cursor :: "bool \<Rightarrow> string \<Rightarrow> string \<Rightarrow> redis \<Rightarrow> string + redis" where
  "remove_cursor up board_id user_id r = pooled up (Inr (r_del (cursor_key board_id user_id) r))"

definition anon_name_key :: "string \<Rightarrow> string \<Rightarrow> string" where
  "anon_name_key board_id user_id = ''board:'' @ board_id @ '':anon_name:'' @ user_id"

definition set_anon_display_name :: "bool \<Rightarrow> int \<Rightarrow> string \<Rightarrow> string \<Rightarrow> string \<Rightarrow> redis \<Rightarrow> string + redis" where
  "set_anon_display_name up now board_id user_id name r =
     pooled up (Inr (r_setex now (anon_name_key board_id user_id) name SESSION_TTL_SECS r))"

definition get_anon_display_name :: "bool \<Rightarrow> int \<Rightarrow> string \<Rightarrow> string \<Rightarrow> redis \<Rightarrow> string + string option" where
  "get_anon_display_name up now board_id user_id r = pooled up (r_get now r (anon_name_key board_id user_id))"

definition remove_anon_display_name :: "bool \<Rightarrow> string \<Rightarrow> string \<Rightarrow> redis \<Rightarrow> string + redis" where
  "remove_anon_display_name up board_id user_id r = pooled up (Inr (r_del (anon_name_key board_id user_id) r))"

definition heartbeat_key :: "string \<Rightarrow> string \<Rightarrow> string \<Rightarrow> string" where
  "heartbeat_key board_id user_id session_id = ''board:'' @ board_id @ '':heartbeat:'' @ user_id @ '':'' @ session_id"

definition touch_session_heartbeat :: "bool \<Rightarrow> int \<Rightarrow> string \<Rightarrow> string \<Rightarrow> string \<Rightarrow> redis \<Rightarrow> string + redis" where
  "touch_session_heartbeat up now board_id user_id session_id r =
     pooled up (Inr (r_setex now (heartbeat_key board_id user_id session_id) ''1'' HEARTBEAT_TTL_SECS r))"

subsection \<open>Cleaning up\<close>

text \<open>One member: kept when it does not parse or its heartbeat exists.\<close>

definition stale_member :: "int \<Rightarrow> string \<Rightarrow> redis \<Rightarrow> string \<Rightarrow> bool" where
  "stale_member now board_id r m =
     (case split_once (CHR '':'') m of
        None \<Rightarrow> False
      | Some (uid, sid) \<Rightarrow> \<not> r_exists now r (heartbeat_key board_id uid sid))"

definition member_uid :: "string \<Rightarrow> string" where
  "member_uid m = takeWhile (\<lambda>c. c \<noteq> CHR '':'') m"

definition drop_member :: "int \<Rightarrow> string \<Rightarrow> string \<Rightarrow> redis \<Rightarrow> string + redis" where
  "drop_member now board_id m r =
     bindE (r_srem now (session_key board_id) m r) (\<lambda>r1.
     Inr (r_del (anon_name_key board_id (member_uid m)) (r_del (cursor_key board_id (member_uid m)) r1)))"

fun cleanup_members :: "int \<Rightarrow> string \<Rightarrow> string list \<Rightarrow> redis \<Rightarrow> string + redis \<times> string list" where
  "cleanup_members now board_id [] r = Inr (r, [])"
| "cleanup_members now board_id (m # ms) r =
     (if stale_member now board_id r m
      then bindE (drop_member now board_id m r) (\<lambda>r1.
           bindE (cleanup_members now board_id ms r1) (\<lambda>(r2, removed). Inr (r2, m # removed)))
      else cleanup_members now board_id ms r)"

definition cleanup_stale_sessions :: "bool \<Rightarrow> int \<Rightarrow> string \<Rightarrow> redis \<Rightarrow> string + redis \<times> string list" where
  "cleanup_stale_sessions up now board_id r =
     pooled up (bindE (r_smembers now r (session_key board_id)) (\<lambda>members. cleanup_members now board_id members r))"

text \<open>\<open>SCAN MATCH board:*:sessions\<close>: the star matches any text.\<close>

definition scan_sessions :: "int \<Rightarrow> redis \<Rightarrow> string list" where
  "scan_sessions now r =
     filter (\<lambda>k. r_exists now r k \<and> starts_with k ''board:'' \<and> ends_with k '':sessions'' \<and> 15 \<le> length k) (map fst r)"

definition get_boards_with_sessions :: "bool \<Rightarrow> int \<Rightarrow> redis \<Rightarrow> string + string list" where
  "get_boards_with_sessions up now r =
     pooled up (Inr (List.map_filter (\<lambda>k. Option.bind (strip_prefix k ''board:'') (\<lambda>s. strip_suffix s '':sessions''))
       (scan_sessions now r)))"

definition get_all_online_user_ids :: "(string \<Rightarrow> uuid option) \<Rightarrow> bool \<Rightarrow> int \<Rightarrow> redis \<Rightarrow> string + uuid set" where
  "get_all_online_user_ids P up now r =
     bindE (get_boards_with_sessions up now r) (\<lambda>boards.
     bindE (mapE (\<lambda>b. get_session_values up now b r) boards) (\<lambda>members.
     Inr (set (List.map_filter (\<lambda>m. P (member_uid m)) (concat members)))))"

subsection \<open>The users of a board\<close>

record cached_identity =
  ci_username :: string
  ci_display_name :: string
  ci_picture :: "string option"
  ci_fetched :: int

type_synonym identity_cache = "(string \<times> cached_identity) list"

definition IDENTITY_TTL :: int where "IDENTITY_TTL = 45000"
definition IDENTITY_CACHE_SOFT_CAP :: nat where "IDENTITY_CACHE_SOFT_CAP = 5000"

text \<open>The Russian word for an anonymous user, in UTF-8.\<close>

definition anonymous :: string where
  "anonymous = [CHR 0xD0, CHR 0x90, CHR 0xD0, CHR 0xBD, CHR 0xD0, CHR 0xBE, CHR 0xD0, CHR 0xBD, CHR 0xD0, CHR 0xB8,
     CHR 0xD0, CHR 0xBC]"

definition identity_name :: "app_user \<Rightarrow> string" where
  "identity_name u =
     (if us_first_name u \<noteq> None \<or> us_last_name u \<noteq> None
      then join_with '' '' (List.map_filter (\<lambda>x. x) [us_first_name u, us_last_name u]) else us_username u)"

text \<open>The first occurrence of each element.\<close>

fun remdups_first :: "'a list \<Rightarrow> 'a list" where
  "remdups_first [] = []"
| "remdups_first (x # xs) = x # filter (\<lambda>y. y \<noteq> x) (remdups_first xs)"

definition unique_uids :: "string list \<Rightarrow> string list" where
  "unique_uids members = remdups_first (filter (\<lambda>u. u \<noteq> []) (map member_uid members))"

definition cache_insert :: "string \<Rightarrow> cached_identity \<Rightarrow> identity_cache \<Rightarrow> identity_cache" where
  "cache_insert k c cache = (k, c) # filter (\<lambda>p. fst p \<noteq> k) cache"

definition identity_fresh :: "int \<Rightarrow> identity_cache \<Rightarrow> string \<Rightarrow> bool" where
  "identity_fresh now cache uid = (case map_of cache uid of Some c \<Rightarrow> now - ci_fetched c < IDENTITY_TTL | None \<Rightarrow> False)"

text \<open>\<open>active\<close> is the status column, \<open>presign\<close> the signer of stored avatars, \<open>U\<close> and \<open>P\<close> print and parse ids.\<close>

definition fetch_active_user_identities :: "web_db \<Rightarrow> (uuid \<Rightarrow> bool) \<Rightarrow> uuid list \<Rightarrow> app_user list" where
  "fetch_active_user_identities d active ids = filter (\<lambda>u. us_id u \<in> set ids \<and> active (us_id u)) (w_users d)"

definition user_identity :: "(string \<Rightarrow> string option) \<Rightarrow> int \<Rightarrow> app_user \<Rightarrow> cached_identity" where
  "user_identity presign now u = \<lparr>ci_username = us_username u, ci_display_name = identity_name u,
     ci_picture = Option.bind (us_profile_picture_url u) presign, ci_fetched = now\<rparr>"

definition anon_identity :: "bool \<Rightarrow> int \<Rightarrow> string \<Rightarrow> redis \<Rightarrow> string \<Rightarrow> cached_identity" where
  "anon_identity up now board_id r uid =
     (let name = (case get_anon_display_name up now board_id uid r of Inr (Some n) \<Rightarrow> n | _ \<Rightarrow> anonymous)
      in \<lparr>ci_username = name, ci_display_name = name, ci_picture = None, ci_fetched = now\<rparr>)"

record 'f presence_user =
  pu_user_id :: string
  pu_username :: string
  pu_display_name :: string
  pu_picture :: "string option"
  pu_cursor :: "('f \<times> 'f) option"

definition refresh_identities ::
  "(uuid \<Rightarrow> string) \<Rightarrow> (string \<Rightarrow> uuid option) \<Rightarrow> (string \<Rightarrow> string option) \<Rightarrow> bool \<Rightarrow> bool \<Rightarrow> int \<Rightarrow> web_db \<Rightarrow>
   (uuid \<Rightarrow> bool) \<Rightarrow> string \<Rightarrow> redis \<Rightarrow> string list \<Rightarrow> identity_cache \<Rightarrow> identity_cache" where
  "refresh_identities U P presign up db_up now d active board_id r uids cache =
     (let missing = filter (\<lambda>uid. \<not> identity_fresh now cache uid) uids;
          to_fetch_db = List.map_filter P missing;
          found = (if db_up then fetch_active_user_identities d active to_fetch_db else []);
          to_fetch_anon = filter (\<lambda>uid. P uid = None) missing
            @ map U (filter (\<lambda>i. i \<notin> us_id ` set found) to_fetch_db);
          cache1 = foldl (\<lambda>c u. cache_insert (U (us_id u)) (user_identity presign now u) c) cache found
      in foldl (\<lambda>c uid. cache_insert uid (anon_identity up now board_id r uid) c) cache1 to_fetch_anon)"

definition listed_user ::
  "identity_cache \<Rightarrow> (string \<Rightarrow> ('f \<times> 'f) option) \<Rightarrow> string \<Rightarrow> 'f presence_user" where
  "listed_user cache cursors uid =
     (let (username, display, picture) = (case map_of cache uid of
            Some c \<Rightarrow> (ci_username c, ci_display_name c, ci_picture c) | None \<Rightarrow> (anonymous, anonymous, None))
      in \<lparr>pu_user_id = uid, pu_username = username, pu_display_name = display, pu_picture = picture,
          pu_cursor = cursors uid\<rparr>)"

definition evict_identities :: "int \<Rightarrow> identity_cache \<Rightarrow> identity_cache" where
  "evict_identities now cache =
     (if length cache > IDENTITY_CACHE_SOFT_CAP then filter (\<lambda>p. now - ci_fetched (snd p) < IDENTITY_TTL) cache else cache)"

definition build_sessions_users ::
  "(uuid \<Rightarrow> string) \<Rightarrow> (string \<Rightarrow> uuid option) \<Rightarrow> (string \<Rightarrow> string option) \<Rightarrow> (string \<Rightarrow> 'f option) \<Rightarrow> bool \<Rightarrow> bool \<Rightarrow>
   int \<Rightarrow> web_db \<Rightarrow> (uuid \<Rightarrow> bool) \<Rightarrow> string \<Rightarrow> redis \<Rightarrow> identity_cache \<Rightarrow> 'f presence_user list option \<times> identity_cache" where
  "build_sessions_users U P presign parse_f64 up db_up now d active board_id r cache =
     (case get_session_values up now board_id r of
        Inl _ \<Rightarrow> (None, cache)
      | Inr members \<Rightarrow>
          (let uids = unique_uids members;
               cursors = (case get_cursor_positions parse_f64 up now board_id r uids of Inr c \<Rightarrow> c | Inl _ \<Rightarrow> Map.empty);
               cache1 = refresh_identities U P presign up db_up now d active board_id r uids cache
           in (Some (map (listed_user cache1 cursors) uids), evict_identities now cache1)))"

subsection \<open>Connecting and leaving\<close>

text \<open>A command whose failure the socket ignores.\<close>

definition attempt :: "redis \<Rightarrow> string + redis \<Rightarrow> redis" where
  "attempt r x = (case x of Inr r' \<Rightarrow> r' | Inl _ \<Rightarrow> r)"

definition socket_connect ::
  "bool \<Rightarrow> int \<Rightarrow> string \<Rightarrow> string \<Rightarrow> string option \<Rightarrow> string option \<Rightarrow> redis \<Rightarrow> redis" where
  "socket_connect up now board_id user_id session_id name r =
     (let r1 = (case name of
            Some (c # cs) \<Rightarrow> attempt r (set_anon_display_name up now board_id user_id (c # cs) r) | _ \<Rightarrow> r)
      in (case session_id of
            None \<Rightarrow> r1
          | Some sid \<Rightarrow>
              (let r2 = attempt r1 (add_session up now board_id user_id sid r1)
               in attempt r2 (touch_session_heartbeat up now board_id user_id sid r2))))"

definition socket_disconnect :: "bool \<Rightarrow> int \<Rightarrow> string \<Rightarrow> string \<Rightarrow> string option \<Rightarrow> redis \<Rightarrow> redis" where
  "socket_disconnect up now board_id user_id session_id r =
     (case session_id of
        None \<Rightarrow> r
      | Some sid \<Rightarrow>
          (let r1 = attempt r (remove_session up now board_id user_id sid r);
               r2 = attempt r1 (remove_cursor up board_id user_id r1)
           in attempt r2 (remove_anon_display_name up board_id user_id r2)))"

subsection \<open>The clean-up job and the REST list\<close>

text \<open>The job's own list builder gives up on an id that is not a UUID.\<close>

definition job_user ::
  "(uuid \<Rightarrow> string) \<Rightarrow> (string \<Rightarrow> string option) \<Rightarrow> bool \<Rightarrow> (uuid \<Rightarrow> bool) \<Rightarrow> int \<Rightarrow> web_db \<Rightarrow> (uuid \<Rightarrow> bool) \<Rightarrow>
   string \<Rightarrow> redis \<Rightarrow> (string \<Rightarrow> ('f \<times> 'f) option) \<Rightarrow> string \<Rightarrow> uuid \<Rightarrow> 'f presence_user" where
  "job_user U picture up db_up now d active board_id r cursors uid_str uid =
     (case (if db_up uid \<and> active uid then find_user d uid else None) of
        Some u \<Rightarrow> \<lparr>pu_user_id = U (us_id u), pu_username = us_username u, pu_display_name = identity_name u,
          pu_picture = Option.bind (us_profile_picture_url u) picture, pu_cursor = cursors uid_str\<rparr>
      | None \<Rightarrow>
          (let c = anon_identity up now board_id r uid_str
           in \<lparr>pu_user_id = uid_str, pu_username = ci_username c, pu_display_name = ci_display_name c, pu_picture = None,
               pu_cursor = cursors uid_str\<rparr>))"

definition build_job_users ::
  "(uuid \<Rightarrow> string) \<Rightarrow> (string \<Rightarrow> uuid option) \<Rightarrow> (string \<Rightarrow> string option) \<Rightarrow> (string \<Rightarrow> 'f option) \<Rightarrow> bool \<Rightarrow> (uuid \<Rightarrow> bool) \<Rightarrow>
   int \<Rightarrow> web_db \<Rightarrow> (uuid \<Rightarrow> bool) \<Rightarrow> string \<Rightarrow> redis \<Rightarrow> 'f presence_user list option" where
  "build_job_users U P presign parse_f64 up db_up now d active board_id r =
     (case get_session_values up now board_id r of
        Inl _ \<Rightarrow> None
      | Inr members \<Rightarrow>
          (let uids = unique_uids members;
               cursors = (case get_cursor_positions parse_f64 up now board_id r uids of Inr c \<Rightarrow> c | Inl _ \<Rightarrow> Map.empty)
           in (if \<exists>u \<in> set uids. P u = None then None
               else Some (map (\<lambda>u. job_user U presign up db_up now d active board_id r cursors u (the (P u))) uids))))"

fun cleanup_boards ::
  "(int \<Rightarrow> string \<Rightarrow> redis \<Rightarrow> 'f presence_user list option) \<Rightarrow> (string \<Rightarrow> uuid option) \<Rightarrow> bool \<Rightarrow> int \<Rightarrow> string list \<Rightarrow>
   redis \<Rightarrow> (string + unit) \<times> redis \<times> (uuid \<times> 'f presence_user list) list" where
  "cleanup_boards build P up now [] r = (Inr (), r, [])"
| "cleanup_boards build P up now (b # bs) r =
     (case cleanup_stale_sessions up now b r of
        Inl e \<Rightarrow> (Inl e, r, [])
      | Inr (r1, removed) \<Rightarrow>
          (let sent = (if removed = [] then []
                 else (case P b of None \<Rightarrow> []
                       | Some i \<Rightarrow> (case build now b r1 of Some users \<Rightarrow> [(i, users)] | None \<Rightarrow> [])))
           in (case cleanup_boards build P up now bs r1 of (res, r2, sent') \<Rightarrow> (res, r2, sent @ sent'))))"

definition run_session_cleanup ::
  "(int \<Rightarrow> string \<Rightarrow> redis \<Rightarrow> 'f presence_user list option) \<Rightarrow> (string \<Rightarrow> uuid option) \<Rightarrow> bool \<Rightarrow> int \<Rightarrow>
   redis \<Rightarrow> (string + unit) \<times> redis \<times> (uuid \<times> 'f presence_user list) list" where
  "run_session_cleanup build P up now r =
     (case get_boards_with_sessions up now r of
        Inl e \<Rightarrow> (Inl e, r, [])
      | Inr boards \<Rightarrow> cleanup_boards build P up now boards r)"

definition get_board_sessions ::
  "(uuid \<Rightarrow> string) \<Rightarrow> (string \<Rightarrow> uuid option) \<Rightarrow> (string \<Rightarrow> 'f option) \<Rightarrow> bool \<Rightarrow> db_up \<Rightarrow> (uuid \<Rightarrow> bool) \<Rightarrow> int \<Rightarrow> web_db \<Rightarrow>
   (uuid \<Rightarrow> bool) \<Rightarrow> string \<Rightarrow> app_user option \<Rightarrow> redis \<Rightarrow> api_error + session_info list \<times> 'f presence_user list" where
  "get_board_sessions U P parse_f64 up dbup user_up now d active board_id user r =
     bindE (board_sessions_access P dbup d board_id user) (\<lambda>_.
     bindE (map_errE (\<lambda>e. api_err 500 (''Could not fetch sessions: '' @ e)) (get_sessions up now board_id r)) (\<lambda>sessions.
     (let uids = remdups_first (map si_user_id sessions);
          cursors = (case get_cursor_positions parse_f64 up now board_id r uids of Inr c \<Rightarrow> c | Inl _ \<Rightarrow> Map.empty)
      in Inr (sessions, List.map_filter (\<lambda>u. map_option
           (job_user U Some up user_up now d active board_id r cursors u) (P u)) uids))))"

subsection \<open>What the clean-up leaves\<close>

lemma map_of_filter_key: "map_of (filter (\<lambda>p. fst p \<noteq> k) r) k' = (if k' = k then None else map_of r k')"
  by (induction r) auto

lemma find_put: "r_find now (r_put k (v, e) r) k' = (if k' = k then if r_live now e then Some (v, e) else None else r_find now r k')"
  by (simp add: r_find_def r_put_def map_of_filter_key)

lemma find_del: "r_find now (r_del k r) k' = (if k' = k then None else r_find now r k')"
  by (simp add: r_find_def r_del_def map_of_filter_key)

lemma find_live: "r_find now r k = Some (v, e) \<Longrightarrow> r_live now e"
  by (auto simp: r_find_def split: option.splits if_splits)

lemma keys_apart [simp]:
  "cursor_key b u \<noteq> session_key b" "anon_name_key b u \<noteq> session_key b" "heartbeat_key b u s \<noteq> session_key b"
  "session_key b \<noteq> cursor_key b u" "session_key b \<noteq> anon_name_key b u"
  "heartbeat_key b u s \<noteq> cursor_key b v" "heartbeat_key b u s \<noteq> anon_name_key b v"
  by (simp_all add: cursor_key_def anon_name_key_def session_key_def heartbeat_key_def)

lemma drop_member_ok:
  assumes "r_smembers now r (session_key b) = Inr cur" and "m \<in> set cur"
  shows "\<exists>r'. drop_member now b m r = Inr r' \<and> r_smembers now r' (session_key b) = Inr (filter (\<lambda>x. x \<noteq> m) cur)
    \<and> (\<forall>k. k \<noteq> session_key b \<longrightarrow> k \<noteq> cursor_key b (member_uid m) \<longrightarrow> k \<noteq> anon_name_key b (member_uid m) \<longrightarrow>
          r_find now r' k = r_find now r k)"
proof -
  obtain e where f: "r_find now r (session_key b) = Some (RSet cur, e)"
    using assms by (auto simp: r_smembers_def split: option.splits rvalue.splits)
  have "r_live now e" by (rule find_live [OF f])
  then show ?thesis
    by (simp add: drop_member_def r_srem_def f Let_def r_smembers_def find_put find_del)
qed

lemma stale_cong:
  "(\<And>u s. r_find now r' (heartbeat_key b u s) = r_find now r (heartbeat_key b u s)) \<Longrightarrow> stale_member now b r' = stale_member now b r"
  by (auto simp: stale_member_def r_exists_def fun_eq_iff split: option.splits)

definition touched :: "string \<Rightarrow> string set \<Rightarrow> string set" where
  "touched b uids = insert (session_key b) (cursor_key b ` uids \<union> anon_name_key b ` uids)"

lemma cleanup_members_ok:
  "\<lbrakk>r_smembers now r (session_key b) = Inr cur; distinct xs; set xs \<subseteq> set cur\<rbrakk> \<Longrightarrow>
   \<exists>r'. cleanup_members now b xs r = Inr (r', filter (stale_member now b r) xs)
     \<and> r_smembers now r' (session_key b) = Inr (filter (\<lambda>m. \<not> (m \<in> set xs \<and> stale_member now b r m)) cur)
     \<and> (\<forall>k. k \<notin> touched b (member_uid ` set (filter (stale_member now b r) xs)) \<longrightarrow> r_find now r' k = r_find now r k)"
proof (induction xs arbitrary: r cur)
  case (Cons m xs)
  show ?case
  proof (cases "stale_member now b r m")
    case False
    obtain r' where "cleanup_members now b xs r = Inr (r', filter (stale_member now b r) xs)"
      "r_smembers now r' (session_key b) = Inr (filter (\<lambda>m. \<not> (m \<in> set xs \<and> stale_member now b r m)) cur)"
      "\<forall>k. k \<notin> touched b (member_uid ` set (filter (stale_member now b r) xs)) \<longrightarrow> r_find now r' k = r_find now r k"
      using Cons.IH [OF Cons.prems(1)] Cons.prems(2,3) by auto
    moreover have "filter (\<lambda>x. \<not> (x \<in> set (m # xs) \<and> stale_member now b r x)) cur
        = filter (\<lambda>x. \<not> (x \<in> set xs \<and> stale_member now b r x)) cur"
      using False by (intro filter_cong) auto
    ultimately show ?thesis using False by simp
  next
    case True
    obtain r1 where d: "drop_member now b m r = Inr r1"
      "r_smembers now r1 (session_key b) = Inr (filter (\<lambda>x. x \<noteq> m) cur)"
      "\<And>k. k \<noteq> session_key b \<Longrightarrow> k \<noteq> cursor_key b (member_uid m) \<Longrightarrow> k \<noteq> anon_name_key b (member_uid m) \<Longrightarrow>
          r_find now r1 k = r_find now r k"
      using drop_member_ok [OF Cons.prems(1), of m] Cons.prems(3) by auto
    have st: "stale_member now b r1 = stale_member now b r" by (rule stale_cong) (simp add: d(3))
    have "distinct xs" "set xs \<subseteq> set (filter (\<lambda>x. x \<noteq> m) cur)" using Cons.prems(2,3) by auto
    from Cons.IH [OF d(2) this] obtain r' where r': "cleanup_members now b xs r1 = Inr (r', filter (stale_member now b r) xs)"
      "r_smembers now r' (session_key b)
        = Inr (filter (\<lambda>m. \<not> (m \<in> set xs \<and> stale_member now b r m)) (filter (\<lambda>x. x \<noteq> m) cur))"
      "\<forall>k. k \<notin> touched b (member_uid ` set (filter (stale_member now b r) xs)) \<longrightarrow> r_find now r' k = r_find now r1 k"
      unfolding st by blast
    have "filter (\<lambda>x. \<not> (x \<in> set xs \<and> stale_member now b r x)) (filter (\<lambda>x. x \<noteq> m) cur)
        = filter (\<lambda>x. \<not> (x \<in> set (m # xs) \<and> stale_member now b r x)) cur"
      using True by (auto intro: filter_cong)
    then show ?thesis using True r' d by (auto simp: touched_def)
  qed
qed simp

lemma set_remdups_first [simp]: "set (remdups_first xs) = set xs"
  by (induction xs) auto

lemma distinct_remdups_first [simp]: "distinct (remdups_first xs)"
  by (induction xs) auto

lemma listed_user_id [simp]: "pu_user_id (listed_user cache cursors u) = u"
  by (simp add: listed_user_def split: prod.splits)

lemma build_lists_uids:
  assumes "r_smembers now r (session_key b) = Inr ms"
  shows "\<exists>users. fst (build_sessions_users U P presign parse_f64 True db_up now d active b r cache) = Some users
    \<and> map pu_user_id users = unique_uids ms"
  using assms by (simp add: build_sessions_users_def get_session_values_def pooled_def Let_def comp_def)

text \<open>C26: The clean-up of a board removes exactly the sessions whose heartbeat has run out, touches no other key than the
  set itself and the cursors and names of the users it removed, and the presence list built afterwards names
  every user with a remaining session exactly once and nobody else.\<close>

theorem presence_cleanup_exact:
  assumes "r_smembers now r (session_key b) = Inr members" and "distinct members"
  shows "\<exists>r' users. cleanup_stale_sessions True now b r = Inr (r', filter (stale_member now b r) members)
    \<and> r_smembers now r' (session_key b) = Inr (filter (\<lambda>m. \<not> stale_member now b r m) members)
    \<and> (\<forall>k. k \<notin> touched b (member_uid ` {m \<in> set members. stale_member now b r m}) \<longrightarrow> r_find now r' k = r_find now r k)
    \<and> fst (build_sessions_users U P presign parse_f64 True db_up now d active b r' cache) = Some users
    \<and> distinct (map pu_user_id users)
    \<and> set (map pu_user_id users) = {member_uid m | m. m \<in> set members \<and> \<not> stale_member now b r m \<and> member_uid m \<noteq> []}"
proof -
  have keep: "filter (\<lambda>m. \<not> (m \<in> set members \<and> stale_member now b r m)) members = filter (\<lambda>m. \<not> stale_member now b r m) members"
    by (auto intro: filter_cong)
  obtain r' where r': "cleanup_members now b members r = Inr (r', filter (stale_member now b r) members)"
    "r_smembers now r' (session_key b) = Inr (filter (\<lambda>m. \<not> stale_member now b r m) members)"
    "\<forall>k. k \<notin> touched b (member_uid ` set (filter (stale_member now b r) members)) \<longrightarrow> r_find now r' k = r_find now r k"
    using cleanup_members_ok [OF assms(1,2)] keep by auto
  obtain users where u: "fst (build_sessions_users U P presign parse_f64 True db_up now d active b r' cache) = Some users"
    "map pu_user_id users = unique_uids (filter (\<lambda>m. \<not> stale_member now b r m) members)"
    using build_lists_uids [OF r'(2)] by blast
  show ?thesis
  proof (intro exI conjI)
    show "cleanup_stale_sessions True now b r = Inr (r', filter (stale_member now b r) members)"
      using assms(1) r'(1) by (simp add: cleanup_stale_sessions_def pooled_def)
    show "set (map pu_user_id users) = {member_uid m | m. m \<in> set members \<and> \<not> stale_member now b r m \<and> member_uid m \<noteq> []}"
      unfolding u(2) by (auto simp: unique_uids_def)
  qed (use r' u in \<open>simp_all add: unique_uids_def\<close>)
qed

definition two_sessions :: redis where
  "two_sessions =
     [(session_key ''b'', RSet [''u:1'', ''v:2''], Some 100000), (heartbeat_key ''b'' ''u'' ''1'', RText ''1'', Some 50000),
      (cursor_key ''b'' ''v'', RText ''1,2'', Some 90000)]"

theorem presence_cleanup_exact_witness:
  "\<exists>r'. cleanup_stale_sessions True 40000 ''b'' two_sessions = Inr (r', [''v:2''])
     \<and> r_smembers 40000 r' (session_key ''b'') = Inr [''u:1'']"
proof -
  have m: "r_smembers 40000 two_sessions (session_key ''b'') = Inr [''u:1'', ''v:2'']"
    by (simp add: r_smembers_def r_find_def two_sessions_def r_live_def session_key_def)
  have s: "stale_member 40000 ''b'' two_sessions ''v:2''" "\<not> stale_member 40000 ''b'' two_sessions ''u:1''"
    by (simp_all add: stale_member_def r_exists_def r_find_def two_sessions_def r_live_def session_key_def heartbeat_key_def
        cursor_key_def)
  from presence_cleanup_exact [OF m, of "\<lambda>_. []" "\<lambda>_. None" "\<lambda>_. None" "\<lambda>_. None :: unit option" True sample_web "\<lambda>_. True" "[]"]
  show ?thesis by (auto simp: s)
qed

subsection \<open>What the presence records get wrong\<close>

text \<open>A session id that ends in \<open>:sessions\<close> makes its own heartbeat look like a board's session set: the scan
  takes it for one, the set command fails on it, and the whole clean-up cycle stops.\<close>

lemma session_id_stops_cleanup:
  "fst (run_session_cleanup build P True 1000 (socket_connect True 0 ''b'' ''u'' (Some ''x:sessions'') None [])) = Inl ''WRONGTYPE''"
  by (simp add: socket_connect_def add_session_def touch_session_heartbeat_def attempt_def pooled_def r_sadd_def r_find_def
      r_expire_def r_put_def r_setex_def r_live_def session_key_def session_value_def heartbeat_key_def SESSION_TTL_SECS_def
      HEARTBEAT_TTL_SECS_def run_session_cleanup_def get_boards_with_sessions_def scan_sessions_def r_exists_def
      starts_with_def ends_with_def strip_prefix_def strip_suffix_def List.map_filter_simps cleanup_stale_sessions_def
      r_smembers_def)

text \<open>Only a join refreshes the set: a board nobody joins for a day forgets its connected sessions.\<close>

lemma session_set_expires:
  "get_session_values True 86400000 ''b''
     (attempt (socket_connect True 0 ''b'' ''u'' (Some ''1'') None [])
        (touch_session_heartbeat True 86399000 ''b'' ''u'' ''1'' (socket_connect True 0 ''b'' ''u'' (Some ''1'') None []))) = Inr []"
  by (simp add: socket_connect_def add_session_def touch_session_heartbeat_def attempt_def pooled_def r_sadd_def r_find_def
      r_expire_def r_put_def r_setex_def r_live_def session_key_def session_value_def heartbeat_key_def SESSION_TTL_SECS_def
      HEARTBEAT_TTL_SECS_def get_session_values_def r_smembers_def)

text \<open>The identity cache is keyed by the user alone: a name given on one board is shown on another.\<close>

lemma anonymous_name_crosses_boards:
  assumes "map_of cache uid = Some c" and "now - ci_fetched c < IDENTITY_TTL"
    and "get_session_values True now b2 r = Inr [uid @ '':'' @ sid]" and "CHR '':'' \<notin> set uid" and "uid \<noteq> []"
  shows "\<exists>u. fst (build_sessions_users U P presign parse_f64 True db_up now d active b2 r cache) = Some [u]
    \<and> pu_display_name u = ci_display_name c"
proof -
  have t: "member_uid (uid @ CHR '':'' # sid) = uid"
    using assms(4) by (induction uid) (auto simp: member_uid_def)
  have u: "unique_uids [uid @ CHR '':'' # sid] = [uid]" using assms(5) by (simp add: unique_uids_def t)
  have "refresh_identities U P presign True db_up now d active b2 r [uid] cache = cache"
    using assms(1,2) by (simp add: refresh_identities_def identity_fresh_def List.map_filter_simps fetch_active_user_identities_def)
  then show ?thesis using assms(1,3) by (simp add: build_sessions_users_def u Let_def listed_user_def)
qed

text \<open>Closing one of two tabs deletes the cursor the other tab shares.\<close>

lemma other_tab_loses_cursor:
  "r_find now (socket_disconnect True now b u (Some sid) r) (cursor_key b u) = None"
proof -
  have "anon_name_key b u \<noteq> cursor_key b u" by (simp add: anon_name_key_def cursor_key_def)
  then show ?thesis
    by (simp add: socket_disconnect_def remove_cursor_def remove_anon_display_name_def attempt_def pooled_def find_del)
qed

end
