(* ===== verification/Socket.thy ===== *)
theory Socket
  imports Fanout Access Wire
begin

text \<open>
  One board socket of \<open>src/src/handlers/realtime.rs\<close>: what its send task delivers from the broadcast ring, and
  what its receive task does with the client's messages.  Times are milliseconds of the monotonic clock.
\<close>

subsection \<open>Frames\<close>

definition encode_batch :: "string list \<Rightarrow> string" where
  "encode_batch msgs = ''{\"type\":\"batch\",\"msgs\":['' @ concat (map (\<lambda>(i, m). (if i > 0 then '','' else []) @ m)
     (zip [0..<length msgs] msgs)) @ '']}''"

definition max_batch_drain :: "nat option \<Rightarrow> nat" where
  "max_batch_drain configured = max 1 (case configured of Some n \<Rightarrow> n | None \<Rightarrow> 4096)"

definition batch_flag_enabled :: "string option \<Rightarrow> bool" where
  "batch_flag_enabled v =
     (case v of None \<Rightarrow> False | Some s \<Rightarrow> to_ascii_lowercase (trim s) \<in> {''1'', ''true'', ''yes'', ''on''})"

definition is_yrs_update :: "string \<Rightarrow> bool" where
  "is_yrs_update text = str_contains text ''\"type\":\"yrs_update\"''"

definition should_deliver_durable :: "string \<Rightarrow> bool \<Rightarrow> bool" where
  "should_deliver_durable text yrs_supported \<longleftrightarrow> yrs_supported \<or> \<not> is_yrs_update text"

text \<open>\<open>parse\<close> is \<open>serde_json\<close> on a server message, \<open>unb64\<close> the base64 decoder.\<close>

definition encode_binary_yrs_update ::
  "(string \<Rightarrow> ws_message option) \<Rightarrow> (string \<Rightarrow> bytes option) \<Rightarrow> string \<Rightarrow> bytes option" where
  "encode_binary_yrs_update parse unb64 msg =
     (case parse msg of
        Some (WsYrsUpdate _ seq client_event_id schema yupdate) \<Rightarrow>
          Option.bind (unb64 yupdate) (\<lambda>yupdate.
          (case encode_envelope \<lparr>ye_seq = word_of_int seq,
               ye_client_event_id = (case client_event_id of Some c \<Rightarrow> c | None \<Rightarrow> []),
               ye_schema_version = schema, ye_yupdate = yupdate\<rparr> [] of
             Inr out \<Rightarrow> Some out | Inl _ \<Rightarrow> None))
      | _ \<Rightarrow> None)"

definition next_entity_ordinal :: "(uuid \<Rightarrow> u64 option) \<Rightarrow> uuid \<Rightarrow> u64 \<times> (uuid \<Rightarrow> u64 option)" where
  "next_entity_ordinal counters board_id =
     (let val = (case counters board_id of Some n \<Rightarrow> n | None \<Rightarrow> 0) in (val, counters(board_id \<mapsto> val + 1)))"

definition LAST_ACTIVE_THROTTLE :: int where "LAST_ACTIVE_THROTTLE = 60000"

text \<open>The flag says whether \<open>users.last_active_at\<close> is written.\<close>

definition touch_user_last_active :: "int \<Rightarrow> uuid \<Rightarrow> (uuid \<Rightarrow> int option) \<Rightarrow> bool \<times> (uuid \<Rightarrow> int option)" where
  "touch_user_last_active now user_id writes =
     (case writes user_id of
        Some t \<Rightarrow> (if now - t < LAST_ACTIVE_THROTTLE then (False, writes) else (True, writes(user_id \<mapsto> now)))
      | None \<Rightarrow> (True, writes(user_id \<mapsto> now)))"

subsection \<open>The negotiated connection\<close>

record connection =
  co_board :: uuid
  co_actor :: uuid
  co_presence :: uuid
  co_session :: "string option"
  co_role :: string
  co_display_name :: "string option"
  co_batch :: bool
  co_yrs :: bool
  co_binary :: bool

definition presence_user_id :: "(string \<Rightarrow> uuid option) \<Rightarrow> bool \<Rightarrow> uuid \<Rightarrow> ws_board_query \<Rightarrow> uuid \<Rightarrow> uuid" where
  "presence_user_id P per_session_enabled fresh query user_id =
     (if per_session_enabled \<and> wq_presence_per_session query = Some True
      then anon_id P fresh (wq_session_id query) else user_id)"

definition ws_board ::
  "(string \<Rightarrow> uuid option) \<Rightarrow> db_up \<Rightarrow> int \<Rightarrow> web_db \<Rightarrow> bool \<Rightarrow> uuid \<Rightarrow> uuid \<Rightarrow> string \<Rightarrow> ws_board_query \<Rightarrow> app_user option \<Rightarrow>
   api_error + connection" where
  "ws_board P up now d per_session_enabled fresh fresh' ident query user =
     bindE (parse_board_id P ident) (\<lambda>board_id.
     bindE (ws_identity P up now d fresh ident query user) (\<lambda>(user_id, role).
     Inr \<lparr>co_board = board_id, co_actor = user_id,
       co_presence = presence_user_id P per_session_enabled fresh' query user_id,
       co_session = wq_session_id query, co_role = role, co_display_name = wq_display_name query,
       co_batch = batch_flag_enabled (wq_batch query), co_yrs = batch_flag_enabled (wq_yrs_v1 query),
       co_binary = batch_flag_enabled (wq_yrs_binary query)\<rparr>))"

subsection \<open>The send task\<close>

text \<open>
  The receiver's view of the commit ring: the serialised messages it has not read, and a gap where the ring dropped
  some because it fell behind.  \<open>se_budget\<close> is how many more frames the peer takes before a send fails.
\<close>

datatype ring_item = Item string | Gap nat

datatype frame = TextFrame string | BatchFrame "string list" | BinaryFrame bytes | ResyncFrame | PingFrame | AppPing

definition frame_text :: "frame \<Rightarrow> string option" where
  "frame_text f =
     (case f of TextFrame m \<Rightarrow> Some m | BatchFrame ms \<Rightarrow> Some (encode_batch ms)
      | ResyncFrame \<Rightarrow> Some ''{\"type\":\"resync\"}'' | AppPing \<Rightarrow> Some ''{\"type\":\"ping\"}'' | _ \<Rightarrow> None)"

record send_config =
  sc_batch :: bool
  sc_yrs :: bool
  sc_binary :: bool
  sc_drain :: nat
  sc_parse :: "string \<Rightarrow> ws_message option"
  sc_unb64 :: "string \<Rightarrow> bytes option"

record sender =
  se_ring :: "ring_item list"
  se_out :: "(int \<times> frame) list"
  se_last_resync :: "int option"
  se_budget :: "nat option"
  se_open :: bool

definition send_frame :: "int \<Rightarrow> frame \<Rightarrow> sender \<Rightarrow> sender" where
  "send_frame now f st =
     (case se_budget st of
        Some 0 \<Rightarrow> st\<lparr>se_open := False\<rparr>
      | Some (Suc n) \<Rightarrow> st\<lparr>se_out := se_out st @ [(now, f)], se_budget := Some n\<rparr>
      | None \<Rightarrow> st\<lparr>se_out := se_out st @ [(now, f)]\<rparr>)"

definition RESYNC_DEBOUNCE :: int where "RESYNC_DEBOUNCE = 1000"

definition request_client_resync :: "int \<Rightarrow> sender \<Rightarrow> sender" where
  "request_client_resync now st =
     (if (case se_last_resync st of None \<Rightarrow> True | Some t \<Rightarrow> now - t \<ge> RESYNC_DEBOUNCE)
      then send_frame now ResyncFrame (st\<lparr>se_last_resync := Some now\<rparr>) else st)"

text \<open>Collecting a batch; the flag says that a gap ended it.\<close>

fun drain_ring :: "nat \<Rightarrow> bool \<Rightarrow> string list \<Rightarrow> ring_item list \<Rightarrow> string list \<times> ring_item list \<times> bool" where
  "drain_ring limit yrs batch [] = (batch, [], False)"
| "drain_ring limit yrs batch (Item m # ring) =
     (if length batch < limit
      then drain_ring limit yrs (if should_deliver_durable m yrs then batch @ [m] else batch) ring
      else (batch, Item m # ring, False))"
| "drain_ring limit yrs batch (Gap n # ring) =
     (if length batch < limit then (batch, ring, True) else (batch, Gap n # ring, False))"

definition commit_arm :: "send_config \<Rightarrow> int \<Rightarrow> sender \<Rightarrow> sender" where
  "commit_arm cfg now st =
     (case se_ring st of
        [] \<Rightarrow> st
      | Gap n # ring \<Rightarrow> request_client_resync now (st\<lparr>se_ring := ring\<rparr>)
      | Item m # ring \<Rightarrow>
          (if \<not> should_deliver_durable m (sc_yrs cfg) then st\<lparr>se_ring := ring\<rparr>
           else if \<not> (sc_batch cfg \<and> \<not> sc_binary cfg) then
             (if sc_binary cfg \<and> is_yrs_update m
              then (case encode_binary_yrs_update (sc_parse cfg) (sc_unb64 cfg) m of
                      Some b \<Rightarrow> send_frame now (BinaryFrame b) (st\<lparr>se_ring := ring\<rparr>)
                    | None \<Rightarrow> st\<lparr>se_ring := ring\<rparr>)
              else send_frame now (TextFrame m) (st\<lparr>se_ring := ring\<rparr>))
           else
             (case drain_ring (sc_drain cfg) (sc_yrs cfg) [m] ring of
                (batch, ring', lagged) \<Rightarrow>
                  (let st' = send_frame now (if length batch = 1 then TextFrame (hd batch) else BatchFrame batch)
                         (st\<lparr>se_ring := ring'\<rparr>)
                   in if se_open st' \<and> lagged then request_client_resync now st' else st'))))"

text \<open>An acknowledgement, a preview (only the newest of those waiting is sent) and the heartbeat.\<close>

definition ack_arm :: "int \<Rightarrow> string \<Rightarrow> sender \<Rightarrow> sender" where
  "ack_arm now m st = send_frame now (TextFrame m) st"

definition preview_arm :: "int \<Rightarrow> ring_item list \<Rightarrow> sender \<Rightarrow> sender" where
  "preview_arm now previews st =
     (case previews of
        Item m # rest \<Rightarrow>
          send_frame now (TextFrame (last (m # List.map_filter (\<lambda>i. case i of Item x \<Rightarrow> Some x | Gap _ \<Rightarrow> None)
            (takeWhile (\<lambda>i. case i of Item _ \<Rightarrow> True | Gap _ \<Rightarrow> False) rest)))) st
      | _ \<Rightarrow> st)"

definition heartbeat_arm :: "int \<Rightarrow> sender \<Rightarrow> sender" where
  "heartbeat_arm now st =
     (let st' = send_frame now PingFrame st in if se_open st' then send_frame now AppPing st' else st')"

subsection \<open>What the client receives\<close>

definition frame_messages :: "frame \<Rightarrow> string list" where
  "frame_messages f = (case f of TextFrame m \<Rightarrow> [m] | BatchFrame ms \<Rightarrow> ms | _ \<Rightarrow> [])"

definition received :: "sender \<Rightarrow> string list" where
  "received st = concat (map (frame_messages \<circ> snd) (se_out st))"

definition ring_messages :: "ring_item list \<Rightarrow> string list" where
  "ring_messages ring = List.map_filter (\<lambda>i. case i of Item m \<Rightarrow> Some m | Gap _ \<Rightarrow> None) ring"

lemma ring_messages_simps [simp]:
  "ring_messages [] = []" "ring_messages (Item m # r) = m # ring_messages r" "ring_messages (Gap n # r) = ring_messages r"
  by (simp_all add: ring_messages_def List.map_filter_simps)

text \<open>The task woken while the ring holds something; \<open>clk\<close> gives the time of each wake.\<close>

lemma drain_shrinks: "drain_ring limit yrs batch ring = (b, ring', lagged) \<Longrightarrow> length ring' \<le> length ring"
  by (induction limit yrs batch ring rule: drain_ring.induct) (auto split: if_splits)

lemma send_frame_ring [simp]: "se_ring (send_frame now f st) = se_ring st" "se_last_resync (send_frame now f st) = se_last_resync st"
  by (auto simp: send_frame_def split: option.splits nat.splits)

lemma resync_ring [simp]: "se_ring (request_client_resync now st) = se_ring st"
  by (simp add: request_client_resync_def)

lemma commit_arm_shrinks: "se_ring st \<noteq> [] \<Longrightarrow> length (se_ring (commit_arm cfg now st)) < length (se_ring st)"
  by (auto simp: commit_arm_def Let_def dest!: drain_shrinks split: list.splits ring_item.splits option.splits prod.splits)

function pump :: "send_config \<Rightarrow> (nat \<Rightarrow> int) \<Rightarrow> nat \<Rightarrow> sender \<Rightarrow> sender" where
  "pump cfg clk i st =
     (if se_open st \<and> se_ring st \<noteq> [] then pump cfg clk (Suc i) (commit_arm cfg (clk i) st) else st)"
  by pat_completeness auto
termination
  by (relation "measure (\<lambda>(cfg, clk, i, st). length (se_ring st))") (auto intro: commit_arm_shrinks)

declare pump.simps [simp del]

definition alive :: "sender \<Rightarrow> bool" where
  "alive st \<longleftrightarrow> se_open st \<and> se_budget st = None"

lemma send_frame_alive [simp]:
  "alive st \<Longrightarrow> alive (send_frame now f st)" "alive st \<Longrightarrow> received (send_frame now f st) = received st @ frame_messages f"
  "alive st \<Longrightarrow> se_open (send_frame now f st)"
  by (simp_all add: alive_def send_frame_def received_def)

lemma alive_update [simp]:
  "alive (st\<lparr>se_ring := r\<rparr>) = alive st" "alive (st\<lparr>se_last_resync := t\<rparr>) = alive st"
  "received (st\<lparr>se_ring := r\<rparr>) = received st" "received (st\<lparr>se_last_resync := t\<rparr>) = received st"
  by (simp_all add: alive_def received_def)

lemma resync_alive [simp]:
  "alive st \<Longrightarrow> alive (request_client_resync now st)" "alive st \<Longrightarrow> received (request_client_resync now st) = received st"
  by (simp_all add: request_client_resync_def) (simp_all add: frame_messages_def)

lemma drain_content:
  "drain_ring limit yrs batch ring = (b, ring', lagged) \<Longrightarrow>
   b @ filter (\<lambda>m. should_deliver_durable m yrs) (ring_messages ring')
     = batch @ filter (\<lambda>m. should_deliver_durable m yrs) (ring_messages ring)"
  by (induction limit yrs batch ring rule: drain_ring.induct) (auto split: if_splits)

lemma drain_nonempty: "drain_ring limit yrs batch ring = (b, ring', lagged) \<Longrightarrow> batch \<noteq> [] \<Longrightarrow> b \<noteq> []"
  by (induction limit yrs batch ring rule: drain_ring.induct) (auto split: if_splits)

lemma commit_arm_content:
  assumes st: "alive st" and json: "\<not> sc_binary cfg"
  shows "alive (commit_arm cfg now st) \<and>
    received (commit_arm cfg now st) @ filter (\<lambda>m. should_deliver_durable m (sc_yrs cfg)) (ring_messages (se_ring (commit_arm cfg now st)))
      = received st @ filter (\<lambda>m. should_deliver_durable m (sc_yrs cfg)) (ring_messages (se_ring st))"
proof (cases "se_ring st")
  case (Cons x ring)
  show ?thesis
  proof (cases x)
    case (Gap n)
    then show ?thesis using st Cons by (simp add: commit_arm_def)
  next
    case x: (Item m)
    show ?thesis
    proof (cases "should_deliver_durable m (sc_yrs cfg) \<and> sc_batch cfg")
      case False
      then show ?thesis using st json Cons x by (auto simp: commit_arm_def) (simp add: frame_messages_def)
    next
      case True
      obtain b ring' lagged where d: "drain_ring (sc_drain cfg) (sc_yrs cfg) [m] ring = (b, ring', lagged)"
        by (cases "drain_ring (sc_drain cfg) (sc_yrs cfg) [m] ring") auto
      let ?f = "if length b = 1 then TextFrame (hd b) else BatchFrame b"
      have f: "frame_messages ?f = b" using drain_nonempty [OF d] by (cases b) (auto simp: frame_messages_def)
      show ?thesis
        using st json Cons x True drain_content [OF d] f by (simp add: commit_arm_def d Let_def)
    qed
  qed
qed (use st in \<open>simp add: commit_arm_def\<close>)

lemma pump_content:
  "alive st \<Longrightarrow> \<not> sc_binary cfg \<Longrightarrow>
   received (pump cfg clk i st) = received st @ filter (\<lambda>m. should_deliver_durable m (sc_yrs cfg)) (ring_messages (se_ring st))"
proof (induction cfg clk i st rule: pump.induct)
  case (1 cfg clk i st)
  show ?case
  proof (cases "se_ring st = []")
    case True
    then show ?thesis by (subst pump.simps) simp
  next
    case False
    then have go: "se_open st \<and> se_ring st \<noteq> []" using 1(2) by (simp add: alive_def)
    show ?thesis
      using 1(1) [OF go] commit_arm_content [OF 1(2,3), of "clk i"] 1(3) by (subst pump.simps) (simp add: go)
  qed
qed

text \<open>C22: Batching changes nothing: on a text connection the messages a batching client unpacks, in their order, are
  those a client without batching receives, and both are exactly the deliverable messages of the ring, none lost,
  repeated or reordered, whatever the drain limit and the wake-up times.\<close>

theorem batching_transparent:
  assumes "alive st" and "\<not> sc_binary cfg"
  shows "received (pump (cfg\<lparr>sc_batch := True\<rparr>) clk i st) = received (pump (cfg\<lparr>sc_batch := False\<rparr>) clk' i' st)
    \<and> received (pump (cfg\<lparr>sc_batch := True\<rparr>) clk i st)
        = received st @ filter (\<lambda>m. should_deliver_durable m (sc_yrs cfg)) (ring_messages (se_ring st))"
  using pump_content [OF assms(1), of "cfg\<lparr>sc_batch := True\<rparr>" clk i] pump_content [OF assms(1), of "cfg\<lparr>sc_batch := False\<rparr>" clk' i']
    assms(2) by simp

subsection \<open>Every gap is answered\<close>

definition resync_times :: "sender \<Rightarrow> int list" where
  "resync_times st = map fst (filter (\<lambda>x. snd x = ResyncFrame) (se_out st))"

definition gaps :: "sender \<Rightarrow> nat" where
  "gaps st = length (filter (\<lambda>i. case i of Gap _ \<Rightarrow> True | Item _ \<Rightarrow> False) (se_ring st))"

text \<open>The times at which the task reads a gap.\<close>

function gap_reads :: "send_config \<Rightarrow> (nat \<Rightarrow> int) \<Rightarrow> nat \<Rightarrow> sender \<Rightarrow> int list" where
  "gap_reads cfg clk i st =
     (if se_open st \<and> se_ring st \<noteq> [] then
        (if gaps (commit_arm cfg (clk i) st) < gaps st then [clk i] else [])
          @ gap_reads cfg clk (Suc i) (commit_arm cfg (clk i) st)
      else [])"
  by pat_completeness auto
termination
  by (relation "measure (\<lambda>(cfg, clk, i, st). length (se_ring st))") (auto intro: commit_arm_shrinks)

declare gap_reads.simps [simp del]

definition resyncs_ok :: "int \<Rightarrow> sender \<Rightarrow> bool" where
  "resyncs_ok now st \<longleftrightarrow> alive st \<and> sorted_wrt (\<lambda>a b. a + RESYNC_DEBOUNCE \<le> b) (resync_times st)
     \<and> (\<forall>t \<in> set (resync_times st). t \<le> now)
     \<and> se_last_resync st = (if resync_times st = [] then None else Some (last (resync_times st)))"

definition answered :: "int \<Rightarrow> sender \<Rightarrow> bool" where
  "answered now st \<longleftrightarrow> (\<exists>t \<in> set (resync_times st). now - RESYNC_DEBOUNCE < t \<and> t \<le> now)"

lemma resyncs_ok_mono: "resyncs_ok now st \<Longrightarrow> now \<le> now' \<Longrightarrow> resyncs_ok now' st"
  by (auto simp: resyncs_ok_def)

lemma send_other:
  "resyncs_ok now st \<Longrightarrow> f \<noteq> ResyncFrame \<Longrightarrow> resyncs_ok now (send_frame now f (st\<lparr>se_ring := r\<rparr>))"
  by (auto simp: resyncs_ok_def alive_def send_frame_def resync_times_def)

lemma ring_only: "resyncs_ok now (st\<lparr>se_ring := r\<rparr>) = resyncs_ok now st"
  by (simp add: resyncs_ok_def alive_def resync_times_def)

lemma drain_gaps:
  "drain_ring limit yrs batch ring = (b, ring', lagged) \<Longrightarrow> \<not> lagged \<Longrightarrow>
   length (filter (\<lambda>i. case i of Gap _ \<Rightarrow> True | Item _ \<Rightarrow> False) ring')
     = length (filter (\<lambda>i. case i of Gap _ \<Rightarrow> True | Item _ \<Rightarrow> False) ring)"
  by (induction limit yrs batch ring rule: drain_ring.induct) (auto split: if_splits)

lemma request_resync_ok:
  assumes ok: "resyncs_ok now st"
  shows "resyncs_ok now (request_client_resync now st) \<and> answered now (request_client_resync now st)"
proof (cases "case se_last_resync st of None \<Rightarrow> True | Some t \<Rightarrow> now - t \<ge> RESYNC_DEBOUNCE")
  case True
  let ?st = "request_client_resync now st"
  have st: "?st = send_frame now ResyncFrame (st\<lparr>se_last_resync := Some now\<rparr>)"
    using True by (simp add: request_client_resync_def)
  have t: "resync_times ?st = resync_times st @ [now]"
    using ok by (simp add: st resyncs_ok_def alive_def send_frame_def resync_times_def)
  have "\<forall>a \<in> set (resync_times st). a + RESYNC_DEBOUNCE \<le> now"
  proof (cases "resync_times st = []")
    case False
    then have l: "last (resync_times st) + RESYNC_DEBOUNCE \<le> now" using ok True by (simp add: resyncs_ok_def)
    have "a \<le> last (resync_times st)" if "a \<in> set (resync_times st)" for a
    proof -
      have "sorted_wrt (\<lambda>a b. a \<le> b) (resync_times st)"
        using ok unfolding resyncs_ok_def by (auto intro: sorted_wrt_mono_rel [rotated] simp: RESYNC_DEBOUNCE_def)
      then show ?thesis using that False
        by (metis append_butlast_last_id in_set_conv_decomp last_in_set order_refl sorted_wrt_append snoc_eq_iff_butlast
            UnE set_append list.set(1) list.set(2) singletonD)
    qed
    then show ?thesis using l by (auto intro: order_trans [OF add_right_mono])
  qed simp
  then show ?thesis
    using ok by (simp add: resyncs_ok_def t sorted_wrt_append answered_def RESYNC_DEBOUNCE_def)
      (simp add: st alive_def send_frame_def)
next
  case False
  then obtain t where t: "se_last_resync st = Some t" "now - t < RESYNC_DEBOUNCE" by (cases "se_last_resync st") auto
  then have "resync_times st \<noteq> []" "t = last (resync_times st)" using ok by (auto simp: resyncs_ok_def split: if_splits)
  then have "t \<in> set (resync_times st)" by simp
  moreover have "request_client_resync now st = st" using t by (simp add: request_client_resync_def)
  moreover have "t \<le> now" using ok calculation(1) by (simp add: resyncs_ok_def)
  moreover have "now - RESYNC_DEBOUNCE < t" using t(2) by simp
  ultimately show ?thesis using ok unfolding answered_def by auto
qed

lemma commit_arm_ok:
  assumes ok: "resyncs_ok now st"
  shows "resyncs_ok now (commit_arm cfg now st)"
    and "gaps (commit_arm cfg now st) < gaps st \<Longrightarrow> answered now (commit_arm cfg now st)"
proof -
  have r: "resyncs_ok now (request_client_resync now (st\<lparr>se_ring := ring\<rparr>))
    \<and> answered now (request_client_resync now (st\<lparr>se_ring := ring\<rparr>))" for ring
    using request_resync_ok [of now "st\<lparr>se_ring := ring\<rparr>"] ok by (simp add: ring_only)
  have "resyncs_ok now (commit_arm cfg now st) \<and>
    (gaps (commit_arm cfg now st) < gaps st \<longrightarrow> answered now (commit_arm cfg now st))"
  proof (cases "se_ring st")
    case Nil
    then show ?thesis using ok by (simp add: commit_arm_def)
  next
    case (Cons x ring)
    show ?thesis
    proof (cases x)
      case (Gap n)
      then show ?thesis using r Cons by (simp add: commit_arm_def)
    next
      case x: (Item m)
      show ?thesis
      proof (cases "should_deliver_durable m (sc_yrs cfg) \<and> sc_batch cfg \<and> \<not> sc_binary cfg")
        case False
        then show ?thesis using ok Cons x send_other [OF ok]
          by (auto simp: commit_arm_def ring_only gaps_def split: option.splits)
      next
        case True
        obtain b ring' lagged where d: "drain_ring (sc_drain cfg) (sc_yrs cfg) [m] ring = (b, ring', lagged)"
          by (cases "drain_ring (sc_drain cfg) (sc_yrs cfg) [m] ring") auto
        let ?f = "if length b = 1 then TextFrame (hd b) else BatchFrame b"
        let ?st = "send_frame now ?f (st\<lparr>se_ring := ring'\<rparr>)"
        have s: "resyncs_ok now ?st" using send_other [OF ok] by simp
        have c: "commit_arm cfg now st = (if lagged then request_client_resync now ?st else ?st)"
          using True Cons x s by (simp add: commit_arm_def d Let_def resyncs_ok_def alive_def)
        have "gaps ?st = gaps st" if "\<not> lagged"
          using drain_gaps [OF d] that Cons x by (simp add: gaps_def)
        then show ?thesis using request_resync_ok [OF s] s by (auto simp: c)
      qed
    qed
  qed
  then show "resyncs_ok now (commit_arm cfg now st)"
    and "gaps (commit_arm cfg now st) < gaps st \<Longrightarrow> answered now (commit_arm cfg now st)" by simp_all
qed

lemma commit_arm_extends: "\<exists>more. se_out (commit_arm cfg now st) = se_out st @ more"
  by (auto simp: commit_arm_def request_client_resync_def send_frame_def Let_def
      split: list.splits ring_item.splits option.splits prod.splits nat.splits)

lemma pump_go: "se_open st \<and> se_ring st \<noteq> [] \<Longrightarrow> pump cfg clk i st = pump cfg clk (Suc i) (commit_arm cfg (clk i) st)"
  by (subst pump.simps) simp

lemma pump_stop: "\<not> (se_open st \<and> se_ring st \<noteq> []) \<Longrightarrow> pump cfg clk i st = st"
  by (subst pump.simps) (rule if_not_P)

lemma gap_reads_stop: "\<not> (se_open st \<and> se_ring st \<noteq> []) \<Longrightarrow> gap_reads cfg clk i st = []"
  by (subst gap_reads.simps) (rule if_not_P)

lemma pump_extends: "\<exists>more. se_out (pump cfg clk i st) = se_out st @ more"
proof (induction cfg clk i st rule: pump.induct)
  case (1 cfg clk i st)
  show ?case
  proof (cases "se_open st \<and> se_ring st \<noteq> []")
    case False
    then show ?thesis by (intro exI [of _ "[]"]) (simp only: pump_stop [OF False] append_Nil2)
  next
    case True
    obtain a b where "se_out (commit_arm cfg (clk i) st) = se_out st @ a"
      "se_out (pump cfg clk (Suc i) (commit_arm cfg (clk i) st)) = se_out (commit_arm cfg (clk i) st) @ b"
      using commit_arm_extends 1 [OF True] by blast
    then show ?thesis by (simp add: pump_go [OF True])
  qed
qed

lemma answered_extends:
  "answered t st \<Longrightarrow> se_out st' = se_out st @ rest \<Longrightarrow> answered t st'"
  unfolding answered_def resync_times_def by (simp only: filter_append map_append set_append bex_Un) blast

lemma pump_resyncs:
  "\<lbrakk>\<And>i j. i \<le> j \<Longrightarrow> clk i \<le> clk j; resyncs_ok (clk i) st\<rbrakk> \<Longrightarrow>
    (\<exists>now. resyncs_ok now (pump cfg clk i st)) \<and>
    (\<forall>t \<in> set (gap_reads cfg clk i st). answered t (pump cfg clk i st))"
proof (induction cfg clk i st rule: pump.induct)
  case (1 cfg clk i st)
  show ?case
  proof (cases "se_open st \<and> se_ring st \<noteq> []")
    case False
    then show ?thesis using 1(3) by (auto simp only: pump_stop [OF False] gap_reads_stop [OF False] list.set)
  next
    case True
    let ?st = "commit_arm cfg (clk i) st"
    have now: "clk i \<le> clk (Suc i)" by (rule 1(2)) simp
    have step: "resyncs_ok (clk (Suc i)) ?st"
      by (rule resyncs_ok_mono [OF commit_arm_ok(1) [OF 1(3)] now])
    obtain rest where m: "se_out (pump cfg clk (Suc i) ?st) = se_out ?st @ rest" using pump_extends by blast
    have ih: "(\<exists>now. resyncs_ok now (pump cfg clk (Suc i) ?st)) \<and>
      (\<forall>t \<in> set (gap_reads cfg clk (Suc i) ?st). answered t (pump cfg clk (Suc i) ?st))"
      by (rule 1(1) [OF True 1(2) step])
    have here: "answered (clk i) (pump cfg clk (Suc i) ?st)" if "gaps ?st < gaps st"
      by (rule answered_extends [OF commit_arm_ok(2) [OF 1(3) that] m])
    show ?thesis
      using ih here True by (subst gap_reads.simps) (auto simp: pump_go [OF True])
  qed
qed

text \<open>C21: A client that loses messages is told, and not too often: however the ring falls behind, every gap the send
  task reads is covered by a resync request sent less than a second before or at that moment, and two requests
  are never closer than one second.\<close>

theorem gaps_answered:
  assumes "\<And>i j. i \<le> j \<Longrightarrow> clk i \<le> clk j" and "alive st" and "se_out st = []" and "se_last_resync st = None"
  shows "(\<forall>t \<in> set (gap_reads cfg clk i st). \<exists>r \<in> set (resync_times (pump cfg clk i st)). t - RESYNC_DEBOUNCE < r \<and> r \<le> t)
    \<and> sorted_wrt (\<lambda>a b. a + RESYNC_DEBOUNCE \<le> b) (resync_times (pump cfg clk i st))"
proof -
  have "resyncs_ok (clk i) st" using assms(2-4) by (simp add: resyncs_ok_def resync_times_def)
  from pump_resyncs [of clk i st cfg, OF assms(1) this] show ?thesis by (auto simp: resyncs_ok_def answered_def)
qed

definition plain_config :: send_config where
  "plain_config = \<lparr>sc_batch = False, sc_yrs = True, sc_binary = False, sc_drain = 4096,
     sc_parse = (\<lambda>_. None), sc_unb64 = (\<lambda>_. None)\<rparr>"

definition lagging :: sender where
  "lagging = \<lparr>se_ring = [Item ''a'', Gap 3, Item ''b'', Item ''c'', Gap 1], se_out = [], se_last_resync = None,
     se_budget = None, se_open = True\<rparr>"

lemma lagging_gaps: "gap_reads plain_config (\<lambda>i. 400 * int i) 0 lagging = [400, 1600]"
  by code_simp

theorem gaps_answered_witness:
  "\<exists>r. r \<in> set (resync_times (pump plain_config (\<lambda>i. 400 * int i) 0 lagging)) \<and> 600 < r \<and> r \<le> 1600"
proof -
  have "(\<forall>t \<in> set (gap_reads plain_config (\<lambda>i. 400 * int i) 0 lagging).
      \<exists>r \<in> set (resync_times (pump plain_config (\<lambda>i. 400 * int i) 0 lagging)). t - RESYNC_DEBOUNCE < r \<and> r \<le> t)
    \<and> sorted_wrt (\<lambda>a b. a + RESYNC_DEBOUNCE \<le> b) (resync_times (pump plain_config (\<lambda>i. 400 * int i) 0 lagging))"
    by (rule gaps_answered) (simp_all add: lagging_def alive_def)
  then show ?thesis by (auto simp: lagging_gaps RESYNC_DEBOUNCE_def)
qed

theorem batching_transparent_witness:
  "received (pump (plain_config\<lparr>sc_batch := True\<rparr>) (\<lambda>i. int i) 0 lagging) = [''a'', ''b'', ''c'']"
proof -
  have m: "received lagging @ filter (\<lambda>m. should_deliver_durable m (sc_yrs plain_config)) (ring_messages (se_ring lagging))
      = [''a'', ''b'', ''c'']"
    by (simp add: lagging_def plain_config_def received_def should_deliver_durable_def)
  have "alive lagging" "\<not> sc_binary plain_config" by (simp_all add: lagging_def plain_config_def alive_def)
  from conjunct2 [OF batching_transparent [OF this, of "\<lambda>i. int i" 0 "\<lambda>i. int i" 0]] show ?thesis unfolding m .
qed

text \<open>A gap read within a second of a request gets no request of its own, then or later.\<close>

lemma no_trailing_resync:
  assumes "alive st" and "se_last_resync st = Some t" and "now - t < RESYNC_DEBOUNCE" and "se_ring st = [Gap n]"
  shows "resync_times (pump cfg (\<lambda>_. now) i st) = resync_times st \<and> se_ring (pump cfg (\<lambda>_. now) i st) = []"
proof -
  let ?st = "st\<lparr>se_ring := []\<rparr>"
  have c: "commit_arm cfg now st = ?st" using assms(2-4) by (simp add: commit_arm_def request_client_resync_def)
  have "se_open st \<and> se_ring st \<noteq> []" using assms(1,4) by (simp add: alive_def)
  then have "pump cfg (\<lambda>_. now) i st = ?st" using pump_stop [of ?st] by (simp add: pump_go c)
  then show ?thesis by (simp add: resync_times_def)
qed

subsection \<open>The receive task: previews\<close>

text \<open>A coordinate is the number the client sent; \<open>FoldCursor\<close> puts the payload into the board's cursor map.\<close>

datatype recv_effect =
    SetCursorPosition json_num json_num
  | FoldCursor cursor_entry
  | BroadcastPreview json
  | Reply ws_message
  | Deliver "delivery list" "durable_notice option"
  | TouchLastActive

record preview_state =
  pv_pending :: "json option"
  pv_last_cursor :: "int option"

definition CURSOR_MIN_INTERVAL :: int where "CURSOR_MIN_INTERVAL = 33"

definition is_cursor_only :: "json \<Rightarrow> bool" where
  "is_cursor_only payload \<longleftrightarrow> json_get ''cursor'' payload \<noteq> None \<and> json_get ''transforms'' payload = None
     \<and> json_get ''handle'' payload = None \<and> json_get ''overlays'' payload = None \<and> json_get ''laser'' payload = None"

definition cursor_position :: "json \<Rightarrow> (json_num \<times> json_num) option" where
  "cursor_position payload =
     (case (Option.bind (json_get ''cursor'' payload) (json_get ''x''), Option.bind (json_get ''cursor'' payload) (json_get ''y'')) of
        (Some (JNum x), Some (JNum y)) \<Rightarrow> Some (x, y)
      | _ \<Rightarrow> None)"

definition broadcast_cursor :: "bool \<Rightarrow> uuid \<Rightarrow> int \<Rightarrow> json \<Rightarrow> bool \<Rightarrow> recv_effect list" where
  "broadcast_cursor aggregation user now payload cursor_only =
     (case cursor_position payload of Some (x, y) \<Rightarrow> [SetCursorPosition x y] | None \<Rightarrow> [])
     @ [if cursor_only \<and> aggregation
        then FoldCursor \<lparr>ce_user_id = user, ce_payload = payload, ce_updated_at = now\<rparr>
        else BroadcastPreview payload]"

definition cursor_due :: "int \<Rightarrow> preview_state \<Rightarrow> bool" where
  "cursor_due now pv = (case pv_last_cursor pv of None \<Rightarrow> True | Some t \<Rightarrow> now - t \<ge> CURSOR_MIN_INTERVAL)"

definition recv_preview :: "bool \<Rightarrow> uuid \<Rightarrow> int \<Rightarrow> json \<Rightarrow> preview_state \<Rightarrow> preview_state \<times> recv_effect list" where
  "recv_preview aggregation user now payload pv =
     (if is_cursor_only payload \<and> \<not> cursor_due now pv then (pv\<lparr>pv_pending := Some payload\<rparr>, [])
      else
        (if is_cursor_only payload then pv\<lparr>pv_last_cursor := Some now, pv_pending := None\<rparr> else pv,
         broadcast_cursor aggregation user now payload (is_cursor_only payload)))"

definition flush_cursor :: "bool \<Rightarrow> uuid \<Rightarrow> int \<Rightarrow> preview_state \<Rightarrow> preview_state \<times> recv_effect list" where
  "flush_cursor aggregation user now pv =
     (case pv_pending pv of
        None \<Rightarrow> (pv, [])
      | Some payload \<Rightarrow>
          (pv\<lparr>pv_pending := None, pv_last_cursor := Some now\<rparr>, broadcast_cursor aggregation user now payload True))"

datatype preview_event = GotPreview json | FlushTick

definition preview_step ::
  "bool \<Rightarrow> uuid \<Rightarrow> preview_state \<times> recv_effect list \<Rightarrow> int \<times> preview_event \<Rightarrow> preview_state \<times> recv_effect list" where
  "preview_step aggregation user s ev =
     (case (case snd ev of GotPreview p \<Rightarrow> recv_preview aggregation user (fst ev) p (fst s)
            | FlushTick \<Rightarrow> flush_cursor aggregation user (fst ev) (fst s)) of
        (pv, out) \<Rightarrow> (pv, snd s @ out))"

text \<open>What goes out about the cursor alone: its payloads, in the order they are folded or broadcast.\<close>

definition cursor_emissions :: "recv_effect list \<Rightarrow> json list" where
  "cursor_emissions out = List.map_filter (\<lambda>e. case e of
      FoldCursor c \<Rightarrow> Some (ce_payload c)
    | BroadcastPreview p \<Rightarrow> (if is_cursor_only p then Some p else None)
    | _ \<Rightarrow> None) out"

definition cursors_received :: "(int \<times> preview_event) list \<Rightarrow> json list" where
  "cursors_received evs = List.map_filter (\<lambda>ev. case snd ev of
      GotPreview p \<Rightarrow> (if is_cursor_only p then Some p else None) | FlushTick \<Rightarrow> None) evs"

lemma emissions_append [simp]: "cursor_emissions (a @ b) = cursor_emissions a @ cursor_emissions b"
  by (simp add: cursor_emissions_def List.map_filter_def)

lemma emissions_broadcast [simp]:
  "cursor_emissions (broadcast_cursor aggregation user now p co) = (if is_cursor_only p \<or> co \<and> aggregation then [p] else [])"
  by (auto simp: broadcast_cursor_def cursor_emissions_def List.map_filter_simps List.map_filter_def split: option.splits)

definition cursor_inv :: "json list \<Rightarrow> preview_state \<times> recv_effect list \<Rightarrow> bool" where
  "cursor_inv got s \<longleftrightarrow>
     (case pv_pending (fst s) of
        Some p \<Rightarrow> is_cursor_only p \<and> got \<noteq> [] \<and> last got = p
      | None \<Rightarrow> got \<noteq> [] \<longrightarrow> cursor_emissions (snd s) \<noteq> [] \<and> last (cursor_emissions (snd s)) = last got)"

lemma cursors_received_simps [simp]:
  "cursors_received [] = []" "cursors_received ((t, GotPreview p) # evs) = (if is_cursor_only p then [p] else []) @ cursors_received evs"
  "cursors_received ((t, FlushTick) # evs) = cursors_received evs"
  by (simp_all add: cursors_received_def List.map_filter_simps)

lemma preview_step_inv:
  "cursor_inv got s \<Longrightarrow> cursor_inv (got @ cursors_received [ev]) (preview_step aggregation user s ev)"
  by (cases ev; cases "snd ev")
    (auto simp: cursor_inv_def preview_step_def recv_preview_def flush_cursor_def split: option.splits)

lemma preview_run_inv:
  "cursor_inv got s \<Longrightarrow> cursor_inv (got @ cursors_received evs) (foldl (preview_step aggregation user) s evs)"
proof (induction evs arbitrary: got s)
  case (Cons ev evs)
  have "cursors_received (ev # evs) = cursors_received [ev] @ cursors_received evs"
    by (simp add: cursors_received_def List.map_filter_def)
  then show ?case using Cons.IH [OF preview_step_inv [OF Cons.prems]] by simp
qed simp

text \<open>C31: The resting cursor lands: whatever cursor-only moves and drags a client sends and however they are
  throttled, after the next flush tick nothing is pending and the last cursor that went out is that of the last
  cursor-only message the client sent. The cursors that drags carry do not count: a drag leaves an older pending
  cursor in place, which then goes out last although it is not where the pointer rests
  (\<open>stale_cursor_after_drag\<close>).\<close>

theorem resting_cursor_lands:
  assumes "cursors_received evs \<noteq> []"
  shows "let (pv, out) = foldl (preview_step aggregation user) (\<lparr>pv_pending = None, pv_last_cursor = None\<rparr>, []) (evs @ [(now, FlushTick)])
    in pv_pending pv = None \<and> cursor_emissions out \<noteq> [] \<and> last (cursor_emissions out) = last (cursors_received evs)"
proof -
  let ?s = "foldl (preview_step aggregation user) (\<lparr>pv_pending = None, pv_last_cursor = None\<rparr>, []) evs"
  have "cursor_inv (cursors_received evs) ?s"
    using preview_run_inv [of "[]" "(\<lparr>pv_pending = None, pv_last_cursor = None\<rparr>, [])"] by (simp add: cursor_inv_def)
  then show ?thesis using assms
    by (cases ?s) (auto simp: cursor_inv_def preview_step_def flush_cursor_def split: option.splits)
qed

definition cursor_at :: "nat \<Rightarrow> (string \<times> json) list \<Rightarrow> json" where
  "cursor_at n rest = JObj ((''cursor'', JObj [(''x'', JNum (PosInt (of_nat n))), (''y'', JNum (PosInt 0))]) # rest)"

theorem resting_cursor_lands_witness:
  "cursor_emissions (snd (foldl (preview_step True 9) (\<lparr>pv_pending = None, pv_last_cursor = None\<rparr>, [])
      [(0, GotPreview (cursor_at 1 [])), (5, GotPreview (cursor_at 2 [])), (10, GotPreview (cursor_at 3 [])), (33, FlushTick)]))
   = [cursor_at 1 [], cursor_at 3 []]"
proof -
  have "cursors_received [(0, GotPreview (cursor_at 1 [])), (5, GotPreview (cursor_at 2 [])), (10, GotPreview (cursor_at 3 []))] \<noteq> []"
    by (simp add: is_cursor_only_def cursor_at_def)
  from resting_cursor_lands [OF this, of True 9 33] show ?thesis
    by (simp add: preview_step_def recv_preview_def flush_cursor_def cursor_due_def CURSOR_MIN_INTERVAL_def is_cursor_only_def
        cursor_at_def broadcast_cursor_def cursor_emissions_def List.map_filter_simps cursor_position_def)
qed

text \<open>A drag that carries a newer cursor does not clear the pending one: the flush then stores the older position.\<close>

lemma stale_cursor_after_drag:
  "snd (foldl (preview_step True 9) (\<lparr>pv_pending = None, pv_last_cursor = Some 0\<rparr>, [])
      [(5, GotPreview (cursor_at 2 [])), (10, GotPreview (cursor_at 3 [(''transforms'', JNull)])), (33, FlushTick)])
   = [SetCursorPosition (PosInt 3) (PosInt 0), BroadcastPreview (cursor_at 3 [(''transforms'', JNull)]),
      SetCursorPosition (PosInt 2) (PosInt 0),
      FoldCursor \<lparr>ce_user_id = 9, ce_payload = cursor_at 2 [], ce_updated_at = 33\<rparr>]"
  by (simp add: preview_step_def recv_preview_def flush_cursor_def cursor_due_def CURSOR_MIN_INTERVAL_def is_cursor_only_def
      cursor_at_def broadcast_cursor_def cursor_position_def)

end
