(* ===== verification/Socket_Commit.thy ===== *)
theory Socket_Commit
  imports Socket
begin

text \<open>
  What a board socket does with a client's commit (\<open>src/src/handlers/realtime.rs\<close>): the registry activates the
  board and commits (\<open>src/src/state/coordinator_registry.rs\<close>), the author alone gets the acknowledgement, and
  the pair is published to everybody.
\<close>

subsection \<open>The registry around one attempt\<close>

text \<open>A handle in use always names a resident (it is the shared pointer itself).\<close>

definition registry_commit_once ::
  "('d, 'u, 's) yrs \<Rightarrow> env \<Rightarrow> uuid \<Rightarrow> int \<Rightarrow> commit_request \<Rightarrow> bdb \<Rightarrow> bdb \<Rightarrow> nat \<Rightarrow> 'd registry \<Rightarrow>
   (commit_error + commit_result) \<times> 'd registry \<times> bdb" where
  "registry_commit_once Y E new_id now q d0 d h r =
     (case commit_once Y E new_id now q d0 d (the (reg_residents r h)) of
        (res, Keep rb, d') \<Rightarrow> (res, r\<lparr>reg_residents := (reg_residents r)(h \<mapsto> rb)\<rparr>, d')
      | (Inl e, Evict, d') \<Rightarrow> (Inl e, evict_if_same (cq_board_id q) h r, d')
      | (Inr ack, Evict, d') \<Rightarrow> (Inr ack, r\<lparr>reg_boards := (reg_boards r)(cq_board_id q := None)\<rparr>, d'))"

text \<open>What the rest of the world does meanwhile, and what this instance generates.\<close>

record surroundings =
  su_new_id :: uuid
  su_now :: int
  su_clock :: int
  su_activating :: "bdb \<Rightarrow> bdb"
  su_preparing :: "bdb \<Rightarrow> bdb"
  su_retrying :: "bdb \<Rightarrow> bdb"
  su_instance :: uuid
  su_active :: "uuid list"
  su_head :: "string + yrs_head option"
  su_page_ok :: "int \<Rightarrow> bool"
  su_row_ok :: "yrs_update_row \<Rightarrow> bool"

definition registry_commit ::
  "('d, 'u, 's) yrs \<Rightarrow> env \<Rightarrow> surroundings \<Rightarrow> commit_request \<Rightarrow> nat \<Rightarrow> 'd registry \<Rightarrow> bdb \<Rightarrow>
   (commit_error + commit_result) \<times> 'd registry \<times> bdb" where
  "registry_commit Y E su q h r d =
     (case registry_commit_once Y E (su_new_id su) (su_now su) q d (su_preparing su d) h r of
        (Inl StaleRevision, r1, d1) \<Rightarrow>
          (case ensure_active Y (v_sha E) (su_activating su) (cq_board_id q) r1 (su_retrying su d1) of
             (Inl e, r2, d2) \<Rightarrow> (Inl (CommitDb (''rebuild resident: '' @ e)), r2, d2)
           | (Inr h', r2, d2) \<Rightarrow>
               registry_commit_once Y E (su_new_id su) (su_now su) q d2 (su_preparing su d2) h' r2)
      | result \<Rightarrow> result)"

subsection \<open>The handler\<close>

definition commit_error_text :: "commit_error \<Rightarrow> string" where
  "commit_error_text e =
     (case e of
        ProtocolConflict \<Rightarrow> ''protocol conflict (client_event_id reuse)''
      | ClientUpdateRejected r \<Rightarrow> ''client update rejected: '' @ r
      | ValidationFailed r \<Rightarrow> ''validation failed: '' @ r
      | StaleRevision \<Rightarrow> ''canonical revision advanced; retry''
      | CommitModel r \<Rightarrow> ''model error: '' @ r
      | CommitDb r \<Rightarrow> ''db error: '' @ r)"

record 'd server =
  sv_registry :: "'d registry"
  sv_db :: bdb
  sv_cursors :: cursors
  sv_last_active :: "uuid \<Rightarrow> int option"

definition ws_request ::
  "connection \<Rightarrow> string \<Rightarrow> json \<Rightarrow> string option \<Rightarrow> string option \<Rightarrow> client_yrs_update option \<Rightarrow> commit_request" where
  "ws_request co event_type payload client_event_id msg_session_id yrs =
     \<lparr>cq_board_id = co_board co, cq_actor_user_id = co_actor co, cq_event_type = event_type, cq_payload = payload,
      cq_client_event_id = client_event_id,
      cq_session_id = (case msg_session_id of Some s \<Rightarrow> Some s | None \<Rightarrow> co_session co), cq_client_yrs = yrs\<rparr>"

definition ack_of :: "commit_request \<Rightarrow> commit_result \<Rightarrow> ws_message" where
  "ack_of q res = WsAck (cq_board_id q) (res_seq res) (res_server_event_id res) (cq_client_event_id q)"

definition commit_of :: "commit_request \<Rightarrow> commit_result \<Rightarrow> ws_message" where
  "commit_of q res = WsCommit (cq_board_id q) (res_seq res) (res_server_event_id res) (cq_client_event_id q)
     (cq_actor_user_id q) (cq_event_type q) (res_event_payload res) (cq_session_id q)"

definition nack_of :: "commit_request \<Rightarrow> commit_error \<Rightarrow> ws_message" where
  "nack_of q e = WsNack (cq_board_id q) (cq_client_event_id q) (commit_code e) (commit_error_text e)
     (commit_retryable e) (\<not> commit_retryable e)"

definition after_ack ::
  "env \<Rightarrow> surroundings \<Rightarrow> commit_request \<Rightarrow> commit_result \<Rightarrow> 'd server \<Rightarrow> 'd server \<times> recv_effect list" where
  "after_ack E su q res sv =
     (case touch_user_last_active (su_clock su) (cq_actor_user_id q) (sv_last_active sv) of (touch, active) \<Rightarrow>
      (case publish (v_b64_encode E) (sv_db sv) (su_page_ok su) (su_row_ok su) (su_active su) (su_head su) (su_instance su)
              (commit_of q res) (sv_cursors sv) of (cs, deliveries, notice) \<Rightarrow>
       (sv\<lparr>sv_last_active := active, sv_cursors := cs\<rparr>,
        (if touch then [TouchLastActive] else []) @ [Reply (ack_of q res), Deliver deliveries notice])))"

definition recv_commit ::
  "('d, 'u, 's) yrs \<Rightarrow> env \<Rightarrow> surroundings \<Rightarrow> connection \<Rightarrow> commit_request \<Rightarrow> 'd server \<Rightarrow>
   'd server \<times> recv_effect list" where
  "recv_commit Y E su co q sv =
     (if co_role co = ''viewer'' then (sv, [])
      else
        (case ensure_active Y (v_sha E) (su_activating su) (cq_board_id q) (sv_registry sv) (sv_db sv) of
           (Inl e, r, d) \<Rightarrow>
             (sv\<lparr>sv_registry := r, sv_db := d\<rparr>,
              [Reply (WsNack (cq_board_id q) (cq_client_event_id q) ''CANONICAL_STATE_UNAVAILABLE'' e True True)])
         | (Inr h, r, d) \<Rightarrow>
             (case registry_commit Y E su q h r d of
                (Inl e, r', d') \<Rightarrow> (sv\<lparr>sv_registry := r', sv_db := d'\<rparr>, [Reply (nack_of q e)])
              | (Inr res, r', d') \<Rightarrow> after_ack E su q res (sv\<lparr>sv_registry := r', sv_db := d'\<rparr>))))"

text \<open>One frame of the socket: \<open>None\<close> for what does not parse, which is skipped.\<close>

datatype incoming = TextIn string | BinaryIn bytes | CloseIn | OtherIn

definition client_message ::
  "(string \<Rightarrow> json option) \<Rightarrow> (bytes \<Rightarrow> json option) \<Rightarrow> connection \<Rightarrow> incoming \<Rightarrow> client_ws_message option" where
  "client_message parse parse_bytes co m =
     (case m of
        TextIn t \<Rightarrow> Option.bind (parse t) client_message_of_json
      | BinaryIn bs \<Rightarrow>
          (if co_binary co
           then (case decode_binary_client_commit parse_bytes bs of Inr c \<Rightarrow> Some c | Inl _ \<Rightarrow> None) else None)
      | _ \<Rightarrow> None)"

definition recv_message ::
  "('d, 'u, 's) yrs \<Rightarrow> env \<Rightarrow> surroundings \<Rightarrow> bool \<Rightarrow> connection \<Rightarrow> client_ws_message \<Rightarrow> 'd server \<times> preview_state \<Rightarrow>
   ('d server \<times> preview_state) \<times> recv_effect list" where
  "recv_message Y E su aggregation co msg s =
     (case msg of
        ClientPreview payload \<Rightarrow>
          (case recv_preview aggregation (co_presence co) (su_clock su) payload (snd s) of
             (pv, out) \<Rightarrow> ((fst s, pv), out))
      | ClientCommit event_type payload client_event_id session_id yrs \<Rightarrow>
          (case recv_commit Y E su co (ws_request co event_type payload client_event_id session_id yrs) (fst s) of
             (sv, out) \<Rightarrow> ((sv, snd s), out)))"

text \<open>The acknowledgement queue is bounded; a reply that does not fit is dropped.\<close>

definition queue_replies :: "nat \<Rightarrow> ws_message list \<Rightarrow> recv_effect list \<Rightarrow> ws_message list" where
  "queue_replies capacity queue out =
     foldl (\<lambda>queue e. case e of Reply m \<Rightarrow> (if length queue < capacity then queue @ [m] else queue) | _ \<Rightarrow> queue) queue out"

subsection \<open>What an acknowledgement means\<close>

text \<open>The surroundings never delete a journal row; they are quiet when they leave the database alone.\<close>

definition keeps_rows :: "surroundings \<Rightarrow> bool" where
  "keeps_rows su \<longleftrightarrow> (\<forall>f \<in> {su_activating su, su_preparing su, su_retrying su}. \<forall>d. set (d_updates d) \<subseteq> set (d_updates (f d)))"

definition quiet :: "surroundings \<Rightarrow> bool" where
  "quiet su \<longleftrightarrow> (\<forall>f \<in> {su_activating su, su_preparing su, su_retrying su}. \<forall>d. f d = d)"

definition journalled :: "env \<Rightarrow> commit_request \<Rightarrow> int \<Rightarrow> bdb \<Rightarrow> bool" where
  "journalled E q seq d \<longleftrightarrow>
     (\<exists>row \<in> set (d_updates d). u_seq row = seq \<and> u_payload_hash row = v_payload_hash E (cq_payload q))"

definition same_journal :: "bdb \<Rightarrow> bdb \<Rightarrow> bool" where
  "same_journal d d' \<longleftrightarrow> d_updates d' = d_updates d \<and> d_events d' = d_events d"

lemma commit_once_journalled:
  assumes once: "commit_once Y E new_id now q d0 d rb = (Inr res, keep, d')"
    and rows: "set (d_updates d0) \<subseteq> set (d_updates d)"
  shows "journalled E q (res_seq res) d'"
proof (cases "commit_prepare Y E rb d0 q")
  case (Inl e)
  then show ?thesis using once by (simp add: commit_once_def)
next
  case prep: (Inr x)
  show ?thesis
  proof (cases x)
    case (Inl ack)
    then have d: "d' = d" "res = ack" using once prep by (simp_all add: commit_once_def)
    obtain cand where "dedup E d0 q cand = Inr (Some ack)" using commit_prepare_cases [OF prep] Inl by auto
    then obtain k row where "read_by_client_event_id d0 k = Some row"
      "u_payload_hash row = v_payload_hash E (cq_payload q)" "res_seq ack = u_seq row"
      by (auto simp: dedup_def Let_def from_persisted_def bind_eq_Some_conv split: option.splits if_splits)
    moreover from this have "row \<in> set (d_updates d0)"
      by (auto simp: read_by_client_event_id_def find_Some_iff)
    ultimately show ?thesis using rows d by (auto simp: journalled_def)
  next
    case (Inr pn)
    obtain seq eid cid where "commit_tx E new_id now q rb pn d = Inr ((seq, eid, cid), d')" "res_seq res = seq"
      using once prep Inr by (auto simp: commit_once_def Let_def split: sum.splits commit_error.splits)
    then show ?thesis using commit_tx_effect [of E new_id now q rb pn d seq eid cid d'] by (auto simp: journalled_def)
  qed
qed

lemma commit_once_fails: "commit_once Y E new_id now q d0 d rb = (Inl e, keep, d') \<Longrightarrow> d' = d"
  by (auto simp: commit_once_def Let_def split: sum.splits commit_error.splits prod.splits)

lemma registry_once:
  assumes "registry_commit_once Y E new_id now q d0 d h r = (out, r', d')"
  shows "\<exists>keep. commit_once Y E new_id now q d0 d (the (reg_residents r h)) = (out, keep, d')"
  using assms by (auto simp: registry_commit_once_def split: prod.splits residency.splits sum.splits)

lemma activation_journal: "activation_tx1 d can = Inr (x, d') \<Longrightarrow> same_journal d d'"
  by (auto simp: activation_tx1_def same_journal_def begin_activation_def Let_def split: option.splits if_splits prod.splits)

lemma activate_journal:
  assumes "activate Y sha later d = Inr (rb, d')"
  shows "\<exists>d1. same_journal d d1 \<and> same_journal (later d1) d'"
proof -
  obtain base where base: "read_base d = Some base" "cr_abandoned_at base = None"
    using assms by (auto simp: activate_def ok_orE_def bindE_def split: option.splits if_splits)
  obtain epoch head ready d1 where tx: "activation_tx1 d (base_to_domain base) = Inr ((epoch, head, ready), d1)"
    using assms by (auto simp: activate_def base bindE_Inr_iff)
  have d': "d' = (if ready then later d1 else snd (mark_ready (later d1) epoch head))"
    using assms by (auto simp: activate_def base tx bindE_Inr_iff Let_def split: if_splits prod.splits)
  have "same_journal (later d1) d'"
    by (auto simp: d' mark_ready_def same_journal_def split: option.splits)
  with activation_journal [OF tx] show ?thesis by blast
qed

lemma ensure_journal:
  assumes e: "ensure_active Y sha later b r d = (out, r', d')"
  shows "(\<forall>d. later d = d) \<longrightarrow> same_journal d d'"
    and "(\<forall>d. set (d_updates d) \<subseteq> set (d_updates (later d))) \<longrightarrow> set (d_updates d) \<subseteq> set (d_updates d')"
proof -
  have "d' = d \<or> (\<exists>rb. activate Y sha later d = Inr (rb, d'))"
    using e by (auto simp: ensure_active_def split: option.splits sum.splits prod.splits)
  then have "d' = d \<or> (\<exists>d1. same_journal d d1 \<and> same_journal (later d1) d')" using activate_journal by blast
  then show "(\<forall>d. later d = d) \<longrightarrow> same_journal d d'"
    and "(\<forall>d. set (d_updates d) \<subseteq> set (d_updates (later d))) \<longrightarrow> set (d_updates d) \<subseteq> set (d_updates d')"
    by (auto simp: same_journal_def) (metis subsetD)
qed

lemma registry_commit_journalled:
  assumes "registry_commit Y E su q h r d = (Inr res, r', d')" and "keeps_rows su"
  shows "journalled E q (res_seq res) d'"
proof -
  have k: "set (d_updates d) \<subseteq> set (d_updates (su_preparing su d))" for d using assms(2) by (simp add: keeps_rows_def)
  have once: "journalled E q (res_seq res) d'"
    if "registry_commit_once Y E (su_new_id su) (su_now su) q d1 (su_preparing su d1) h r1 = (Inr res, r', d')" for d1 h r1
    using registry_once [OF that] commit_once_journalled k by blast
  show ?thesis
    using assms(1) once by (auto simp: registry_commit_def split: sum.splits commit_error.splits prod.splits)
qed

lemma registry_commit_fails:
  assumes "registry_commit Y E su q h r d = (Inl e, r', d')" and "quiet su"
  shows "same_journal d d'"
proof -
  have id: "su_preparing su d = d" "su_retrying su d = d" "su_activating su d = d" for d using assms(2) by (simp_all add: quiet_def)
  have once: "d2 = d1"
    if "registry_commit_once Y E (su_new_id su) (su_now su) q d1 d1 h r1 = (Inl e, r2, d2)" for d1 d2 h r1 r2 e
    using registry_once [OF that] commit_once_fails by blast
  have refl: "same_journal d d" by (simp add: same_journal_def)
  show ?thesis
  proof (cases "\<exists>r1 d1. registry_commit_once Y E (su_new_id su) (su_now su) q d d h r = (Inl StaleRevision, r1, d1)")
    case True
    then obtain r1 where s: "registry_commit_once Y E (su_new_id su) (su_now su) q d d h r = (Inl StaleRevision, r1, d)"
      using once by blast
    obtain out r2 d2 where a: "ensure_active Y (v_sha E) (su_activating su) (cq_board_id q) r1 d = (out, r2, d2)"
      by (cases "ensure_active Y (v_sha E) (su_activating su) (cq_board_id q) r1 d") auto
    have "same_journal d d2" using ensure_journal(1) [OF a] id by blast
    moreover have "d' = d2"
    proof (cases out)
      case (Inl x)
      then show ?thesis using assms(1) by (simp add: registry_commit_def id s a)
    next
      case (Inr h')
      then show ?thesis using assms(1) once by (simp add: registry_commit_def id s a)
    qed
    ultimately show ?thesis by simp
  next
    case False
    then have "registry_commit_once Y E (su_new_id su) (su_now su) q d d h r = (Inl e, r', d')"
      using assms(1) by (auto simp: registry_commit_def id split: sum.splits commit_error.splits prod.splits)
    then show ?thesis using once refl by blast
  qed
qed

lemma publish_commit:
  "\<exists>cs ds n. publish b64 d page_ok row_ok active head inst (commit_of q res) cs0 = (cs, ds, Some n)
     \<and> dn_board_id n = cq_board_id q \<and> dn_seq n = res_seq res"
  by (auto simp: publish_def commit_of_def split: prod.splits)

definition is_reply :: "recv_effect \<Rightarrow> bool" where
  "is_reply e = (case e of Reply _ \<Rightarrow> True | _ \<Rightarrow> False)"


definition sample_connection :: connection where
  "sample_connection = \<lparr>co_board = 1, co_actor = 3, co_presence = 3, co_session = None, co_role = ''editor'',
     co_display_name = None, co_batch = False, co_yrs = True, co_binary = True\<rparr>"

definition alone :: surroundings where
  "alone = \<lparr>su_new_id = 12, su_now = 0, su_clock = 0, su_activating = (\<lambda>d. d), su_preparing = (\<lambda>d. d),
     su_retrying = (\<lambda>d. d), su_instance = 8, su_active = [], su_head = Inr None, su_page_ok = (\<lambda>_. True),
     su_row_ok = (\<lambda>_. True)\<rparr>"

definition sample_server :: "(u64 \<times> byte) server" where
  "sample_server = \<lparr>sv_registry = \<lparr>reg_boards = [1 \<mapsto> 0], reg_residents = [0 \<mapsto> sample_resident], reg_fresh = 1\<rparr>,
     sv_db = sample_db, sv_cursors = Map.empty, sv_last_active = Map.empty\<rparr>"


end
