(* ===== verification/Feed.thy ===== *)
theory Feed
  imports Socket_Commit
begin

text \<open>
  The event, checkpoint and snapshot endpoints of \<open>src/src/handlers/events.rs\<close>.  The reads of one request see one
  state of the board's rows; \<open>ok\<close> says which of them succeed.
\<close>

subsection \<open>The read path\<close>

datatype read_step = ReadBase | ReadHead | ReadSnapshot | ReadPage | ReadEvents | ReadMin | ReadLatest | WriteSnapshot

record canonical_read_base =
  rd_state_update :: bytes
  rd_state_vector :: bytes
  rd_base_seq :: int
  rd_base_generation :: int
  rd_server_client_id :: u64
  rd_protocol_version :: int
  rd_schema_version :: int
  rd_min_writer_version :: int
  rd_source :: string

definition yrs_error :: "nat \<Rightarrow> string \<Rightarrow> string \<Rightarrow> api_error" where
  "yrs_error status code message = (status, JObj [(''error'', JStr code), (''message'', JStr message)])"

definition read_failed :: "string \<Rightarrow> api_error" where
  "read_failed message = yrs_error 500 ''YRS_READ_FAILED'' message"

definition unavailable :: "string \<Rightarrow> api_error" where
  "unavailable message = yrs_error 503 ''YRS_BOOTSTRAP_UNAVAILABLE'' message"

definition invalid_snapshot :: "string \<Rightarrow> api_error" where
  "invalid_snapshot message = yrs_error 503 ''YRS_BINARY_SNAPSHOT_INVALID'' message"

definition base_of_row :: "canonical_base_row \<Rightarrow> canonical_read_base" where
  "base_of_row base = \<lparr>rd_state_update = cr_state_update base, rd_state_vector = cr_state_vector base,
     rd_base_seq = cr_base_seq base, rd_base_generation = cr_base_generation base,
     rd_server_client_id = cr_server_client_id base, rd_protocol_version = uint (cr_protocol_version base),
     rd_schema_version = uint (cr_schema_version base), rd_min_writer_version = uint (cr_min_writer_version base),
     rd_source = ''canonical_base''\<rparr>"

definition base_of_snapshot :: "yrs_snapshot_row \<Rightarrow> canonical_read_base" where
  "base_of_snapshot s = \<lparr>rd_state_update = s_state_update s, rd_state_vector = s_state_vector s,
     rd_base_seq = s_last_event_seq s, rd_base_generation = s_base_generation s,
     rd_server_client_id = s_server_client_id s, rd_protocol_version = uint (s_protocol_version s),
     rd_schema_version = uint (s_schema_version s), rd_min_writer_version = uint (s_schema_version s),
     rd_source = ''binary_snapshot''\<rparr>"

definition select_snapshot ::
  "('d, 'u, 's) yrs \<Rightarrow> (bytes \<Rightarrow> bytes) \<Rightarrow> yrs_snapshot_row \<Rightarrow> api_error + canonical_read_base" where
  "select_snapshot Y sha s =
     (if \<not> content_hash_matches sha s \<or> s_output_bytes s \<noteq> int (length (s_state_update s))
         \<or> s_protocol_version s \<noteq> ucast PROTOCOL_VERSION
      then Inl (invalid_snapshot ''The latest binary Yrs snapshot failed integrity checks.'')
      else
        bindE (map_errE (\<lambda>_. invalid_snapshot ''The latest binary Yrs snapshot could not be reloaded.'')
                 (doc_from_base Y (s_state_update s) (s_state_vector s) (s_server_client_id s))) (\<lambda>doc.
        bindE (map_errE (\<lambda>_. invalid_snapshot ''The latest binary Yrs snapshot has invalid schema metadata.'')
                 (validate_schema_metadata Y doc (ucast (s_schema_version s)))) (\<lambda>_.
        Inr (base_of_snapshot s))))"

text \<open>What follows activation.\<close>

definition read_checkpoint ::
  "('d, 'u, 's) yrs \<Rightarrow> (bytes \<Rightarrow> bytes) \<Rightarrow> (read_step \<Rightarrow> bool) \<Rightarrow> bdb \<Rightarrow> api_error + canonical_read_base \<times> yrs_head" where
  "read_checkpoint Y sha ok d =
     bindE (if ok ReadBase then ok_orE (unavailable ''No Yrs base is available.'') (read_base d)
            else Inl (read_failed ''Could not read Yrs base.'')) (\<lambda>base.
     bindE (if ok ReadHead then ok_orE (unavailable ''No Yrs head is available.'') (read_head d)
            else Inl (read_failed ''Could not read Yrs head.'')) (\<lambda>head.
     if cr_abandoned_at base \<noteq> None \<or> h_state head \<noteq> Ready \<or> h_base_generation head \<noteq> cr_base_generation base
     then Inl (unavailable ''The canonical Yrs generation is not ready.'')
     else
       bindE (if ok ReadSnapshot
              then Inr (read_latest_at_or_before d (h_base_generation head) (cr_server_client_id base) (h_processed_seq head))
              else Inl (read_failed ''Could not read binary Yrs snapshot.'')) (\<lambda>snapshot.
       bindE (case snapshot of None \<Rightarrow> Inr (base_of_row base) | Some s \<Rightarrow> select_snapshot Y sha s) (\<lambda>selected.
       Inr (selected, head)))))"

definition activate_yrs_read_path ::
  "('d, 'u, 's) yrs \<Rightarrow> (bytes \<Rightarrow> bytes) \<Rightarrow> (bdb \<Rightarrow> bdb) \<Rightarrow> (read_step \<Rightarrow> bool) \<Rightarrow> uuid \<Rightarrow> 'd registry \<Rightarrow> bdb \<Rightarrow>
   (api_error + canonical_read_base \<times> yrs_head) \<times> 'd registry \<times> bdb" where
  "activate_yrs_read_path Y sha later ok board_id r d =
     (case ensure_active Y sha later board_id r d of
        (Inl e, r', d') \<Rightarrow> (Inl (unavailable e), r', d')
      | (Inr _, r', d') \<Rightarrow> (read_checkpoint Y sha ok d', r', d'))"

subsection \<open>The checkpoint\<close>

record base_response =
  br_etag :: string
  br_base :: canonical_read_base
  br_head_event_seq :: int

datatype base_reply = NotModified string | BaseBody base_response

definition int_str :: "int \<Rightarrow> string" where
  "int_str i = (if i < 0 then ''-'' @ nat_str (nat (- i)) else nat_str (nat i))"

definition base_etag :: "canonical_read_base \<Rightarrow> string" where
  "base_etag base = ''\"yrs-base-'' @ int_str (rd_base_generation base) @ ''-'' @ int_str (rd_base_seq base) @ ''\"''"

text \<open>\<open>if_none_match\<close> is the header's value when it is visible ASCII.\<close>

definition base_reply_of :: "string option \<Rightarrow> canonical_read_base \<times> yrs_head \<Rightarrow> base_reply" where
  "base_reply_of if_none_match bh =
     (case bh of (base, head) \<Rightarrow>
        (if if_none_match = Some (base_etag base) then NotModified (base_etag base)
         else BaseBody \<lparr>br_etag = base_etag base, br_base = base, br_head_event_seq = h_processed_seq head\<rparr>))"

definition yrs_access ::
  "(string \<Rightarrow> uuid option) \<Rightarrow> db_up \<Rightarrow> int \<Rightarrow> web_db \<Rightarrow> string \<Rightarrow> app_user option \<Rightarrow> string option \<Rightarrow> api_error + uuid" where
  "yrs_access P up now web ident user header =
     bindE (ok_orE (yrs_error 400 ''INVALID_BOARD_ID'' ''Invalid board id.'') (P ident)) (\<lambda>board_id.
     bindE (ensure_board_access up now web board_id user (embed_token_from_headers header)) (\<lambda>_. Inr board_id))"

definition get_yrs_base ::
  "(string \<Rightarrow> uuid option) \<Rightarrow> db_up \<Rightarrow> int \<Rightarrow> web_db \<Rightarrow> ('d, 'u, 's) yrs \<Rightarrow> (bytes \<Rightarrow> bytes) \<Rightarrow> (bdb \<Rightarrow> bdb) \<Rightarrow>
   (read_step \<Rightarrow> bool) \<Rightarrow> string \<Rightarrow> app_user option \<Rightarrow> string option \<Rightarrow> string option \<Rightarrow> 'd registry \<Rightarrow> bdb \<Rightarrow>
   (api_error + base_reply) \<times> 'd registry \<times> bdb" where
  "get_yrs_base P up now web Y sha later ok ident user header if_none_match r d =
     (case yrs_access P up now web ident user header of
        Inl e \<Rightarrow> (Inl e, r, d)
      | Inr board_id \<Rightarrow>
          (case activate_yrs_read_path Y sha later ok board_id r d of
             (res, r', d') \<Rightarrow> (bindE res (\<lambda>bh. Inr (base_reply_of if_none_match bh)), r', d')))"

subsection \<open>The update tail\<close>

record yrs_updates_query =
  yq_since_seq :: int
  yq_base_generation :: "int option"
  yq_limit :: "int option"

record yrs_page =
  yp_body :: bytes
  yp_min_event_seq :: int
  yp_base_generation :: int
  yp_head_event_seq :: int
  yp_next_event_seq :: int
  yp_has_more :: bool

definition page_limit :: "int option \<Rightarrow> nat" where
  "page_limit l = nat (max 1 (min 2000 (case l of Some n \<Rightarrow> n | None \<Rightarrow> 500)))"

definition envelope_of_row :: "yrs_update_row \<Rightarrow> yrs_update_envelope" where
  "envelope_of_row row = \<lparr>ye_seq = word_of_int (u_seq row), ye_client_event_id = u_client_event_id row,
     ye_schema_version = u_schema_version row, ye_yupdate = u_yupdate row\<rparr>"

definition updates_page ::
  "(read_step \<Rightarrow> bool) \<Rightarrow> bdb \<Rightarrow> yrs_updates_query \<Rightarrow> canonical_read_base \<times> yrs_head \<Rightarrow> api_error + yrs_page" where
  "updates_page ok d query bh =
     (case bh of (base, head) \<Rightarrow>
        (if yq_since_seq query < rd_base_seq base \<or> yq_since_seq query > h_processed_seq head
            \<or> (case yq_base_generation query of Some g \<Rightarrow> g \<noteq> rd_base_generation base | None \<Rightarrow> False)
         then Inl (yrs_error 410 ''REBOOTSTRAP_REQUIRED''
                ''The cursor is incompatible with the current canonical base generation.'')
         else
           (let limit = page_limit (yq_limit query) in
            bindE (if ok ReadPage
                   then Inr (list_updates_page d (yq_since_seq query) (h_processed_seq head) (rd_base_generation base) (limit + 1))
                   else Inl (read_failed ''Could not read Yrs updates.'')) (\<lambda>rows.
            (let has_more = length rows > limit;
                 rows = (if has_more then take limit rows else rows);
                 next_seq = (if has_more then (if rows = [] then yq_since_seq query else u_seq (last rows))
                             else h_processed_seq head)
             in bindE (map_errE (yrs_error 500 ''YRS_ENCODE_FAILED'') (encode_update_stream (map envelope_of_row rows))) (\<lambda>body.
                Inr \<lparr>yp_body = body, yp_min_event_seq = rd_base_seq base, yp_base_generation = rd_base_generation base,
                     yp_head_event_seq = h_processed_seq head, yp_next_event_seq = next_seq, yp_has_more = has_more\<rparr>))))))"

definition get_yrs_updates ::
  "(string \<Rightarrow> uuid option) \<Rightarrow> db_up \<Rightarrow> int \<Rightarrow> web_db \<Rightarrow> ('d, 'u, 's) yrs \<Rightarrow> (bytes \<Rightarrow> bytes) \<Rightarrow> (bdb \<Rightarrow> bdb) \<Rightarrow>
   (read_step \<Rightarrow> bool) \<Rightarrow> string \<Rightarrow> yrs_updates_query \<Rightarrow> app_user option \<Rightarrow> string option \<Rightarrow> 'd registry \<Rightarrow> bdb \<Rightarrow>
   (api_error + yrs_page) \<times> 'd registry \<times> bdb" where
  "get_yrs_updates P up now web Y sha later ok ident query user header r d =
     (case yrs_access P up now web ident user header of
        Inl e \<Rightarrow> (Inl e, r, d)
      | Inr board_id \<Rightarrow>
          (case activate_yrs_read_path Y sha later ok board_id r d of
             (res, r', d') \<Rightarrow> (bindE res (updates_page ok d' query), r', d')))"

subsection \<open>Events over HTTP\<close>

definition checked_board_id ::
  "(string \<Rightarrow> uuid option) \<Rightarrow> db_up \<Rightarrow> int \<Rightarrow> web_db \<Rightarrow> string \<Rightarrow> app_user option \<Rightarrow> string option \<Rightarrow> api_error + uuid" where
  "checked_board_id P up now web ident user header =
     bindE (parse_board_id P ident) (\<lambda>board_id.
     bindE (ensure_board_access up now web board_id user (embed_token_from_headers header)) (\<lambda>_. Inr board_id))"

record commit_event_body =
  ce_event_type :: string
  ce_event_payload :: json
  ce_client_event_id :: "string option"
  ce_session_id :: "string option"
  ce_yrs :: "client_yrs_update option"

record commit_event_response =
  cs_seq :: int
  cs_server_event_id :: uuid
  cs_client_event_id :: "string option"

definition http_request :: "uuid \<Rightarrow> app_user \<Rightarrow> commit_event_body \<Rightarrow> commit_request" where
  "http_request board_id user body =
     \<lparr>cq_board_id = board_id, cq_actor_user_id = us_id user, cq_event_type = ce_event_type body,
      cq_payload = ce_event_payload body, cq_client_event_id = ce_client_event_id body, cq_session_id = ce_session_id body,
      cq_client_yrs = ce_yrs body\<rparr>"

definition post_commit_event ::
  "(string \<Rightarrow> uuid option) \<Rightarrow> db_up \<Rightarrow> int \<Rightarrow> web_db \<Rightarrow> ('d, 'u, 's) yrs \<Rightarrow> env \<Rightarrow> surroundings \<Rightarrow> string \<Rightarrow> app_user \<Rightarrow>
   commit_event_body \<Rightarrow> 'd server \<Rightarrow> (api_error + commit_event_response) \<times> 'd server \<times> recv_effect list" where
  "post_commit_event P up now web Y E su ident user body sv =
     (case checked_board_id P up now web ident (Some user) None of
        Inl e \<Rightarrow> (Inl e, sv, [])
      | Inr board_id \<Rightarrow>
          (let q = http_request board_id user body in
           case ensure_active Y (v_sha E) (su_activating su) board_id (sv_registry sv) (sv_db sv) of
             (Inl e, r, d) \<Rightarrow> (Inl (api_err 503 (''canonical state unavailable: '' @ e)), sv\<lparr>sv_registry := r, sv_db := d\<rparr>, [])
           | (Inr h, r, d) \<Rightarrow>
               (case registry_commit Y E su q h r d of
                  (Inl e, r', d') \<Rightarrow>
                    (Inl (api_err 409 (''canonical commit rejected: '' @ commit_error_text e)), sv\<lparr>sv_registry := r', sv_db := d'\<rparr>, [])
                | (Inr res, r', d') \<Rightarrow>
                    (case publish (v_b64_encode E) d' (su_page_ok su) (su_row_ok su) (su_active su) (su_head su) (su_instance su)
                            (commit_of q res) (sv_cursors sv) of (cs, deliveries, notice) \<Rightarrow>
                       (Inr \<lparr>cs_seq = res_seq res, cs_server_event_id = res_server_event_id res,
                          cs_client_event_id = ce_client_event_id body\<rparr>,
                        sv\<lparr>sv_registry := r', sv_db := d', sv_cursors := cs\<rparr>, [Deliver deliveries notice])))))"

text \<open>The events after a sequence, with the lowest one still stored.\<close>

definition get_events_since ::
  "(string \<Rightarrow> uuid option) \<Rightarrow> db_up \<Rightarrow> int \<Rightarrow> web_db \<Rightarrow> (read_step \<Rightarrow> bool) \<Rightarrow> string \<Rightarrow> int option \<Rightarrow> int option \<Rightarrow> string option \<Rightarrow>
   app_user option \<Rightarrow> bdb \<Rightarrow> api_error + event_record list \<times> int option" where
  "get_events_since P up now web ok ident since limit header user d =
     bindE (checked_board_id P up now web ident user header) (\<lambda>_.
     if \<not> ok ReadEvents then Inl (api_err 500 ''Could not fetch events.'')
     else Inr (list_events_since d (case since of Some s \<Rightarrow> s | None \<Rightarrow> 0) (page_limit limit),
               if ok ReadMin then min_event_seq d else None))"

definition get_events_by_session ::
  "(string \<Rightarrow> uuid option) \<Rightarrow> db_up \<Rightarrow> int \<Rightarrow> web_db \<Rightarrow> (read_step \<Rightarrow> bool) \<Rightarrow> string \<Rightarrow> string \<Rightarrow> string \<Rightarrow> app_user \<Rightarrow> bdb \<Rightarrow>
   api_error + event_record list" where
  "get_events_by_session P up now web ok ident user_id session_id user d =
     bindE (checked_board_id P up now web ident (Some user) None) (\<lambda>_.
     bindE (ok_orE (api_err 400 ''Invalid user_id.'') (P user_id)) (\<lambda>uid.
     if \<not> ok ReadEvents then Inl (api_err 500 ''Could not fetch events.'')
     else Inr (list_events_by_user_session d uid session_id)))"

subsection \<open>Rollback snapshots\<close>

record snapshot_record =
  sn_id :: uuid
  sn_board_id :: uuid
  sn_seq :: int
  sn_state :: json
  sn_created_at :: int

definition insert_rollback_snapshot :: "uuid \<Rightarrow> int \<Rightarrow> uuid \<Rightarrow> int \<Rightarrow> json \<Rightarrow> snapshot_record list \<Rightarrow> snapshot_record \<times> snapshot_record list" where
  "insert_rollback_snapshot new_id now board_id seq state table =
     (let row = \<lparr>sn_id = new_id, sn_board_id = board_id, sn_seq = seq, sn_state = state, sn_created_at = now\<rparr>
      in (row, filter (\<lambda>r. sn_board_id r \<noteq> board_id) table @ [row]))"

definition fetch_latest_snapshot :: "uuid \<Rightarrow> snapshot_record list \<Rightarrow> snapshot_record option" where
  "fetch_latest_snapshot board_id table =
     (case sort_key (\<lambda>r. - sn_seq r) (filter (\<lambda>r. sn_board_id r = board_id) table) of [] \<Rightarrow> None | r # _ \<Rightarrow> Some r)"

record latest_snapshot_response =
  ls_id :: "uuid option"
  ls_board_id :: uuid
  ls_seq :: int
  ls_state :: json
  ls_created_at :: "int option"

definition empty_snapshot :: "uuid \<Rightarrow> latest_snapshot_response" where
  "empty_snapshot board_id = \<lparr>ls_id = None, ls_board_id = board_id, ls_seq = 0, ls_state = JObj [(''entities'', JArr [])],
     ls_created_at = None\<rparr>"

definition snapshot_response :: "snapshot_record \<Rightarrow> latest_snapshot_response" where
  "snapshot_response r = \<lparr>ls_id = Some (sn_id r), ls_board_id = sn_board_id r, ls_seq = sn_seq r, ls_state = sn_state r,
     ls_created_at = Some (sn_created_at r)\<rparr>"

definition snapshot_etag :: "int \<Rightarrow> string" where
  "snapshot_etag seq = ''\"snap-'' @ int_str seq @ ''\"''"

text \<open>\<open>Inr (Inl etag)\<close> is \<open>304 Not Modified\<close>.\<close>

definition get_latest_snapshot ::
  "(string \<Rightarrow> uuid option) \<Rightarrow> db_up \<Rightarrow> int \<Rightarrow> web_db \<Rightarrow> (read_step \<Rightarrow> bool) \<Rightarrow> string \<Rightarrow> app_user option \<Rightarrow> string option \<Rightarrow>
   string option \<Rightarrow> snapshot_record list \<Rightarrow> api_error + (string + string \<times> latest_snapshot_response)" where
  "get_latest_snapshot P up now web ok ident user header if_none_match table =
     bindE (checked_board_id P up now web ident user header) (\<lambda>board_id.
     if \<not> ok ReadLatest then Inl (api_err 500 ''Could not fetch snapshot.'')
     else
       (let snapshot = (case fetch_latest_snapshot board_id table of
              Some r \<Rightarrow> snapshot_response r | None \<Rightarrow> empty_snapshot board_id);
            etag = snapshot_etag (ls_seq snapshot)
        in if if_none_match = Some etag then Inr (Inl etag) else Inr (Inr (etag, snapshot))))"

text \<open>The flag says that a garbage collection of the board's storage was started.\<close>

definition post_snapshot ::
  "(string \<Rightarrow> uuid option) \<Rightarrow> db_up \<Rightarrow> int \<Rightarrow> web_db \<Rightarrow> (read_step \<Rightarrow> bool) \<Rightarrow> uuid \<Rightarrow> string \<Rightarrow> app_user \<Rightarrow> int \<Rightarrow> json \<Rightarrow>
   snapshot_record list \<Rightarrow> (api_error + snapshot_record) \<times> bool \<times> snapshot_record list" where
  "post_snapshot P up now web ok new_id ident user seq state table =
     (case checked_board_id P up now web ident (Some user) None of
        Inl e \<Rightarrow> (Inl e, False, table)
      | Inr board_id \<Rightarrow>
          (if \<not> ok WriteSnapshot then (Inl (api_err 500 ''Could not create snapshot.''), True, table)
           else (case insert_rollback_snapshot new_id now board_id seq state table of
                   (row, table') \<Rightarrow> (Inr row, True, table'))))"

text \<open>Seeing a board is enough to replace its snapshot: no role is asked for.\<close>

lemma viewer_replaces_snapshot:
  "\<lbrakk>P ident = Some b; get_board web b = Some board; bo_visibility board = ''public''; up QBoard; ok WriteSnapshot\<rbrakk> \<Longrightarrow>
   \<exists>table'. post_snapshot P up now web ok new_id ident user seq state table = (Inr \<lparr>sn_id = new_id, sn_board_id = b, sn_seq = seq,
     sn_state = state, sn_created_at = now\<rparr>, True, table')"
  by (simp add: post_snapshot_def checked_board_id_def parse_board_id_def ensure_board_access_def embed_grants_view_def
      embed_token_from_headers_def fetch_board_by_id_def insert_rollback_snapshot_def Let_def)

subsection \<open>A page is the next stretch of the history\<close>

lemma hist_doc_between:
  assumes s: "sorted_wrt (\<lambda>p q. fst p < fst q) hist" and le: "a \<le> b"
  shows "hist_doc Y c hist b = bindE (hist_doc Y c hist a) (replay Y (map snd (filter (\<lambda>p. a < fst p \<and> fst p \<le> b) hist)))"
proof -
  have su: "sorted_wrt (\<lambda>p q. fst p < fst q) (upto b hist)" using s by (simp add: upto_def sorted_wrt_filter)
  have "upto a (upto b hist) = upto a hist" using le by (auto simp: upto_def intro: filter_cong)
  moreover have "filter (\<lambda>p. a < fst p) (upto b hist) = filter (\<lambda>p. a < fst p \<and> fst p \<le> b) hist"
    unfolding upto_def filter_filter by (rule filter_cong) auto
  ultimately have "upto b hist = upto a hist @ filter (\<lambda>p. a < fst p \<and> fst p \<le> b) hist" using upto_split [OF su, of a] by simp
  then show ?thesis by (cases "base_doc Y c") (simp_all add: hist_doc_def replay_def foldE_append)
qed

lemma take_ordered_filter:
  fixes f :: "'a \<Rightarrow> int"
  assumes s: "sorted_wrt (\<lambda>p q. f p < f q) xs" and k: "0 < k" and xs: "xs \<noteq> []"
  shows "take k xs = filter (\<lambda>p. f p \<le> f (last (take k xs))) xs"
proof -
  let ?m = "f (last (take k xs))"
  have ne: "take k xs \<noteq> []" using k xs by simp
  have so: "sorted_wrt (\<lambda>p q. f p < f q) (take k xs @ drop k xs)" using s by simp
  have a: "f p \<le> ?m" if "p \<in> set (take k xs)" for p
    using ordered_le_last [of f "take k xs" p] so that by (simp only: sorted_wrt_append)
  have "last (take k xs) \<in> set (take k xs)" using ne by (rule last_in_set)
  then have b: "\<not> f p \<le> ?m" if "p \<in> set (drop k xs)" for p
    using so that by (force simp only: sorted_wrt_append not_le)
  have "filter (\<lambda>p. f p \<le> ?m) (take k xs @ drop k xs) = take k xs"
    using a b by (simp only: filter_append filter_id_conv filter_empty_conv) (simp add: filter_id_conv)
  then show ?thesis by simp
qed

lemma read_checkpoint_covers:
  assumes j: "journal_ok Y sha c hist d" and read: "read_checkpoint Y sha ok d = Inr (base, head)"
  shows "h_processed_seq head = hist_top c hist \<and> rd_base_generation base = cr_base_generation c
    \<and> rd_base_seq base \<le> hist_top c hist
    \<and> (\<exists>doc. doc_from_base Y (rd_state_update base) (rd_state_vector base) (rd_server_client_id base) = Inr doc
         \<and> hist_doc Y c hist (rd_base_seq base) = Inr doc)
    \<and> (\<forall>p \<in> set hist. rd_base_seq base < fst p \<longrightarrow> needed d c (fst p))"
proof -
  have b: "read_base d = Some c" using j by (simp add: journal_ok_def read_base_def)
  have hd: "read_head d = Some head" "h_state head = Ready" "h_base_generation head = cr_base_generation c"
    using read by (auto simp: read_checkpoint_def b result_simps split: if_splits)
  obtain row where row: "d_head d = Some row" "head = head_to_domain row" using hd(1) by (auto simp: read_head_def)
  have "hr_state row = ''ready''" using hd(2) row(2) state_from_str_Ready by (simp add: head_to_domain_def)
  then have top: "h_processed_seq head = hist_top c hist"
    using j row by (simp add: journal_ok_def head_ok_def head_to_domain_def)
  obtain x doc where x: "preferred_activation_base Y sha d (base_to_domain c) (hist_top c hist) = Inr x"
    "cb_base_generation x = cr_base_generation c" "cb_base_seq x \<le> hist_top c hist"
    "doc_from_base Y (cb_state_update x) (cb_state_vector x) (cb_server_client_id x) = Inr doc"
    "hist_doc Y c hist (cb_base_seq x) = Inr doc" "\<forall>p \<in> set hist. cb_base_seq x < fst p \<longrightarrow> needed d c (fst p)"
    using checkpoint_covers [OF j] by blast
  have "rd_base_seq base = cb_base_seq x \<and> rd_state_update base = cb_state_update x \<and> rd_state_vector base = cb_state_vector x
    \<and> rd_server_client_id base = cb_server_client_id x \<and> rd_base_generation base = cb_base_generation x"
  proof (cases "read_latest_at_or_before d (cr_base_generation c) (cr_server_client_id c) (hist_top c hist)")
    case None
    then show ?thesis using read x(1)
      by (auto simp: read_checkpoint_def b hd top result_simps preferred_activation_base_def base_to_domain_def base_of_row_def
          split: if_splits)
  next
    case (Some s)
    then show ?thesis using read x(1)
      by (auto simp: read_checkpoint_def b hd top result_simps preferred_activation_base_def base_to_domain_def
          select_snapshot_def base_of_snapshot_def split: if_splits)
  qed
  then show ?thesis using x top by auto
qed

lemma page_limit_pos: "0 < page_limit l"
  by (simp add: page_limit_def)

lemma tail_is_history:
  assumes j: "journal_ok Y sha c hist d" and nd: "\<forall>p \<in> set hist. n < fst p \<longrightarrow> needed d c (fst p)"
  shows "map u_seq (log_after u_seq (tail_rows (d, hist_top c hist, cr_base_generation c)) n) = map fst (filter (\<lambda>p. n < fst p) hist)"
    and "map u_yupdate (log_after u_seq (tail_rows (d, hist_top c hist, cr_base_generation c)) n) = map snd (filter (\<lambda>p. n < fst p) hist)"
proof -
  have s: "sorted_wrt (\<lambda>p q. fst p < fst q) hist" and rows: "rows_ok c hist d" using j by (simp_all add: journal_ok_def hist_ok_def)
  have "u_seq u \<le> hist_top c hist" if "u \<in> set (d_updates d)" for u
    using hist_top_ge [OF s, of "(u_seq u, u_yupdate u)"] rows that by (auto simp: rows_ok_def)
  then have t: "tail_rows (d, hist_top c hist, cr_base_generation c) = d_updates d"
    using rows by (auto simp: tail_rows_def rows_ok_def filter_id_conv)
  have m: "map tail_of_row (log_after u_seq (d_updates d) n) = map (\<lambda>p. \<lparr>bt_seq = fst p, bt_yupdate = snd p\<rparr>) (filter (\<lambda>p. n < fst p) hist)"
    by (rule rows_after(2) [OF rows s nd])
  show "map u_seq (log_after u_seq (tail_rows (d, hist_top c hist, cr_base_generation c)) n) = map fst (filter (\<lambda>p. n < fst p) hist)"
    using arg_cong [OF m, of "map bt_seq"] by (simp add: t comp_def tail_of_row_def)
  show "map u_yupdate (log_after u_seq (tail_rows (d, hist_top c hist, cr_base_generation c)) n) = map snd (filter (\<lambda>p. n < fst p) hist)"
    using arg_cong [OF m, of "map bt_yupdate"] by (simp add: t comp_def tail_of_row_def)
qed

lemma page_is_prefix:
  "list_updates_page d since through gen (Suc limit) = take (Suc limit) (log_after u_seq (tail_rows (d, through, gen)) since)"
  unfolding list_updates_page_alt select_page_def log_after_def nat_int ..

definition utf8_ids :: "bdb \<Rightarrow> bool" where
  "utf8_ids d \<longleftrightarrow> (\<forall>u \<in> set (d_updates d). valid_utf8 (as_bytes (u_client_event_id u)))"

lemma encode_rows:
  assumes "encode_update_stream (map envelope_of_row rows) = Inr body" and "utf8_ids d" and "set rows \<subseteq> set (d_updates d)"
  shows "decode_update_stream body = Inr (map envelope_of_row rows)"
proof -
  have f: "list_all fits_frame (map envelope_of_row rows)" "body = concat (map frame_of (map envelope_of_row rows))"
    using assms(1) by (auto simp: encode_update_stream_def encode_envelopes_eq frame_of_def [abs_def])
  show ?thesis unfolding f(2)
    by (rule decode_stream_frames [OF f(1)]) (use assms(2,3) in \<open>auto simp: utf8_ids_def envelope_of_row_def\<close>)
qed

lemma updates_page_step:
  assumes j: "journal_ok Y sha c hist d" and u: "utf8_ids d"
    and read: "read_checkpoint Y sha ok d = Inr (base, head)"
    and page: "updates_page ok d query (base, head) = Inr page"
  shows "\<exists>es doc doc'. decode_update_stream (yp_body page) = Inr es
    \<and> hist_doc Y c hist (yq_since_seq query) = Inr doc \<and> replay Y (map ye_yupdate es) doc = Inr doc'
    \<and> hist_doc Y c hist (yp_next_event_seq page) = Inr doc'
    \<and> yq_since_seq query \<le> yp_next_event_seq page \<and> yp_next_event_seq page \<le> hist_top c hist
    \<and> (if yp_has_more page then yq_since_seq query < yp_next_event_seq page else yp_next_event_seq page = hist_top c hist)"
proof -
  let ?n = "yq_since_seq query" and ?k = "page_limit (yq_limit query)"
  let ?L = "log_after u_seq (tail_rows (d, hist_top c hist, cr_base_generation c)) ?n" and ?H = "filter (\<lambda>p. ?n < fst p) hist"
  have s: "sorted_wrt (\<lambda>p q. fst p < fst q) hist" and docs: "\<And>n. \<exists>doc. hist_doc Y c hist n = Inr doc"
    using j unfolding journal_ok_def hist_ok_def by blast+
  note r = read_checkpoint_covers [OF j read]
  have n: "rd_base_seq base \<le> ?n" "?n \<le> hist_top c hist"
    using page r by (auto simp: updates_page_def split: if_splits)
  have nd: "\<forall>p \<in> set hist. ?n < fst p \<longrightarrow> needed d c (fst p)" using r n(1) by auto
  note t = tail_is_history [OF j nd]
  let ?rows = "if ?k < length ?L then take ?k ?L else ?L"
  have rows: "length (take (Suc ?k) ?L) > ?k \<longleftrightarrow> ?k < length ?L" "take ?k (take (Suc ?k) ?L) = take ?k ?L" by auto
  have p: "yp_has_more page \<longleftrightarrow> ?k < length ?L" "encode_update_stream (map envelope_of_row ?rows) = Inr (yp_body page)"
    "yp_next_event_seq page = (if ?k < length ?L then u_seq (last (take ?k ?L)) else hist_top c hist)"
    using page page_limit_pos [of "yq_limit query"] n r
    by (auto simp: updates_page_def Let_def page_is_prefix result_simps split: if_splits)
  have "set ?rows \<subseteq> set (d_updates d)" by (auto simp: tail_rows_def dest!: in_set_takeD)
  from encode_rows [OF p(2) u this] have dec: "decode_update_stream (yp_body page) = Inr (map envelope_of_row ?rows)" .
  have len: "length ?L = length ?H" using arg_cong [OF t(2), of length] by simp
  have ye: "map ye_yupdate (map envelope_of_row rs) = map u_yupdate rs" for rs
    by (simp add: envelope_of_row_def comp_def)
  have yb: "map ye_yupdate (map envelope_of_row ?rows) = map snd (if ?k < length ?H then take ?k ?H else ?H)"
  proof (cases "?k < length ?H")
    case True
    then show ?thesis using len by (simp only: ye if_True take_map [symmetric] t(2))
  qed (use len t(2) in \<open>simp only: ye if_False\<close>)
  have nx: "yp_next_event_seq page = (if ?k < length ?H then fst (last (take ?k ?H)) else hist_top c hist)"
  proof (cases "?k < length ?H")
    case True
    then have "take ?k ?L \<noteq> []" "take ?k ?H \<noteq> []" using len page_limit_pos [of "yq_limit query"] by auto
    then have "last (map u_seq (take ?k ?L)) = u_seq (last (take ?k ?L))" "last (map fst (take ?k ?H)) = fst (last (take ?k ?H))"
      by (blast intro: last_map)+
    moreover have "map u_seq (take ?k ?L) = map fst (take ?k ?H)" by (simp only: take_map [symmetric] t(1))
    ultimately have "u_seq (last (take ?k ?L)) = fst (last (take ?k ?H))" by (simp only:)
    then show ?thesis using True p(3) len by simp
  qed (use p(3) len in simp)
  have stretch: "(if ?k < length ?H then take ?k ?H else ?H) = filter (\<lambda>p. ?n < fst p \<and> fst p \<le> yp_next_event_seq page) hist
      \<and> ?n \<le> yp_next_event_seq page \<and> yp_next_event_seq page \<le> hist_top c hist
      \<and> (?k < length ?H \<longrightarrow> ?n < yp_next_event_seq page)"
  proof (cases "?k < length ?H")
    case True
    then have ne: "?H \<noteq> []" by auto
    have sH: "sorted_wrt (\<lambda>p q. fst p < fst q) ?H" using s by (simp add: sorted_wrt_filter)
    have m: "last (take ?k ?H) \<in> set ?H" using ne page_limit_pos [of "yq_limit query"] by (metis in_set_takeD last_in_set neq0_conv take_eq_Nil)
    have "take ?k ?H = filter (\<lambda>p. fst p \<le> fst (last (take ?k ?H))) ?H"
      by (rule take_ordered_filter [OF sH page_limit_pos ne])
    then show ?thesis using True nx m hist_top_ge [OF s, of "last (take ?k ?H)" c] by (simp add: conj_commute)
  next
    case False
    have "?H = filter (\<lambda>p. ?n < fst p \<and> fst p \<le> hist_top c hist) hist" using hist_top_ge [OF s] by (auto intro: filter_cong)
    then show ?thesis using False nx n(2) by simp
  qed
  obtain doc doc' where doc: "hist_doc Y c hist ?n = Inr doc" "hist_doc Y c hist (yp_next_event_seq page) = Inr doc'"
    using docs by blast
  have "replay Y (map ye_yupdate (map envelope_of_row ?rows)) doc = Inr doc'"
    unfolding yb conjunct1 [OF stretch]
    using hist_doc_between [OF s, of ?n "yp_next_event_seq page" Y c] stretch doc by simp
  then show ?thesis using dec doc stretch p(1) nx len by auto
qed

lemma get_updates_page:
  assumes "get_yrs_updates P up now web Y sha later ok ident query user header r d = (Inr page, r', d')"
  shows "\<exists>base head. read_checkpoint Y sha ok d' = Inr (base, head) \<and> updates_page ok d' query (base, head) = Inr page"
  using assms by (auto simp: get_yrs_updates_def activate_yrs_read_path_def result_simps split: sum.splits prod.splits)

text \<open>C14: Every page of the update tail is faithful: whatever the cursor and the limit, the page decodes, and a client
  that holds the canonical document of its cursor and applies the page's updates holds the canonical document of
  the next cursor it is told, which is further on when more follows and the head when nothing does, so no update is
  skipped, repeated or reordered, however the journal was compacted and pruned.\<close>

theorem sync_page_faithful:
  assumes "get_yrs_updates P up now web Y sha later ok ident query user header r d = (Inr page, r', d')"
    and "journal_ok Y sha c hist d'" and "utf8_ids d'"
  shows "\<exists>es doc doc'. decode_update_stream (yp_body page) = Inr es
    \<and> hist_doc Y c hist (yq_since_seq query) = Inr doc \<and> replay Y (map ye_yupdate es) doc = Inr doc'
    \<and> hist_doc Y c hist (yp_next_event_seq page) = Inr doc'
    \<and> yq_since_seq query \<le> yp_next_event_seq page \<and> yp_next_event_seq page \<le> hist_top c hist
    \<and> (if yp_has_more page then yq_since_seq query < yp_next_event_seq page else yp_next_event_seq page = hist_top c hist)"
  using get_updates_page [OF assms(1)] updates_page_step [OF assms(2,3)] by blast

subsection \<open>A client that joins\<close>

text \<open>
  The client's side of the protocol: it asks for the tail after its cursor until no more follows, applying what it gets.
\<close>

fun sync_client ::
  "('d, 'u, 's) yrs \<Rightarrow> (int \<Rightarrow> api_error + yrs_page) \<Rightarrow> nat \<Rightarrow> int \<Rightarrow> 'd \<Rightarrow> ('d \<times> int) option" where
  "sync_client Y fetch 0 cursor doc = None"
| "sync_client Y fetch (Suc n) cursor doc =
     (case fetch cursor of
        Inl _ \<Rightarrow> None
      | Inr page \<Rightarrow>
          (case decode_update_stream (yp_body page) of
             Inl _ \<Rightarrow> None
           | Inr es \<Rightarrow>
               (case replay Y (map ye_yupdate es) doc of
                  Inl _ \<Rightarrow> None
                | Inr doc' \<Rightarrow>
                    (if yp_has_more page then sync_client Y fetch n (yp_next_event_seq page) doc'
                     else Some (doc', yp_next_event_seq page)))))"

text \<open>Every row fits a frame, whose length is 32 bits.\<close>

definition rows_fit :: "bdb \<Rightarrow> bool" where
  "rows_fit d \<longleftrightarrow> list_all (fits_frame \<circ> envelope_of_row) (d_updates d)"

lemma updates_page_succeeds:
  assumes "rd_base_seq base \<le> n" "n \<le> h_processed_seq head" "rows_fit d" "\<And>q. ok q" "case g of Some g \<Rightarrow> g = rd_base_generation base | None \<Rightarrow> True"
  shows "\<exists>page. updates_page ok d \<lparr>yq_since_seq = n, yq_base_generation = g, yq_limit = l\<rparr> (base, head) = Inr page"
proof -
  let ?p = "list_updates_page d n (h_processed_seq head) (rd_base_generation base) (Suc (page_limit l))"
  have "list_all fits_frame (map envelope_of_row rows)" if "set rows \<subseteq> set ?p" for rows
    using that assms(3) select_page_set [of _ u_seq] by (fastforce simp: rows_fit_def list_all_iff list_updates_page_def)
  then have "\<exists>body. encode_update_stream (map envelope_of_row rows) = Inr body" if "set rows \<subseteq> set ?p" for rows
    using that by (auto simp: encode_update_stream_def encode_envelopes_eq)
  then obtain b1 b2 where "encode_update_stream (map envelope_of_row (take (page_limit l) ?p)) = Inr b1"
    "encode_update_stream (map envelope_of_row ?p) = Inr b2"
    by (meson order_refl set_take_subset)
  then show ?thesis using assms by (auto simp: updates_page_def Let_def split: option.splits)
qed

lemma sync_client_completes:
  assumes j: "journal_ok Y sha c hist d" and u: "utf8_ids d" and f: "rows_fit d" and ok: "\<And>q. ok q"
    and read: "read_checkpoint Y sha ok d = Inr (base, head)"
    and fetch: "\<And>n. rd_base_seq base \<le> n \<Longrightarrow>
      fetch n = updates_page ok d \<lparr>yq_since_seq = n, yq_base_generation = Some (rd_base_generation base), yq_limit = l\<rparr> (base, head)"
  shows "\<lbrakk>rd_base_seq base \<le> n; n \<le> hist_top c hist; hist_doc Y c hist n = Inr doc; nat (hist_top c hist - n) < k\<rbrakk> \<Longrightarrow>
    \<exists>doc'. sync_client Y fetch k n doc = Some (doc', hist_top c hist) \<and> hist_doc Y c hist (hist_top c hist) = Inr doc'"
proof (induction k arbitrary: n doc)
  case (Suc k)
  let ?q = "\<lparr>yq_since_seq = n, yq_base_generation = Some (rd_base_generation base), yq_limit = l\<rparr>"
  have top: "h_processed_seq head = hist_top c hist" using read_checkpoint_covers [OF j read] by blast
  have "\<exists>page. updates_page ok d ?q (base, head) = Inr page"
    by (rule updates_page_succeeds [OF Suc.prems(1) _ f ok]) (use Suc.prems(2) top in simp_all)
  then obtain page where page: "updates_page ok d ?q (base, head) = Inr page" ..
  obtain es doc' where es: "decode_update_stream (yp_body page) = Inr es" "replay Y (map ye_yupdate es) doc = Inr doc'"
    "hist_doc Y c hist (yp_next_event_seq page) = Inr doc'" "n \<le> yp_next_event_seq page" "yp_next_event_seq page \<le> hist_top c hist"
    "if yp_has_more page then n < yp_next_event_seq page else yp_next_event_seq page = hist_top c hist"
    using updates_page_step [OF j u read page, unfolded yrs_updates_query.simps] Suc.prems(3) by (metis Inr_inject)
  show ?case
  proof (cases "yp_has_more page")
    case False
    then show ?thesis using es page fetch [OF Suc.prems(1)] by simp
  next
    case True
    have "nat (hist_top c hist - yp_next_event_seq page) < k" using Suc.prems(4) es(5,6) True by simp
    then show ?thesis
      using Suc.IH [OF _ es(5,3)] es Suc.prems(1) page fetch [OF Suc.prems(1)] True by simp
  qed
qed simp

lemma get_base_reads:
  assumes "get_yrs_base P up now web Y sha later ok ident user header m r d = (Inr (BaseBody b), r', d')"
  shows "\<exists>board_id h head. yrs_access P up now web ident user header = Inr board_id \<and> reg_boards r' board_id = Some h
    \<and> read_checkpoint Y sha ok d' = Inr (br_base b, head)"
proof -
  obtain i where i: "yrs_access P up now web ident user header = Inr i"
    using assms by (auto simp: get_yrs_base_def split: sum.splits)
  obtain e where e: "ensure_active Y sha later i r d = (e, r', d')"
    using assms by (auto simp: get_yrs_base_def i activate_yrs_read_path_def split: sum.splits prod.splits)
  obtain h where h: "e = Inr h"
    using assms by (cases e) (auto simp: get_yrs_base_def i activate_yrs_read_path_def e)
  have "reg_boards r' i = Some h"
    using e h by (auto simp: ensure_active_def get_resident_def install_def split: option.splits sum.splits prod.splits)
  moreover have "\<exists>head. read_checkpoint Y sha ok d' = Inr (br_base b, head)"
    using assms by (auto simp: get_yrs_base_def i activate_yrs_read_path_def e h result_simps base_reply_of_def split: if_splits)
  ultimately show ?thesis using i by blast
qed

lemma get_updates_active:
  assumes "yrs_access P up now web ident user header = Inr i" and "reg_boards r i = Some h"
  shows "get_yrs_updates P up now web Y sha later ok ident query user header r d
    = (bindE (read_checkpoint Y sha ok d) (updates_page ok d query), r, d)"
  using assms by (simp add: get_yrs_updates_def activate_yrs_read_path_def ensure_active_def get_resident_def)

text \<open>C12: A client that joins converges: after it has fetched the checkpoint, asking for the tail until no more follows
  ends within as many requests as the head is ahead of the checkpoint, whatever page size it asks for, and the
  checkpoint with the updates it received is exactly the canonical document at the head.\<close>

theorem joining_client_converges:
  assumes base: "get_yrs_base P up now web Y sha later ok ident user header None r d = (Inr (BaseBody b), r', d')"
    and j: "journal_ok Y sha c hist d'" and u: "utf8_ids d'" and f: "rows_fit d'" and ok: "\<forall>q. ok q"
  shows "\<exists>doc0 doc. doc_from_base Y (rd_state_update (br_base b)) (rd_state_vector (br_base b)) (rd_server_client_id (br_base b)) = Inr doc0
    \<and> sync_client Y (\<lambda>n. fst (get_yrs_updates P up now web Y sha later ok ident
          \<lparr>yq_since_seq = n, yq_base_generation = Some (rd_base_generation (br_base b)), yq_limit = l\<rparr> user header r' d'))
        (Suc (nat (hist_top c hist - rd_base_seq (br_base b)))) (rd_base_seq (br_base b)) doc0 = Some (doc, hist_top c hist)
    \<and> hist_doc Y c hist (hist_top c hist) = Inr doc"
proof -
  obtain i h head where i: "yrs_access P up now web ident user header = Inr i" "reg_boards r' i = Some h"
    and read: "read_checkpoint Y sha ok d' = Inr (br_base b, head)"
    using get_base_reads [OF base] by blast
  obtain doc0 where doc0: "doc_from_base Y (rd_state_update (br_base b)) (rd_state_vector (br_base b)) (rd_server_client_id (br_base b)) = Inr doc0"
    "hist_doc Y c hist (rd_base_seq (br_base b)) = Inr doc0" "rd_base_seq (br_base b) \<le> hist_top c hist"
    using read_checkpoint_covers [OF j read] by blast
  have fetch: "fst (get_yrs_updates P up now web Y sha later ok ident q user header r' d') = updates_page ok d' q (br_base b, head)" for q
    by (simp add: get_updates_active [OF i] read)
  have "\<exists>doc. sync_client Y (\<lambda>n. fst (get_yrs_updates P up now web Y sha later ok ident
          \<lparr>yq_since_seq = n, yq_base_generation = Some (rd_base_generation (br_base b)), yq_limit = l\<rparr> user header r' d'))
        (Suc (nat (hist_top c hist - rd_base_seq (br_base b)))) (rd_base_seq (br_base b)) doc0 = Some (doc, hist_top c hist)
      \<and> hist_doc Y c hist (hist_top c hist) = Inr doc"
    by (rule sync_client_completes [OF j u f _ read fetch _ doc0(3,2)]) (use ok in simp_all)
  then show ?thesis using doc0(1) by blast
qed

definition feed_reply :: "base_response" where
  "feed_reply = \<lparr>br_etag = base_etag (base_of_row sample_base), br_base = base_of_row sample_base, br_head_event_seq = 5\<rparr>"

lemma sample_access: "yrs_access (\<lambda>_. Some 1) (\<lambda>_. True) 0 sample_web ''b'' (Some (sample_user 5 2)) None = Inr 1"
  by (simp add: yrs_access_def ensure_board_access_def embed_grants_view_def embed_token_from_headers_def fetch_board_by_id_def
      get_board_def sample_web_def Access.sample_board_def sample_user_def is_admin_def)

lemma sample_read: "read_checkpoint join_yrs (\<lambda>bs. bs) (\<lambda>_. True) sample_db
    = Inr (base_of_row sample_base, \<lparr>h_processed_seq = 5, h_base_generation = 1, h_writer_epoch = 7, h_state = Ready\<rparr>)"
  by (simp add: read_checkpoint_def read_base_def read_head_def sample_db_def sample_head_def sample_base_def
      head_to_domain_def read_latest_at_or_before_def lineage_snapshots_def newest_first_def state_from_str_def)

lemma sample_base_request:
  "get_yrs_base (\<lambda>_. Some 1) (\<lambda>_. True) 0 sample_web join_yrs (\<lambda>bs. bs) (\<lambda>d. d) (\<lambda>_. True) ''b'' (Some (sample_user 5 2)) None None
     (sv_registry sample_server) sample_db = (Inr (BaseBody feed_reply), sv_registry sample_server, sample_db)"
  by (simp add: get_yrs_base_def sample_access activate_yrs_read_path_def ensure_active_def get_resident_def sample_server_def
      sample_read base_reply_of_def feed_reply_def)

lemma sample_rows: "utf8_ids sample_db" "rows_fit sample_db"
  by (simp_all add: utf8_ids_def rows_fit_def sample_db_def sample_update_def as_bytes_def envelope_of_row_def fits_frame_def FIXED_def)

theorem joining_client_converges_witness:
  "\<exists>doc. hist_doc join_yrs sample_base sample_hist 5 = Inr doc
     \<and> sync_client join_yrs (\<lambda>n. fst (get_yrs_updates (\<lambda>_. Some 1) (\<lambda>_. True) 0 sample_web join_yrs (\<lambda>bs. bs) (\<lambda>d. d) (\<lambda>_. True)
          ''b'' \<lparr>yq_since_seq = n, yq_base_generation = Some (rd_base_generation (br_base feed_reply)), yq_limit = Some 0\<rparr>
          (Some (sample_user 5 2)) None (sv_registry sample_server) sample_db))
        (Suc (nat (5 - rd_base_seq (br_base feed_reply)))) (rd_base_seq (br_base feed_reply)) (2 ^ 52, 0) = Some (doc, 5)"
proof -
  have t: "hist_top sample_base sample_hist = 5" by (simp add: hist_top_def)
  have "doc_from_base join_yrs (rd_state_update (br_base feed_reply)) (rd_state_vector (br_base feed_reply))
      (rd_server_client_id (br_base feed_reply)) = Inr (2 ^ 52, 0)"
    using join_reload [of 0] by (simp add: feed_reply_def base_of_row_def sample_base_def)
  with joining_client_converges [OF sample_base_request sample_journal sample_rows, of "Some 0", unfolded t]
  show ?thesis by (metis Inr_inject)
qed

theorem sync_page_faithful_witness:
  "\<exists>page es. fst (get_yrs_updates (\<lambda>_. Some 1) (\<lambda>_. True) 0 sample_web join_yrs (\<lambda>bs. bs) (\<lambda>d. d) (\<lambda>_. True) ''b''
        \<lparr>yq_since_seq = 4, yq_base_generation = None, yq_limit = Some 0\<rparr> (Some (sample_user 5 2)) None (sv_registry sample_server) sample_db)
      = Inr page \<and> decode_update_stream (yp_body page) = Inr es \<and> yp_next_event_seq page \<le> 5"
proof -
  let ?head = "\<lparr>h_processed_seq = 5, h_base_generation = 1, h_writer_epoch = 7, h_state = Ready\<rparr>"
  let ?q = "\<lparr>yq_since_seq = 4, yq_base_generation = None, yq_limit = Some 0\<rparr>"
  have "\<exists>page. updates_page (\<lambda>_. True) sample_db ?q (base_of_row sample_base, ?head) = Inr page"
    by (rule updates_page_succeeds) (simp_all add: base_of_row_def sample_base_def sample_rows)
  then obtain page where p: "updates_page (\<lambda>_. True) sample_db ?q (base_of_row sample_base, ?head) = Inr page" ..
  have "reg_boards (sv_registry sample_server) 1 = Some 0" by (simp add: sample_server_def)
  note g = get_updates_active [OF sample_access this, where Y = join_yrs and sha = "\<lambda>bs. bs" and ok = "\<lambda>_. True" and d = sample_db]
  have page: "get_yrs_updates (\<lambda>_. Some 1) (\<lambda>_. True) 0 sample_web join_yrs (\<lambda>bs. bs) (\<lambda>d. d) (\<lambda>_. True) ''b''
        ?q (Some (sample_user 5 2)) None (sv_registry sample_server) sample_db
      = (Inr page, sv_registry sample_server, sample_db)"
    unfolding g sample_read by (simp add: p)
  from sync_page_faithful [OF page sample_journal sample_rows(1)] page show ?thesis by (auto simp: hist_top_def)
qed

end
