(* ===== verification/Accounts.thy ===== *)
theory Accounts
  imports Access
begin

text \<open>
  The account tables and the statements on them: \<open>src/src/database/users.rs\<close>, \<open>login_challenges.rs\<close>,
  \<open>totp_enrollments.rs\<close>, \<open>oauth_accounts.rs\<close> and \<open>apikeys.rs\<close>, with the Redis keys of the login flows and the mail that
  was sent.  Times are seconds and dates are days; ids, hashes and random strings are arguments.  The handlers are
  actions over this state that return a value or an API error.
\<close>

subsection \<open>Actions\<close>

type_synonym ('s, 'a) action = "'s \<Rightarrow> (api_error + 'a) \<times> 's"

named_theorems action_simps "evaluation and inversion of actions"
named_theorems stays_intros "what an action may change"

definition okS :: "'a \<Rightarrow> ('s, 'a) action" where
  "okS x s = (Inr x, s)"

definition failS :: "api_error \<Rightarrow> ('s, 'a) action" where
  "failS e s = (Inl e, s)"

definition bindS :: "('s, 'a) action \<Rightarrow> ('a \<Rightarrow> ('s, 'b) action) \<Rightarrow> ('s, 'b) action" where
  "bindS m f s = (case m s of (Inl e, s') \<Rightarrow> (Inl e, s') | (Inr x, s') \<Rightarrow> f x s')"

definition liftE :: "api_error + 'a \<Rightarrow> ('s, 'a) action" where
  "liftE r s = (r, s)"

definition guardS :: "bool \<Rightarrow> api_error \<Rightarrow> ('s, unit) action" where
  "guardS bad e s = (if bad then (Inl e, s) else (Inr (), s))"

lemma okS_Inr [action_simps]: "okS x s = (Inr y, s') \<longleftrightarrow> y = x \<and> s' = s"
  by (auto simp: okS_def)

lemma failS_Inr [action_simps]: "failS e s = (Inr y, s') \<longleftrightarrow> False"
  by (simp add: failS_def)

lemma bindS_Inr [action_simps]: "bindS m f s = (Inr y, s'') \<longleftrightarrow> (\<exists>x s'. m s = (Inr x, s') \<and> f x s' = (Inr y, s''))"
  by (auto simp: bindS_def split: prod.splits sum.splits)

lemma liftE_Inr [action_simps]: "liftE r s = (Inr y, s') \<longleftrightarrow> r = Inr y \<and> s' = s"
  by (auto simp: liftE_def)

lemma guardS_Inr [action_simps]: "guardS bad e s = (Inr u, s') \<longleftrightarrow> \<not> bad \<and> s' = s"
  by (auto simp: guardS_def)

lemma bindS_run: "m s = (Inr x, s') \<Longrightarrow> bindS m f s = f x s'"
  by (simp add: bindS_def)

lemma bindS_stop: "m s = (Inl e, s') \<Longrightarrow> bindS m f s = (Inl e, s')"
  by (simp add: bindS_def)

text \<open>\<open>stays R m\<close>: whatever \<open>m\<close> answers, the state it leaves is related to the one it found.\<close>

definition stays :: "('s \<Rightarrow> 's \<Rightarrow> bool) \<Rightarrow> ('s, 'a) action \<Rightarrow> bool" where
  "stays R m \<longleftrightarrow> (\<forall>s. R s (snd (m s)))"

lemma staysI: "(\<And>s. R s (snd (m s))) \<Longrightarrow> stays R m"
  by (simp add: stays_def)

lemma staysD: "stays R m \<Longrightarrow> m s = (r, s') \<Longrightarrow> R s s'"
  by (metis stays_def snd_conv)

definition preorder_on_states :: "('s \<Rightarrow> 's \<Rightarrow> bool) \<Rightarrow> bool" where
  "preorder_on_states R \<longleftrightarrow> (\<forall>s. R s s) \<and> (\<forall>s t u. R s t \<longrightarrow> R t u \<longrightarrow> R s u)"

lemma stays_okS [stays_intros]: "preorder_on_states R \<Longrightarrow> stays R (okS x)"
  by (simp add: stays_def okS_def preorder_on_states_def)

lemma stays_failS [stays_intros]: "preorder_on_states R \<Longrightarrow> stays R (failS e)"
  by (simp add: stays_def failS_def preorder_on_states_def)

lemma stays_liftE [stays_intros]: "preorder_on_states R \<Longrightarrow> stays R (liftE r)"
  by (simp add: stays_def liftE_def preorder_on_states_def)

lemma stays_guardS [stays_intros]: "preorder_on_states R \<Longrightarrow> stays R (guardS c e)"
  by (simp add: stays_def guardS_def preorder_on_states_def)

lemma stays_bindS [stays_intros]:
  assumes "preorder_on_states R" and "stays R m" and "\<And>x. stays R (f x)"
  shows "stays R (bindS m f)"
proof (rule staysI)
  fix s
  obtain r s' where m: "m s = (r, s')" by force
  have "R s s'" using staysD [OF assms(2) m] .
  moreover have "R s' (snd (f x s'))" for x using assms(3) [of x] by (simp add: stays_def)
  ultimately show "R s (snd (bindS m f s))"
    using assms(1) m by (cases r) (auto simp: bindS_def preorder_on_states_def)
qed

subsection \<open>Rows\<close>

text \<open>\<open>User\<close> and \<open>UserRow\<close>: the row the boards see, with the credentials and the rest of the profile.\<close>

record account = app_user +
  ac_password_hash :: string
  ac_totp_secret :: "string option"
  ac_status :: string
  ac_disabled :: bool
  ac_creation_date :: int
  ac_country_code :: "string option"
  ac_language_code :: "string option"
  ac_birthday :: "int option"
  ac_description :: "string option"
  ac_color_preferences :: "string option"

record login_challenge =
  lc_id :: uuid
  lc_user_id :: uuid
  lc_expires_at :: int
  lc_attempts :: int

record totp_enrollment =
  te_user_id :: uuid
  te_secret :: string
  te_expires_at :: int
  te_attempts :: int

record oauth_account =
  oa_user_id :: uuid
  oa_provider :: string
  oa_provider_user_id :: string
  oa_access_token :: string
  oa_refresh_token :: "string option"
  oa_expires_at :: "int option"

record pending_registration =
  pn_email :: string
  pn_verification_code :: string
  pn_verification_expires_at :: int
  pn_verified_at :: "int option"
  pn_completion_token :: "string option"
  pn_completion_expires_at :: "int option"

record email_verification =
  em_user_id :: uuid
  em_email :: string
  em_verification_code :: string
  em_expires_at :: int

record reset_code =
  rc_user_id :: uuid
  rc_code :: string
  rc_expires_at :: int

record api_key =
  ak_id :: uuid
  ak_key_hash :: string
  ak_user_id :: uuid
  ak_description :: "string option"
  ak_creation_date :: int
  ak_expiration_date :: "int option"
  ak_disabled :: bool

record usage_row =
  ug_user_id :: uuid
  ug_endpoint :: string
  ug_at :: int

record oauth_state =
  os_provider :: string
  os_nonce :: "string option"
  os_pkce_verifier :: string
  os_redirect :: string

record cached_rate_limit =
  rl_tier_limit :: int
  rl_request_count :: int

text \<open>The tables, the Redis keys \<open>oauth_state:*\<close> and \<open>auth:totp:disable-attempts:*\<close> with their expiry, the rate-limit
  cache and the usage queue of the middleware, the mail handed to the mail server
  (recipient and body) and the objects whose deletion was requested (bucket and key).\<close>

record auth_db =
  a_users :: "account list"
  a_tiers :: "tier_quota list"
  a_challenges :: "login_challenge list"
  a_enrollments :: "totp_enrollment list"
  a_oauth :: "oauth_account list"
  a_pending :: "pending_registration list"
  a_verifications :: "email_verification list"
  a_resets :: "reset_code list"
  a_keys :: "api_key list"
  a_usage :: "usage_row list"
  a_settings :: "(string \<times> json) list"
  a_audit :: "(string \<times> json option \<times> json \<times> uuid) list"
  a_states :: "(string \<times> oauth_state \<times> int) list"
  a_disable :: "(uuid \<times> int \<times> int option) list"
  a_rates :: "((uuid \<times> int) \<times> cached_rate_limit \<times> int) list"
  a_queue :: "(uuid \<times> string) list"
  a_sent :: "(string \<times> string) list"
  a_dropped :: "(string \<times> string) list"

text \<open>A call to PostgreSQL, Redis or the mail server may fail: \<open>x_up q\<close> says whether the call \<open>q\<close> of the request
  is answered.\<close>

datatype account_query =
    QUser | QUserAgain | QUserFinal | QKeys | QDropChallenges | QAddChallenge | QChallenge | QFailChallenge
  | QDropChallenge | QEnrollment | QAddEnrollment | QFailEnrollment | QDropEnrollment | QActivate | QDisable
  | QLinked | QName | QInsertUser | QReread | QNames | QLink | QPicture | QSettings | QExists | QCode | QTakeCode
  | QMark | QForget | QReset | QPassword | QUpdate | QRedisGet | QRedisSet | QRedisExpire | QMail | QTierLimit
  | QUsageCount | QKeyCount | QAddKey | QDropKey | QOldKey

text \<open>What a request finds outside the tables: its time, the services, the random values of its handler and the
  cryptography (\<open>argon2\<close>, \<open>jsonwebtoken\<close> and \<open>totp-rs\<close>).\<close>

record claims =
  cl_sub :: string
  cl_iat :: int
  cl_exp :: int
  cl_iss :: string
  cl_aud :: string

datatype jwt_error_kind =
  InvalidToken | InvalidSignature | ExpiredSignature | InvalidIssuer | InvalidAudience | OtherJwtError

record outside =
  x_up :: "account_query \<Rightarrow> bool"
  x_now :: int
  x_env :: "string \<Rightarrow> string option"
  x_uuid :: "uuid \<Rightarrow> string"
  x_parse_uuid :: "string \<Rightarrow> uuid option"
  x_new_id :: uuid
  x_random :: "nat \<Rightarrow> string"
  x_code :: nat
  x_letters :: "string \<Rightarrow> bool"
  x_verify_hash :: "string \<Rightarrow> string \<Rightarrow> bool option"
  x_hash :: "string \<Rightarrow> string option"
  x_jwt_sign :: "string \<Rightarrow> claims \<Rightarrow> string option"
  x_jwt_verify :: "string \<Rightarrow> string \<Rightarrow> string \<Rightarrow> int \<Rightarrow> int \<Rightarrow> string \<Rightarrow> jwt_error_kind + claims"
  x_base32 :: "string \<Rightarrow> bytes option"
  x_totp_config :: "nat \<Rightarrow> bytes \<Rightarrow> bool"
  x_totp_check :: "bool \<Rightarrow> nat \<Rightarrow> bytes \<Rightarrow> int \<Rightarrow> string \<Rightarrow> bool option"
  x_totp_secret :: string
  x_totp_uri :: "string \<Rightarrow> string \<Rightarrow> string option"
  x_email_format :: "string \<Rightarrow> bool"
  x_countries :: "string list"
  x_languages :: "string list"
  x_earliest_birthday :: int
  x_image :: "bytes \<Rightarrow> string + bytes"
  x_storage_endpoint :: string
  x_storage_delete :: "string \<Rightarrow> string \<Rightarrow> bool"
  x_storage_put :: "string \<Rightarrow> string \<Rightarrow> bytes \<Rightarrow> string + string"
  x_presign :: "string \<Rightarrow> string \<Rightarrow> string option"

definition today :: "outside \<Rightarrow> int" where
  "today X = x_now X div 86400"

text \<open>A read, a write whose error the handler maps, and a write whose error it drops.\<close>

definition readS :: "outside \<Rightarrow> account_query \<Rightarrow> api_error \<Rightarrow> ('s \<Rightarrow> 'a) \<Rightarrow> ('s, 'a) action" where
  "readS X q e f s = (if x_up X q then (Inr (f s), s) else (Inl e, s))"

definition writeS ::
  "outside \<Rightarrow> account_query \<Rightarrow> (db_error option \<Rightarrow> api_error) \<Rightarrow> ('s \<Rightarrow> db_error + 'a \<times> 's) \<Rightarrow> ('s, 'a) action" where
  "writeS X q e f s =
     (if \<not> x_up X q then (Inl (e None), s)
      else (case f s of Inl de \<Rightarrow> (Inl (e (Some de)), s) | Inr (x, s') \<Rightarrow> (Inr x, s')))"

definition tryS :: "outside \<Rightarrow> account_query \<Rightarrow> ('s \<Rightarrow> 's) \<Rightarrow> ('s, unit) action" where
  "tryS X q f s = (Inr (), if x_up X q then f s else s)"

definition plain :: "('s \<Rightarrow> 's) \<Rightarrow> 's \<Rightarrow> db_error + unit \<times> 's" where
  "plain f s = Inr ((), f s)"

lemma readS_Inr [action_simps]: "readS X q e f s = (Inr y, s') \<longleftrightarrow> x_up X q \<and> y = f s \<and> s' = s"
  by (auto simp: readS_def)

lemma writeS_Inr [action_simps]: "writeS X q e f s = (Inr y, s') \<longleftrightarrow> x_up X q \<and> f s = Inr (y, s')"
  by (auto simp: writeS_def split: sum.splits)

lemma tryS_Inr [action_simps]: "tryS X q f s = (Inr u, s') \<longleftrightarrow> s' = (if x_up X q then f s else s)"
  by (auto simp: tryS_def)

lemma plain_Inr [action_simps]: "plain f s = Inr (u, s') \<longleftrightarrow> s' = f s"
  by (auto simp: plain_def)

lemma stays_readS [stays_intros]: "preorder_on_states R \<Longrightarrow> stays R (readS X q e f)"
  by (simp add: stays_def readS_def preorder_on_states_def)

lemma stays_writeS:
  "preorder_on_states R \<Longrightarrow> (\<And>s x s'. f s = Inr (x, s') \<Longrightarrow> R s s') \<Longrightarrow> stays R (writeS X q e f)"
  by (auto simp: stays_def writeS_def preorder_on_states_def split: sum.splits)

lemma stays_write_plain: "preorder_on_states R \<Longrightarrow> (\<And>s. R s (f s)) \<Longrightarrow> stays R (writeS X q e (plain f))"
  by (rule stays_writeS) (auto simp: plain_def)

lemma stays_tryS: "preorder_on_states R \<Longrightarrow> (\<And>s. R s (f s)) \<Longrightarrow> stays R (tryS X q f)"
  by (auto simp: stays_def tryS_def preorder_on_states_def)

subsection \<open>Environment variables\<close>

text \<open>\<open>core/config.rs\<close>; a required variable that is missing stops the process, so \<open>get_env\<close> is total here.\<close>

definition get_env_with_default :: "outside \<Rightarrow> string \<Rightarrow> string \<Rightarrow> string" where
  "get_env_with_default X key d = (case x_env X key of Some v \<Rightarrow> v | None \<Rightarrow> d)"

definition get_env :: "outside \<Rightarrow> string \<Rightarrow> string" where
  "get_env X key = get_env_with_default X key []"

definition get_env_bool :: "outside \<Rightarrow> string \<Rightarrow> bool \<Rightarrow> bool" where
  "get_env_bool X key d = (case x_env X key of Some v \<Rightarrow> to_ascii_lowercase v = ''true'' | None \<Rightarrow> d)"

definition get_env_u64 :: "outside \<Rightarrow> string \<Rightarrow> nat \<Rightarrow> nat" where
  "get_env_u64 X key d =
     (case x_env X key of None \<Rightarrow> d | Some v \<Rightarrow> (case parse_uint (2 ^ 64 - 1) v of Some n \<Rightarrow> n | None \<Rightarrow> d))"

subsection \<open>Users\<close>

definition fetch_user_by_email_from_db :: "string \<Rightarrow> auth_db \<Rightarrow> account option" where
  "fetch_user_by_email_from_db email d = find (\<lambda>u. us_email u = Some email) (a_users d)"

definition active :: "account \<Rightarrow> bool" where
  "active u \<longleftrightarrow> ac_status u = ''active''"

definition fetch_active_user_by_email_from_db :: "string \<Rightarrow> auth_db \<Rightarrow> account option" where
  "fetch_active_user_by_email_from_db email d = find (\<lambda>u. us_email u = Some email \<and> active u) (a_users d)"

definition fetch_active_user_by_id_from_db :: "uuid \<Rightarrow> auth_db \<Rightarrow> account option" where
  "fetch_active_user_by_id_from_db u d = find (\<lambda>r. us_id r = u \<and> active r) (a_users d)"

definition row_with :: "uuid \<Rightarrow> account \<Rightarrow> bool" where
  "row_with u r \<longleftrightarrow> us_id r = u"

definition map_user :: "uuid \<Rightarrow> (account \<Rightarrow> account) \<Rightarrow> auth_db \<Rightarrow> auth_db" where
  "map_user u f d = d\<lparr>a_users := map (\<lambda>r. if us_id r = u then f r else r) (a_users d)\<rparr>"

text \<open>\<open>rows_affected\<close> of an update by primary key\<close>

definition has_user :: "auth_db \<Rightarrow> uuid \<Rightarrow> bool" where
  "has_user d u \<longleftrightarrow> (\<exists>r \<in> set (a_users d). us_id r = u)"

definition set_user_status_in_db :: "uuid \<Rightarrow> string \<Rightarrow> auth_db \<Rightarrow> db_error + bool \<times> auth_db" where
  "set_user_status_in_db u status d =
     Inr (has_user d u, map_user u (\<lambda>r. r\<lparr>ac_status := status, ac_disabled := (status = ''disabled'')\<rparr>) d)"

definition activate_user_in_db :: "uuid \<Rightarrow> auth_db \<Rightarrow> db_error + bool \<times> auth_db" where
  "activate_user_in_db u = set_user_status_in_db u ''active''"

definition deactivate_user_in_db :: "uuid \<Rightarrow> auth_db \<Rightarrow> db_error + bool \<times> auth_db" where
  "deactivate_user_in_db u = set_user_status_in_db u ''disabled''"

text \<open>Deleting a user cascades to every table that refers to it.\<close>

definition delete_user_from_db :: "uuid \<Rightarrow> auth_db \<Rightarrow> string option option \<times> auth_db" where
  "delete_user_from_db u d =
     (map_option us_profile_picture_url (find (row_with u) (a_users d)),
      d\<lparr>a_users := filter (\<lambda>r. us_id r \<noteq> u) (a_users d),
        a_challenges := filter (\<lambda>c. lc_user_id c \<noteq> u) (a_challenges d),
        a_enrollments := filter (\<lambda>e. te_user_id e \<noteq> u) (a_enrollments d),
        a_oauth := filter (\<lambda>o'. oa_user_id o' \<noteq> u) (a_oauth d),
        a_verifications := filter (\<lambda>v. em_user_id v \<noteq> u) (a_verifications d),
        a_resets := filter (\<lambda>c. rc_user_id c \<noteq> u) (a_resets d),
        a_keys := filter (\<lambda>k. ak_user_id k \<noteq> u) (a_keys d),
        a_usage := filter (\<lambda>r. ug_user_id r \<noteq> u) (a_usage d)\<rparr>)"

text \<open>The shape of names and addresses: \<open>char::is_alphanumeric\<close> is decided here for ASCII and by \<open>x_letters\<close> for the
  rest of the string; the address pattern is
  \<open>^[a-z0-9_+]+([a-z0-9_.-]*[a-z0-9_+])?@[a-z0-9]+([-.][a-z0-9]+)*\.[a-z]{2,6}$\<close>.\<close>

definition is_lower :: "char \<Rightarrow> bool" where
  "is_lower c \<longleftrightarrow> CHR ''a'' \<le> c \<and> c \<le> CHR ''z''"

definition is_upper :: "char \<Rightarrow> bool" where
  "is_upper c \<longleftrightarrow> CHR ''A'' \<le> c \<and> c \<le> CHR ''Z''"

definition is_ascii_alnum :: "char \<Rightarrow> bool" where
  "is_ascii_alnum c \<longleftrightarrow> is_lower c \<or> is_upper c \<or> is_ascii_digit c"

definition is_ascii :: "char \<Rightarrow> bool" where
  "is_ascii c \<longleftrightarrow> of_char c < (128 :: nat)"

definition username_chars :: "outside \<Rightarrow> string \<Rightarrow> bool" where
  "username_chars X s \<longleftrightarrow> list_all (\<lambda>c. is_ascii c \<longrightarrow> is_ascii_alnum c \<or> c = CHR ''_'') s \<and> x_letters X s"

definition local_part :: "string \<Rightarrow> bool" where
  "local_part s \<longleftrightarrow>
     (let inner = (\<lambda>c. is_lower c \<or> is_ascii_digit c \<or> c \<in> set ''_.-'');
          outer = (\<lambda>c. is_lower c \<or> is_ascii_digit c \<or> c \<in> set ''_+'');
          rest = dropWhile outer s
      in s \<noteq> [] \<and> outer (hd s) \<and> (rest = [] \<or> list_all inner (butlast rest) \<and> outer (last rest)))"

definition domain_part :: "string \<Rightarrow> bool" where
  "domain_part s \<longleftrightarrow>
     (let tld = rev (takeWhile (\<lambda>c. c \<noteq> CHR ''.'') (rev s)); host = take (length s - length tld - 1) s
      in length tld < length s \<and> 2 \<le> length tld \<and> length tld \<le> 6 \<and> list_all is_lower tld
         \<and> list_all (\<lambda>p. p \<noteq> [] \<and> list_all (\<lambda>c. is_lower c \<or> is_ascii_digit c) p)
             (split_char CHR ''.'' (map (\<lambda>c. if c = CHR ''-'' then CHR ''.'' else c) host)))"

definition is_valid_email :: "string \<Rightarrow> bool" where
  "is_valid_email s \<longleftrightarrow>
     (case split_once CHR ''@'' s of Some (l, r) \<Rightarrow> local_part l \<and> domain_part r | None \<Rightarrow> False)"

definition check_username :: "outside \<Rightarrow> string \<Rightarrow> db_error + string" where
  "check_username X username =
     (let name = trim username
      in if length name < 3 \<or> length name > 30
         then Inl (DbProtocol ''Username must be between 3 and 30 characters.'')
         else if \<not> username_chars X name
         then Inl (DbProtocol ''Invalid username format: only alphanumeric and underscores allowed.'')
         else Inr name)"

definition new_account :: "outside \<Rightarrow> string \<Rightarrow> string option \<Rightarrow> string \<Rightarrow> string option \<Rightarrow> int \<Rightarrow> int \<Rightarrow> account" where
  "new_account X username email password_hash totp_secret role tier =
     \<lparr>us_id = x_new_id X, us_username = username, us_email = email, us_role_level = role, us_tier_level = tier,
      us_profile_picture_url = None, us_first_name = None, us_last_name = None, ac_password_hash = password_hash,
      ac_totp_secret = totp_secret, ac_status = ''active'', ac_disabled = False, ac_creation_date = today X,
      ac_country_code = None, ac_language_code = None, ac_birthday = None, ac_description = None,
      ac_color_preferences = None\<rparr>"

definition insert_account :: "account \<Rightarrow> auth_db \<Rightarrow> db_error + account \<times> auth_db" where
  "insert_account r d =
     (if us_id r \<in> us_id ` set (a_users d) then Inl (UniqueViolation ''users_pkey'')
      else if us_username r \<in> us_username ` set (a_users d) then Inl (UniqueViolation ''unique_username'')
      else if us_email r \<noteq> None \<and> us_email r \<in> us_email ` set (a_users d)
      then Inl (UniqueViolation ''users_email_key'')
      else Inr (r, d\<lparr>a_users := a_users d @ [r]\<rparr>))"

definition insert_user_into_db ::
  "outside \<Rightarrow> string \<Rightarrow> string \<Rightarrow> string \<Rightarrow> string option \<Rightarrow> int \<Rightarrow> int \<Rightarrow> auth_db \<Rightarrow> db_error + account \<times> auth_db" where
  "insert_user_into_db X username email password_hash totp_secret role tier d =
     bindE (check_username X username) (\<lambda>name.
     let addr = to_ascii_lowercase (trim email)
     in if \<not> is_valid_email addr then Inl (DbProtocol ''Invalid email format.'')
        else insert_account (new_account X name (Some addr) password_hash totp_secret role tier) d)"

text \<open>The inserted row is read back as an active user.\<close>

definition insert_oauth_user_into_db ::
  "outside \<Rightarrow> string \<Rightarrow> string option \<Rightarrow> string \<Rightarrow> auth_db \<Rightarrow> db_error + account \<times> auth_db" where
  "insert_oauth_user_into_db X username email password_hash d =
     bindE (check_username X username) (\<lambda>name.
     let addr = map_option (\<lambda>e. to_ascii_lowercase (trim e)) email
     in if (case addr of Some a \<Rightarrow> \<not> is_valid_email a | None \<Rightarrow> False) then Inl (DbProtocol ''Invalid email format.'')
        else insert_account (new_account X name addr password_hash None 1 1) d)"

definition fill_missing_oauth_profile_names ::
  "uuid \<Rightarrow> string option \<Rightarrow> string option \<Rightarrow> auth_db \<Rightarrow> auth_db" where
  "fill_missing_oauth_profile_names u first_name last_name =
     map_user u (\<lambda>r. r\<lparr>us_first_name := (case us_first_name r of None \<Rightarrow> first_name | n \<Rightarrow> n),
       us_last_name := (case us_last_name r of None \<Rightarrow> last_name | n \<Rightarrow> n)\<rparr>)"

definition update_user_profile_picture_in_db :: "uuid \<Rightarrow> string \<Rightarrow> auth_db \<Rightarrow> auth_db" where
  "update_user_profile_picture_in_db u url = map_user u (\<lambda>r. r\<lparr>us_profile_picture_url := Some url\<rparr>)"

definition update_user_password_in_db :: "uuid \<Rightarrow> string \<Rightarrow> auth_db \<Rightarrow> auth_db" where
  "update_user_password_in_db u h = map_user u (\<lambda>r. r\<lparr>ac_password_hash := h\<rparr>)"

definition fetch_profile_picture_url_from_db :: "uuid \<Rightarrow> auth_db \<Rightarrow> string option" where
  "fetch_profile_picture_url_from_db u d = Option.bind (find (row_with u) (a_users d)) us_profile_picture_url"

definition fetch_color_preferences :: "uuid \<Rightarrow> auth_db \<Rightarrow> string option" where
  "fetch_color_preferences u d = Option.bind (find (row_with u) (a_users d)) ac_color_preferences"

definition update_color_preferences :: "uuid \<Rightarrow> string \<Rightarrow> auth_db \<Rightarrow> auth_db" where
  "update_color_preferences u prefs = map_user u (\<lambda>r. r\<lparr>ac_color_preferences := Some prefs\<rparr>)"

definition check_user_exists_by_email :: "string \<Rightarrow> auth_db \<Rightarrow> bool" where
  "check_user_exists_by_email email d \<longleftrightarrow> Some (to_ascii_lowercase (trim email)) \<in> us_email ` set (a_users d)"

definition check_user_exists_by_username :: "string \<Rightarrow> auth_db \<Rightarrow> bool" where
  "check_user_exists_by_username username d \<longleftrightarrow> trim username \<in> us_username ` set (a_users d)"

definition check_user_exists_in_db :: "string \<Rightarrow> string \<Rightarrow> auth_db \<Rightarrow> bool \<times> bool" where
  "check_user_exists_in_db email username d =
     (check_user_exists_by_email email d, check_user_exists_by_username username d)"

text \<open>\<open>ILIKE '%query%'\<close>: the query is the body of the pattern, with its \<open>%\<close>, \<open>_\<close> and backslash as wildcards.\<close>

fun like :: "string \<Rightarrow> string \<Rightarrow> bool" where
  "like [] s = (s = [])"
| "like (p # ps) s =
     (if p = CHR ''%'' then like ps s \<or> (case s of [] \<Rightarrow> False | _ # t \<Rightarrow> like (p # ps) t)
      else if p = CHR 0x5C then
        (case ps of [] \<Rightarrow> False | q # qs \<Rightarrow> (case s of [] \<Rightarrow> False | c # t \<Rightarrow> c = q \<and> like qs t))
      else (case s of [] \<Rightarrow> False | c # t \<Rightarrow> (p = CHR ''_'' \<or> p = c) \<and> like ps t))"

definition ilike :: "string \<Rightarrow> string \<Rightarrow> bool" where
  "ilike pattern s = like (to_ascii_lowercase pattern) (to_ascii_lowercase s)"

definition search_users :: "string \<Rightarrow> nat \<Rightarrow> auth_db \<Rightarrow> account list" where
  "search_users q limit d =
     take limit (filter (\<lambda>u. (ilike (''%'' @ q @ ''%'') (us_username u)
         \<or> (case us_email u of Some e \<Rightarrow> ilike (''%'' @ q @ ''%'') e | None \<Rightarrow> False)) \<and> active u) (a_users d))"

subsection \<open>E-mail addresses and registrations\<close>

definition upsert_user_email_verification ::
  "uuid \<Rightarrow> string \<Rightarrow> string \<Rightarrow> int \<Rightarrow> auth_db \<Rightarrow> db_error + unit \<times> auth_db" where
  "upsert_user_email_verification u email code expires_at d =
     (if \<not> has_user d u then Inl (DbProtocol ''foreign key'')
      else if \<exists>v \<in> set (a_verifications d). em_user_id v \<noteq> u \<and> em_email v = email
      then Inl (UniqueViolation ''user_email_verifications_email_key'')
      else Inr ((), d\<lparr>a_verifications := filter (\<lambda>v. em_user_id v \<noteq> u) (a_verifications d)
             @ [\<lparr>em_user_id = u, em_email = email, em_verification_code = code, em_expires_at = expires_at\<rparr>]\<rparr>))"

definition verify_and_set_user_email ::
  "int \<Rightarrow> uuid \<Rightarrow> string \<Rightarrow> string \<Rightarrow> auth_db \<Rightarrow> db_error + bool \<times> auth_db" where
  "verify_and_set_user_email now u email code d =
     (if \<not> (\<exists>v \<in> set (a_verifications d). em_user_id v = u \<and> em_email v = email \<and> em_verification_code v = code
            \<and> em_expires_at v > now)
      then Inr (False, d)
      else if \<not> (\<exists>r \<in> set (a_users d). us_id r = u \<and> us_email r = None) then Inr (False, d)
      else if Some email \<in> us_email ` set (a_users d) then Inl (UniqueViolation ''users_email_key'')
      else Inr (True, (map_user u (\<lambda>r. r\<lparr>us_email := Some email\<rparr>) d)
             \<lparr>a_verifications := filter (\<lambda>v. em_user_id v \<noteq> u) (a_verifications d)\<rparr>))"

definition upsert_pending_registration :: "string \<Rightarrow> string \<Rightarrow> int \<Rightarrow> auth_db \<Rightarrow> db_error + unit \<times> auth_db" where
  "upsert_pending_registration email code expires_at d =
     (let addr = to_ascii_lowercase (trim email)
      in if \<not> is_valid_email addr then Inl (DbProtocol ''Invalid email format.'')
         else Inr ((), d\<lparr>a_pending := filter (\<lambda>r. pn_email r \<noteq> addr) (a_pending d)
                @ [\<lparr>pn_email = addr, pn_verification_code = code, pn_verification_expires_at = expires_at,
                    pn_verified_at = None, pn_completion_token = None, pn_completion_expires_at = None\<rparr>]\<rparr>))"

definition fetch_pending_registration_by_email :: "string \<Rightarrow> auth_db \<Rightarrow> pending_registration option" where
  "fetch_pending_registration_by_email email d = find (\<lambda>r. pn_email r = email) (a_pending d)"

definition mark_pending_registration_verified ::
  "int \<Rightarrow> string \<Rightarrow> string \<Rightarrow> string \<Rightarrow> int \<Rightarrow> auth_db \<Rightarrow> db_error + bool \<times> auth_db" where
  "mark_pending_registration_verified now email code completion_token completion_expires_at d =
     (let hit = (\<lambda>r. pn_email r = email \<and> pn_verification_code r = code \<and> pn_verification_expires_at r > now)
      in Inr (\<exists>r \<in> set (a_pending d). hit r,
           d\<lparr>a_pending := map (\<lambda>r. if hit r then r\<lparr>pn_verified_at := Some now,
               pn_completion_token := Some completion_token,
               pn_completion_expires_at := Some completion_expires_at\<rparr> else r) (a_pending d)\<rparr>))"

definition delete_pending_registration :: "string \<Rightarrow> auth_db \<Rightarrow> auth_db" where
  "delete_pending_registration email d = d\<lparr>a_pending := filter (\<lambda>r. pn_email r \<noteq> email) (a_pending d)\<rparr>"

text \<open>The primary key of the reset codes is the code.\<close>

definition insert_user_password_reset_code_into_db ::
  "uuid \<Rightarrow> string \<Rightarrow> int \<Rightarrow> auth_db \<Rightarrow> db_error + unit \<times> auth_db" where
  "insert_user_password_reset_code_into_db u code expires_at d =
     (if \<not> has_user d u then Inl (DbProtocol ''foreign key'')
      else Inr ((), d\<lparr>a_resets := filter (\<lambda>c. rc_code c \<noteq> code) (a_resets d)
             @ [\<lparr>rc_user_id = u, rc_code = code, rc_expires_at = expires_at\<rparr>]\<rparr>))"

definition fetch_current_password_reset_code_from_db :: "int \<Rightarrow> uuid \<Rightarrow> auth_db \<Rightarrow> reset_code option" where
  "fetch_current_password_reset_code_from_db now u d =
     (case newest_by rc_expires_at (filter (\<lambda>c. rc_user_id c = u \<and> rc_expires_at c > now) (a_resets d)) of
        [] \<Rightarrow> None | c # _ \<Rightarrow> Some c)"

definition delete_all_password_reset_codes_for_user :: "uuid \<Rightarrow> auth_db \<Rightarrow> auth_db" where
  "delete_all_password_reset_codes_for_user u d = d\<lparr>a_resets := filter (\<lambda>c. rc_user_id c \<noteq> u) (a_resets d)\<rparr>"

subsection \<open>Login challenges\<close>

definition drop_login_challenges :: "uuid \<Rightarrow> auth_db \<Rightarrow> auth_db" where
  "drop_login_challenges u d = d\<lparr>a_challenges := filter (\<lambda>c. lc_user_id c \<noteq> u) (a_challenges d)\<rparr>"

definition add_login_challenge :: "uuid \<Rightarrow> uuid \<Rightarrow> int \<Rightarrow> auth_db \<Rightarrow> db_error + login_challenge \<times> auth_db" where
  "add_login_challenge new_id u expires_at d =
     (let c = \<lparr>lc_id = new_id, lc_user_id = u, lc_expires_at = expires_at, lc_attempts = 0\<rparr>
      in if new_id \<in> lc_id ` set (a_challenges d) then Inl (UniqueViolation ''login_challenges_pkey'')
         else if \<not> has_user d u then Inl (DbProtocol ''foreign key'')
         else Inr (c, d\<lparr>a_challenges := a_challenges d @ [c]\<rparr>))"

text \<open>Two statements, each of its own: the older challenges stay dropped when the insertion fails.\<close>

definition create_login_challenge :: "outside \<Rightarrow> api_error \<Rightarrow> uuid \<Rightarrow> int \<Rightarrow> (auth_db, login_challenge) action" where
  "create_login_challenge X e u expires_at =
     bindS (writeS X QDropChallenges (\<lambda>_. e) (plain (drop_login_challenges u))) (\<lambda>_.
     writeS X QAddChallenge (\<lambda>_. e) (add_login_challenge (x_new_id X) u expires_at))"

definition fetch_login_challenge :: "uuid \<Rightarrow> auth_db \<Rightarrow> login_challenge option" where
  "fetch_login_challenge i d = find (\<lambda>c. lc_id c = i) (a_challenges d)"

definition delete_login_challenge :: "uuid \<Rightarrow> auth_db \<Rightarrow> auth_db" where
  "delete_login_challenge i d = d\<lparr>a_challenges := filter (\<lambda>c. lc_id c \<noteq> i) (a_challenges d)\<rparr>"

definition count_failed_attempt :: "uuid \<Rightarrow> auth_db \<Rightarrow> db_error + int option \<times> auth_db" where
  "count_failed_attempt i d =
     Inr (map_option (\<lambda>c. lc_attempts c + 1) (fetch_login_challenge i d),
          d\<lparr>a_challenges := map (\<lambda>c. if lc_id c = i then c\<lparr>lc_attempts := lc_attempts c + 1\<rparr> else c) (a_challenges d)\<rparr>)"

definition record_failed_attempt :: "outside \<Rightarrow> api_error \<Rightarrow> uuid \<Rightarrow> int \<Rightarrow> (auth_db, int option) action" where
  "record_failed_attempt X e i max_attempts =
     bindS (writeS X QFailChallenge (\<lambda>_. e) (count_failed_attempt i)) (\<lambda>attempts.
     if (case attempts of Some n \<Rightarrow> n \<ge> max_attempts | None \<Rightarrow> False)
     then bindS (writeS X QDropChallenge (\<lambda>_. e) (plain (delete_login_challenge i))) (\<lambda>_. okS attempts)
     else okS attempts)"

subsection \<open>Enrollment of the second factor\<close>

definition upsert_enrollment :: "uuid \<Rightarrow> string \<Rightarrow> int \<Rightarrow> auth_db \<Rightarrow> db_error + unit \<times> auth_db" where
  "upsert_enrollment u secret expires_at d =
     (if \<not> has_user d u then Inl (DbProtocol ''foreign key'')
      else Inr ((), d\<lparr>a_enrollments := filter (\<lambda>e. te_user_id e \<noteq> u) (a_enrollments d)
             @ [\<lparr>te_user_id = u, te_secret = secret, te_expires_at = expires_at, te_attempts = 0\<rparr>]\<rparr>))"

definition fetch_enrollment :: "uuid \<Rightarrow> auth_db \<Rightarrow> totp_enrollment option" where
  "fetch_enrollment u d = find (\<lambda>e. te_user_id e = u) (a_enrollments d)"

definition delete_enrollment :: "uuid \<Rightarrow> auth_db \<Rightarrow> auth_db" where
  "delete_enrollment u d = d\<lparr>a_enrollments := filter (\<lambda>e. te_user_id e \<noteq> u) (a_enrollments d)\<rparr>"

definition count_failed_confirmation :: "uuid \<Rightarrow> auth_db \<Rightarrow> db_error + int option \<times> auth_db" where
  "count_failed_confirmation u d =
     Inr (map_option (\<lambda>e. te_attempts e + 1) (fetch_enrollment u d),
          d\<lparr>a_enrollments := map (\<lambda>e. if te_user_id e = u then e\<lparr>te_attempts := te_attempts e + 1\<rparr> else e) (a_enrollments d)\<rparr>)"

definition record_failed_confirmation :: "outside \<Rightarrow> api_error \<Rightarrow> uuid \<Rightarrow> int \<Rightarrow> (auth_db, int option) action" where
  "record_failed_confirmation X e u max_attempts =
     bindS (writeS X QFailEnrollment (\<lambda>_. e) (count_failed_confirmation u)) (\<lambda>attempts.
     if (case attempts of Some n \<Rightarrow> n \<ge> max_attempts | None \<Rightarrow> False)
     then bindS (writeS X QDropEnrollment (\<lambda>_. e) (plain (delete_enrollment u))) (\<lambda>_. okS attempts)
     else okS attempts)"

definition activate_enrollment :: "int \<Rightarrow> uuid \<Rightarrow> string \<Rightarrow> auth_db \<Rightarrow> db_error + bool \<times> auth_db" where
  "activate_enrollment now u expected_secret d =
     (if \<not> (\<exists>e \<in> set (a_enrollments d). te_user_id e = u \<and> te_secret e = expected_secret \<and> te_expires_at e > now)
      then Inr (False, d)
      else if \<not> (\<exists>r \<in> set (a_users d). us_id r = u \<and> ac_totp_secret r = None) then Inr (False, d)
      else Inr (True, map_user u (\<lambda>r. r\<lparr>ac_totp_secret := Some expected_secret\<rparr>) (delete_enrollment u d)))"

definition disable_second_factor :: "uuid \<Rightarrow> auth_db \<Rightarrow> db_error + bool \<times> auth_db" where
  "disable_second_factor u d =
     Inr (has_user d u, drop_login_challenges u (delete_enrollment u (map_user u (\<lambda>r. r\<lparr>ac_totp_secret := None\<rparr>) d)))"

subsection \<open>Provider links\<close>

definition user_has_oauth_account :: "uuid \<Rightarrow> auth_db \<Rightarrow> bool" where
  "user_has_oauth_account u d \<longleftrightarrow> u \<in> oa_user_id ` set (a_oauth d)"

definition fetch_user_by_oauth_account :: "string \<Rightarrow> string \<Rightarrow> auth_db \<Rightarrow> account option" where
  "fetch_user_by_oauth_account provider provider_user_id d =
     Option.bind (find (\<lambda>o'. oa_provider o' = provider \<and> oa_provider_user_id o' = provider_user_id) (a_oauth d))
       (\<lambda>o'. find (row_with (oa_user_id o')) (a_users d))"

definition upsert_oauth_account :: "oauth_account \<Rightarrow> auth_db \<Rightarrow> db_error + unit \<times> auth_db" where
  "upsert_oauth_account o' d =
     (if \<not> has_user d (oa_user_id o') then Inl (DbProtocol ''foreign key'')
      else Inr ((), d\<lparr>a_oauth := filter (\<lambda>p. \<not> (oa_provider p = oa_provider o'
             \<and> oa_provider_user_id p = oa_provider_user_id o')) (a_oauth d) @ [o']\<rparr>))"

subsection \<open>API keys\<close>

definition insert_api_key_into_db :: "api_key \<Rightarrow> auth_db \<Rightarrow> db_error + api_key \<times> auth_db" where
  "insert_api_key_into_db k d =
     (if ak_id k \<in> ak_id ` set (a_keys d) then Inl (UniqueViolation ''apikeys_pkey'')
      else if ak_key_hash k \<in> ak_key_hash ` set (a_keys d) then Inl (UniqueViolation ''unique_key_hash'')
      else if \<not> has_user d (ak_user_id k) then Inl (DbProtocol ''foreign key'')
      else Inr (k, d\<lparr>a_keys := a_keys d @ [k]\<rparr>))"

definition fetch_all_apikeys_from_db :: "uuid \<Rightarrow> auth_db \<Rightarrow> api_key list" where
  "fetch_all_apikeys_from_db u d = filter (\<lambda>k. ak_user_id k = u) (a_keys d)"

definition fetch_apikey_by_id_from_db :: "uuid \<Rightarrow> uuid \<Rightarrow> auth_db \<Rightarrow> api_key option" where
  "fetch_apikey_by_id_from_db i u d = find (\<lambda>k. ak_id k = i \<and> ak_user_id k = u) (a_keys d)"

definition key_active :: "int \<Rightarrow> api_key \<Rightarrow> bool" where
  "key_active day k \<longleftrightarrow> \<not> ak_disabled k \<and> (case ak_expiration_date k of None \<Rightarrow> True | Some e \<Rightarrow> e > day)"

definition fetch_active_apikeys_by_user_id_from_db :: "int \<Rightarrow> uuid \<Rightarrow> auth_db \<Rightarrow> api_key list" where
  "fetch_active_apikeys_by_user_id_from_db day u d = filter (\<lambda>k. ak_user_id k = u \<and> key_active day k) (a_keys d)"

definition disable_apikey_in_db :: "int \<Rightarrow> uuid \<Rightarrow> uuid \<Rightarrow> auth_db \<Rightarrow> db_error + nat \<times> auth_db" where
  "disable_apikey_in_db day i u d =
     (let hit = (\<lambda>k. ak_id k = i \<and> ak_user_id k = u)
      in Inr (length (filter hit (a_keys d)),
           d\<lparr>a_keys := map (\<lambda>k. if hit k then k\<lparr>ak_disabled := True, ak_expiration_date := Some (day + 1)\<rparr> else k) (a_keys d)\<rparr>))"

definition delete_apikey_from_db :: "uuid \<Rightarrow> uuid \<Rightarrow> auth_db \<Rightarrow> db_error + nat \<times> auth_db" where
  "delete_apikey_from_db i u d =
     (let hit = (\<lambda>k. ak_id k = i \<and> ak_user_id k = u)
      in Inr (length (filter hit (a_keys d)), d\<lparr>a_keys := filter (\<lambda>k. \<not> hit k) (a_keys d)\<rparr>))"

definition check_existing_api_key_count :: "int \<Rightarrow> uuid \<Rightarrow> auth_db \<Rightarrow> nat" where
  "check_existing_api_key_count day u d =
     length (filter (\<lambda>k. ak_user_id k = u \<and> \<not> ak_disabled k
        \<and> (case ak_expiration_date k of None \<Rightarrow> True | Some e \<Rightarrow> e \<ge> day)) (a_keys d))"

definition fetch_existing_apikey :: "uuid \<Rightarrow> uuid \<Rightarrow> auth_db \<Rightarrow> api_key option" where
  "fetch_existing_apikey u i d = find (\<lambda>k. ak_user_id k = u \<and> ak_id k = i \<and> \<not> ak_disabled k) (a_keys d)"

subsection \<open>Server settings\<close>

record server_settings =
  ss_public_registration_enabled :: bool
  ss_google_login_enabled :: bool
  ss_yandex_login_enabled :: bool
  ss_vk_login_enabled :: bool
  ss_support_max_reports_per_day :: int
  ss_feature_request_max_per_day :: int
  ss_feature_request_expose_issue_url :: bool

definition parse_i64 :: "string \<Rightarrow> int option" where
  "parse_i64 s =
     (case s of
        c # r \<Rightarrow>
          (if c = CHR ''-'' then (if r \<noteq> [] \<and> hd r = CHR ''+'' then None
             else map_option (\<lambda>n. - int n) (parse_uint (2 ^ 63) r))
           else map_option int (parse_uint (2 ^ 63 - 1) s))
      | [] \<Rightarrow> None)"

definition environment_defaults :: "outside \<Rightarrow> server_settings" where
  "environment_defaults X =
     \<lparr>ss_public_registration_enabled = get_env_bool X ''PUBLIC_REGISTRATION_ENABLED'' True,
      ss_google_login_enabled = get_env_bool X ''GOOGLE_LOGIN_ENABLED'' True,
      ss_yandex_login_enabled = get_env_bool X ''YANDEX_LOGIN_ENABLED'' False,
      ss_vk_login_enabled = get_env_bool X ''VK_LOGIN_ENABLED'' False,
      ss_support_max_reports_per_day =
        (case parse_i64 (get_env_with_default X ''SUPPORT_MAX_REPORTS_PER_DAY'' ''10'') of Some n \<Rightarrow> n | None \<Rightarrow> 10),
      ss_feature_request_max_per_day =
        (case parse_i64 (get_env_with_default X ''FEATURE_REQUEST_MAX_PER_DAY'' ''5'') of Some n \<Rightarrow> n | None \<Rightarrow> 5),
      ss_feature_request_expose_issue_url = get_env_bool X ''FEATURE_REQUEST_EXPOSE_ISSUE_URL'' False\<rparr>"

definition as_i64 :: "json \<Rightarrow> int option" where
  "as_i64 j = (case j of JNum n \<Rightarrow> num_as_i64 n | _ \<Rightarrow> None)"

definition setting :: "auth_db \<Rightarrow> string \<Rightarrow> (json \<Rightarrow> 'a option) \<Rightarrow> 'a \<Rightarrow> 'a \<Rightarrow> 'a" where
  "setting d key as fallback initial =
     (case map_of (a_settings d) key of
        None \<Rightarrow> initial
      | Some j \<Rightarrow> (case as j of Some v \<Rightarrow> v | None \<Rightarrow> fallback))"

definition load_settings :: "outside \<Rightarrow> auth_db \<Rightarrow> server_settings" where
  "load_settings X d =
     (let e = environment_defaults X in
      \<lparr>ss_public_registration_enabled = setting d ''public_registration_enabled'' as_bool True (ss_public_registration_enabled e),
       ss_google_login_enabled = setting d ''google_login_enabled'' as_bool True (ss_google_login_enabled e),
       ss_yandex_login_enabled = setting d ''yandex_login_enabled'' as_bool False (ss_yandex_login_enabled e),
       ss_vk_login_enabled = setting d ''vk_login_enabled'' as_bool False (ss_vk_login_enabled e),
       ss_support_max_reports_per_day = setting d ''support_max_reports_per_day'' as_i64 10 (ss_support_max_reports_per_day e),
       ss_feature_request_max_per_day = setting d ''feature_request_max_per_day'' as_i64 5 (ss_feature_request_max_per_day e),
       ss_feature_request_expose_issue_url =
         setting d ''feature_request_expose_issue_url'' as_bool False (ss_feature_request_expose_issue_url e)\<rparr>)"

end
