(* ===== verification/Login.thy ===== *)
theory Login
  imports Accounts
begin

text \<open>
  Signing in: the token and second-factor helpers of \<open>src/src/utils/auth.rs\<close>, the authorization middleware of
  \<open>src/src/middlewares/auth.rs\<close>, and the handlers of \<open>src/src/handlers/login.rs\<close> and \<open>totp.rs\<close>.
\<close>

subsection \<open>Tokens\<close>

definition encode_jwt :: "outside \<Rightarrow> string \<Rightarrow> nat + string" where
  "encode_jwt X subject =
     ok_orE 500 (x_jwt_sign X (get_env X ''JWT_SECRET_KEY'')
       \<lparr>cl_sub = subject, cl_iat = x_now X, cl_exp = x_now X + 86400, cl_iss = get_env X ''JWT_ISSUER'',
        cl_aud = get_env X ''JWT_AUDIENCE''\<rparr>)"

definition jwt_error_message :: "jwt_error_kind \<Rightarrow> string" where
  "jwt_error_message k =
     (case k of
        InvalidToken \<Rightarrow> ''Invalid token format.''
      | InvalidSignature \<Rightarrow> ''Invalid token signature.''
      | ExpiredSignature \<Rightarrow> ''Token has expired.''
      | InvalidIssuer \<Rightarrow> ''Invalid token issuer.''
      | InvalidAudience \<Rightarrow> ''Invalid token audience.''
      | OtherJwtError \<Rightarrow> ''Failed to decode token.'')"

definition decode_jwt :: "outside \<Rightarrow> string \<Rightarrow> api_error + claims" where
  "decode_jwt X jwt =
     map_errE (\<lambda>k. api_err 401 (jwt_error_message k))
       (x_jwt_verify X (get_env X ''JWT_SECRET_KEY'') (get_env X ''JWT_ISSUER'') (get_env X ''JWT_AUDIENCE'') 300
          (x_now X) jwt)"

definition extract_bearer_token :: "string \<Rightarrow> string option" where
  "extract_bearer_token header =
     (case split_once CHR '' '' header of
        Some (scheme, token) \<Rightarrow> (if scheme = ''Bearer'' then Some token else None)
      | None \<Rightarrow> None)"

text \<open>The headers of a request, where they are visible ASCII.\<close>

record auth_headers =
  hd_authorization :: "string option"
  hd_cookie :: "string option"

definition extract_token_from_header :: "auth_headers \<Rightarrow> string option" where
  "extract_token_from_header h = Option.bind (hd_authorization h) extract_bearer_token"

fun find_cookie :: "string \<Rightarrow> string list \<Rightarrow> string option" where
  "find_cookie name [] = None"
| "find_cookie name (c # cs) =
     (case split_once CHR ''='' (trim c) of
        Some (n, v) \<Rightarrow> (if n = name then Some v else find_cookie name cs)
      | None \<Rightarrow> find_cookie name cs)"

definition extract_token_from_cookie :: "outside \<Rightarrow> auth_headers \<Rightarrow> string option" where
  "extract_token_from_cookie X h =
     Option.bind (hd_cookie h)
       (\<lambda>s. find_cookie (get_env_with_default X ''JWT_COOKIE_NAME'' ''auth_token'') (split_char CHR '';'' s))"

definition request_token :: "outside \<Rightarrow> auth_headers \<Rightarrow> string option" where
  "request_token X h =
     (let allow_cookie = get_env_bool X ''JWT_ALLOW_COOKIE_AUTH'' False;
          force_cookie = get_env_bool X ''JWT_FORCE_COOKIE_AUTH'' False
      in if allow_cookie \<and> force_cookie then extract_token_from_cookie X h
         else if allow_cookie then
           (case extract_token_from_header h of Some t \<Rightarrow> Some t | None \<Rightarrow> extract_token_from_cookie X h)
         else extract_token_from_header h)"

subsection \<open>Codes of the second factor\<close>

definition is_legacy_totp_secret :: "string \<Rightarrow> bool" where
  "is_legacy_totp_secret secret \<longleftrightarrow> length secret = 8 \<and> list_all is_ascii_digit secret"

definition verify_totp_code :: "outside \<Rightarrow> string \<Rightarrow> string \<Rightarrow> string + bool" where
  "verify_totp_code X secret code =
     (let legacy = is_legacy_totp_secret secret; expected_digits = (if legacy then 8 else 6)
      in if length code \<noteq> expected_digits \<or> \<not> list_all is_ascii_digit code then Inr False
         else
           bindE (if legacy then Inr (as_bytes secret)
                  else ok_orE ''invalid Base32 TOTP secret'' (x_base32 X (to_ascii_uppercase (trim secret)))) (\<lambda>key.
           if \<not> legacy \<and> \<not> x_totp_config X expected_digits key then Inl ''invalid TOTP configuration''
           else ok_orE ''could not read system time for TOTP verification''
             (x_totp_check X legacy expected_digits key (x_now X) code)))"

subsection \<open>The authorization middleware\<close>

definition fetch_active_user_from_subject :: "outside \<Rightarrow> string \<Rightarrow> auth_db \<Rightarrow> account option" where
  "fetch_active_user_from_subject X subject d =
     (case x_parse_uuid X subject of
        Some u \<Rightarrow> fetch_active_user_by_id_from_db u d
      | None \<Rightarrow> fetch_active_user_by_email_from_db subject d)"

definition cached_rate :: "int \<Rightarrow> uuid \<times> int \<Rightarrow> auth_db \<Rightarrow> cached_rate_limit option" where
  "cached_rate now k d = map_option (\<lambda>e. fst (snd e)) (find (\<lambda>e. fst e = k \<and> snd (snd e) > now) (a_rates d))"

definition cache_rate :: "int \<Rightarrow> uuid \<times> int \<Rightarrow> cached_rate_limit \<Rightarrow> auth_db \<Rightarrow> auth_db" where
  "cache_rate now k r d = d\<lparr>a_rates := (k, r, now + 300) # filter (\<lambda>e. fst e \<noteq> k) (a_rates d)\<rparr>"

definition updS :: "('s \<Rightarrow> 's) \<Rightarrow> ('s, unit) action" where
  "updS f s = (Inr (), f s)"

definition getS :: "('s \<Rightarrow> 'a) \<Rightarrow> ('s, 'a) action" where
  "getS f s = (Inr (f s), s)"

lemma updS_Inr [action_simps]: "updS f s = (Inr u, s') \<longleftrightarrow> s' = f s"
  by (auto simp: updS_def)

lemma getS_Inr [action_simps]: "getS f s = (Inr y, s') \<longleftrightarrow> y = f s \<and> s' = s"
  by (auto simp: getS_def)

lemma stays_getS [stays_intros]: "preorder_on_states R \<Longrightarrow> stays R (getS f)"
  by (simp add: stays_def getS_def preorder_on_states_def)

lemma stays_updS: "(\<And>s. R s (f s)) \<Longrightarrow> stays R (updS f)"
  by (simp add: stays_def updS_def)

definition check_rate_limit :: "outside \<Rightarrow> uuid \<Rightarrow> int \<Rightarrow> (auth_db, unit) action" where
  "check_rate_limit X u tier =
     bindS (getS (cached_rate (x_now X) (u, tier))) (\<lambda>cached.
     case cached of
       Some c \<Rightarrow>
         bindS (guardS (rl_request_count c \<ge> rl_tier_limit c) (api_err 429 ''Rate limit exceeded'')) (\<lambda>_.
         updS (cache_rate (x_now X) (u, tier) (c\<lparr>rl_request_count := rl_request_count c + 1\<rparr>)))
     | None \<Rightarrow>
         bindS (readS X QTierLimit (api_err 500 ''Failed to fetch tier information'')
                 (\<lambda>d. find (\<lambda>t. tq_level t = tier) (a_tiers d))) (\<lambda>row.
         bindS (liftE (ok_orE (api_err 500 ''Failed to fetch tier information'') row)) (\<lambda>t.
         bindS (readS X QUsageCount (api_err 500 ''Failed to count user requests'')
                 (\<lambda>d. int (length (filter (\<lambda>r. ug_user_id r = u \<and> ug_at r > x_now X - 86400) (a_usage d))))) (\<lambda>request_count.
         bindS (updS (cache_rate (x_now X) (u, tier)
                 \<lparr>rl_tier_limit = tq_requests_per_day t, rl_request_count = request_count\<rparr>)) (\<lambda>_.
         guardS (request_count \<ge> tq_requests_per_day t) (api_err 429 ''Rate limit exceeded''))))))"

definition queue_usage :: "uuid \<Rightarrow> string \<Rightarrow> auth_db \<Rightarrow> auth_db" where
  "queue_usage u path d = (if length (a_queue d) < 50000 then d\<lparr>a_queue := a_queue d @ [(u, path)]\<rparr> else d)"

definition authorize :: "outside \<Rightarrow> int list \<Rightarrow> auth_headers \<Rightarrow> string \<Rightarrow> (auth_db, account) action" where
  "authorize X allowed_roles h path =
     bindS (liftE (ok_orE (api_err 401 ''Authorization token missing.'') (request_token X h))) (\<lambda>token.
     bindS (liftE (decode_jwt X token)) (\<lambda>c.
     bindS (readS X QUser (api_err 401 ''Unauthorized user.'') (fetch_active_user_from_subject X (cl_sub c))) (\<lambda>found.
     bindS (liftE (ok_orE (api_err 401 ''User not found.'') found)) (\<lambda>u.
     bindS (guardS (us_role_level u \<notin> set allowed_roles) (api_err 403 ''Forbidden: insufficient role.'')) (\<lambda>_.
     bindS (check_rate_limit X (us_id u) (us_tier_level u)) (\<lambda>_.
     bindS (updS (queue_usage (us_id u) path)) (\<lambda>_. okS u)))))))"

definition optional_authorize :: "outside \<Rightarrow> auth_headers \<Rightarrow> auth_db \<Rightarrow> account option" where
  "optional_authorize X h d =
     Option.bind (request_token X h) (\<lambda>token.
       (case decode_jwt X token of
          Inl _ \<Rightarrow> None
        | Inr c \<Rightarrow> (if x_up X QUser then fetch_active_user_from_subject X (cl_sub c) d else None)))"

text \<open>The batched writer of the usage table; an endpoint is cut at a character boundary of at most 255 bytes, the whole
  batch fails when one of its users is gone, and the queue is emptied either way.\<close>

definition is_continuation :: "char \<Rightarrow> bool" where
  "is_continuation c \<longleftrightarrow> 128 \<le> (of_char c :: nat) \<and> (of_char c :: nat) < 192"

fun boundary_below :: "string \<Rightarrow> nat \<Rightarrow> nat" where
  "boundary_below s 0 = 0"
| "boundary_below s (Suc n) =
     (if Suc n = length s \<or> Suc n < length s \<and> \<not> is_continuation (s ! Suc n) then Suc n else boundary_below s n)"

definition usage_endpoint :: "string \<Rightarrow> string" where
  "usage_endpoint path = (if length path > 255 then take (boundary_below path 255) path else path)"

definition flush_usage_queue :: "bool \<Rightarrow> int \<Rightarrow> auth_db \<Rightarrow> auth_db" where
  "flush_usage_queue inserted now d =
     (let rows = map (\<lambda>(u, path). \<lparr>ug_user_id = u, ug_endpoint = usage_endpoint path, ug_at = now div 86400 * 86400\<rparr>) (a_queue d)
      in if inserted \<and> list_all (\<lambda>r. has_user d (ug_user_id r)) rows
         then d\<lparr>a_usage := a_usage d @ rows, a_queue := []\<rparr> else d\<lparr>a_queue := []\<rparr>)"

subsection \<open>The answer of a completed sign-in\<close>

record login_response =
  lr_headers :: "(string \<times> string) list"
  lr_body :: json

definition samesite_flags :: "outside \<Rightarrow> string \<times> string" where
  "samesite_flags X =
     (let v = to_ascii_lowercase (get_env_with_default X ''JWT_COOKIE_SAMESITE'' ''Lax'')
      in if v = ''none'' \<and> get_env_bool X ''SERVER_HTTPS_ENABLED'' False then (''SameSite=None;'', ''Secure;'')
         else if v = ''strict'' then (''SameSite=Strict;'', [])
         else (''SameSite=Lax;'', []))"

definition auth_cookie :: "outside \<Rightarrow> string \<Rightarrow> string" where
  "auth_cookie X token =
     get_env_with_default X ''JWT_COOKIE_NAME'' ''auth_token'' @ ''='' @ token @ ''; HttpOnly; Path=/; Max-Age=''
       @ nat_str (get_env_u64 X ''JWT_COOKIE_MAX_AGE'' 604800) @ ''; '' @ snd (samesite_flags X) @ fst (samesite_flags X)"

definition internal_error :: api_error where
  "internal_error = api_err 500 ''Internal server error.''"

definition issue_login_response :: "outside \<Rightarrow> uuid \<Rightarrow> api_error + login_response" where
  "issue_login_response X u =
     bindE (map_errE (\<lambda>_. internal_error) (encode_jwt X (x_uuid X u))) (\<lambda>token.
     let no_store = (''Cache-Control'', ''no-store''); cookie = (''set-cookie'', auth_cookie X token)
     in if get_env_bool X ''JWT_FORCE_COOKIE_AUTH'' False
        then Inr \<lparr>lr_headers = [no_store, cookie], lr_body = JObj [(''success'', JBool True)]\<rparr>
        else Inr \<lparr>lr_headers = no_store # (if get_env_bool X ''JWT_ALLOW_COOKIE_AUTH'' False then [cookie] else [])
                   @ [(''Authorization'', ''Bearer '' @ token)],
                 lr_body = JObj [(''access_token'', JStr token), (''token_type'', JStr ''Bearer'')]\<rparr>)"

text \<open>Every sign-in handler ends in one of these: a token, a redirect to the application with the token in a cookie, or
  the challenge of the second factor, as a body or as a parameter of the redirect.\<close>

datatype auth_answer =
    SignedIn login_response
  | SignedInAt string "(string \<times> string) list"
  | Challenged uuid int
  | ChallengedAt string "(string \<times> string) list"
  | Done json

subsection \<open>Signing in with a password or an API key\<close>

definition incorrect_credentials :: api_error where
  "incorrect_credentials = api_err 401 ''Incorrect credentials.''"

definition MAX_TOTP_ATTEMPTS :: int where
  "MAX_TOTP_ATTEMPTS = 5"

definition any_api_key_valid :: "outside \<Rightarrow> string \<Rightarrow> api_key list \<Rightarrow> bool" where
  "any_api_key_valid X password keys = list_ex (\<lambda>k. x_verify_hash X password (ak_key_hash k) = Some True) keys"

definition login :: "outside \<Rightarrow> string \<Rightarrow> string \<Rightarrow> (auth_db, auth_answer) action" where
  "login X email password =
     bindS (readS X QUser incorrect_credentials (fetch_active_user_by_email_from_db email)) (\<lambda>found.
     bindS (liftE (ok_orE incorrect_credentials found)) (\<lambda>u.
     bindS (readS X QKeys internal_error (fetch_active_apikeys_by_user_id_from_db (today X) (us_id u))) (\<lambda>keys.
     bindS (liftE (ok_orE incorrect_credentials (x_verify_hash X password (ac_password_hash u)))) (\<lambda>password_valid.
     bindS (guardS (\<not> (any_api_key_valid X password keys \<or> password_valid)) incorrect_credentials) (\<lambda>_.
     if ac_totp_secret u \<noteq> None
     then bindS (create_login_challenge X internal_error (us_id u) (x_now X + 300)) (\<lambda>c.
          okS (Challenged (lc_id c) (lc_expires_at c)))
     else bindS (liftE (issue_login_response X (us_id u))) (\<lambda>r. okS (SignedIn r)))))))"

text \<open>The second step. A challenge is not filtered by expiry when it is read; the handler refuses and drops an expired
  one.\<close>

definition login_totp :: "outside \<Rightarrow> uuid \<Rightarrow> string \<Rightarrow> (auth_db, auth_answer) action" where
  "login_totp X challenge_id code =
     bindS (readS X QChallenge internal_error (fetch_login_challenge challenge_id)) (\<lambda>found.
     bindS (liftE (ok_orE (api_err 400 ''Invalid login challenge.'') found)) (\<lambda>c.
     if lc_expires_at c < x_now X
     then bindS (tryS X QDropChallenge (delete_login_challenge (lc_id c))) (\<lambda>_.
          failS (api_err 400 ''Login challenge expired.''))
     else
       bindS (readS X QUser internal_error (fetch_active_user_by_id_from_db (lc_user_id c))) (\<lambda>row.
       bindS (liftE (ok_orE incorrect_credentials row)) (\<lambda>u.
       bindS (liftE (ok_orE (api_err 400 ''2FA is not enabled for this account.'') (ac_totp_secret u))) (\<lambda>secret.
       bindS (liftE (map_errE (\<lambda>_. internal_error) (verify_totp_code X secret code))) (\<lambda>totp_valid.
       if \<not> totp_valid
       then
         bindS (record_failed_attempt X internal_error (lc_id c) MAX_TOTP_ATTEMPTS) (\<lambda>recorded.
         let attempts = (case recorded of Some n \<Rightarrow> n | None \<Rightarrow> MAX_TOTP_ATTEMPTS)
         in failS (if attempts \<ge> MAX_TOTP_ATTEMPTS
              then api_err 429 ''Too many invalid codes. Sign in with your password again.''
              else api_err 401 ''Invalid 2FA code.''))
       else
         bindS (tryS X QDropChallenge (delete_login_challenge (lc_id c))) (\<lambda>_.
         bindS (liftE (issue_login_response X (us_id u))) (\<lambda>r. okS (SignedIn r)))))))))"

end
