(* ===== verification/Totp.thy ===== *)
theory Totp
  imports Login
begin

text \<open>
  Enrolling, confirming, disabling and resetting the second factor: \<open>src/src/handlers/totp.rs\<close>.  The failures of
  disabling are counted in Redis.
\<close>

definition MAX_CONFIRM_ATTEMPTS :: int where
  "MAX_CONFIRM_ATTEMPTS = 5"

definition no_store_headers :: "(string \<times> string) list" where
  "no_store_headers = [(''cache-control'', ''no-store'')]"

record totp_status =
  ts_enabled :: bool
  ts_setup_pending :: bool

definition totp_unavailable :: api_error where
  "totp_unavailable = api_err 503 ''TOTP verification is temporarily unavailable.''"

subsection \<open>The counter of failed disabling\<close>

definition live_count :: "int \<Rightarrow> uuid \<Rightarrow> auth_db \<Rightarrow> (int \<times> int option) option" where
  "live_count now u d =
     map_option snd (find (\<lambda>e. fst e = u \<and> (case snd (snd e) of None \<Rightarrow> True | Some t \<Rightarrow> t > now)) (a_disable d))"

definition put_count :: "uuid \<Rightarrow> int \<times> int option \<Rightarrow> auth_db \<Rightarrow> auth_db" where
  "put_count u v d = d\<lparr>a_disable := (u, v) # filter (\<lambda>e. fst e \<noteq> u) (a_disable d)\<rparr>"

definition disable_attempts :: "outside \<Rightarrow> uuid \<Rightarrow> (auth_db, int) action" where
  "disable_attempts X u =
     readS X QRedisGet totp_unavailable
       (\<lambda>d. case live_count (x_now X) u d of Some (n, _) \<Rightarrow> n | None \<Rightarrow> 0)"

text \<open>\<open>INCR\<close> creates the key without an expiry; \<open>EXPIRE\<close> is a second call.\<close>

definition incr_count :: "int \<Rightarrow> uuid \<Rightarrow> auth_db \<Rightarrow> db_error + int \<times> auth_db" where
  "incr_count now u d =
     (case live_count now u d of
        Some (n, e) \<Rightarrow> Inr (n + 1, put_count u (n + 1, e) d)
      | None \<Rightarrow> Inr (1, put_count u (1, None) d))"

definition expire_count :: "int \<Rightarrow> uuid \<Rightarrow> auth_db \<Rightarrow> auth_db" where
  "expire_count now u d =
     (case live_count now u d of Some (n, _) \<Rightarrow> put_count u (n, Some (now + 300)) d | None \<Rightarrow> d)"

definition record_disable_failure :: "outside \<Rightarrow> uuid \<Rightarrow> (auth_db, int) action" where
  "record_disable_failure X u =
     bindS (writeS X QRedisSet (\<lambda>_. totp_unavailable) (incr_count (x_now X) u)) (\<lambda>attempts.
     if attempts = 1
     then bindS (writeS X QRedisExpire (\<lambda>_. totp_unavailable) (plain (expire_count (x_now X) u))) (\<lambda>_. okS attempts)
     else okS attempts)"

definition clear_disable_failures :: "outside \<Rightarrow> uuid \<Rightarrow> (auth_db, unit) action" where
  "clear_disable_failures X u = tryS X QRedisSet (\<lambda>d. d\<lparr>a_disable := filter (\<lambda>e. fst e \<noteq> u) (a_disable d)\<rparr>)"

subsection \<open>Handlers\<close>

definition get_totp_status :: "outside \<Rightarrow> account \<Rightarrow> (auth_db, totp_status) action" where
  "get_totp_status X me =
     bindS (readS X QEnrollment (api_err 500 ''Could not read TOTP status.'') (fetch_enrollment (us_id me))) (\<lambda>pending.
     okS \<lparr>ts_enabled = (ac_totp_secret me \<noteq> None),
       ts_setup_pending = (case pending of
           Some e \<Rightarrow> te_expires_at e > x_now X \<and> te_attempts e < MAX_CONFIRM_ATTEMPTS | None \<Rightarrow> False)\<rparr>)"

definition setup_totp :: "outside \<Rightarrow> account \<Rightarrow> (auth_db, string \<times> string \<times> int) action" where
  "setup_totp X me =
     (let could_not = api_err 500 ''Could not start TOTP setup.'';
          secret = x_totp_secret X;
          label = (case us_email me of Some e \<Rightarrow> e | None \<Rightarrow> us_username me);
          expires_at = x_now X + 600
      in bindS (guardS (ac_totp_secret me \<noteq> None) (api_err 409 ''TOTP is already enabled for this account.'')) (\<lambda>_.
         bindS (liftE (ok_orE could_not (x_totp_uri X label secret))) (\<lambda>uri.
         bindS (writeS X QAddEnrollment (\<lambda>_. could_not) (upsert_enrollment (us_id me) secret expires_at)) (\<lambda>_.
         okS (secret, uri, expires_at)))))"

definition confirm_totp :: "outside \<Rightarrow> account \<Rightarrow> string \<Rightarrow> (auth_db, totp_status) action" where
  "confirm_totp X me totp =
     (let could_not = api_err 500 ''Could not confirm TOTP setup.'' in
      bindS (guardS (ac_totp_secret me \<noteq> None) (api_err 409 ''TOTP is already enabled for this account.'')) (\<lambda>_.
      bindS (readS X QEnrollment could_not (fetch_enrollment (us_id me))) (\<lambda>found.
      bindS (liftE (ok_orE (api_err 404 ''No pending TOTP setup was found.'') found)) (\<lambda>pending.
      if te_expires_at pending \<le> x_now X
      then bindS (tryS X QDropEnrollment (delete_enrollment (us_id me))) (\<lambda>_.
           failS (api_err 410 ''TOTP setup expired. Start it again.''))
      else
        bindS (liftE (map_errE (\<lambda>_. could_not) (verify_totp_code X (te_secret pending) (trim totp)))) (\<lambda>valid.
        if \<not> valid
        then
          bindS (record_failed_confirmation X could_not (us_id me) MAX_CONFIRM_ATTEMPTS) (\<lambda>recorded.
          let attempts = (case recorded of Some n \<Rightarrow> n | None \<Rightarrow> MAX_CONFIRM_ATTEMPTS)
          in failS (if attempts \<ge> MAX_CONFIRM_ATTEMPTS
               then api_err 429 ''Too many invalid codes. Start TOTP setup again.''
               else api_err 401 ''Invalid TOTP code.''))
        else
          bindS (writeS X QActivate (\<lambda>_. api_err 500 ''Could not enable TOTP.'')
                  (activate_enrollment (x_now X) (us_id me) (te_secret pending))) (\<lambda>activated.
          bindS (guardS (\<not> activated) (api_err 409 ''TOTP setup changed. Start it again.'')) (\<lambda>_.
          okS \<lparr>ts_enabled = True, ts_setup_pending = False\<rparr>)))))))"

definition disable_totp :: "outside \<Rightarrow> account \<Rightarrow> string \<Rightarrow> (auth_db, totp_status) action" where
  "disable_totp X me totp =
     (let too_many = api_err 429 ''Too many invalid codes. Try again later.'' in
      bindS (liftE (ok_orE (api_err 400 ''TOTP is not enabled for this account.'') (ac_totp_secret me))) (\<lambda>secret.
      bindS (disable_attempts X (us_id me)) (\<lambda>attempts.
      bindS (guardS (attempts \<ge> MAX_CONFIRM_ATTEMPTS) too_many) (\<lambda>_.
      bindS (liftE (map_errE (\<lambda>_. api_err 500 ''Could not disable TOTP.'') (verify_totp_code X secret (trim totp)))) (\<lambda>valid.
      if \<not> valid
      then
        bindS (record_disable_failure X (us_id me)) (\<lambda>attempts.
        failS (if attempts \<ge> MAX_CONFIRM_ATTEMPTS then too_many else api_err 401 ''Invalid TOTP code.''))
      else
        bindS (writeS X QDisable (\<lambda>_. api_err 500 ''Could not disable TOTP.'') (disable_second_factor (us_id me))) (\<lambda>_.
        bindS (clear_disable_failures X (us_id me)) (\<lambda>_.
        okS \<lparr>ts_enabled = False, ts_setup_pending = False\<rparr>)))))))"

definition reset_user_totp :: "outside \<Rightarrow> string \<Rightarrow> (auth_db, totp_status) action" where
  "reset_user_totp X ident =
     bindS (liftE (ok_orE (api_err 400 ''Invalid user ID.'') (x_parse_uuid X ident))) (\<lambda>u.
     bindS (writeS X QDisable (\<lambda>_. api_err 500 ''Could not reset TOTP.'') (disable_second_factor u)) (\<lambda>found.
     bindS (guardS (\<not> found) (api_err 404 ''User not found.'')) (\<lambda>_.
     bindS (clear_disable_failures X u) (\<lambda>_.
     okS \<lparr>ts_enabled = False, ts_setup_pending = False\<rparr>))))"

end
