(* ===== verification/Registration.thy ===== *)
theory Registration
  imports Totp
begin

text \<open>
  The life of an account: registration by e-mail, adding an address, password reset, creation by an administrator,
  profile and status changes, deletion: \<open>src/src/handlers/post_users.rs\<close>, \<open>patch_users.rs\<close>, \<open>delete_users.rs\<close>, \<open>get_users.rs\<close>,
  \<open>preferences.rs\<close> and the validators of \<open>src/src/utils/validate.rs\<close>.  The format check of the \<open>validator\<close> crate for
  addresses is \<open>x_email_format\<close>.
\<close>

subsection \<open>Validators\<close>

definition validate_username :: "string \<Rightarrow> bool" where
  "validate_username s \<longleftrightarrow> s \<noteq> [] \<and> list_all (\<lambda>c. is_ascii_alnum c \<or> c = CHR ''_'' \<or> c = CHR ''-'') s"

definition length_between :: "nat \<Rightarrow> nat \<Rightarrow> string \<Rightarrow> bool" where
  "length_between lo hi s \<longleftrightarrow>
     (let n = length (filter (\<lambda>c. \<not> is_continuation c) s) in lo \<le> n \<and> n \<le> hi)"

definition listed_char :: "char \<Rightarrow> bool" where
  "listed_char c \<longleftrightarrow> is_ascii_alnum c \<or> c \<in> set (''!@#$%^&*()_+-=[]{};:|,.<>/?'' @ [CHR 0x27])"

definition special_char :: "char \<Rightarrow> bool" where
  "special_char c \<longleftrightarrow> c \<in> set (''!@#$%^&*()_+-=[]{};:|,.<>/?'' @ [CHR 0x27, CHR 0x22, CHR 0x5C])"

definition validate_password :: "string \<Rightarrow> string + unit" where
  "validate_password s =
     bindE (deny (length s < 8) ''Password too short. Minimum length is 8 characters.'') (\<lambda>_.
     bindE (deny (\<not> list_all listed_char s) ''Password contains invalid characters. Only alphanumeric characters and special characters are allowed.'') (\<lambda>_.
     bindE (deny (\<not> list_ex is_upper s) ''Password must contain an uppercase letter.'') (\<lambda>_.
     bindE (deny (\<not> list_ex is_lower s) ''Password must contain a lowercase letter.'') (\<lambda>_.
     bindE (deny (\<not> list_ex is_ascii_digit s) ''Password must contain a number.'') (\<lambda>_.
     deny (\<not> list_ex special_char s) ''Password must contain at least one special character.'')))))"

text \<open>\<open>years_ago\<close> is the same day 120 years earlier, or 1 January 1900 when that day does not exist.\<close>

definition validate_birthday :: "int \<Rightarrow> int \<Rightarrow> int \<Rightarrow> bool" where
  "validate_birthday years_ago day birthday \<longleftrightarrow> years_ago \<le> birthday \<and> birthday \<le> day"

subsection \<open>Mail\<close>

definition send_mail :: "outside \<Rightarrow> api_error \<Rightarrow> string \<Rightarrow> string \<Rightarrow> (auth_db, unit) action" where
  "send_mail X e recipient body = writeS X QMail (\<lambda>_. e) (plain (\<lambda>d. d\<lparr>a_sent := a_sent d @ [(recipient, body)]\<rparr>))"

definition six_digits :: "nat \<Rightarrow> string" where
  "six_digits n = (let s = nat_str n in replicate (6 - length s) CHR ''0'' @ s)"

definition NL :: string where
  "NL = [CHR 0x0A]"

definition unique_violation :: "db_error option \<Rightarrow> bool" where
  "unique_violation e = (case e of Some (UniqueViolation _) \<Rightarrow> True | _ \<Rightarrow> False)"

subsection \<open>Registration\<close>

definition require_public_registration :: "outside \<Rightarrow> (auth_db, unit) action" where
  "require_public_registration X =
     bindS (readS X QSettings (api_err 500 ''Could not read server settings.'') (load_settings X)) (\<lambda>s.
     guardS (\<not> ss_public_registration_enabled s)
       (403, JObj [(''code'', JStr ''registration_disabled''), (''error'', JStr ''Public registration is disabled.'')]))"

definition verification_mail :: "string \<Rightarrow> string" where
  "verification_mail code =
     ''Welcome! Please verify your email by using this code: '' @ code @ NL @ NL @ ''This code will expire in 10 minutes.''"

definition post_user_register :: "outside \<Rightarrow> string \<Rightarrow> (auth_db, unit) action" where
  "post_user_register X email =
     (let code = six_digits (x_code X) in
      bindS (require_public_registration X) (\<lambda>_.
      bindS (guardS (\<not> x_email_format X email) (api_err 400 [])) (\<lambda>_.
      bindS (readS X QExists (api_err 500 ''Database error'') (check_user_exists_by_email email)) (\<lambda>exists.
      bindS (guardS exists (api_err 409 ''Email already exists.'')) (\<lambda>_.
      bindS (writeS X QCode (\<lambda>_. api_err 500 ''Failed to create pending registration.'')
              (upsert_pending_registration email code (x_now X + 600))) (\<lambda>_.
      send_mail X (api_err 500 ''Failed to send verification email.'') email (verification_mail code)))))))"

definition post_user_register_verify :: "outside \<Rightarrow> string \<Rightarrow> string \<Rightarrow> (auth_db, string \<times> int) action" where
  "post_user_register_verify X email code =
     (let completion_token = x_random X 48; completion_expires_at = x_now X + 1800 in
      bindS (require_public_registration X) (\<lambda>_.
      bindS (readS X QUser (api_err 500 ''Database error.'') (fetch_pending_registration_by_email email)) (\<lambda>found.
      bindS (liftE (ok_orE (api_err 404 ''Pending registration not found.'') found)) (\<lambda>pending.
      bindS (guardS (pn_verification_code pending \<noteq> code) (api_err 400 ''Invalid code.'')) (\<lambda>_.
      bindS (guardS (x_now X > pn_verification_expires_at pending) (api_err 410 ''Verification code expired.'')) (\<lambda>_.
      bindS (writeS X QMark (\<lambda>_. api_err 500 ''Failed to update verification status.'')
              (mark_pending_registration_verified (x_now X) email code completion_token completion_expires_at)) (\<lambda>updated.
      bindS (guardS (\<not> updated) (api_err 400 ''Invalid or expired code.'')) (\<lambda>_.
      okS (completion_token, completion_expires_at)))))))))"

record registration_form =
  rf_email :: string
  rf_completion_token :: string
  rf_username :: string
  rf_password :: string
  rf_totp :: "bool option"

definition post_user_register_complete :: "outside \<Rightarrow> registration_form \<Rightarrow> (auth_db, auth_answer) action" where
  "post_user_register_complete X f =
     bindS (require_public_registration X) (\<lambda>_.
     bindS (guardS (rf_totp f = Some True)
             (api_err 400 ''Complete registration first, then enable TOTP from security settings.'')) (\<lambda>_.
     bindS (guardS (\<not> (x_email_format X (rf_email f) \<and> length_between 3 50 (rf_username f)
                      \<and> validate_username (rf_username f) \<and> validate_password (rf_password f) = Inr ()))
             (api_err 400 ''Invalid fields'')) (\<lambda>_.
     bindS (readS X QExists (api_err 500 ''Database error'') (check_user_exists_in_db (rf_email f) (rf_username f))) (\<lambda>existence.
     bindS (guardS (fst existence) (api_err 409 ''Email already exists.'')) (\<lambda>_.
     bindS (guardS (snd existence) (api_err 409 ''Username already exists.'')) (\<lambda>_.
     bindS (readS X QUser (api_err 500 ''Database error.'') (fetch_pending_registration_by_email (rf_email f))) (\<lambda>found.
     bindS (liftE (ok_orE (api_err 404 ''Pending registration not found.'') found)) (\<lambda>pending.
     bindS (guardS (pn_verified_at pending = None) (api_err 400 ''Email not verified.'')) (\<lambda>_.
     bindS (guardS (pn_completion_token pending \<noteq> Some (rf_completion_token f)) (api_err 400 ''Invalid completion token.'')) (\<lambda>_.
     bindS (guardS (case pn_completion_expires_at pending of None \<Rightarrow> True | Some t \<Rightarrow> x_now X > t)
             (api_err 410 ''Completion token expired.'')) (\<lambda>_.
     bindS (liftE (ok_orE (api_err 500 ''Failed to hash password.'') (x_hash X (rf_password f)))) (\<lambda>hashed.
     bindS (writeS X QInsertUser (\<lambda>e. if unique_violation e then api_err 409 ''Email or username already exists.''
                                   else api_err 500 ''Failed to create user.'')
             (insert_user_into_db X (rf_username f) (rf_email f) hashed None 1 1)) (\<lambda>new_user.
     bindS (writeS X QForget (\<lambda>_. api_err 500 ''Failed to cleanup pending registration.'')
             (plain (delete_pending_registration (rf_email f)))) (\<lambda>_.
     bindS (liftE (issue_login_response X (us_id new_user))) (\<lambda>r. okS (SignedIn r))))))))))))))))"

end
