(* ===== verification/Profile.thy ===== *)
theory Profile
  imports Registration Uploads
begin

text \<open>
  Changing an account that exists: \<open>src/src/handlers/post_users.rs\<close> (adding an address, creation by an administrator,
  profile picture, password reset), \<open>patch_users.rs\<close>, \<open>delete_users.rs\<close>, \<open>get_users.rs\<close> and \<open>preferences.rs\<close>.  Object
  storage appears here only by the answers of its calls.
\<close>

definition quoted :: "string \<Rightarrow> string \<Rightarrow> string \<Rightarrow> string" where
  "quoted start x after = start @ [CHR 0x27] @ x @ [CHR 0x27] @ after"

subsection \<open>Adding an address\<close>

definition request_current_user_email :: "outside \<Rightarrow> account \<Rightarrow> string \<Rightarrow> (auth_db, unit) action" where
  "request_current_user_email X me body =
     (let email = to_ascii_lowercase (trim body); code = six_digits (x_code X) in
      bindS (guardS (us_email me \<noteq> None) (api_err 409 ''Account already has an email.'')) (\<lambda>_.
      bindS (guardS (\<not> x_email_format X body) (api_err 400 ''Invalid email'')) (\<lambda>_.
      bindS (readS X QExists (api_err 500 ''Could not check email availability.'') (check_user_exists_by_email email)) (\<lambda>exists.
      bindS (guardS exists (api_err 409 ''Email already exists.'')) (\<lambda>_.
      bindS (writeS X QCode
              (\<lambda>e. api_err (if unique_violation e then 409 else 500) ''Could not start email verification.'')
              (upsert_user_email_verification (us_id me) email code (x_now X + 600))) (\<lambda>_.
      send_mail X (api_err 500 ''Failed to send verification email.'') email
        (''Use this code to add the email to your Nezumo account: '' @ code @ NL @ NL
         @ ''This code will expire in 10 minutes.'')))))))"

definition verify_current_user_email :: "outside \<Rightarrow> account \<Rightarrow> string \<Rightarrow> string \<Rightarrow> (auth_db, unit) action" where
  "verify_current_user_email X me email code =
     bindS (guardS (us_email me \<noteq> None) (api_err 409 ''Account already has an email.'')) (\<lambda>_.
     bindS (guardS (\<not> (x_email_format X email \<and> length_between 6 6 code)) (api_err 400 ''Invalid fields'')) (\<lambda>_.
     bindS (writeS X QTakeCode (\<lambda>e. api_err (if unique_violation e then 409 else 500) ''Could not verify email.'')
             (verify_and_set_user_email (x_now X) (us_id me) (to_ascii_lowercase (trim email)) (trim code))) (\<lambda>updated.
     guardS (\<not> updated) (api_err 400 ''Invalid or expired verification code.''))))"

subsection \<open>Creation by an administrator\<close>

record user_form =
  uf_username :: string
  uf_email :: string
  uf_password :: string
  uf_totp :: "bool option"
  uf_first_name :: "string option"
  uf_last_name :: "string option"
  uf_country_code :: "string option"
  uf_language_code :: "string option"
  uf_birthday :: "int option"
  uf_description :: "string option"
  uf_profile_picture_url :: "string option"

definition opt_ok :: "('a \<Rightarrow> bool) \<Rightarrow> 'a option \<Rightarrow> bool" where
  "opt_ok ok v \<longleftrightarrow> (case v of None \<Rightarrow> True | Some x \<Rightarrow> ok x)"

definition country_ok :: "outside \<Rightarrow> string \<Rightarrow> bool" where
  "country_ok X c \<longleftrightarrow> c \<in> set (x_countries X) \<and> length_between 2 2 c"

definition language_ok :: "outside \<Rightarrow> string \<Rightarrow> bool" where
  "language_ok X c \<longleftrightarrow> c \<in> set (x_languages X) \<and> length_between 2 5 c"

text \<open>\<open>is_url\<close> is the URL check of the \<open>validator\<close> crate.\<close>

definition user_form_ok :: "outside \<Rightarrow> (string \<Rightarrow> bool) \<Rightarrow> user_form \<Rightarrow> bool" where
  "user_form_ok X is_url f \<longleftrightarrow>
     length_between 3 50 (uf_username f) \<and> validate_username (uf_username f) \<and> x_email_format X (uf_email f)
     \<and> validate_password (uf_password f) = Inr () \<and> opt_ok (length_between 1 50) (uf_first_name f)
     \<and> opt_ok (length_between 1 50) (uf_last_name f) \<and> opt_ok (country_ok X) (uf_country_code f)
     \<and> opt_ok (language_ok X) (uf_language_code f)
     \<and> opt_ok (validate_birthday (x_earliest_birthday X) (today X)) (uf_birthday f)
     \<and> opt_ok (length_between 0 1000) (uf_description f) \<and> opt_ok is_url (uf_profile_picture_url f)"

definition post_user :: "outside \<Rightarrow> (string \<Rightarrow> bool) \<Rightarrow> user_form \<Rightarrow> (auth_db, account) action" where
  "post_user X is_url f =
     bindS (guardS (uf_totp f = Some True) (api_err 400 ''TOTP must be enabled by the user from security settings.'')) (\<lambda>_.
     bindS (guardS (\<not> user_form_ok X is_url f) (api_err 400 ''Invalid fields'')) (\<lambda>_.
     bindS (liftE (ok_orE (api_err 500 ''Failed to hash password.'') (x_hash X (uf_password f)))) (\<lambda>hashed.
     writeS X QInsertUser (\<lambda>_. api_err 500 ''Could not create the user.'')
       (insert_user_into_db X (uf_username f) (uf_email f) hashed None 1 1))))"

subsection \<open>Profile pictures\<close>

text \<open>The caller's own account is \<open>current\<close> or its id in text; only an administrator names another.\<close>

definition picture_target :: "outside \<Rightarrow> account \<Rightarrow> string \<Rightarrow> api_error + uuid" where
  "picture_target X me ident =
     (if ident = ''current'' then Inr (us_id me)
      else bindE (deny (us_role_level me \<noteq> 2 \<and> ident \<noteq> x_uuid X (us_id me))
             (api_err 403 ''You do not have permission to upload for this user.'')) (\<lambda>_.
           ok_orE (api_err 400 ''Invalid UUID format.'') (x_parse_uuid X ident)))"

definition picture_bucket :: "outside \<Rightarrow> string" where
  "picture_bucket X = get_env_with_default X ''STORAGE_BUCKET_PROFILE_PICTURES'' ''profile_pictures''"

definition accept_picture :: "outside \<Rightarrow> multipart_field \<Rightarrow> api_error + bytes" where
  "accept_picture X f =
     bindE (deny ((case mp_content_type f of Some c \<Rightarrow> c | None \<Rightarrow> []) \<notin> {''image/webp'', ''image/jpeg'', ''image/png''})
       (api_err 415 ''Only WebP, JPEG, and PNG formats allowed'')) (\<lambda>_.
     bindE (ok_orE (api_err 400 ''Failed to read file'') (mp_bytes f)) (\<lambda>data.
     bindE (deny (length data > 10485760) (api_err 413 ''File too large (max 10MB)'')) (\<lambda>_.
     map_errE (\<lambda>e. api_err 422 (''Image processing failed: '' @ e)) (x_image X data))))"

text \<open>The object of the old picture is deleted before the body is read, and a failure to delete it is only logged.\<close>

definition old_picture_key :: "outside \<Rightarrow> string \<Rightarrow> string" where
  "old_picture_key X old_url =
     (let path = (case strip_prefix old_url (x_storage_endpoint X) of Some r \<Rightarrow> r | None \<Rightarrow> old_url);
          path' = dropWhile (\<lambda>c. c = CHR ''/'') path
      in case strip_prefix path' (picture_bucket X @ ''/'') of Some r \<Rightarrow> r | None \<Rightarrow> path')"

definition drop_object :: "string \<Rightarrow> string \<Rightarrow> auth_db \<Rightarrow> auth_db" where
  "drop_object bucket key d = d\<lparr>a_dropped := a_dropped d @ [(bucket, key)]\<rparr>"

definition post_user_profilepicture ::
  "outside \<Rightarrow> account \<Rightarrow> string \<Rightarrow> multipart \<Rightarrow> (auth_db, string \<times> string) action" where
  "post_user_profilepicture X me ident parts =
     bindS (liftE (picture_target X me ident)) (\<lambda>u.
     bindS (readS X QUser (api_err 500 ''Failed to check existing profile picture'') (fetch_profile_picture_url_from_db u)) (\<lambda>old.
     bindS (case old of Some url \<Rightarrow> updS (drop_object (picture_bucket X) (old_picture_key X url)) | None \<Rightarrow> okS ()) (\<lambda>_.
     bindS (liftE (find_field ''profile_picture'' parts)) (\<lambda>found.
     bindS (liftE (ok_orE (api_err 400 ''No file uploaded'') found)) (\<lambda>field.
     bindS (liftE (accept_picture X field)) (\<lambda>data.
     let key = ''profile_pictures/'' @ x_uuid X u @ ''_'' @ nat_str (nat (x_now X)) @ ''.webp'' in
     bindS (liftE (map_errE (\<lambda>_. api_err 500 ''Upload failed'') (x_storage_put X (picture_bucket X) key data))) (\<lambda>url.
     bindS (writeS X QPicture (\<lambda>_. api_err 500 ''Failed to update profile URL'')
             (plain (update_user_profile_picture_in_db u url))) (\<lambda>_.
     bindS (liftE (ok_orE (api_err 500 ''Failed to generate presigned URL'') (x_presign X (picture_bucket X) key))) (\<lambda>signed_url.
     okS (url, signed_url))))))))))"

subsection \<open>Password reset\<close>

definition reset_mail :: "string \<Rightarrow> string" where
  "reset_mail code =
     ''Use this code to reset your password: '' @ code @ NL @ NL @ ''This code will expire in 24 hours.''"

definition post_user_password_reset :: "outside \<Rightarrow> string \<Rightarrow> (auth_db, unit) action" where
  "post_user_password_reset X email =
     bindS (readS X QUser (api_err 500 ''Database error'') (fetch_user_by_email_from_db email)) (\<lambda>found.
     case found of
       None \<Rightarrow> okS ()
     | Some u \<Rightarrow>
         bindS (writeS X QReset (\<lambda>_. api_err 500 ''Failed to store reset code'')
                 (insert_user_password_reset_code_into_db (us_id u) (x_random X 32) (x_now X + 86400))) (\<lambda>_.
         send_mail X (api_err 500 ''Failed to send email'') email (reset_mail (x_random X 32))))"

definition post_user_password_reset_verify ::
  "outside \<Rightarrow> string \<Rightarrow> string \<Rightarrow> string \<Rightarrow> (auth_db, unit) action" where
  "post_user_password_reset_verify X email code new_password =
     bindS (guardS (length new_password < 8) (api_err 400 ''Password must be at least 8 characters long.'')) (\<lambda>_.
     bindS (readS X QUser (api_err 500 ''Database error.'') (fetch_user_by_email_from_db email)) (\<lambda>found.
     bindS (liftE (ok_orE (api_err 400 ''Invalid code or email.'') found)) (\<lambda>u.
     bindS (readS X QTakeCode (api_err 400 ''Invalid or expired code.'')
             (fetch_current_password_reset_code_from_db (x_now X) (us_id u))) (\<lambda>current.
     bindS (guardS (map_option rc_code current \<noteq> Some code) (api_err 400 ''Invalid or expired code.'')) (\<lambda>_.
     bindS (liftE (ok_orE (api_err 500 ''Failed to hash password.'') (x_hash X new_password))) (\<lambda>hashed.
     bindS (writeS X QPassword (\<lambda>_. api_err 500 ''Failed to update password.'')
             (plain (update_user_password_in_db (us_id u) hashed))) (\<lambda>_.
     writeS X QForget (\<lambda>_. api_err 500 ''Failed to invalidate reset code.'')
       (plain (delete_all_password_reset_codes_for_user (us_id u))))))))))"

subsection \<open>Changing a profile\<close>

text \<open>\<open>Some None\<close> stands for an explicit \<open>NULL\<close> of the columns that may be cleared.\<close>

record user_update =
  uu_username :: "string option"
  uu_first_name :: "string option"
  uu_last_name :: "string option"
  uu_country_code :: "string option option"
  uu_language_code :: "string option"
  uu_birthday :: "int option option"
  uu_description :: "string option"
  uu_role_level :: "int option"
  uu_tier_level :: "int option"
  uu_status :: "string option"

text \<open>What serde makes of an absent field, of \<open>null\<close> and of a value: \<open>null\<close> is the outer \<open>None\<close>.\<close>

definition nullable_field :: "(json \<Rightarrow> 'a option) \<Rightarrow> json option \<Rightarrow> 'a option option" where
  "nullable_field read v = (case v of None \<Rightarrow> None | Some JNull \<Rightarrow> None | Some j \<Rightarrow> map_option Some (read j))"

definition user_update_valid :: "outside \<Rightarrow> user_update \<Rightarrow> bool" where
  "user_update_valid X f \<longleftrightarrow>
     opt_ok (\<lambda>s. length_between 3 30 s \<and> validate_username s) (uu_username f)
     \<and> opt_ok (length_between 1 50) (uu_first_name f) \<and> opt_ok (length_between 1 50) (uu_last_name f)
     \<and> opt_ok (opt_ok (country_ok X)) (uu_country_code f) \<and> opt_ok (language_ok X) (uu_language_code f)
     \<and> opt_ok (opt_ok (validate_birthday (x_earliest_birthday X) (today X))) (uu_birthday f)
     \<and> opt_ok (length_between 0 1000) (uu_description f) \<and> opt_ok (length_between 4 20) (uu_status f)"

definition set_opt :: "'a option \<Rightarrow> ('a \<Rightarrow> 'r \<Rightarrow> 'r) \<Rightarrow> 'r \<Rightarrow> 'r" where
  "set_opt v f r = (case v of None \<Rightarrow> r | Some x \<Rightarrow> f x r)"

definition apply_update :: "user_update \<Rightarrow> account \<Rightarrow> account" where
  "apply_update f r =
     set_opt (uu_status f) (\<lambda>s r. r\<lparr>ac_status := to_ascii_lowercase s,
         ac_disabled := (to_ascii_lowercase s = ''disabled'')\<rparr>)
     (set_opt (uu_tier_level f) (\<lambda>v r. r\<lparr>us_tier_level := v\<rparr>)
     (set_opt (uu_role_level f) (\<lambda>v r. r\<lparr>us_role_level := v\<rparr>)
     (set_opt (uu_description f) (\<lambda>v r. r\<lparr>ac_description := Some v\<rparr>)
     (set_opt (uu_birthday f) (\<lambda>v r. r\<lparr>ac_birthday := v\<rparr>)
     (set_opt (uu_language_code f) (\<lambda>v r. r\<lparr>ac_language_code := Some v\<rparr>)
     (set_opt (uu_country_code f) (\<lambda>v r. r\<lparr>ac_country_code := v\<rparr>)
     (set_opt (uu_last_name f) (\<lambda>v r. r\<lparr>us_last_name := Some v\<rparr>)
     (set_opt (uu_first_name f) (\<lambda>v r. r\<lparr>us_first_name := Some v\<rparr>)
     (set_opt (uu_username f) (\<lambda>v r. r\<lparr>us_username := v\<rparr>) r)))))))))"

definition update_user_in_db :: "outside \<Rightarrow> uuid \<Rightarrow> user_update \<Rightarrow> auth_db \<Rightarrow> db_error + unit \<times> auth_db" where
  "update_user_in_db X u f d =
     (if \<not> user_update_valid X f then Inl (DbProtocol ''Validation error'')
      else if has_user d u \<and> (\<exists>r \<in> set (a_users d). us_id r \<noteq> u \<and> uu_username f = Some (us_username r))
      then Inl (UniqueViolation ''unique_username'')
      else Inr ((), map_user u (apply_update f) d))"

definition role_level_errors :: "bool \<Rightarrow> int \<Rightarrow> int \<Rightarrow> string list" where
  "role_level_errors adm current v =
     (if adm then (if v \<in> {1, 2} then [] else [''Role level must be 1 (regular) or 2 (admin)''])
      else if v \<noteq> current then [''Cannot modify your own role level''] else [])"

definition tier_level_errors :: "bool \<Rightarrow> int \<Rightarrow> int \<Rightarrow> string list" where
  "tier_level_errors adm current v =
     (if adm then (if 1 \<le> v \<and> v \<le> 4 then [] else [''Tier level must be between 1-4''])
      else if v \<noteq> current then [''Cannot modify your own tier level''] else [])"

definition status_errors :: "bool \<Rightarrow> string \<Rightarrow> string list" where
  "status_errors adm status =
     (if \<not> adm then [''Cannot modify user status'']
      else if to_ascii_lowercase status \<noteq> ''active'' \<and> to_ascii_lowercase status \<noteq> ''disabled''
      then [quoted ''Status must be '' ''active'' ('' or '' @ quoted [] ''disabled'' [])] else [])"

definition birthday_errors :: "int \<Rightarrow> int option \<Rightarrow> string list" where
  "birthday_errors day v = (case v of Some b \<Rightarrow> (if b > day then [''Birthday cannot be in the future''] else []) | None \<Rightarrow> [])"

definition listed :: "('a \<Rightarrow> string list) \<Rightarrow> 'a option \<Rightarrow> string list" where
  "listed check v = (case v of None \<Rightarrow> [] | Some x \<Rightarrow> check x)"

definition profile_errors :: "outside \<Rightarrow> account \<Rightarrow> user_update \<Rightarrow> string list" where
  "profile_errors X me f =
     (let adm = (us_role_level me = 2) in
      listed (role_level_errors adm (us_role_level me)) (uu_role_level f)
      @ listed (tier_level_errors adm (us_tier_level me)) (uu_tier_level f)
      @ listed (status_errors adm) (uu_status f) @ listed (birthday_errors (today X)) (uu_birthday f))"

definition profile_target :: "outside \<Rightarrow> account \<Rightarrow> string \<Rightarrow> api_error + uuid" where
  "profile_target X me ident =
     (if ident = ''current'' then Inr (us_id me)
      else
        bindE (ok_orE (api_err 400 ''Invalid UUID'') (x_parse_uuid X ident)) (\<lambda>u.
        bindE (deny (u \<noteq> us_id me \<and> us_role_level me \<noteq> 2) (api_err 403 ''Not allowed'')) (\<lambda>_. Inr u)))"

definition no_self_deactivation :: api_error where
  "no_self_deactivation = api_err 400 ''Administrators cannot deactivate their own account.''"

definition validation_failed :: "string list \<Rightarrow> api_error" where
  "validation_failed details =
     (400, JObj [(''details'', JArr (map JStr details)), (''error'', JStr ''Validation failed'')])"

definition patch_user_profile :: "outside \<Rightarrow> account \<Rightarrow> string \<Rightarrow> user_update \<Rightarrow> (auth_db, unit) action" where
  "patch_user_profile X me ident f =
     bindS (liftE (profile_target X me ident)) (\<lambda>u.
     bindS (guardS (u = us_id me \<and> (case uu_status f of Some s \<Rightarrow> eq_ignore_ascii_case s ''disabled'' | None \<Rightarrow> False))
             no_self_deactivation) (\<lambda>_.
     bindS (guardS (profile_errors X me f \<noteq> []) (validation_failed (profile_errors X me f))) (\<lambda>_.
     bindS (guardS (\<not> user_update_valid X f) (validation_failed [])) (\<lambda>_.
     writeS X QUpdate (\<lambda>_. api_err 500 ''Database error'') (update_user_in_db X u f)))))"

subsection \<open>Status, password and deletion\<close>

definition parse_user_id :: "outside \<Rightarrow> string \<Rightarrow> api_error + uuid" where
  "parse_user_id X ident = ok_orE (api_err 400 ''Invalid UUID'') (x_parse_uuid X ident)"

definition change_user_status_by_id :: "outside \<Rightarrow> uuid \<Rightarrow> bool \<Rightarrow> (auth_db, uuid \<times> string) action" where
  "change_user_status_by_id X u enabled =
     bindS (writeS X QUpdate (\<lambda>_. api_err 500 ''Could not update user status.'')
             (if enabled then activate_user_in_db u else deactivate_user_in_db u)) (\<lambda>changed.
     bindS (guardS (\<not> changed) (api_err 404 ''User not found.'')) (\<lambda>_.
     okS (u, if enabled then ''active'' else ''disabled'')))"

definition change_user_status :: "outside \<Rightarrow> string \<Rightarrow> bool \<Rightarrow> (auth_db, uuid \<times> string) action" where
  "change_user_status X ident enabled =
     bindS (liftE (parse_user_id X ident)) (\<lambda>u. change_user_status_by_id X u enabled)"

definition activate_user :: "outside \<Rightarrow> string \<Rightarrow> (auth_db, uuid \<times> string) action" where
  "activate_user X ident = change_user_status X ident True"

definition deactivate_user :: "outside \<Rightarrow> account \<Rightarrow> string \<Rightarrow> (auth_db, uuid \<times> string) action" where
  "deactivate_user X me ident =
     bindS (liftE (parse_user_id X ident)) (\<lambda>u.
     bindS (guardS (u = us_id me) no_self_deactivation) (\<lambda>_.
     change_user_status_by_id X u False))"

definition check_current_password :: "outside \<Rightarrow> account \<Rightarrow> string option \<Rightarrow> bool \<Rightarrow> api_error + unit" where
  "check_current_password X me current has_oauth =
     (case current of
        Some pw \<Rightarrow>
          (case x_verify_hash X pw (ac_password_hash me) of
             Some True \<Rightarrow> Inr ()
           | Some False \<Rightarrow> Inl (api_err 401 ''Current password is incorrect'')
           | None \<Rightarrow> Inl (api_err 500 ''Failed to verify password''))
      | None \<Rightarrow> deny (\<not> has_oauth) (api_err 400 ''Current password is required''))"

definition change_password :: "outside \<Rightarrow> account \<Rightarrow> string option \<Rightarrow> string \<Rightarrow> (auth_db, unit) action" where
  "change_password X me current new_password =
     bindS (guardS (\<not> (8 \<le> length (filter (\<lambda>c. \<not> is_continuation c) new_password))) (validation_failed [])) (\<lambda>_.
     bindS (getS (\<lambda>d. x_up X QLinked \<and> user_has_oauth_account (us_id me) d)) (\<lambda>has_oauth.
     bindS (liftE (check_current_password X me current has_oauth)) (\<lambda>_.
     bindS (liftE (ok_orE (api_err 500 ''Failed to hash new password'') (x_hash X new_password))) (\<lambda>hashed.
     writeS X QPassword (\<lambda>_. api_err 500 ''Database error'') (plain (update_user_password_in_db (us_id me) hashed))))))"

text \<open>The row is deleted in a transaction that commits when the picture's object is gone; \<open>committed\<close> is the answer of the
  commit.\<close>

definition delete_user_tx :: "outside \<Rightarrow> bool \<Rightarrow> string \<Rightarrow> uuid \<Rightarrow> auth_db \<Rightarrow> (api_error + unit) \<times> auth_db" where
  "delete_user_tx X committed ident u d =
     (case delete_user_from_db u d of
        (None, _) \<Rightarrow> (Inl (api_err 404 (quoted ''User with ID '' ident '' not found.'')), d)
      | (Some picture, d') \<Rightarrow>
          (let key = Option.bind picture (object_key_from_stored_url (x_storage_endpoint X) (picture_bucket X));
               object_gone = opt_ok (x_storage_delete X (picture_bucket X)) key;
               note = (\<lambda>s. case key of Some k \<Rightarrow> drop_object (picture_bucket X) k s | None \<Rightarrow> s)
           in if \<not> object_gone then (Inl (api_err 500 (''Could not delete the user'' @ [CHR 0x27] @ ''s profile picture.'')), note d)
              else if \<not> committed then (Inl (api_err 500 ''Could not delete the user.''), note d)
              else (Inr (), note d')))"

definition delete_user_by_id :: "outside \<Rightarrow> bool \<Rightarrow> string \<Rightarrow> (auth_db, unit) action" where
  "delete_user_by_id X committed ident =
     bindS (liftE (ok_orE (api_err 400 ''Invalid UUID format.'') (x_parse_uuid X ident))) (\<lambda>u.
     bindS (readS X QUser (api_err 500 ''Could not delete the user.'') (\<lambda>_. ())) (\<lambda>_.
     delete_user_tx X committed ident u))"

subsection \<open>Reading and preferences\<close>

definition get_users_by_id :: "outside \<Rightarrow> account \<Rightarrow> string \<Rightarrow> (auth_db, account) action" where
  "get_users_by_id X me ident =
     bindS (guardS (ident \<noteq> ''current'' \<and> us_role_level me \<notin> {2, 3})
             (api_err 403 ''You do not have permission to access this resource.'')) (\<lambda>_.
     bindS (liftE (if ident = ''current'' then Inr (us_id me)
                   else ok_orE (api_err 400 ''Invalid UUID format.'') (x_parse_uuid X ident))) (\<lambda>u.
     bindS (readS X QUser (api_err 500 ''Could not fetch the users details.'') (fetch_active_user_by_id_from_db u)) (\<lambda>found.
     liftE (ok_orE (api_err 404 (quoted ''User with ID '' (x_uuid X u) '' not found'')) found))))"

definition search_users_handler :: "outside \<Rightarrow> string \<Rightarrow> int option \<Rightarrow> (auth_db, account list) action" where
  "search_users_handler X q limit =
     (let n = min (case limit of Some l \<Rightarrow> l | None \<Rightarrow> 10) 50 in
      if trim q = [] then okS []
      else if n < 0 then failS (api_err 500 ''Could not search users.'')
      else readS X QUser (api_err 500 ''Could not search users.'') (search_users q (nat n)))"

definition is_hex_color :: "string \<Rightarrow> bool" where
  "is_hex_color s \<longleftrightarrow>
     length s = 7 \<and> hd s = CHR ''#''
     \<and> list_all (\<lambda>c. is_ascii_digit c \<or> CHR ''a'' \<le> c \<and> c \<le> CHR ''f'' \<or> CHR ''A'' \<le> c \<and> c \<le> CHR ''F'') (tl s)"

definition sanitize_colors :: "nat \<Rightarrow> string list \<Rightarrow> string list" where
  "sanitize_colors limit cs = take limit (map to_ascii_uppercase (filter is_hex_color cs))"

text \<open>\<open>print\<close> is \<open>serde_json::to_string\<close> of the two lists.\<close>

definition update_color_preferences_handler ::
  "outside \<Rightarrow> (string list \<Rightarrow> string list \<Rightarrow> string) \<Rightarrow> account \<Rightarrow> string list \<Rightarrow> string list \<Rightarrow> (auth_db, unit) action" where
  "update_color_preferences_handler X print me recent custom =
     (let body = print (sanitize_colors 5 recent) (sanitize_colors 12 custom) in
      bindS (guardS (length recent > 64 \<or> length custom > 64) (api_err 400 ''Too many colors'')) (\<lambda>_.
      bindS (guardS (length body > 2048) (api_err 400 ''Payload too large'')) (\<lambda>_.
      writeS X QUpdate (\<lambda>_. api_err 500 ''Database error'') (plain (update_color_preferences (us_id me) body)))))"

end
