(* ===== verification/Oauth.thy ===== *)
theory Oauth
  imports Profile
begin

text \<open>
  Signing in through Google, Yandex and VK: \<open>src/src/handlers/oauth.rs\<close>.  The providers, the HTTP and OAuth clients and
  the URL parser are the record \<open>providers\<close>; the login state between the two requests of a browser is kept in Redis.
\<close>

subsection \<open>What the providers answer\<close>

datatype 'a http_reply = Unreachable string | Refused nat string | Unreadable string | Reply 'a

record google_token =
  gt_id_token :: "string option"
  gt_access_token :: string
  gt_refresh_token :: "string option"
  gt_expires_in :: "nat option"

record google_claims =
  gc_subject :: string
  gc_email :: "string option"
  gc_email_verified :: "bool option"
  gc_picture :: "string option"

record yandex_token =
  yt_access_token :: string
  yt_refresh_token :: "string option"
  yt_expires_in :: "nat option"

record yandex_user =
  yu_id :: string
  yu_first_name :: "string option"
  yu_last_name :: "string option"
  yu_display_name :: "string option"
  yu_real_name :: "string option"
  yu_default_email :: "string option"
  yu_emails :: "string list option"
  yu_is_avatar_empty :: "bool option"
  yu_default_avatar_id :: "string option"

record vk_token =
  vt_access_token :: string
  vt_refresh_token :: "string option"
  vt_expires_in :: "nat option"
  vt_state :: string
  vt_user_id :: json

record vk_user =
  vu_user_id :: "json option"
  vu_email :: "string option"
  vu_first_name :: "string option"
  vu_last_name :: "string option"
  vu_avatar :: "string option"

record parsed_url =
  ur_scheme :: string
  ur_host :: "string option"
  ur_port :: "nat option"
  ur_username :: string
  ur_password :: "string option"
  ur_text :: string

record providers =
  pv_parse_url :: "string \<Rightarrow> parsed_url option"
  pv_join_url :: "parsed_url \<Rightarrow> string \<Rightarrow> parsed_url option"
  pv_query :: "string \<Rightarrow> (string \<times> string) list \<Rightarrow> string option"
  pv_number :: "json_num \<Rightarrow> string"
  pv_csrf :: string
  pv_nonce :: string
  pv_verifier :: string
  pv_challenge :: string
  pv_suffix :: "nat \<Rightarrow> string"
  pv_google_url :: "string + string"
  pv_google_exchange :: "string \<Rightarrow> string \<Rightarrow> string + google_token"
  pv_google_claims :: "string \<Rightarrow> string \<Rightarrow> string + google_claims"
  pv_google_tokeninfo :: "string \<Rightarrow> json http_reply"
  pv_yandex_exchange :: "string \<Rightarrow> string \<Rightarrow> string \<Rightarrow> string \<Rightarrow> yandex_token http_reply"
  pv_yandex_user :: "string \<Rightarrow> yandex_user http_reply"
  pv_vk_exchange :: "string \<Rightarrow> (string \<times> string) list \<Rightarrow> string \<Rightarrow> vk_token http_reply"
  pv_vk_user :: "string \<Rightarrow> string \<Rightarrow> string \<Rightarrow> vk_user http_reply"

text \<open>The account a provider vouches for.\<close>

record oauth_login =
  ol_provider :: string
  ol_provider_user_id :: string
  ol_email :: "string option"
  ol_first_name :: "string option"
  ol_last_name :: "string option"
  ol_picture_url :: "string option"
  ol_access_token :: string
  ol_refresh_token :: "string option"
  ol_expires_at :: "int option"

subsection \<open>Helpers\<close>

definition same_origin :: "parsed_url \<Rightarrow> parsed_url \<Rightarrow> bool" where
  "same_origin a b \<longleftrightarrow> ur_scheme a = ur_scheme b \<and> ur_host a = ur_host b \<and> ur_port a = ur_port b"

definition safe_redirect_for_origin :: "providers \<Rightarrow> string option \<Rightarrow> string \<Rightarrow> string" where
  "safe_redirect_for_origin P input app_origin =
     (let fallback = trim_end_matches (\<lambda>c. c = CHR ''/'') app_origin @ ''/''
      in case pv_parse_url P fallback of
           None \<Rightarrow> ''http://localhost:5173/''
         | Some origin \<Rightarrow>
             (let redirect = (case input of Some r \<Rightarrow> r | None \<Rightarrow> ''/'')
              in case (if starts_with redirect ''/'' \<and> \<not> starts_with redirect ''//''
                       then pv_join_url P origin redirect else pv_parse_url P redirect) of
                   None \<Rightarrow> fallback
                 | Some c \<Rightarrow>
                     (if ur_scheme c \<in> {''http'', ''https''} \<and> same_origin c origin \<and> ur_username c = [] \<and> ur_password c = None
                      then ur_text c else fallback)))"

definition safe_redirect :: "outside \<Rightarrow> providers \<Rightarrow> string option \<Rightarrow> string" where
  "safe_redirect X P input =
     safe_redirect_for_origin P input (get_env_with_default X ''APP_ORIGIN'' ''http://localhost:5173'')"

definition append_totp_challenge :: "outside \<Rightarrow> string \<Rightarrow> uuid \<Rightarrow> string" where
  "append_totp_challenge X redirect i =
     redirect @ (if CHR ''?'' \<in> set redirect then ''&'' else ''?'') @ ''totpChallenge='' @ x_uuid X i"

definition required_env :: "outside \<Rightarrow> string \<Rightarrow> api_error + string" where
  "required_env X key =
     (let v = get_env_with_default X key []
      in if trim v = [] then Inl (api_err 500 (''Missing required environment variable: '' @ key)) else Inr v)"

text \<open>The last second \<open>DateTime<Utc>\<close> holds; \<open>Duration::seconds\<close> panics beyond what fits in milliseconds.\<close>

definition token_expires_at :: "outside \<Rightarrow> nat option \<Rightarrow> api_error + int option" where
  "token_expires_at X expires_in =
     (case expires_in of
        None \<Rightarrow> Inr None
      | Some s \<Rightarrow>
          (if s \<ge> 2 ^ 63 then Inr None
           else if s > 9223372036854775 then Inl (api_err 500 ''panic'')
           else if x_now X + int s \<le> 8210266876799 then Inr (Some (x_now X + int s)) else Inr None))"

text \<open>Fifty characters, counted by their leading bytes.\<close>

fun take_chars :: "nat \<Rightarrow> string \<Rightarrow> string" where
  "take_chars n [] = []"
| "take_chars n (c # s) =
     (if is_continuation c then c # take_chars n s
      else (case n of 0 \<Rightarrow> [] | Suc m \<Rightarrow> c # take_chars m s))"

definition normalize_profile_name :: "string option \<Rightarrow> string option" where
  "normalize_profile_name v =
     Option.bind v (\<lambda>s. let t = trim s in if t = [] then None else Some (take_chars 50 t))"

definition json_id :: "providers \<Rightarrow> json \<Rightarrow> string option" where
  "json_id P v = (case v of JStr s \<Rightarrow> (if s \<noteq> [] then Some s else None) | JNum n \<Rightarrow> Some (pv_number P n) | _ \<Rightarrow> None)"

definition filled :: "string option \<Rightarrow> string option" where
  "filled v = (case v of Some s \<Rightarrow> (if trim s \<noteq> [] then Some s else None) | None \<Rightarrow> None)"

subsection \<open>The login state\<close>

definition put_state :: "string \<Rightarrow> oauth_state \<Rightarrow> int \<Rightarrow> auth_db \<Rightarrow> auth_db" where
  "put_state k v expires_at d = d\<lparr>a_states := (k, v, expires_at) # filter (\<lambda>e. fst e \<noteq> k) (a_states d)\<rparr>"

definition get_state :: "int \<Rightarrow> string \<Rightarrow> auth_db \<Rightarrow> oauth_state option" where
  "get_state now k d = map_option (\<lambda>e. fst (snd e)) (find (\<lambda>e. fst e = k \<and> snd (snd e) > now) (a_states d))"

definition store_oauth_state :: "outside \<Rightarrow> string \<Rightarrow> oauth_state \<Rightarrow> (auth_db, unit) action" where
  "store_oauth_state X csrf s =
     writeS X QRedisSet (\<lambda>_. api_err 500 ''Redis'') (plain (put_state csrf s (x_now X + 600)))"

text \<open>The key is deleted whether or not it held the state of this provider.\<close>

definition take_oauth_state :: "outside \<Rightarrow> string \<Rightarrow> string \<Rightarrow> (auth_db, oauth_state) action" where
  "take_oauth_state X csrf expected_provider =
     bindS (readS X QRedisGet (api_err 500 ''Redis'') (get_state (x_now X) csrf)) (\<lambda>v.
     bindS (tryS X QRedisSet (\<lambda>d. d\<lparr>a_states := filter (\<lambda>e. fst e \<noteq> csrf) (a_states d)\<rparr>)) (\<lambda>_.
     bindS (liftE (ok_orE (api_err 400 ''Invalid OAuth state.'') v)) (\<lambda>s.
     bindS (guardS (os_provider s \<noteq> expected_provider) (api_err 400 ''OAuth provider does not match the saved state.'')) (\<lambda>_.
     okS s))))"

subsection \<open>Finding or creating the account\<close>

definition username_base :: "string \<Rightarrow> string" where
  "username_base source =
     (let base = to_ascii_lowercase (map (\<lambda>c. if is_ascii_alnum c then c else CHR ''_'')
            (filter (\<lambda>c. \<not> is_continuation c) source));
          base' = (if length base < 3 then ''user'' @ base else base)
      in take 30 base')"

definition name_taken :: "outside \<Rightarrow> string \<Rightarrow> auth_db \<Rightarrow> bool" where
  "name_taken X name d \<longleftrightarrow> (if x_up X QName then check_user_exists_by_username name d else True)"

text \<open>The first name and ten with a random suffix are tried; \<open>k\<close> counts the suffixes drawn.\<close>

fun pick_username :: "outside \<Rightarrow> providers \<Rightarrow> nat \<Rightarrow> string \<Rightarrow> auth_db \<Rightarrow> nat \<Rightarrow> nat \<Rightarrow> string \<Rightarrow> string option" where
  "pick_username X P width base d k 0 name = (if name_taken X name d then None else Some name)"
| "pick_username X P width base d k (Suc left) name =
     (if name_taken X name d
      then pick_username X P width base d (Suc k) left (to_ascii_lowercase (take width base @ ''_'' @ pv_suffix P k))
      else Some name)"

definition account_active :: "account option \<Rightarrow> bool" where
  "account_active u \<longleftrightarrow> (case u of Some r \<Rightarrow> active r | None \<Rightarrow> True)"

definition disabled_account :: api_error where
  "disabled_account = api_err 403 ''Account is disabled''"

definition no_registration :: api_error where
  "no_registration = api_err 403 ''Public registration is disabled.''"

definition email_local :: "string \<Rightarrow> string" where
  "email_local e = takeWhile (\<lambda>c. c \<noteq> CHR ''@'') e"

definition create_oauth_user ::
  "outside \<Rightarrow> providers \<Rightarrow> string \<Rightarrow> string \<Rightarrow> string option \<Rightarrow> (auth_db, account) action" where
  "create_oauth_user X P provider provider_user_id email =
     (let base = username_base (case email of Some e \<Rightarrow> email_local e | None \<Rightarrow> provider @ ''_'' @ provider_user_id);
          failed = api_err 500 ''database error''
      in bindS (getS (\<lambda>d. pick_username X P 25 base d 0 10 base)) (\<lambda>picked.
         bindS (liftE (ok_orE (api_err 500 ''Failed to generate username'') picked)) (\<lambda>username.
         bindS (liftE (ok_orE failed (x_hash X (x_random X 32)))) (\<lambda>hashed.
         bindS (writeS X QInsertUser (\<lambda>_. failed) (insert_oauth_user_into_db X username email hashed)) (\<lambda>r.
         bindS (readS X QReread failed (fetch_active_user_by_id_from_db (us_id r))) (\<lambda>found.
         liftE (ok_orE failed found)))))))"

definition find_or_create_oauth_user ::
  "outside \<Rightarrow> providers \<Rightarrow> string \<Rightarrow> string \<Rightarrow> string option \<Rightarrow> bool \<Rightarrow> (auth_db, account) action" where
  "find_or_create_oauth_user X P provider provider_user_id email registration =
     (let failed = api_err 500 ''database error'' in
      bindS (readS X QLinked failed (fetch_user_by_oauth_account provider provider_user_id)) (\<lambda>linked.
      case linked of
        Some u \<Rightarrow> (if \<not> active u then failS disabled_account else okS u)
      | None \<Rightarrow>
          bindS (case email of Some e \<Rightarrow> readS X QUser failed (fetch_user_by_email_from_db e) | None \<Rightarrow> okS None) (\<lambda>existing.
          bindS (guardS (\<not> account_active existing) disabled_account) (\<lambda>_.
          case existing of
            Some u \<Rightarrow> okS u
          | None \<Rightarrow>
              bindS (guardS (\<not> registration) no_registration) (\<lambda>_.
              create_oauth_user X P provider provider_user_id email)))))"

subsection \<open>Completing a browser login\<close>

definition header_value_ok :: "string \<Rightarrow> bool" where
  "header_value_ok s \<longleftrightarrow> list_all (\<lambda>c. let n = (of_char c :: nat) in n = 9 \<or> 32 \<le> n \<and> n \<noteq> 127) s"

definition link_of :: "account \<Rightarrow> oauth_login \<Rightarrow> oauth_account" where
  "link_of u l =
     \<lparr>oa_user_id = us_id u, oa_provider = ol_provider l, oa_provider_user_id = ol_provider_user_id l,
      oa_access_token = ol_access_token l, oa_refresh_token = ol_refresh_token l, oa_expires_at = ol_expires_at l\<rparr>"

definition browser_token :: "outside \<Rightarrow> string \<Rightarrow> uuid \<Rightarrow> api_error + auth_answer" where
  "browser_token X redirect u =
     bindE (map_errE (\<lambda>_. api_err 500 ''500 Internal Server Error'') (encode_jwt X (x_uuid X u))) (\<lambda>token.
     bindE (deny (\<not> get_env_bool X ''JWT_ALLOW_COOKIE_AUTH'' False \<and> \<not> get_env_bool X ''JWT_FORCE_COOKIE_AUTH'' False)
       (api_err 500 ''Cookie auth disabled'')) (\<lambda>_.
     bindE (deny (\<not> header_value_ok (auth_cookie X token)) (api_err 500 ''Invalid authentication cookie'')) (\<lambda>_.
     Inr (SignedInAt redirect [(''Cache-Control'', ''no-store''), (''set-cookie'', auth_cookie X token)]))))"

definition complete_browser_oauth ::
  "outside \<Rightarrow> providers \<Rightarrow> bool \<Rightarrow> oauth_state \<Rightarrow> oauth_login \<Rightarrow> (auth_db, auth_answer) action" where
  "complete_browser_oauth X P registration s l =
     (let failed = api_err 500 ''database error'';
          email = (case ol_email l of Some e \<Rightarrow> (if trim e \<noteq> [] then Some (to_ascii_lowercase (trim e)) else None) | None \<Rightarrow> None)
      in bindS (find_or_create_oauth_user X P (ol_provider l) (ol_provider_user_id l) email registration) (\<lambda>u.
         bindS (writeS X QNames (\<lambda>_. failed)
                 (plain (fill_missing_oauth_profile_names (us_id u) (ol_first_name l) (ol_last_name l)))) (\<lambda>_.
         bindS (writeS X QLink (\<lambda>_. failed) (upsert_oauth_account (link_of u l))) (\<lambda>_.
         bindS (case (us_profile_picture_url u, filled (ol_picture_url l)) of
                  (None, Some url) \<Rightarrow> tryS X QPicture (update_user_profile_picture_in_db (us_id u) url)
                | _ \<Rightarrow> okS ()) (\<lambda>_.
         if ac_totp_secret u \<noteq> None
         then bindS (create_login_challenge X failed (us_id u) (x_now X + 300)) (\<lambda>c.
              okS (ChallengedAt (append_totp_challenge X (os_redirect s) (lc_id c)) [(''Cache-Control'', ''no-store'')]))
         else liftE (browser_token X (os_redirect s) (us_id u)))))))"

end
