(* ===== verification/Providers.thy ===== *)
theory Providers
  imports Oauth
begin

text \<open>
  The start and callback handlers of each provider and the token exchange of the desktop application:
  \<open>src/src/handlers/oauth.rs\<close>.
\<close>

definition provider_enabled :: "outside \<Rightarrow> (server_settings \<Rightarrow> bool) \<Rightarrow> string \<Rightarrow> (auth_db, server_settings) action" where
  "provider_enabled X enabled refusal =
     bindS (readS X QSettings (api_err 500 ''Could not read server settings.'') (load_settings X)) (\<lambda>s.
     bindS (guardS (\<not> enabled s) (api_err 403 refusal)) (\<lambda>_. okS s))"

definition login_state :: "providers \<Rightarrow> string \<Rightarrow> string option \<Rightarrow> string \<Rightarrow> oauth_state" where
  "login_state P provider nonce redirect =
     \<lparr>os_provider = provider, os_nonce = nonce, os_pkce_verifier = pv_verifier P, os_redirect = redirect\<rparr>"

definition fetched :: "string \<Rightarrow> string \<Rightarrow> string \<Rightarrow> 'a http_reply \<Rightarrow> api_error + 'a" where
  "fetched unreachable refused unreadable r =
     (case r of
        Unreachable e \<Rightarrow> Inl (api_err 502 (unreachable @ '': '' @ e))
      | Refused status details \<Rightarrow> Inl (api_err 400 (refused @ '' ('' @ nat_str status @ ''): '' @ details))
      | Unreadable e \<Rightarrow> Inl (api_err 502 (unreadable @ '': '' @ e))
      | Reply x \<Rightarrow> Inr x)"

subsection \<open>Google\<close>

definition oauth_google :: "outside \<Rightarrow> providers \<Rightarrow> string option \<Rightarrow> (auth_db, string) action" where
  "oauth_google X P redirect =
     bindS (provider_enabled X ss_google_login_enabled ''Google login is disabled.'') (\<lambda>_.
     bindS (liftE (map_errE (api_err 500) (pv_google_url P))) (\<lambda>url.
     bindS (store_oauth_state X (pv_csrf P)
             (login_state P ''google'' (Some (pv_nonce P)) (safe_redirect X P redirect))) (\<lambda>_.
     okS url)))"

definition google_login :: "outside \<Rightarrow> google_token \<Rightarrow> google_claims \<Rightarrow> api_error + oauth_login" where
  "google_login X t c =
     bindE (ok_orE (api_err 400 ''Email not available'') (gc_email c)) (\<lambda>email.
     bindE (deny (gc_email_verified c = Some False) (api_err 400 ''Email not verified'')) (\<lambda>_.
     bindE (token_expires_at X (gt_expires_in t)) (\<lambda>expires_at.
     Inr \<lparr>ol_provider = ''google'', ol_provider_user_id = gc_subject c, ol_email = Some email, ol_first_name = None,
       ol_last_name = None, ol_picture_url = gc_picture c, ol_access_token = gt_access_token t,
       ol_refresh_token = gt_refresh_token t, ol_expires_at = expires_at\<rparr>)))"

definition oauth_google_callback :: "outside \<Rightarrow> providers \<Rightarrow> string \<Rightarrow> string \<Rightarrow> (auth_db, auth_answer) action" where
  "oauth_google_callback X P code csrf =
     bindS (provider_enabled X ss_google_login_enabled ''Google login is disabled.'') (\<lambda>settings.
     bindS (liftE (map_errE (api_err 500) (pv_google_url P))) (\<lambda>_.
     bindS (take_oauth_state X csrf ''google'') (\<lambda>s.
     bindS (liftE (map_errE (api_err 400) (pv_google_exchange P code (os_pkce_verifier s)))) (\<lambda>t.
     bindS (liftE (ok_orE (api_err 400 ''Missing id_token'') (gt_id_token t))) (\<lambda>id_token.
     bindS (liftE (ok_orE (api_err 400 ''Missing OAuth nonce.'') (os_nonce s))) (\<lambda>nonce.
     bindS (liftE (map_errE (api_err 400) (pv_google_claims P id_token nonce))) (\<lambda>c.
     bindS (liftE (google_login X t c)) (\<lambda>l.
     complete_browser_oauth X P (ss_public_registration_enabled settings) s l))))))))"

subsection \<open>Yandex\<close>

definition oauth_yandex :: "outside \<Rightarrow> providers \<Rightarrow> string option \<Rightarrow> (auth_db, string) action" where
  "oauth_yandex X P redirect =
     bindS (provider_enabled X ss_yandex_login_enabled ''Yandex login is disabled.'') (\<lambda>_.
     bindS (liftE (required_env X ''YANDEX_CLIENT_ID'')) (\<lambda>client_id.
     bindS (liftE (required_env X ''YANDEX_CLIENT_SECRET'')) (\<lambda>_.
     bindS (liftE (required_env X ''YANDEX_REDIRECT_URL'')) (\<lambda>redirect_url.
     bindS (liftE (ok_orE (api_err 500 ''URL'') (pv_query P ''https://oauth.yandex.ru/authorize''
             [(''response_type'', ''code''), (''client_id'', client_id), (''redirect_uri'', redirect_url),
              (''scope'', ''login:info login:email login:avatar''), (''state'', pv_csrf P),
              (''code_challenge'', pv_challenge P), (''code_challenge_method'', ''S256'')]))) (\<lambda>url.
     bindS (store_oauth_state X (pv_csrf P) (login_state P ''yandex'' None (safe_redirect X P redirect))) (\<lambda>_.
     okS url))))))"

definition yandex_email :: "yandex_user \<Rightarrow> string option" where
  "yandex_email u =
     (case filled (yu_default_email u) of
        Some e \<Rightarrow> Some e
      | None \<Rightarrow> Option.bind (yu_emails u) (find (\<lambda>e. trim e \<noteq> [])))"

definition yandex_login :: "outside \<Rightarrow> yandex_token \<Rightarrow> yandex_user \<Rightarrow> api_error + oauth_login" where
  "yandex_login X t u =
     (let first = normalize_profile_name (yu_first_name u); second = normalize_profile_name (yu_last_name u);
          first' = (if first = None \<and> second = None
                    then normalize_profile_name (case yu_display_name u of Some n \<Rightarrow> Some n | None \<Rightarrow> yu_real_name u)
                    else first);
          picture = (case (yu_is_avatar_empty u, yu_default_avatar_id u) of
                       (Some False, Some a) \<Rightarrow> Some (''https://avatars.yandex.net/get-yapic/'' @ a @ ''/islands-200'')
                     | _ \<Rightarrow> None)
      in bindE (token_expires_at X (yt_expires_in t)) (\<lambda>expires_at.
         Inr \<lparr>ol_provider = ''yandex'', ol_provider_user_id = yu_id u, ol_email = yandex_email u, ol_first_name = first',
           ol_last_name = second, ol_picture_url = picture, ol_access_token = yt_access_token t,
           ol_refresh_token = yt_refresh_token t, ol_expires_at = expires_at\<rparr>))"

definition oauth_yandex_callback :: "outside \<Rightarrow> providers \<Rightarrow> string \<Rightarrow> string \<Rightarrow> (auth_db, auth_answer) action" where
  "oauth_yandex_callback X P code csrf =
     bindS (provider_enabled X ss_yandex_login_enabled ''Yandex login is disabled.'') (\<lambda>settings.
     bindS (take_oauth_state X csrf ''yandex'') (\<lambda>s.
     bindS (liftE (required_env X ''YANDEX_CLIENT_ID'')) (\<lambda>client_id.
     bindS (liftE (required_env X ''YANDEX_CLIENT_SECRET'')) (\<lambda>client_secret.
     bindS (liftE (fetched ''Yandex token request'' ''Yandex token exchange failed'' ''Invalid Yandex token response''
             (pv_yandex_exchange P code client_id client_secret (os_pkce_verifier s)))) (\<lambda>t.
     bindS (liftE (fetched ''Yandex user info'' ''Yandex user info failed'' ''Invalid Yandex user response''
             (pv_yandex_user P (yt_access_token t)))) (\<lambda>u.
     bindS (liftE (yandex_login X t u)) (\<lambda>l.
     complete_browser_oauth X P (ss_public_registration_enabled settings) s l)))))))"

subsection \<open>VK\<close>

definition vk_base :: "outside \<Rightarrow> string" where
  "vk_base X = trim_end_matches (\<lambda>c. c = CHR ''/'') (get_env_with_default X ''VK_ID_BASE_URL'' ''https://id.vk.ru'')"

definition oauth_vk :: "outside \<Rightarrow> providers \<Rightarrow> string option \<Rightarrow> (auth_db, string) action" where
  "oauth_vk X P redirect =
     bindS (provider_enabled X ss_vk_login_enabled ''VK login is disabled.'') (\<lambda>_.
     bindS (liftE (required_env X ''VK_CLIENT_ID'')) (\<lambda>client_id.
     bindS (liftE (required_env X ''VK_REDIRECT_URL'')) (\<lambda>redirect_url.
     bindS (liftE (ok_orE (api_err 500 ''URL'') (pv_query P (vk_base X @ ''/authorize'')
             [(''response_type'', ''code''), (''client_id'', client_id), (''app_id'', client_id),
              (''redirect_uri'', redirect_url), (''scope'', ''email''), (''state'', pv_csrf P),
              (''code_challenge'', pv_challenge P), (''code_challenge_method'', ''S256'')]))) (\<lambda>url.
     bindS (store_oauth_state X (pv_csrf P) (login_state P ''vk'' None (safe_redirect X P redirect))) (\<lambda>_.
     okS url)))))"

definition vk_login :: "outside \<Rightarrow> providers \<Rightarrow> vk_token \<Rightarrow> vk_user \<Rightarrow> api_error + oauth_login" where
  "vk_login X P t u =
     bindE (ok_orE (api_err 400 ''VK user ID not available'')
       (case Option.bind (vu_user_id u) (json_id P) of Some i \<Rightarrow> Some i | None \<Rightarrow> json_id P (vt_user_id t))) (\<lambda>i.
     bindE (token_expires_at X (vt_expires_in t)) (\<lambda>expires_at.
     Inr \<lparr>ol_provider = ''vk'', ol_provider_user_id = i, ol_email = filled (vu_email u),
       ol_first_name = normalize_profile_name (vu_first_name u), ol_last_name = normalize_profile_name (vu_last_name u),
       ol_picture_url = vu_avatar u, ol_access_token = vt_access_token t, ol_refresh_token = vt_refresh_token t,
       ol_expires_at = expires_at\<rparr>))"

definition oauth_vk_callback ::
  "outside \<Rightarrow> providers \<Rightarrow> string \<Rightarrow> string \<Rightarrow> string \<Rightarrow> (auth_db, auth_answer) action" where
  "oauth_vk_callback X P code csrf device_id =
     bindS (provider_enabled X ss_vk_login_enabled ''VK login is disabled.'') (\<lambda>settings.
     bindS (take_oauth_state X csrf ''vk'') (\<lambda>s.
     bindS (liftE (required_env X ''VK_CLIENT_ID'')) (\<lambda>client_id.
     bindS (liftE (required_env X ''VK_REDIRECT_URL'')) (\<lambda>redirect_url.
     bindS (liftE (fetched ''VK token request'' ''VK token exchange failed'' ''Invalid VK token response''
             (pv_vk_exchange P (vk_base X @ ''/oauth2/auth'')
               [(''grant_type'', ''authorization_code''), (''redirect_uri'', redirect_url), (''client_id'', client_id),
                (''code_verifier'', os_pkce_verifier s), (''state'', csrf), (''device_id'', device_id)] code))) (\<lambda>t.
     bindS (guardS (vt_state t \<noteq> csrf) (api_err 400 ''VK returned an invalid OAuth state.'')) (\<lambda>_.
     bindS (liftE (fetched ''VK user info'' ''VK user info failed'' ''Invalid VK user response''
             (pv_vk_user P (vk_base X @ ''/oauth2/user_info'') client_id (vt_access_token t)))) (\<lambda>u.
     bindS (liftE (vk_login X P t u)) (\<lambda>l.
     complete_browser_oauth X P (ss_public_registration_enabled settings) s l))))))))"

subsection \<open>The token exchange of the desktop application\<close>

definition tokeninfo_email :: "outside \<Rightarrow> json \<Rightarrow> api_error + string" where
  "tokeninfo_email X c =
     (let aud = (case Option.bind (json_get ''aud'' c) as_str of Some a \<Rightarrow> a | None \<Rightarrow> []);
          desktop_id = get_env_with_default X ''GOOGLE_DESKTOP_CLIENT_ID'' [];
          web_id = get_env_with_default X ''GOOGLE_CLIENT_ID'' [];
          email_verified = (case json_get ''email_verified'' c of
               Some (JStr s) \<Rightarrow> s = ''true'' | Some (JBool b) \<Rightarrow> b | _ \<Rightarrow> False)
      in bindE (deny (\<not> (desktop_id \<noteq> [] \<and> aud = desktop_id \<or> web_id \<noteq> [] \<and> aud = web_id))
           (api_err 401 ''Audience mismatch'')) (\<lambda>_.
         bindE (deny (\<not> email_verified) (api_err 400 ''Email not verified'')) (\<lambda>_.
         ok_orE (api_err 400 ''Email not available'') (Option.bind (json_get ''email'' c) as_str))))"

definition tokeninfo :: "json http_reply \<Rightarrow> api_error + json" where
  "tokeninfo r =
     (case r of
        Unreachable e \<Rightarrow> Inl (api_err 502 (''tokeninfo: '' @ e))
      | Refused status details \<Rightarrow> Inl (api_err 401 ''Invalid id_token'')
      | Unreadable e \<Rightarrow> Inl (api_err 502 (''tokeninfo json: '' @ e))
      | Reply c \<Rightarrow> Inr c)"

definition create_exchange_user :: "outside \<Rightarrow> providers \<Rightarrow> string \<Rightarrow> (auth_db, unit) action" where
  "create_exchange_user X P email =
     (let base = username_base (email_local email); failed = api_err 500 ''database error'' in
      bindS (getS (\<lambda>d. pick_username X P 26 base d 0 10 base)) (\<lambda>picked.
      bindS (liftE (ok_orE (api_err 500 ''Failed to generate username'') picked)) (\<lambda>username.
      bindS (liftE (ok_orE failed (x_hash X (x_random X 32)))) (\<lambda>hashed.
      bindS (writeS X QInsertUser (\<lambda>_. failed) (insert_user_into_db X username email hashed None 1 1)) (\<lambda>_.
      okS ())))))"

text \<open>The address is used as Google wrote it: every lookup of this handler is by that spelling.\<close>

definition oauth_google_exchange :: "outside \<Rightarrow> providers \<Rightarrow> string \<Rightarrow> (auth_db, auth_answer) action" where
  "oauth_google_exchange X P id_token =
     (let failed = api_err 500 ''database error'' in
      bindS (provider_enabled X ss_google_login_enabled ''Google login is disabled.'') (\<lambda>settings.
      bindS (liftE (tokeninfo (pv_google_tokeninfo P id_token))) (\<lambda>c.
      bindS (liftE (tokeninfo_email X c)) (\<lambda>email.
      bindS (readS X QUser failed (fetch_user_by_email_from_db email)) (\<lambda>existing.
      bindS (guardS (\<not> account_active existing) disabled_account) (\<lambda>_.
      bindS (if existing = None
             then bindS (guardS (\<not> ss_public_registration_enabled settings) no_registration) (\<lambda>_.
                  create_exchange_user X P email)
             else okS ()) (\<lambda>_.
      bindS (getS (\<lambda>d. if x_up X QUserAgain then fetch_user_by_email_from_db email d else None)) (\<lambda>shown.
      bindS (case (Option.bind (json_get ''picture'' c) as_str, shown) of
               (Some url, Some u) \<Rightarrow>
                 (if us_profile_picture_url u = None
                  then tryS X QPicture (update_user_profile_picture_in_db (us_id u) url) else okS ())
             | _ \<Rightarrow> okS ()) (\<lambda>_.
      bindS (readS X QUserFinal failed (fetch_user_by_email_from_db email)) (\<lambda>found.
      bindS (liftE (ok_orE (api_err 500 ''User not found after creation'') found)) (\<lambda>u.
      if ac_totp_secret u \<noteq> None
      then bindS (create_login_challenge X failed (us_id u) (x_now X + 300)) (\<lambda>ch.
           okS (Challenged (lc_id ch) (lc_expires_at ch)))
      else
        bindS (liftE (map_errE (\<lambda>_. api_err 500 ''500 Internal Server Error'') (encode_jwt X (x_uuid X (us_id u))))) (\<lambda>token.
        okS (SignedIn \<lparr>lr_headers = [], lr_body = JObj [(''token'', JStr token)]\<rparr>)))))))))))))"

end
