(* ===== verification/Administration.thy ===== *)
theory Administration
  imports Totp
begin

text \<open>
  API keys (\<open>src/src/handlers/post_apikeys.rs\<close>, \<open>rotate_apikeys.rs\<close>, \<open>delete_apikeys.rs\<close>, \<open>get_apikeys.rs\<close>) and the
  runtime settings (\<open>src/src/handlers/server_settings.rs\<close> and the writes of \<open>src/src/database/server_settings.rs\<close>).
\<close>

subsection \<open>API keys\<close>

text \<open>Five groups of eight bytes in hexadecimal; the bytes are random.\<close>

definition hex_digit :: "nat \<Rightarrow> char" where
  "hex_digit n = ''0123456789abcdef'' ! (n mod 16)"

definition hex_byte :: "byte \<Rightarrow> string" where
  "hex_byte b = [hex_digit (unat b div 16), hex_digit (unat b)]"

definition generate_api_key :: "byte list list \<Rightarrow> string" where
  "generate_api_key groups = join_with ''-'' (map (\<lambda>g. concat (map hex_byte g)) groups)"

text \<open>The dates of a body: \<open>ak_date\<close> parses \<open>%Y-%m-%d\<close>, \<open>ak_print\<close> prints a date.\<close>

record key_env =
  ke_date :: "string \<Rightarrow> int option"
  ke_print :: "int \<Rightarrow> string"
  ke_groups :: "byte list list"

record key_body =
  kb_description :: "string option"
  kb_expiration_date :: "string option"

definition char_count :: "string \<Rightarrow> nat" where
  "char_count s = length (filter (\<lambda>c. \<not> is_continuation c) s)"

definition validate_future_date :: "key_env \<Rightarrow> int \<Rightarrow> string \<Rightarrow> bool" where
  "validate_future_date K now s = (case ke_date K s of Some day \<Rightarrow> day * 86400 > now | None \<Rightarrow> False)"

definition key_body_ok :: "outside \<Rightarrow> key_env \<Rightarrow> key_body \<Rightarrow> bool" where
  "key_body_ok X K b \<longleftrightarrow>
     (case kb_description b of Some s \<Rightarrow> char_count s \<le> 50 | None \<Rightarrow> True)
     \<and> (case kb_expiration_date b of Some s \<Rightarrow> validate_future_date K (x_now X) s | None \<Rightarrow> True)"

definition new_key :: "outside \<Rightarrow> account \<Rightarrow> string \<Rightarrow> string \<Rightarrow> int \<Rightarrow> api_key" where
  "new_key X me hashed description expiration_date =
     \<lparr>ak_id = x_new_id X, ak_key_hash = hashed, ak_user_id = us_id me, ak_description = Some description,
      ak_creation_date = today X, ak_expiration_date = Some expiration_date, ak_disabled = False\<rparr>"

text \<open>A key that cannot be hashed is a panic of the handler.\<close>

definition post_apikey :: "outside \<Rightarrow> key_env \<Rightarrow> account \<Rightarrow> key_body \<Rightarrow> (auth_db, api_key \<times> string) action" where
  "post_apikey X K me b =
     bindS (guardS (\<not> key_body_ok X K b) (api_err 400 ''Invalid fields'')) (\<lambda>_.
     bindS (readS X QKeyCount (api_err 500 ''Could not check the amount of API keys registered.'')
             (check_existing_api_key_count (today X) (us_id me))) (\<lambda>count.
     bindS (guardS (count \<ge> 5)
             (api_err 400 ''You already have 5 API keys. Please delete an existing key before creating a new one.'')) (\<lambda>_.
     let description = (case kb_description b of Some s \<Rightarrow> s | None \<Rightarrow> ''API key created on '' @ ke_print K (today X));
         expiration = (case Option.bind (kb_expiration_date b) (ke_date K) of Some day \<Rightarrow> day | None \<Rightarrow> today X + 730);
         secret = generate_api_key (ke_groups K)
     in bindS (liftE (ok_orE (api_err 500 ''panic'') (x_hash X secret))) (\<lambda>hashed.
        bindS (writeS X QAddKey (\<lambda>_. api_err 500 ''Error creating API key'')
                (insert_api_key_into_db (new_key X me hashed description expiration))) (\<lambda>k.
        okS (k, secret))))))"

text \<open>The replacement is inserted first; when the old key cannot be disabled the new one is.\<close>

definition rotate_apikey :: "outside \<Rightarrow> key_env \<Rightarrow> account \<Rightarrow> string \<Rightarrow> key_body \<Rightarrow> (auth_db, api_key \<times> string) action" where
  "rotate_apikey X K me ident b =
     (let failed = api_err 500 ''Internal server error'' in
      bindS (guardS (case kb_description b of Some s \<Rightarrow> \<not> (1 \<le> char_count s \<and> char_count s \<le> 255) | None \<Rightarrow> False)
              (api_err 400 ''Invalid fields'')) (\<lambda>_.
      bindS (liftE (ok_orE (api_err 400 ''Invalid API key identifier format'') (x_parse_uuid X ident))) (\<lambda>i.
      bindS (readS X QKeys failed (fetch_existing_apikey (us_id me) i)) (\<lambda>found.
      bindS (liftE (ok_orE (api_err 404 ''API key not found or already disabled'') found)) (\<lambda>old.
      bindS (liftE (case kb_expiration_date b of
                      Some s \<Rightarrow> ok_orE (api_err 400 ''Invalid expiration date format. Use YYYY-MM-DD'') (ke_date K s)
                    | None \<Rightarrow> Inr (today X + 730))) (\<lambda>expiration.
      bindS (guardS (expiration \<le> today X) (api_err 400 ''Expiration date must be in the future'')) (\<lambda>_.
      let secret = generate_api_key (ke_groups K);
          description = (case kb_description b of
              Some s \<Rightarrow> s | None \<Rightarrow> ''Rotated from key '' @ x_uuid X (ak_id old) @ '' - '' @ ke_print K (today X))
      in bindS (liftE (ok_orE failed (x_hash X secret))) (\<lambda>hashed.
         bindS (writeS X QAddKey (\<lambda>_. failed) (insert_api_key_into_db (new_key X me hashed description expiration))) (\<lambda>k.
         bindS (getS (\<lambda>d. if x_up X QOldKey then map_sum id fst (disable_apikey_in_db (today X) i (us_id me) d)
                           else Inl RowNotFound)) (\<lambda>answer.
         bindS (tryS X QOldKey (\<lambda>d. case disable_apikey_in_db (today X) i (us_id me) d of Inr (_, d') \<Rightarrow> d' | Inl _ \<Rightarrow> d)) (\<lambda>_.
         let undo = tryS X QDropKey (\<lambda>d. case disable_apikey_in_db (today X) (ak_id k) (us_id me) d of
                                           Inr (_, d') \<Rightarrow> d' | Inl _ \<Rightarrow> d)
         in case answer of
              Inl _ \<Rightarrow> bindS undo (\<lambda>_. failS failed)
            | Inr n \<Rightarrow>
                (if n = 0 then bindS undo (\<lambda>_. failS (api_err 404 ''Old API key not found or already disabled''))
                 else okS (k, secret)))))))))))))"

definition key_message :: "string \<Rightarrow> string \<Rightarrow> string \<Rightarrow> string" where
  "key_message start ident after = start @ [CHR 0x27] @ ident @ [CHR 0x27] @ after"

definition delete_apikey_by_id :: "outside \<Rightarrow> account \<Rightarrow> string \<Rightarrow> (auth_db, unit) action" where
  "delete_apikey_by_id X me ident =
     bindS (liftE (ok_orE (api_err 400 ''Invalid UUID format.'') (x_parse_uuid X ident))) (\<lambda>i.
     bindS (writeS X QDropKey (\<lambda>_. api_err 500 (key_message ''Could not delete API key '' ident ''.''))
             (delete_apikey_from_db i (us_id me))) (\<lambda>n.
     guardS (n = 0) (api_err 404 (key_message ''API key with ID '' ident '' not found.''))))"

definition get_all_apikeys :: "outside \<Rightarrow> account \<Rightarrow> (auth_db, api_key list) action" where
  "get_all_apikeys X me =
     readS X QKeys (api_err 500 ''Could not get the API keys.'') (fetch_all_apikeys_from_db (us_id me))"

definition get_apikeys_by_id :: "outside \<Rightarrow> account \<Rightarrow> string \<Rightarrow> (auth_db, api_key) action" where
  "get_apikeys_by_id X me ident =
     bindS (liftE (ok_orE (api_err 400 ''Invalid UUID format.'') (x_parse_uuid X ident))) (\<lambda>i.
     bindS (readS X QKeys (api_err 500 ''Could not get the API key.'') (fetch_apikey_by_id_from_db i (us_id me))) (\<lambda>found.
     liftE (ok_orE (api_err 404 (key_message ''API key with ID '' ident '' not found.'')) found)))"

subsection \<open>Settings\<close>

record settings_patch =
  sp_public_registration_enabled :: "bool option"
  sp_google_login_enabled :: "bool option"
  sp_yandex_login_enabled :: "bool option"
  sp_vk_login_enabled :: "bool option"
  sp_support_max_reports_per_day :: "int option"
  sp_feature_request_max_per_day :: "int option"
  sp_feature_request_expose_issue_url :: "bool option"

text \<open>A value that does not change is neither written nor audited.\<close>

definition write_value :: "uuid \<Rightarrow> string \<Rightarrow> json \<Rightarrow> auth_db \<Rightarrow> auth_db" where
  "write_value administrator key v d =
     (let old = map_of (a_settings d) key
      in if old = Some v then d
         else d\<lparr>a_settings := (key, v) # filter (\<lambda>e. fst e \<noteq> key) (a_settings d),
                a_audit := a_audit d @ [(key, old, v, administrator)]\<rparr>)"

definition json_int :: "int \<Rightarrow> json" where
  "json_int n = JNum (if n \<ge> 0 then PosInt (word_of_int n) else NegInt (word_of_int n))"

definition write_opt :: "uuid \<Rightarrow> string \<Rightarrow> ('a \<Rightarrow> json) \<Rightarrow> 'a option \<Rightarrow> auth_db \<Rightarrow> auth_db" where
  "write_opt administrator key to v d = (case v of None \<Rightarrow> d | Some x \<Rightarrow> write_value administrator key (to x) d)"

definition update_settings :: "outside \<Rightarrow> settings_patch \<Rightarrow> uuid \<Rightarrow> auth_db \<Rightarrow> db_error + server_settings \<times> auth_db" where
  "update_settings X p a d =
     (let d' = write_opt a ''feature_request_expose_issue_url'' JBool (sp_feature_request_expose_issue_url p)
            (write_opt a ''feature_request_max_per_day'' json_int (sp_feature_request_max_per_day p)
            (write_opt a ''support_max_reports_per_day'' json_int (sp_support_max_reports_per_day p)
            (write_opt a ''vk_login_enabled'' JBool (sp_vk_login_enabled p)
            (write_opt a ''yandex_login_enabled'' JBool (sp_yandex_login_enabled p)
            (write_opt a ''google_login_enabled'' JBool (sp_google_login_enabled p)
            (write_opt a ''public_registration_enabled'' JBool (sp_public_registration_enabled p) d))))))
      in Inr (load_settings X d', d'))"

definition settings_error :: api_error where
  "settings_error = api_err 500 ''Could not read or update server settings.''"

definition configured :: "outside \<Rightarrow> string list \<Rightarrow> bool" where
  "configured X keys = list_all (\<lambda>k. trim (get_env_with_default X k []) \<noteq> []) keys"

record integration_status =
  is_google :: bool
  is_yandex :: bool
  is_vk :: bool
  is_mail :: bool
  is_github_issues :: bool
  is_storage :: bool

definition integration_status_of :: "outside \<Rightarrow> integration_status" where
  "integration_status_of X =
     \<lparr>is_google = configured X [''GOOGLE_CLIENT_ID'', ''GOOGLE_CLIENT_SECRET'', ''GOOGLE_REDIRECT_URL''],
      is_yandex = configured X [''YANDEX_CLIENT_ID'', ''YANDEX_CLIENT_SECRET'', ''YANDEX_REDIRECT_URL''],
      is_vk = configured X [''VK_CLIENT_ID'', ''VK_REDIRECT_URL''],
      is_mail = configured X [''MAIL_SERVER'', ''MAIL_USER'', ''MAIL_PASS'', ''MAIL_FROM''],
      is_github_issues = configured X [''GITHUB_ISSUES_REPO'', ''GITHUB_ISSUES_TOKEN''],
      is_storage = configured X [''STORAGE_HOST'', ''STORAGE_ACCESS_KEY'', ''STORAGE_SECRET_KEY'']\<rparr>"

text \<open>Registration and the three providers, as the login page sees them.\<close>

definition get_public_server_settings :: "outside \<Rightarrow> (auth_db, bool \<times> bool \<times> bool \<times> bool) action" where
  "get_public_server_settings X =
     bindS (readS X QSettings settings_error (load_settings X)) (\<lambda>s.
     let i = integration_status_of X
     in okS (ss_public_registration_enabled s, ss_google_login_enabled s \<and> is_google i,
             ss_yandex_login_enabled s \<and> is_yandex i, ss_vk_login_enabled s \<and> is_vk i))"

definition get_admin_server_settings ::
  "outside \<Rightarrow> (auth_db, server_settings \<times> tier_quota list \<times> integration_status) action" where
  "get_admin_server_settings X =
     bindS (readS X QSettings settings_error (load_settings X)) (\<lambda>s.
     bindS (readS X QTierLimit settings_error (\<lambda>d. sort_key tq_level (a_tiers d))) (\<lambda>tiers.
     okS (s, tiers, integration_status_of X)))"

definition patch_admin_server_settings :: "outside \<Rightarrow> account \<Rightarrow> settings_patch \<Rightarrow> (auth_db, server_settings) action" where
  "patch_admin_server_settings X me p =
     bindS (guardS (list_ex (\<lambda>v. case v of Some n \<Rightarrow> n < 0 \<or> n > 100000 | None \<Rightarrow> False)
                      [sp_support_max_reports_per_day p, sp_feature_request_max_per_day p])
             (api_err 400 ''Daily limits must be between 0 and 100000.'')) (\<lambda>_.
     writeS X QUpdate (\<lambda>_. settings_error) (update_settings X p (us_id me)))"

record tier_update =
  tu_max_owned_boards :: "int option"
  tu_max_upload_bytes :: int
  tu_max_storage_bytes :: int

definition tier_limits_json :: "tier_quota \<Rightarrow> json" where
  "tier_limits_json t =
     JObj [(''max_owned_boards'', (case tq_max_owned_boards t of Some n \<Rightarrow> json_int n | None \<Rightarrow> JNull)),
           (''max_storage_bytes'', json_int (tq_max_storage_bytes t)), (''max_upload_bytes'', json_int (tq_max_upload_bytes t))]"

definition tier_json :: "tier_quota \<Rightarrow> json" where
  "tier_json t =
     JObj [(''level'', json_int (tq_level t)),
           (''max_owned_boards'', (case tq_max_owned_boards t of Some n \<Rightarrow> json_int n | None \<Rightarrow> JNull)),
           (''max_storage_bytes'', json_int (tq_max_storage_bytes t)), (''max_upload_bytes'', json_int (tq_max_upload_bytes t)),
           (''name'', JStr (tq_name t)), (''requests_per_day'', json_int (tq_requests_per_day t))]"

definition update_tier :: "int \<Rightarrow> tier_update \<Rightarrow> uuid \<Rightarrow> auth_db \<Rightarrow> db_error + tier_quota option \<times> auth_db" where
  "update_tier level b administrator d =
     (case find (\<lambda>t. tq_level t = level) (a_tiers d) of
        None \<Rightarrow> Inr (None, d)
      | Some t \<Rightarrow>
          (let t' = t\<lparr>tq_max_owned_boards := tu_max_owned_boards b, tq_max_upload_bytes := tu_max_upload_bytes b,
                      tq_max_storage_bytes := tu_max_storage_bytes b\<rparr>
           in Inr (Some t', d\<lparr>a_tiers := map (\<lambda>r. if tq_level r = level then t' else r) (a_tiers d),
                a_audit := a_audit d @ [(''tier.'' @ (if level < 0 then ''-'' else []) @ nat_str (nat \<bar>level\<bar>),
                  Some (tier_limits_json t), tier_json t', administrator)]\<rparr>)))"

definition patch_tier_settings :: "outside \<Rightarrow> account \<Rightarrow> int \<Rightarrow> tier_update \<Rightarrow> (auth_db, tier_quota) action" where
  "patch_tier_settings X me level b =
     bindS (guardS ((case tu_max_owned_boards b of Some n \<Rightarrow> n \<le> 0 | None \<Rightarrow> False) \<or> tu_max_upload_bytes b \<le> 0
                    \<or> tu_max_upload_bytes b > 524288000 \<or> tu_max_storage_bytes b \<le> 0
                    \<or> tu_max_upload_bytes b > tu_max_storage_bytes b)
             (api_err 400 ''Tier limits must be positive, files cannot exceed 500 MiB, and one file must fit in total storage.'')) (\<lambda>_.
     bindS (writeS X QUpdate (\<lambda>_. settings_error) (update_tier level b (us_id me))) (\<lambda>r.
     liftE (ok_orE (api_err 404 ''Tier not found.'') r)))"

end
