(* ===== verification/Account_Run.thy ===== *)
theory Account_Run
  imports Providers Administration
begin

text \<open>
  Accounts over time: the routes of \<open>src/src/routes/user.rs\<close>, \<open>auth.rs\<close>, \<open>apikey.rs\<close> and \<open>server_settings.rs\<close> as one step
  function, and the traces of requests.  A trace records the surroundings, the request and the answer of every step;
  the properties trace what the tables hold back to the requests that put it there.
\<close>

subsection \<open>Requests\<close>

datatype authed_request =
    TotpStatus | TotpSetup | TotpConfirm string | TotpDisable string | TotpReset string
  | EmailRequest string | EmailVerify string string | NewUser user_form | Picture string multipart
  | ChangePassword "string option" string | PatchUser string user_update | Activate string | Deactivate string
  | DeleteUser bool string | GetUser string | SearchUsers string "int option" | SetColors "string list" "string list"
  | NewKey key_body | RotateKey string key_body | DeleteKey string | AllKeys | OneKey string
  | AdminSettings | PatchSettings settings_patch | PatchTier int tier_update

datatype account_request =
    Login string string | LoginTotp uuid string
  | Register string | RegisterVerify string string | RegisterComplete registration_form
  | ResetPassword string | ResetVerify string string string
  | GoogleStart "string option" | GoogleCallback string string | GoogleExchange string
  | YandexStart "string option" | YandexCallback string string
  | VkStart "string option" | VkCallback string string string
  | PublicSettings
  | Authed auth_headers string authed_request
  | FlushUsage bool

record world =
  wo_x :: outside
  wo_p :: providers
  wo_k :: key_env
  wo_is_url :: "string \<Rightarrow> bool"
  wo_print :: "string list \<Rightarrow> string list \<Rightarrow> string"

definition silent :: "('s, 'a) action \<Rightarrow> ('s, auth_answer) action" where
  "silent m = bindS m (\<lambda>_. okS (Done JNull))"

text \<open>The roles a route admits.\<close>

fun allowed_roles :: "authed_request \<Rightarrow> int list" where
  "allowed_roles (TotpReset _) = [2]"
| "allowed_roles (NewUser _) = [2]"
| "allowed_roles (Activate _) = [2]"
| "allowed_roles (Deactivate _) = [2]"
| "allowed_roles (DeleteUser _ _) = [2]"
| "allowed_roles AdminSettings = [2]"
| "allowed_roles (PatchSettings _) = [2]"
| "allowed_roles (PatchTier _ _) = [2]"
| "allowed_roles (NewKey _) = [1]"
| "allowed_roles (DeleteKey _) = [1]"
| "allowed_roles (OneKey _) = [1, 2, 3]"
| "allowed_roles _ = [1, 2]"

fun authed_handler :: "world \<Rightarrow> account \<Rightarrow> authed_request \<Rightarrow> (auth_db, auth_answer) action" where
  "authed_handler W me TotpStatus = silent (get_totp_status (wo_x W) me)"
| "authed_handler W me TotpSetup = silent (setup_totp (wo_x W) me)"
| "authed_handler W me (TotpConfirm code) = silent (confirm_totp (wo_x W) me code)"
| "authed_handler W me (TotpDisable code) = silent (disable_totp (wo_x W) me code)"
| "authed_handler W me (TotpReset ident) = silent (reset_user_totp (wo_x W) ident)"
| "authed_handler W me (EmailRequest e) = silent (request_current_user_email (wo_x W) me e)"
| "authed_handler W me (EmailVerify e code) = silent (verify_current_user_email (wo_x W) me e code)"
| "authed_handler W me (NewUser f) = silent (post_user (wo_x W) (wo_is_url W) f)"
| "authed_handler W me (Picture ident parts) = silent (post_user_profilepicture (wo_x W) me ident parts)"
| "authed_handler W me (ChangePassword old new) = silent (change_password (wo_x W) me old new)"
| "authed_handler W me (PatchUser ident f) = silent (patch_user_profile (wo_x W) me ident f)"
| "authed_handler W me (Activate ident) = silent (activate_user (wo_x W) ident)"
| "authed_handler W me (Deactivate ident) = silent (deactivate_user (wo_x W) me ident)"
| "authed_handler W me (DeleteUser committed ident) = silent (delete_user_by_id (wo_x W) committed ident)"
| "authed_handler W me (GetUser ident) = silent (get_users_by_id (wo_x W) me ident)"
| "authed_handler W me (SearchUsers q n) = silent (search_users_handler (wo_x W) q n)"
| "authed_handler W me (SetColors r c) = silent (update_color_preferences_handler (wo_x W) (wo_print W) me r c)"
| "authed_handler W me (NewKey b) = silent (post_apikey (wo_x W) (wo_k W) me b)"
| "authed_handler W me (RotateKey ident b) = silent (rotate_apikey (wo_x W) (wo_k W) me ident b)"
| "authed_handler W me (DeleteKey ident) = silent (delete_apikey_by_id (wo_x W) me ident)"
| "authed_handler W me AllKeys = silent (get_all_apikeys (wo_x W) me)"
| "authed_handler W me (OneKey ident) = silent (get_apikeys_by_id (wo_x W) me ident)"
| "authed_handler W me AdminSettings = silent (get_admin_server_settings (wo_x W))"
| "authed_handler W me (PatchSettings p) = silent (patch_admin_server_settings (wo_x W) me p)"
| "authed_handler W me (PatchTier level b) = silent (patch_tier_settings (wo_x W) me level b)"

fun account_step :: "world \<Rightarrow> account_request \<Rightarrow> (auth_db, auth_answer) action" where
  "account_step W (Login email password) = login (wo_x W) email password"
| "account_step W (LoginTotp i code) = login_totp (wo_x W) i code"
| "account_step W (Register email) = silent (post_user_register (wo_x W) email)"
| "account_step W (RegisterVerify email code) = silent (post_user_register_verify (wo_x W) email code)"
| "account_step W (RegisterComplete f) = post_user_register_complete (wo_x W) f"
| "account_step W (ResetPassword email) = silent (post_user_password_reset (wo_x W) email)"
| "account_step W (ResetVerify email code pw) = silent (post_user_password_reset_verify (wo_x W) email code pw)"
| "account_step W (GoogleStart r) = silent (oauth_google (wo_x W) (wo_p W) r)"
| "account_step W (GoogleCallback code csrf) = oauth_google_callback (wo_x W) (wo_p W) code csrf"
| "account_step W (GoogleExchange t) = oauth_google_exchange (wo_x W) (wo_p W) t"
| "account_step W (YandexStart r) = silent (oauth_yandex (wo_x W) (wo_p W) r)"
| "account_step W (YandexCallback code csrf) = oauth_yandex_callback (wo_x W) (wo_p W) code csrf"
| "account_step W (VkStart r) = silent (oauth_vk (wo_x W) (wo_p W) r)"
| "account_step W (VkCallback code csrf dev) = oauth_vk_callback (wo_x W) (wo_p W) code csrf dev"
| "account_step W PublicSettings = silent (get_public_server_settings (wo_x W))"
| "account_step W (Authed h path q) =
     bindS (authorize (wo_x W) (allowed_roles q) h path) (\<lambda>me. authed_handler W me q)"
| "account_step W (FlushUsage ins) = silent (updS (flush_usage_queue ins (x_now (wo_x W))))"

type_synonym account_event = "world \<times> account_request \<times> (api_error + auth_answer)"

inductive account_trace :: "auth_db \<Rightarrow> account_event list \<Rightarrow> auth_db \<Rightarrow> bool" for d0 where
  start: "account_trace d0 [] d0"
| step: "account_trace d0 tr d \<Longrightarrow> account_step W q d = (a, d') \<Longrightarrow> account_trace d0 (tr @ [(W, q, a)]) d'"

inductive_simps account_trace_nil [simp]: "account_trace d0 [] d"

text \<open>An answer with a token for \<open>u\<close>.\<close>

definition token_answer :: "outside \<Rightarrow> uuid \<Rightarrow> auth_answer \<Rightarrow> bool" where
  "token_answer X u a \<longleftrightarrow>
     (case a of
        SignedIn r \<Rightarrow> issue_login_response X u = Inr r
            \<or> (\<exists>t. encode_jwt X (x_uuid X u) = Inr t \<and> r = \<lparr>lr_headers = [], lr_body = JObj [(''token'', JStr t)]\<rparr>)
      | SignedInAt url hs \<Rightarrow> browser_token X url u = Inr (SignedInAt url hs)
      | _ \<Rightarrow> False)"

fun signs_in :: "auth_answer \<Rightarrow> bool" where
  "signs_in (SignedIn _) = True"
| "signs_in (SignedInAt _ _) = True"
| "signs_in _ = False"

end
