(* ===== verification/Account_Rules.thy ===== *)
theory Account_Rules
  imports Account_Run
begin

text \<open>
  Proof rules for the account handlers: what an action leaves unchanged (\<open>stays\<close>) through conditionals and case
  distinctions, weakest preconditions (\<open>wp\<close>) for the handlers whose answer matters, and the caller that the
  authorization middleware lets through.
\<close>

subsection \<open>Actions that stay within a relation\<close>

lemma stays_if [stays_intros]: "stays R m \<Longrightarrow> stays R n \<Longrightarrow> stays R (if c then m else n)"
  by simp

lemma stays_option [stays_intros]:
  "stays R m \<Longrightarrow> (\<And>x. stays R (f x)) \<Longrightarrow> stays R (case v of None \<Rightarrow> m | Some x \<Rightarrow> f x)"
  by (cases v) simp_all

lemma stays_sum [stays_intros]:
  "(\<And>e. stays R (m e)) \<Longrightarrow> (\<And>x. stays R (f x)) \<Longrightarrow> stays R (case v of Inl e \<Rightarrow> m e | Inr x \<Rightarrow> f x)"
  by (cases v) simp_all

lemma stays_prod [stays_intros]: "(\<And>x y. stays R (f x y)) \<Longrightarrow> stays R (case p of (x, y) \<Rightarrow> f x y)"
  by (cases p) simp

lemma stays_quiet [stays_intros]: "preorder_on_states R \<Longrightarrow> stays R m \<Longrightarrow> stays R (silent m)"
  unfolding silent_def by (intro stays_intros)

subsection \<open>Weakest preconditions\<close>

definition wp :: "('s, 'a) action \<Rightarrow> (api_error + 'a \<Rightarrow> 's \<Rightarrow> bool) \<Rightarrow> 's \<Rightarrow> bool" where
  "wp m Q s \<longleftrightarrow> Q (fst (m s)) (snd (m s))"

named_theorems wp_simps "weakest preconditions of the primitive actions"

lemma wpD: "wp m Q s \<Longrightarrow> m s = (a, s') \<Longrightarrow> Q a s'"
  by (simp add: wp_def)

lemma wp_okS [wp_simps]: "wp (okS x) Q s = Q (Inr x) s"
  by (simp add: wp_def okS_def)

lemma wp_failS [wp_simps]: "wp (failS e) Q s = Q (Inl e) s"
  by (simp add: wp_def failS_def)

lemma wp_bindS [wp_simps]:
  "wp (bindS m f) Q s = wp m (\<lambda>a s'. case a of Inl e \<Rightarrow> Q (Inl e) s' | Inr x \<Rightarrow> wp (f x) Q s') s"
  by (simp add: wp_def bindS_def split: prod.split sum.split)

lemma wp_liftE [wp_simps]: "wp (liftE r) Q s = Q r s"
  by (simp add: wp_def liftE_def)

lemma wp_guardS [wp_simps]: "wp (guardS c e) Q s = (if c then Q (Inl e) s else Q (Inr ()) s)"
  by (simp add: wp_def guardS_def)

lemma wp_readS [wp_simps]: "wp (readS X q e f) Q s = (if x_up X q then Q (Inr (f s)) s else Q (Inl e) s)"
  by (simp add: wp_def readS_def)

lemma wp_writeS [wp_simps]:
  "wp (writeS X q e f) Q s =
     (if x_up X q then (case f s of Inl de \<Rightarrow> Q (Inl (e (Some de))) s | Inr (x, s') \<Rightarrow> Q (Inr x) s') else Q (Inl (e None)) s)"
  by (simp add: wp_def writeS_def split: sum.split prod.split)

lemma wp_tryS [wp_simps]: "wp (tryS X q f) Q s = Q (Inr ()) (if x_up X q then f s else s)"
  by (simp add: wp_def tryS_def)

lemma wp_getS [wp_simps]: "wp (getS f) Q s = Q (Inr (f s)) s"
  by (simp add: wp_def getS_def)

lemma wp_updS [wp_simps]: "wp (updS f) Q s = Q (Inr ()) (f s)"
  by (simp add: wp_def updS_def)

lemma wp_quiet [wp_simps]:
  "wp (silent m) Q s = wp m (\<lambda>a s'. case a of Inl e \<Rightarrow> Q (Inl e) s' | Inr x \<Rightarrow> Q (Inr (Done JNull)) s') s"
  by (simp add: silent_def wp_def bindS_def okS_def split: prod.split sum.split)

lemma wp_mono: "wp m P s \<Longrightarrow> (\<And>a s'. P a s' \<Longrightarrow> Q a s') \<Longrightarrow> wp m Q s"
  by (simp add: wp_def)

lemma wp_stays: "stays R m \<Longrightarrow> wp m (\<lambda>_. R s) s"
  by (simp add: wp_def stays_def)

subsection \<open>The caller\<close>

text \<open>What the middleware itself changes.\<close>

definition same_tables :: "auth_db \<Rightarrow> auth_db \<Rightarrow> bool" where
  "same_tables d d' \<longleftrightarrow> (\<exists>rates queue. d' = d\<lparr>a_rates := rates, a_queue := queue\<rparr>)"

lemma same_tables_refl: "same_tables d d"
  unfolding same_tables_def by (rule exI [of _ "a_rates d"], rule exI [of _ "a_queue d"]) simp

lemma same_tables_pre: "preorder_on_states same_tables"
proof -
  have "same_tables d d''" if "same_tables d d'" "same_tables d' d''" for d d' d''
    using that unfolding same_tables_def by clarsimp blast
  then show ?thesis using same_tables_refl by (auto simp: preorder_on_states_def)
qed

lemma same_tables_rates: "same_tables d (cache_rate now k r d)"
  unfolding same_tables_def cache_rate_def by (intro exI [of _ "a_queue d"] exI) simp

lemma same_tables_queue: "same_tables d (queue_usage u path d)"
proof (cases "length (a_queue d) < 50000")
  case True
  then show ?thesis
    unfolding same_tables_def queue_usage_def by (intro exI [of _ "a_rates d"] exI [of _ "a_queue d @ [(u, path)]"]) simp
qed (simp add: queue_usage_def same_tables_refl)

lemma check_rate_limit_stays: "stays same_tables (check_rate_limit X u tier)"
  unfolding check_rate_limit_def by (intro stays_intros same_tables_pre stays_updS same_tables_rates)

lemma authorize_stays: "stays same_tables (authorize X roles h path)"
  unfolding authorize_def by (intro stays_intros same_tables_pre check_rate_limit_stays stays_updS same_tables_queue)

lemma subject_found:
  "fetch_active_user_from_subject X subject d = Some u \<Longrightarrow> u \<in> set (a_users d) \<and> active u"
  by (auto simp: fetch_active_user_from_subject_def fetch_active_user_by_id_from_db_def
      fetch_active_user_by_email_from_db_def find_Some_iff split: option.splits)

lemma authorize_tables: "authorize X roles h path d = (r, d') \<Longrightarrow> same_tables d d'"
  by (rule staysD [OF authorize_stays])

lemma authorize_caller:
  "authorize X roles h path d = (Inr me, d') \<Longrightarrow> me \<in> set (a_users d) \<and> active me \<and> us_role_level me \<in> set roles"
  unfolding authorize_def by (auto simp: action_simps result_simps dest: subject_found)

text \<open>A request as an administrator.\<close>

definition by_administrator :: "world \<Rightarrow> account_request \<Rightarrow> auth_db \<Rightarrow> bool" where
  "by_administrator W q d \<longleftrightarrow>
     (\<exists>h path r me d'. q = Authed h path r \<and> authorize (wo_x W) (allowed_roles r) h path d = (Inr me, d')
        \<and> us_role_level me = 2)"

lemma authed_cases:
  assumes "account_step W (Authed h path r) d = (a, d')"
  obtains (refused) e where "a = Inl e" "same_tables d d'"
  | (caller) me d1 where "me \<in> set (a_users d)" "active me" "us_role_level me \<in> set (allowed_roles r)" "same_tables d d1"
      "authorize (wo_x W) (allowed_roles r) h path d = (Inr me, d1)" "authed_handler W me r d1 = (a, d')"
proof (cases "authorize (wo_x W) (allowed_roles r) h path d")
  case (Pair b d1)
  then have s: "same_tables d d1" by (rule authorize_tables)
  show ?thesis
  proof (cases b)
    case (Inl e)
    then show ?thesis using assms Pair s refused [of e] by (simp add: bindS_def)
  next
    case (Inr me)
    then show ?thesis
      using assms Pair s caller [of me d1] authorize_caller [of "wo_x W" "allowed_roles r" h path d me d1]
      by (simp add: bindS_def)
  qed
qed

end
