(* ===== verification/Account_Contract.thy ===== *)
theory Account_Contract
  imports Account_Rules
begin

text \<open>
  The contract between the account tables and the handlers.  A relation between the tables before and after that every
  statement respects is respected by every handler made of these statements; \<open>harmless\<close> holds the statements all
  handlers share, its three extensions the statements that only some handlers use.
\<close>

subsection \<open>What statements change\<close>

text \<open>The tables of accounts and of what belongs to them are unchanged.\<close>

definition same_rows :: "auth_db \<Rightarrow> auth_db \<Rightarrow> bool" where
  "same_rows d d' \<longleftrightarrow>
     a_users d' = a_users d \<and> a_challenges d' = a_challenges d \<and> a_enrollments d' = a_enrollments d
     \<and> a_oauth d' = a_oauth d \<and> a_pending d' = a_pending d \<and> a_verifications d' = a_verifications d
     \<and> a_resets d' = a_resets d \<and> a_keys d' = a_keys d"

lemma same_rows_refl [simp]: "same_rows d d"
  by (simp add: same_rows_def)

lemma same_rows_trans: "same_rows d d' \<Longrightarrow> same_rows d' d'' \<Longrightarrow> same_rows d d''"
  by (simp add: same_rows_def)

text \<open>What the rest of the system reads of an account to decide who it is and what it may do.\<close>

definition same_standing :: "account \<Rightarrow> account \<Rightarrow> bool" where
  "same_standing r r' \<longleftrightarrow>
     us_id r' = us_id r \<and> us_username r' = us_username r \<and> us_email r' = us_email r
     \<and> us_role_level r' = us_role_level r \<and> us_tier_level r' = us_tier_level r
     \<and> ac_status r' = ac_status r \<and> ac_disabled r' = ac_disabled r"

lemma same_tables_rows: "same_tables d d' \<Longrightarrow> same_rows d d'"
  by (auto simp: same_tables_def same_rows_def)

named_theorems other_writes "statements on the remaining tables"

lemma rows_put_state [other_writes]: "same_rows d (put_state k v t d)"
  by (simp add: put_state_def same_rows_def)

lemma rows_drop_state [other_writes]: "same_rows d (d\<lparr>a_states := ss\<rparr>)"
  by (simp add: same_rows_def)

lemma rows_drop_counts [other_writes]: "same_rows d (d\<lparr>a_disable := cs\<rparr>)"
  by (simp add: same_rows_def)

lemma rows_sent [other_writes]: "same_rows d (d\<lparr>a_sent := ms\<rparr>)"
  by (simp add: same_rows_def)

lemma rows_put_count [other_writes]: "same_rows d (put_count u v d)"
  by (simp add: put_count_def same_rows_def)

lemma rows_incr [other_writes]: "incr_count now u d = Inr (x, d') \<Longrightarrow> same_rows d d'"
  by (auto simp: incr_count_def rows_put_count split: option.splits)

lemma rows_expire [other_writes]: "same_rows d (expire_count now u d)"
  by (auto simp: expire_count_def rows_put_count split: option.splits)

lemma rows_drop_object [other_writes]: "same_rows d (drop_object b k d)"
  by (simp add: drop_object_def same_rows_def)

lemma rows_write_opt: "same_rows d (write_opt a key to v d)"
  by (auto simp: write_opt_def write_value_def Let_def same_rows_def split: option.split)

lemma rows_settings [other_writes]: "update_settings X p a d = Inr (x, d') \<Longrightarrow> same_rows d d'"
  unfolding update_settings_def Let_def
  by (simp, elim conjE, hypsubst) (rule rows_write_opt same_rows_trans [OF _ rows_write_opt])+

lemma rows_tier [other_writes]: "update_tier level b a d = Inr (x, d') \<Longrightarrow> same_rows d d'"
  by (auto simp: update_tier_def Let_def same_rows_def split: option.splits)

lemma rows_flush [other_writes]: "same_rows d (flush_usage_queue ins now d)"
  by (simp add: flush_usage_queue_def Let_def same_rows_def)

lemma rows_queue [other_writes]: "same_rows d (queue_usage u path d)"
  by (rule same_tables_rows [OF same_tables_queue])

subsection \<open>Kinds of requests\<close>

text \<open>The requests whose handlers use a statement beyond the shared ones.\<close>

datatype request_kind = Shared | Challenging | Registering | Standing | Patching

fun authed_kind :: "authed_request \<Rightarrow> request_kind" where
  "authed_kind (Activate _) = Standing"
| "authed_kind (Deactivate _) = Standing"
| "authed_kind (DeleteUser _ _) = Standing"
| "authed_kind (PatchUser _ _) = Patching"
| "authed_kind _ = Shared"

fun kind_of :: "account_request \<Rightarrow> request_kind" where
  "kind_of (Login _ _) = Challenging"
| "kind_of (GoogleCallback _ _) = Challenging"
| "kind_of (GoogleExchange _) = Challenging"
| "kind_of (YandexCallback _ _) = Challenging"
| "kind_of (VkCallback _ _ _) = Challenging"
| "kind_of (Register _) = Registering"
| "kind_of (RegisterVerify _ _) = Registering"
| "kind_of (Authed _ _ q) = authed_kind q"
| "kind_of _ = Shared"

subsection \<open>The statements all handlers share\<close>

locale harmless =
  fixes R :: "auth_db \<Rightarrow> auth_db \<Rightarrow> bool"
  assumes pre: "preorder_on_states R"
    and rows: "same_rows d d' \<Longrightarrow> R d d'"
    and own: "(\<And>r. same_standing r (f r)) \<Longrightarrow> R d (map_user u f d)"
    and inserted: "insert_user_into_db X n e h None 1 1 d = Inr (x, d') \<Longrightarrow> R d d'"
    and inserted_oauth: "insert_oauth_user_into_db X n e' h d = Inr (x, d') \<Longrightarrow> R d d'"
    and email_set: "verify_and_set_user_email now u (to_ascii_lowercase (trim e)) code d = Inr (b, d') \<Longrightarrow> R d d'"
    and email_asked: "upsert_user_email_verification u e code t d = Inr (y, d') \<Longrightarrow> R d d'"
    and challenges_dropped: "R d (drop_login_challenges u d)"
    and challenge_deleted: "R d (delete_login_challenge i d)"
    and attempt_counted: "count_failed_attempt i d = Inr (n', d') \<Longrightarrow> R d d'"
    and enrolled: "upsert_enrollment u s t d = Inr (y, d') \<Longrightarrow> R d d'"
    and enrollment_deleted: "R d (delete_enrollment u d)"
    and confirmation_counted: "count_failed_confirmation u d = Inr (n', d') \<Longrightarrow> R d d'"
    and linked: "upsert_oauth_account l d = Inr (y, d') \<Longrightarrow> R d d'"
    and pending_deleted: "R d (delete_pending_registration e d)"
    and reset_asked: "insert_user_password_reset_code_into_db u code t d = Inr (y, d') \<Longrightarrow> R d d'"
    and resets_deleted: "R d (delete_all_password_reset_codes_for_user u d)"
    and key_added: "insert_api_key_into_db k d = Inr (k', d') \<Longrightarrow> R d d'"
    and key_disabled: "disable_apikey_in_db day i u d = Inr (m, d') \<Longrightarrow> R d d'"
    and key_deleted: "delete_apikey_from_db i u d = Inr (m, d') \<Longrightarrow> R d d'"
begin

lemma refl: "R d d"
  using pre by (simp add: preorder_on_states_def)

lemma trans: "R d d' \<Longrightarrow> R d' d'' \<Longrightarrow> R d d''"
  using pre by (auto simp: preorder_on_states_def)

lemma names: "R d (fill_missing_oauth_profile_names u a b d)"
  unfolding fill_missing_oauth_profile_names_def by (rule own) (simp add: same_standing_def)

lemma picture: "R d (update_user_profile_picture_in_db u url d)"
  unfolding update_user_profile_picture_in_db_def by (rule own) (simp add: same_standing_def)

lemma password: "R d (update_user_password_in_db u h d)"
  unfolding update_user_password_in_db_def by (rule own) (simp add: same_standing_def)

lemma colors: "R d (update_color_preferences u prefs d)"
  unfolding update_color_preferences_def by (rule own) (simp add: same_standing_def)

lemma secret: "R d (map_user u (\<lambda>r. r\<lparr>ac_totp_secret := s\<rparr>) d)"
  by (rule own) (simp add: same_standing_def)

lemma activated: "activate_enrollment now u s d = Inr (x, d') \<Longrightarrow> R d d'"
  by (auto simp: activate_enrollment_def refl intro: trans [OF enrollment_deleted secret] split: if_splits)

lemma disabled: "disable_second_factor u d = Inr (x, d') \<Longrightarrow> R d d'"
  by (auto simp: disable_second_factor_def
      intro: trans [OF trans [OF secret enrollment_deleted] challenges_dropped])

lemma others: "stays same_rows m \<Longrightarrow> stays R m"
  using rows by (auto simp: stays_def)

lemma key_retired: "R d (case disable_apikey_in_db day i u d of Inr (_, d') \<Rightarrow> d' | Inl _ \<Rightarrow> d)"
  using key_disabled refl by (auto split: sum.split)

lemmas statement =
  rows inserted inserted_oauth email_set email_asked challenges_dropped challenge_deleted attempt_counted enrolled
  enrollment_deleted confirmation_counted linked pending_deleted reset_asked resets_deleted key_added key_disabled
  key_deleted names picture password colors activated disabled key_retired other_writes

lemmas acts = stays_intros pre stays_writeS stays_tryS stays_updS

text \<open>Authorization and mail.\<close>

lemma stays_authorize: "stays R (authorize X roles h path)"
proof -
  have "stays same_rows (authorize X roles h path)"
    using authorize_stays same_tables_rows by (auto simp: stays_def)
  then show ?thesis by (rule others)
qed

lemma stays_send_mail: "stays R (send_mail X e recipient body)"
  unfolding send_mail_def by (intro acts) (auto simp: action_simps intro: rows other_writes)

text \<open>Handlers.\<close>

lemma h_record_failed_attempt: "stays R (record_failed_attempt X e i m)"
  unfolding record_failed_attempt_def Let_def by (intro acts) (auto simp: action_simps intro: statement)

lemma h_record_failed_confirmation: "stays R (record_failed_confirmation X e u m)"
  unfolding record_failed_confirmation_def Let_def by (intro acts) (auto simp: action_simps intro: statement)

lemma h_login_totp: "stays R (login_totp X i code)"
  unfolding login_totp_def Let_def by (intro acts h_record_failed_attempt) (auto simp: action_simps intro: statement)

lemma h_disable_attempts: "stays R (disable_attempts X u)"
  unfolding disable_attempts_def Let_def by (intro acts)

lemma h_record_disable_failure: "stays R (record_disable_failure X u)"
  unfolding record_disable_failure_def Let_def by (intro acts) (auto simp: action_simps intro: statement)

lemma h_clear_disable_failures: "stays R (clear_disable_failures X u)"
  unfolding clear_disable_failures_def Let_def by (intro acts) (auto simp: action_simps intro: statement)

lemma h_get_totp_status: "stays R (get_totp_status X me)"
  unfolding get_totp_status_def Let_def by (intro acts)

lemma h_setup_totp: "stays R (setup_totp X me)"
  unfolding setup_totp_def Let_def by (intro acts) (auto simp: action_simps intro: statement)

lemma h_confirm_totp: "stays R (confirm_totp X me code)"
  unfolding confirm_totp_def Let_def by (intro acts h_record_failed_confirmation) (auto simp: action_simps intro: statement)

lemma h_disable_totp: "stays R (disable_totp X me code)"
  unfolding disable_totp_def Let_def by (intro acts h_disable_attempts h_record_disable_failure h_clear_disable_failures) (auto simp: action_simps intro: statement)

lemma h_reset_user_totp: "stays R (reset_user_totp X ident)"
  unfolding reset_user_totp_def Let_def by (intro acts h_clear_disable_failures) (auto simp: action_simps intro: statement)

lemma h_require_public_registration: "stays R (require_public_registration X)"
  unfolding require_public_registration_def Let_def by (intro acts)

lemma h_complete: "stays R (post_user_register_complete X f)"
  unfolding post_user_register_complete_def Let_def by (intro acts h_require_public_registration) (auto simp: action_simps intro: statement)

lemma h_email_request: "stays R (request_current_user_email X me e)"
  unfolding request_current_user_email_def Let_def by (intro acts stays_send_mail) (auto simp: action_simps intro: statement)

lemma h_email_verify: "stays R (verify_current_user_email X me e code)"
  unfolding verify_current_user_email_def Let_def by (intro acts) (auto simp: action_simps intro: statement)

lemma h_post_user: "stays R (post_user X is_url f)"
  unfolding post_user_def Let_def by (intro acts) (auto simp: action_simps intro: statement)

lemma h_picture: "stays R (post_user_profilepicture X me ident parts)"
  unfolding post_user_profilepicture_def Let_def by (intro acts) (auto simp: action_simps intro: statement)

lemma h_password_reset: "stays R (post_user_password_reset X email)"
  unfolding post_user_password_reset_def Let_def by (intro acts stays_send_mail) (auto simp: action_simps intro: statement)

lemma h_password_reset_verify: "stays R (post_user_password_reset_verify X email code pw)"
  unfolding post_user_password_reset_verify_def Let_def by (intro acts) (auto simp: action_simps intro: statement)

lemma h_change_password: "stays R (change_password X me old new)"
  unfolding change_password_def Let_def by (intro acts) (auto simp: action_simps intro: statement)

lemma h_get_user: "stays R (get_users_by_id X me ident)"
  unfolding get_users_by_id_def Let_def by (intro acts)

lemma h_search: "stays R (search_users_handler X q l)"
  unfolding search_users_handler_def Let_def by (intro acts)

lemma h_colors: "stays R (update_color_preferences_handler X pr me r c)"
  unfolding update_color_preferences_handler_def Let_def by (intro acts) (auto simp: action_simps intro: statement)

lemma h_post_apikey: "stays R (post_apikey X K me b)"
  unfolding post_apikey_def Let_def by (intro acts) (auto simp: action_simps intro: statement)

lemma h_rotate_apikey: "stays R (rotate_apikey X K me ident b)"
  unfolding rotate_apikey_def Let_def by (intro acts) (auto simp: action_simps intro: statement)

lemma h_delete_apikey: "stays R (delete_apikey_by_id X me ident)"
  unfolding delete_apikey_by_id_def Let_def by (intro acts) (auto simp: action_simps intro: statement)

lemma h_all_apikeys: "stays R (get_all_apikeys X me)"
  unfolding get_all_apikeys_def Let_def by (intro acts)

lemma h_one_apikey: "stays R (get_apikeys_by_id X me ident)"
  unfolding get_apikeys_by_id_def Let_def by (intro acts)

lemma h_public_settings: "stays R (get_public_server_settings X)"
  unfolding get_public_server_settings_def Let_def by (intro acts)

lemma h_admin_settings: "stays R (get_admin_server_settings X)"
  unfolding get_admin_server_settings_def Let_def by (intro acts)

lemma h_patch_settings: "stays R (patch_admin_server_settings X me p)"
  unfolding patch_admin_server_settings_def Let_def by (intro acts) (auto simp: action_simps intro: statement)

lemma h_patch_tier: "stays R (patch_tier_settings X me level b)"
  unfolding patch_tier_settings_def Let_def by (intro acts) (auto simp: action_simps intro: statement)

lemma h_provider_enabled: "stays R (provider_enabled X en refusal)"
  unfolding provider_enabled_def Let_def by (intro acts)

lemma h_store_state: "stays R (store_oauth_state X csrf s)"
  unfolding store_oauth_state_def Let_def by (intro acts) (auto simp: action_simps intro: statement)

lemma h_take_state: "stays R (take_oauth_state X csrf prov)"
  unfolding take_oauth_state_def Let_def by (intro acts) (auto simp: action_simps intro: statement)

lemma h_google_start: "stays R (oauth_google X P r)"
  unfolding oauth_google_def Let_def by (intro acts h_provider_enabled h_store_state)

lemma h_yandex_start: "stays R (oauth_yandex X P r)"
  unfolding oauth_yandex_def Let_def by (intro acts h_provider_enabled h_store_state)

lemma h_vk_start: "stays R (oauth_vk X P r)"
  unfolding oauth_vk_def Let_def by (intro acts h_provider_enabled h_store_state)

lemma h_create_oauth_user: "stays R (create_oauth_user X P prov i e)"
  unfolding create_oauth_user_def Let_def by (intro acts) (auto simp: action_simps intro: statement)

lemma h_find_or_create: "stays R (find_or_create_oauth_user X P prov i e reg)"
  unfolding find_or_create_oauth_user_def Let_def by (intro acts h_create_oauth_user)

lemma h_create_exchange: "stays R (create_exchange_user X P e)"
  unfolding create_exchange_user_def Let_def by (intro acts) (auto simp: action_simps intro: statement)

lemmas handlers =
  stays_quiet pre h_login_totp h_get_totp_status h_setup_totp h_confirm_totp h_disable_totp h_reset_user_totp h_complete
  h_email_request h_email_verify h_post_user h_picture h_password_reset h_password_reset_verify h_change_password
  h_get_user h_search h_colors h_post_apikey h_rotate_apikey h_delete_apikey h_all_apikeys h_one_apikey
  h_public_settings h_admin_settings h_patch_settings h_patch_tier h_google_start h_yandex_start h_vk_start

lemma authed_shared: "authed_kind q = Shared \<Longrightarrow> stays R (authed_handler W me q)"
  by (cases q) (simp_all add: handlers)

lemma shared: "kind_of q = Shared \<Longrightarrow> stays R (account_step W q)"
proof (cases q)
  case (FlushUsage ins)
  have "stays R (updS (flush_usage_queue ins now))" for now by (rule stays_updS) (rule rows [OF rows_flush])
  then show ?thesis unfolding FlushUsage account_step.simps by (intro stays_quiet pre)
qed (simp_all add: handlers stays_bindS stays_authorize authed_shared)

end

subsection \<open>The statements some handlers use\<close>

locale with_challenges = harmless +
  assumes challenge_added: "add_login_challenge i u t d = Inr (c, d') \<Longrightarrow> R d d'"
begin

lemma h_create_challenge: "stays R (create_login_challenge X e u t)"
  unfolding create_login_challenge_def Let_def by (intro acts) (auto simp: action_simps intro: statement challenge_added)

lemma h_login: "stays R (login X email pw)"
  unfolding login_def Let_def by (intro acts h_create_challenge)

lemma h_browser: "stays R (complete_browser_oauth X P reg s l)"
  unfolding complete_browser_oauth_def Let_def by (intro acts h_create_challenge h_find_or_create) (auto simp: action_simps intro: statement)

lemma h_exchange: "stays R (oauth_google_exchange X P tok)"
  unfolding oauth_google_exchange_def Let_def by (intro acts h_create_challenge h_provider_enabled h_create_exchange) (auto simp: action_simps intro: statement)

lemma h_google: "stays R (oauth_google_callback X P code csrf)"
  unfolding oauth_google_callback_def Let_def by (intro acts h_browser h_provider_enabled h_take_state)

lemma h_yandex: "stays R (oauth_yandex_callback X P code csrf)"
  unfolding oauth_yandex_callback_def Let_def by (intro acts h_browser h_provider_enabled h_take_state)

lemma h_vk: "stays R (oauth_vk_callback X P code csrf dev)"
  unfolding oauth_vk_callback_def Let_def by (intro acts h_browser h_provider_enabled h_take_state)

lemma authed_not_challenging: "authed_kind q \<noteq> Challenging"
  by (cases q) simp_all

lemma challenging: "kind_of q = Challenging \<Longrightarrow> stays R (account_step W q)"
  by (cases q) (simp_all add: h_login h_exchange h_google h_yandex h_vk authed_not_challenging)

end

locale with_registrations = harmless +
  assumes pending_asked: "upsert_pending_registration e code t d = Inr (y, d') \<Longrightarrow> R d d'"
    and pending_marked: "mark_pending_registration_verified now e code k t d = Inr (b, d') \<Longrightarrow> R d d'"
begin

lemma h_register: "stays R (post_user_register X e)"
  unfolding post_user_register_def Let_def by (intro acts h_require_public_registration stays_send_mail) (auto simp: action_simps intro: pending_asked)

lemma h_register_verify: "stays R (post_user_register_verify X e code)"
  unfolding post_user_register_verify_def Let_def by (intro acts h_require_public_registration) (auto simp: action_simps intro: pending_marked)

lemma authed_not_registering: "authed_kind q \<noteq> Registering"
  by (cases q) simp_all

lemma registering: "kind_of q = Registering \<Longrightarrow> stays R (account_step W q)"
  by (cases q) (simp_all add: stays_quiet pre h_register h_register_verify authed_not_registering)

end

locale with_standing = harmless +
  assumes activated_account: "activate_user_in_db u d = Inr (b, d') \<Longrightarrow> R d d'"
    and deactivated_account: "deactivate_user_in_db u d = Inr (b, d') \<Longrightarrow> R d d'"
    and deleted_account: "delete_user_from_db u d = (p, d') \<Longrightarrow> R d d'"
begin

lemma h_change_status: "stays R (change_user_status_by_id X u en)"
  unfolding change_user_status_by_id_def Let_def by (intro acts) (auto intro: activated_account deactivated_account split: if_splits)

lemma h_activate: "stays R (activate_user X ident)"
  unfolding activate_user_def change_user_status_def Let_def by (intro acts h_change_status)

lemma h_deactivate: "stays R (deactivate_user X me ident)"
  unfolding deactivate_user_def Let_def by (intro acts h_change_status)

lemma h_delete_tx: "stays R (delete_user_tx X committed ident u)"
proof (rule staysI)
  fix d
  obtain p d1 where del: "delete_user_from_db u d = (p, d1)" by force
  have dropped: "R s (case key of None \<Rightarrow> s | Some k \<Rightarrow> drop_object b k s)" for s key b
    by (cases key) (simp_all add: refl rows rows_drop_object)
  have "R d (case key of None \<Rightarrow> d1 | Some k \<Rightarrow> drop_object b k d1)" for key b
    using trans [OF deleted_account [OF del] dropped] .
  then show "R d (snd (delete_user_tx X committed ident u d))"
    using dropped by (cases p) (simp_all add: delete_user_tx_def del refl Let_def)
qed

lemma h_delete: "stays R (delete_user_by_id X committed ident)"
  unfolding delete_user_by_id_def Let_def by (intro acts h_delete_tx)

lemma authed_standing: "authed_kind q = Standing \<Longrightarrow> stays R (authed_handler W me q)"
  by (cases q) (simp_all add: stays_quiet pre h_activate h_deactivate h_delete)

lemma standing: "kind_of q = Standing \<Longrightarrow> stays R (account_step W q)"
  by (cases q) (simp_all add: stays_bindS pre stays_authorize authed_standing)

end

end
