(* ===== verification/Account_Inv.thy ===== *)
theory Account_Inv
  imports Account_Contract
begin

text \<open>
  What the account tables always satisfy: ids, names and addresses are unique, names and addresses have the shape the
  rest of the code relies on, roles, tiers and states are those the interface knows, and every dependent row belongs to
  an account that exists.
\<close>

subsection \<open>Shapes\<close>

definition ids :: "auth_db \<Rightarrow> uuid set" where
  "ids d = us_id ` set (a_users d)"

definition name_shape :: "string \<Rightarrow> bool" where
  "name_shape s \<longleftrightarrow> 3 \<le> length s \<and> length s \<le> 30
     \<and> list_all (\<lambda>c. is_ascii c \<longrightarrow> is_ascii_alnum c \<or> c = CHR ''_'' \<or> c = CHR ''-'') s"

definition normalised :: "string \<Rightarrow> bool" where
  "normalised e \<longleftrightarrow> to_ascii_lowercase (trim e) = e"

definition account_ok :: "account \<Rightarrow> bool" where
  "account_ok r \<longleftrightarrow> name_shape (us_username r) \<and> (\<forall>e. us_email r = Some e \<longrightarrow> normalised e)
     \<and> us_role_level r \<in> {1, 2} \<and> 1 \<le> us_tier_level r \<and> us_tier_level r \<le> 4
     \<and> (ac_status r = ''active'' \<and> \<not> ac_disabled r \<or> ac_status r = ''disabled'' \<and> ac_disabled r)"

definition users_ok :: "account list \<Rightarrow> bool" where
  "users_ok us \<longleftrightarrow> distinct (map us_id us) \<and> distinct (map us_username us) \<and> distinct (List.map_filter us_email us)
     \<and> (\<forall>r \<in> set us. account_ok r)"

definition challenges_ok :: "uuid set \<Rightarrow> login_challenge list \<Rightarrow> bool" where
  "challenges_ok U cs \<longleftrightarrow> distinct (map lc_id cs) \<and> (\<forall>c \<in> set cs. lc_user_id c \<in> U \<and> 0 \<le> lc_attempts c)"

definition enrollments_ok :: "uuid set \<Rightarrow> totp_enrollment list \<Rightarrow> bool" where
  "enrollments_ok U es \<longleftrightarrow> distinct (map te_user_id es) \<and> (\<forall>e \<in> set es. te_user_id e \<in> U)"

definition links_ok :: "uuid set \<Rightarrow> oauth_account list \<Rightarrow> bool" where
  "links_ok U ls \<longleftrightarrow> distinct (map (\<lambda>p. (oa_provider p, oa_provider_user_id p)) ls) \<and> (\<forall>p \<in> set ls. oa_user_id p \<in> U)"

definition verifications_ok :: "uuid set \<Rightarrow> email_verification list \<Rightarrow> bool" where
  "verifications_ok U vs \<longleftrightarrow> distinct (map em_user_id vs) \<and> (\<forall>v \<in> set vs. em_user_id v \<in> U)"

definition registrations_ok :: "pending_registration list \<Rightarrow> bool" where
  "registrations_ok ps \<longleftrightarrow> distinct (map pn_email ps)"

definition resets_ok :: "uuid set \<Rightarrow> reset_code list \<Rightarrow> bool" where
  "resets_ok U cs \<longleftrightarrow> distinct (map rc_code cs) \<and> (\<forall>c \<in> set cs. rc_user_id c \<in> U)"

definition keys_ok :: "uuid set \<Rightarrow> api_key list \<Rightarrow> bool" where
  "keys_ok U ks \<longleftrightarrow> distinct (map ak_id ks) \<and> (\<forall>k \<in> set ks. ak_user_id k \<in> U)"

lemmas table_defs =
  challenges_ok_def enrollments_ok_def links_ok_def verifications_ok_def registrations_ok_def resets_ok_def keys_ok_def

definition refs_ok :: "uuid set \<Rightarrow> auth_db \<Rightarrow> bool" where
  "refs_ok U d \<longleftrightarrow>
     challenges_ok U (a_challenges d) \<and> enrollments_ok U (a_enrollments d) \<and> links_ok U (a_oauth d)
     \<and> verifications_ok U (a_verifications d) \<and> registrations_ok (a_pending d) \<and> resets_ok U (a_resets d)
     \<and> keys_ok U (a_keys d)"

definition accounts_ok :: "auth_db \<Rightarrow> bool" where
  "accounts_ok d \<longleftrightarrow> users_ok (a_users d) \<and> refs_ok (ids d) d"

definition keep :: "auth_db \<Rightarrow> auth_db \<Rightarrow> bool" where
  "keep d d' \<longleftrightarrow> (accounts_ok d \<longrightarrow> accounts_ok d')"

lemma keep_pre: "preorder_on_states keep"
  by (auto simp: preorder_on_states_def keep_def)

lemma same_tables_ok: "same_tables d d' \<Longrightarrow> accounts_ok d' = accounts_ok d"
  by (auto simp: same_tables_def accounts_ok_def refs_ok_def ids_def)

lemma ids_has_user: "u \<in> ids d \<longleftrightarrow> has_user d u"
  by (auto simp: ids_def has_user_def)

subsection \<open>Addresses and names\<close>

lemma is_space_small: "is_space c \<Longrightarrow> (of_char c :: nat) \<le> 32"
  by (auto simp: is_space_def)

lemma is_space_lower [simp]: "is_space (ascii_lower c) = is_space c"
proof (cases "65 \<le> (of_char c :: nat) \<and> (of_char c :: nat) \<le> 90")
  case True
  then have "of_char (ascii_lower c) = (of_char c :: nat) + 32"
    by (simp add: ascii_lower_def Let_def)
  then have "\<not> is_space (ascii_lower c)" "\<not> is_space c"
    using True is_space_small [of c] is_space_small [of "ascii_lower c"] by fastforce+
  then show ?thesis by simp
qed (auto simp: ascii_lower_def Let_def)

lemma ascii_lower_idem [simp]: "ascii_lower (ascii_lower c) = ascii_lower c"
  by (auto simp: ascii_lower_def Let_def)

lemma lower_idem: "to_ascii_lowercase (to_ascii_lowercase s) = to_ascii_lowercase s"
  by (simp add: to_ascii_lowercase_def comp_def)

lemma dropWhile_lower: "dropWhile is_space (map ascii_lower s) = map ascii_lower (dropWhile is_space s)"
  by (induction s) auto

lemma trim_lower: "trim (to_ascii_lowercase s) = to_ascii_lowercase (trim s)"
  by (simp add: trim_def trim_end_matches_def to_ascii_lowercase_def dropWhile_lower rev_map)

lemma trim_idem: "trim (trim s) = trim s"
proof -
  have d: "dropWhile p (dropWhile p xs) = dropWhile p xs" for p and xs :: string
    by (induction xs) auto
  have hd: "dropWhile p (rev (dropWhile p (rev xs))) = rev (dropWhile p (rev xs))"
    if "dropWhile p xs = xs" for p and xs :: string
  proof (cases "rev (dropWhile p (rev xs))")
    case (Cons c cs)
    then have "hd xs = c" "xs \<noteq> []"
      by (metis append_eq_conv_conj hd_append list.sel(1) list.discI rev_append rev_rev_ident takeWhile_dropWhile_id,
          metis Cons dropWhile.simps(1) list.discI rev.simps(1))
    then have "\<not> p c" using that by (metis dropWhile_eq_self_iff)
    then show ?thesis using Cons by simp
  next
    case Nil
    show ?thesis unfolding Nil by simp
  qed
  show ?thesis unfolding trim_def trim_end_matches_def by (simp add: d hd)
qed

lemma normalised_norm: "normalised (to_ascii_lowercase (trim e))"
  by (simp add: normalised_def trim_lower trim_idem lower_idem)

lemma check_username_shape: "check_username X s = Inr n \<Longrightarrow> name_shape n"
  by (auto simp: check_username_def Let_def name_shape_def username_chars_def list_all_iff split: if_splits)


subsection \<open>Statements that keep the tables well formed\<close>

lemma a_users_map [simp]: "a_users (map_user u f d) = map (\<lambda>r. if us_id r = u then f r else r) (a_users d)"
  by (simp add: map_user_def)

lemma refs_map [simp]: "refs_ok U (map_user u f d) = refs_ok U d"
  by (simp add: map_user_def refs_ok_def)

lemma refs_mono: "U \<subseteq> V \<Longrightarrow> refs_ok U d \<Longrightarrow> refs_ok V d"
  unfolding refs_ok_def table_defs by blast

text \<open>A change of one row: its id stays, and its name and address are those of no other row.\<close>

lemma map_absent: "u \<notin> us_id ` set us \<Longrightarrow> map (\<lambda>r. if us_id r = u then f r else r) us = us"
  by (induction us) auto

lemma one_row:
  assumes "distinct (map us_id us)" and "r \<in> set us" and "us_id r = u"
  obtains xs ys where "us = xs @ r # ys" "map (\<lambda>r. if us_id r = u then f r else r) us = xs @ f r # ys"
    "\<forall>x \<in> set xs \<union> set ys. us_id x \<noteq> u"
proof -
  obtain xs ys where us: "us = xs @ r # ys" using split_list [OF assms(2)] by blast
  then have "u \<notin> us_id ` set xs" "u \<notin> us_id ` set ys" using assms by auto
  moreover from this have "\<forall>x \<in> set xs \<union> set ys. us_id x \<noteq> u" by force
  ultimately show ?thesis using that [OF us] assms(3) us map_absent [of u xs f] map_absent [of u ys f] by simp
qed

lemma map_filter_append: "List.map_filter f (xs @ ys) = List.map_filter f xs @ List.map_filter f ys"
  by (simp add: List.map_filter_def)

lemma map_filter_Cons:
  "List.map_filter f (x # xs) = (case f x of None \<Rightarrow> [] | Some y \<Rightarrow> [y]) @ List.map_filter f xs"
  by (simp add: List.map_filter_def split: option.split)

lemma in_map_filter: "y \<in> set (List.map_filter f xs) \<longleftrightarrow> Some y \<in> f ` set xs"
  by (induction xs) (auto simp: map_filter_Cons split: option.splits)

definition apart :: "account \<Rightarrow> account \<Rightarrow> bool" where
  "apart r x \<longleftrightarrow> us_username x \<noteq> us_username r \<and> (us_email r \<noteq> None \<longrightarrow> us_email x \<noteq> us_email r)"

lemma users_ok_replace:
  assumes "users_ok (xs @ r # ys)" and "us_id r' = us_id r" and "account_ok r'"
    and "\<And>x. x \<in> set xs \<union> set ys \<Longrightarrow> apart r' x"
  shows "users_ok (xs @ r' # ys)"
proof -
  have a: "us_username r' \<notin> us_username ` set xs" "us_username r' \<notin> us_username ` set ys"
    "\<And>e. us_email r' = Some e \<Longrightarrow> Some e \<notin> us_email ` set xs \<and> Some e \<notin> us_email ` set ys"
    using assms(4) by (force simp: apart_def)+
  have "distinct (List.map_filter us_email (xs @ r' # ys))"
    using assms(1) a(3) unfolding users_ok_def
    by (cases "us_email r'") (auto simp: map_filter_append map_filter_Cons in_map_filter split: option.splits)
  then show ?thesis using assms(1-3) a(1,2) by (auto simp: users_ok_def)
qed

lemma rows_apart:
  assumes ok: "users_ok us" and "r \<in> set us" and "x \<in> set us" and "us_id x \<noteq> us_id r"
  shows "apart r x"
proof -
  obtain xs ys where us: "us = xs @ r # ys" "x \<in> set xs \<union> set ys"
    using split_list [OF assms(2)] assms(3,4) by fastforce
  have "us_username r \<notin> us_username ` (set xs \<union> set ys)" using ok us(1) by (auto simp: users_ok_def)
  moreover have "Some e \<notin> us_email ` (set xs \<union> set ys)" if "us_email r = Some e" for e
    using ok us(1) that by (auto simp: users_ok_def map_filter_append map_filter_Cons in_map_filter)
  ultimately have "us_username x \<noteq> us_username r" "\<And>e. us_email r = Some e \<Longrightarrow> us_email x \<noteq> Some e"
    using us(2) by (metis image_eqI)+
  then show ?thesis by (cases "us_email r") (simp_all add: apart_def)
qed

lemma keep_replace:
  assumes "\<And>r. accounts_ok d \<Longrightarrow> r \<in> set (a_users d) \<Longrightarrow> us_id r = u \<Longrightarrow> us_id (f r) = u \<and> account_ok (f r)
             \<and> (\<forall>x \<in> set (a_users d). us_id x \<noteq> u \<longrightarrow> apart (f r) x)"
  shows "keep d (map_user u f d)"
  unfolding keep_def
proof
  assume ok: "accounts_ok d"
  then have us: "users_ok (a_users d)" and refs: "refs_ok (ids d) d" by (simp_all add: accounts_ok_def)
  show "accounts_ok (map_user u f d)"
  proof (cases "u \<in> ids d")
    case False
    then have "a_users (map_user u f d) = a_users d" by (simp add: ids_def map_absent)
    then show ?thesis using us refs by (simp add: accounts_ok_def ids_def)
  next
    case True
    then obtain r where r: "r \<in> set (a_users d)" "us_id r = u" by (auto simp: ids_def)
    have d: "distinct (map us_id (a_users d))" using us by (simp add: users_ok_def)
    obtain xs ys where s: "a_users d = xs @ r # ys" "a_users (map_user u f d) = xs @ f r # ys"
        "\<forall>x \<in> set xs \<union> set ys. us_id x \<noteq> u"
      using one_row [OF d r] unfolding a_users_map by blast
    have f: "us_id (f r) = u" "account_ok (f r)" "\<And>x. x \<in> set xs \<union> set ys \<Longrightarrow> apart (f r) x"
      using assms [OF ok r] s by auto
    have "users_ok (xs @ r # ys)" using us s(1) by simp
    then have "users_ok (xs @ f r # ys)" by (rule users_ok_replace) (simp_all add: f r(2))
    moreover have "ids (map_user u f d) = ids d" using s f(1) r(2) by (simp add: ids_def)
    ultimately show ?thesis using refs s(2) by (simp add: accounts_ok_def)
  qed
qed

lemma keep_standing:
  assumes "\<And>r. same_standing r (f r)"
  shows "keep d (map_user u f d)"
proof (rule keep_replace)
  fix r
  assume ok: "accounts_ok d" and r: "r \<in> set (a_users d)" "us_id r = u"
  have s: "same_standing r (f r)" by (rule assms)
  have "account_ok r" using ok r by (simp add: accounts_ok_def users_ok_def)
  then have "account_ok (f r)" using s by (simp add: same_standing_def account_ok_def)
  moreover have "apart (f r) x" if "x \<in> set (a_users d)" "us_id x \<noteq> u" for x
    using rows_apart [of "a_users d" r x] ok r that s by (simp add: accounts_ok_def apart_def same_standing_def)
  ultimately show "us_id (f r) = u \<and> account_ok (f r) \<and> (\<forall>x \<in> set (a_users d). us_id x \<noteq> u \<longrightarrow> apart (f r) x)"
    using s r(2) by (simp add: same_standing_def)
qed

text \<open>Tables the predicate does not mention, and tables it does.\<close>

lemma keep_other:
  assumes "a_users d' = a_users d" and "refs_ok (ids d) d \<Longrightarrow> refs_ok (ids d) d'"
  shows "keep d d'"
  using assms by (auto simp: keep_def accounts_ok_def ids_def)

lemma distinct_map_filter: "distinct (map f xs) \<Longrightarrow> distinct (map f (filter p xs))"
  by (induction xs) auto

lemma comp_same: "(\<And>x. f (g x) = f x) \<Longrightarrow> f \<circ> (\<lambda>x. if P x then g x else x) = f"
  by (auto simp: fun_eq_iff)

lemma keep_status:
  assumes s: "s \<in> {''active'', ''disabled''}"
  shows "keep d (map_user u (\<lambda>r. r\<lparr>ac_status := s, ac_disabled := (s = ''disabled'')\<rparr>) d)"
proof (rule keep_replace)
  fix r
  assume ok: "accounts_ok d" and r: "r \<in> set (a_users d)" "us_id r = u"
  then have "account_ok r" by (simp add: accounts_ok_def users_ok_def)
  then have "account_ok (r\<lparr>ac_status := s, ac_disabled := (s = ''disabled'')\<rparr>)"
    using s by (auto simp: account_ok_def)
  then show "us_id (r\<lparr>ac_status := s, ac_disabled := (s = ''disabled'')\<rparr>) = u
      \<and> account_ok (r\<lparr>ac_status := s, ac_disabled := (s = ''disabled'')\<rparr>)
      \<and> (\<forall>x \<in> set (a_users d). us_id x \<noteq> u \<longrightarrow> apart (r\<lparr>ac_status := s, ac_disabled := (s = ''disabled'')\<rparr>) x)"
    using ok r rows_apart [of "a_users d" r] by (auto simp: accounts_ok_def apart_def)
qed

lemma keep_activate: "activate_user_in_db u d = Inr (x, d') \<Longrightarrow> keep d d'"
  using keep_status [of "''active''" d u] by (simp add: activate_user_in_db_def set_user_status_in_db_def)

lemma keep_deactivate: "deactivate_user_in_db u d = Inr (x, d') \<Longrightarrow> keep d d'"
  using keep_status [of "''disabled''" d u] by (simp add: deactivate_user_in_db_def set_user_status_in_db_def)

lemma insert_account_effect:
  "insert_account r d = Inr (x, d') \<Longrightarrow> x = r \<and> d' = d\<lparr>a_users := a_users d @ [r]\<rparr> \<and> us_id r \<notin> ids d
     \<and> us_username r \<notin> us_username ` set (a_users d)
     \<and> (us_email r \<noteq> None \<longrightarrow> us_email r \<notin> us_email ` set (a_users d))"
  by (auto simp: insert_account_def ids_def split: if_splits)

lemma keep_insert_account:
  assumes "insert_account r d = Inr (x, d')" and "account_ok r"
  shows "keep d d'"
  unfolding keep_def
proof
  assume ok: "accounts_ok d"
  note e = insert_account_effect [OF assms(1)]
  have "distinct (List.map_filter us_email (a_users d @ [r]))"
    using ok e by (cases "us_email r") (auto simp: accounts_ok_def users_ok_def map_filter_append map_filter_Cons in_map_filter)
  then have "users_ok (a_users d')" using ok e assms(2) by (auto simp: accounts_ok_def users_ok_def ids_def)
  moreover have "refs_ok (ids d') d'"
    using ok e refs_mono [of "ids d" "ids d'" d] by (auto simp: accounts_ok_def ids_def refs_ok_def)
  ultimately show "accounts_ok d'" by (simp add: accounts_ok_def)
qed

lemma new_account_ok:
  "name_shape n \<Longrightarrow> (\<And>a. e = Some a \<Longrightarrow> normalised a) \<Longrightarrow> account_ok (new_account X n e h s 1 1)"
  by (simp add: account_ok_def new_account_def)

lemma inserted_user:
  assumes "insert_user_into_db X n e h None 1 1 d = Inr (x, d')"
  obtains name where "name_shape name"
    "insert_account (new_account X name (Some (to_ascii_lowercase (trim e))) h None 1 1) d = Inr (x, d')"
  using assms check_username_shape [of X n]
  by (auto simp: insert_user_into_db_def result_simps Let_def split: if_splits)

lemma inserted_oauth_user:
  assumes "insert_oauth_user_into_db X n e h d = Inr (x, d')"
  obtains name where "name_shape name"
    "insert_account (new_account X name (map_option (\<lambda>e. to_ascii_lowercase (trim e)) e) h None 1 1) d = Inr (x, d')"
  using assms check_username_shape [of X n]
  by (auto simp: insert_oauth_user_into_db_def result_simps Let_def split: if_splits)

lemma keep_insert_user: "insert_user_into_db X n e h None 1 1 d = Inr (x, d') \<Longrightarrow> keep d d'"
  by (elim inserted_user) (auto intro!: keep_insert_account new_account_ok normalised_norm)

lemma keep_insert_oauth_user: "insert_oauth_user_into_db X n e h d = Inr (x, d') \<Longrightarrow> keep d d'"
  by (elim inserted_oauth_user) (erule keep_insert_account, rule new_account_ok, auto intro!: normalised_norm)

text \<open>Challenges, enrollments, links, registrations, codes and keys.\<close>

lemma keep_drop_challenges: "keep d (drop_login_challenges u d)"
  by (rule keep_other) (auto simp: drop_login_challenges_def refs_ok_def challenges_ok_def distinct_map_filter)

lemma keep_add_challenge: "add_login_challenge i u t d = Inr (x, d') \<Longrightarrow> keep d d'"
  by (rule keep_other) (auto simp: add_login_challenge_def Let_def refs_ok_def challenges_ok_def ids_has_user split: if_splits)

lemma keep_delete_challenge: "keep d (delete_login_challenge i d)"
  by (rule keep_other) (auto simp: delete_login_challenge_def refs_ok_def challenges_ok_def distinct_map_filter)

lemma keep_count_attempt: "count_failed_attempt i d = Inr (x, d') \<Longrightarrow> keep d d'"
  by (rule keep_other)
     (auto simp: count_failed_attempt_def refs_ok_def challenges_ok_def comp_same)

lemma keep_upsert_enrollment: "upsert_enrollment u s t d = Inr (x, d') \<Longrightarrow> keep d d'"
  by (rule keep_other) (auto simp: upsert_enrollment_def refs_ok_def enrollments_ok_def ids_has_user distinct_map_filter split: if_splits)

lemma keep_delete_enrollment: "keep d (delete_enrollment u d)"
  by (rule keep_other) (auto simp: delete_enrollment_def refs_ok_def enrollments_ok_def distinct_map_filter)

lemma keep_count_confirmation: "count_failed_confirmation u d = Inr (x, d') \<Longrightarrow> keep d d'"
  by (rule keep_other)
     (auto simp: count_failed_confirmation_def refs_ok_def enrollments_ok_def comp_same)

lemma keep_link: "upsert_oauth_account l d = Inr (x, d') \<Longrightarrow> keep d d'"
  by (rule keep_other) (auto simp: upsert_oauth_account_def refs_ok_def links_ok_def ids_has_user distinct_map_filter split: if_splits)

lemma keep_upsert_verification: "upsert_user_email_verification u e c t d = Inr (x, d') \<Longrightarrow> keep d d'"
  by (rule keep_other) (auto simp: upsert_user_email_verification_def refs_ok_def verifications_ok_def ids_has_user distinct_map_filter split: if_splits)

lemma keep_upsert_pending: "upsert_pending_registration e c t d = Inr (x, d') \<Longrightarrow> keep d d'"
  by (rule keep_other) (auto simp: upsert_pending_registration_def Let_def refs_ok_def registrations_ok_def distinct_map_filter split: if_splits)

lemma keep_mark: "mark_pending_registration_verified now e c k t d = Inr (x, d') \<Longrightarrow> keep d d'"
  by (rule keep_other)
     (auto simp: mark_pending_registration_verified_def Let_def refs_ok_def registrations_ok_def comp_same)

lemma keep_delete_pending: "keep d (delete_pending_registration e d)"
  by (rule keep_other) (auto simp: delete_pending_registration_def refs_ok_def registrations_ok_def distinct_map_filter)

lemma keep_insert_reset: "insert_user_password_reset_code_into_db u c t d = Inr (x, d') \<Longrightarrow> keep d d'"
  by (rule keep_other)
     (auto simp: insert_user_password_reset_code_into_db_def refs_ok_def resets_ok_def ids_has_user distinct_map_filter split: if_splits)

lemma keep_delete_resets: "keep d (delete_all_password_reset_codes_for_user u d)"
  by (rule keep_other) (auto simp: delete_all_password_reset_codes_for_user_def refs_ok_def resets_ok_def distinct_map_filter)

lemma keep_insert_key: "insert_api_key_into_db k d = Inr (x, d') \<Longrightarrow> keep d d'"
  by (rule keep_other) (auto simp: insert_api_key_into_db_def refs_ok_def keys_ok_def ids_has_user split: if_splits)

lemma keep_disable_key: "disable_apikey_in_db day i u d = Inr (x, d') \<Longrightarrow> keep d d'"
  by (rule keep_other)
     (auto simp: disable_apikey_in_db_def Let_def refs_ok_def keys_ok_def comp_same)

lemma keep_delete_key: "delete_apikey_from_db i u d = Inr (x, d') \<Longrightarrow> keep d d'"
  by (rule keep_other) (auto simp: delete_apikey_from_db_def Let_def refs_ok_def keys_ok_def distinct_map_filter)

lemma keep_set_email:
  assumes "verify_and_set_user_email now u (to_ascii_lowercase (trim e)) code d = Inr (b, d')"
  shows "keep d d'"
proof -
  let ?e = "to_ascii_lowercase (trim e)" and ?f = "\<lambda>r. r\<lparr>us_email := Some (to_ascii_lowercase (trim e))\<rparr>"
  from assms have "d' = d \<or> Some ?e \<notin> us_email ` set (a_users d)
      \<and> d' = (map_user u ?f d)\<lparr>a_verifications := filter (\<lambda>v. em_user_id v \<noteq> u) (a_verifications d)\<rparr>"
    unfolding verify_and_set_user_email_def by (simp split: if_split_asm)
  then consider "d' = d" | (set) "Some ?e \<notin> us_email ` set (a_users d)"
      "d' = (map_user u ?f d)\<lparr>a_verifications := filter (\<lambda>v. em_user_id v \<noteq> u) (a_verifications d)\<rparr>"
    by blast
  then show ?thesis
  proof cases
    case set
    have "keep d (map_user u ?f d)"
    proof (rule keep_replace)
      fix r
      assume ok: "accounts_ok d" and r: "r \<in> set (a_users d)" "us_id r = u"
      then have "account_ok r" by (simp add: accounts_ok_def users_ok_def)
      then have "account_ok (?f r)" using normalised_norm [of e] by (simp add: account_ok_def)
      moreover have "apart (?f r) x" if "x \<in> set (a_users d)" "us_id x \<noteq> u" for x
        using rows_apart [of "a_users d" r x] ok r that set(1) by (force simp: accounts_ok_def apart_def)
      ultimately show "us_id (?f r) = u \<and> account_ok (?f r) \<and> (\<forall>x \<in> set (a_users d). us_id x \<noteq> u \<longrightarrow> apart (?f r) x)"
        using r(2) by simp
    qed
    moreover have "keep (map_user u ?f d) d'"
      unfolding set(2) by (rule keep_other) (simp_all add: refs_ok_def verifications_ok_def distinct_map_filter map_user_def)
    ultimately show ?thesis by (simp add: keep_def)
  qed (simp add: keep_def)
qed

lemma refs_delete: "refs_ok U d \<Longrightarrow> refs_ok (U - {u}) (snd (delete_user_from_db u d))"
  by (simp add: refs_ok_def table_defs delete_user_from_db_def distinct_map_filter)

lemma keep_delete_user:
  assumes "delete_user_from_db u d = (p, d')"
  shows "keep d d'"
  unfolding keep_def
proof
  assume ok: "accounts_ok d"
  have us: "a_users d' = filter (\<lambda>r. us_id r \<noteq> u) (a_users d)" and "ids d' = ids d - {u}"
    using assms by (auto simp: delete_user_from_db_def ids_def)
  moreover have "refs_ok (ids d - {u}) d'"
    using refs_delete [of "ids d" d u] ok assms by (simp add: accounts_ok_def)
  moreover have "distinct (List.map_filter us_email (filter p xs))" if "distinct (List.map_filter us_email xs)" for p xs
    using that by (induction xs) (auto simp: map_filter_Cons in_map_filter split: option.splits)
  note this [of "a_users d" "\<lambda>r. us_id r \<noteq> u"]
  then have "users_ok (a_users d')"
    using ok unfolding us by (simp add: accounts_ok_def users_ok_def distinct_map_filter)
  ultimately show "accounts_ok d'" by (simp add: accounts_ok_def)
qed

lemma keep_rows: "same_rows d d' \<Longrightarrow> keep d d'"
  by (auto simp: keep_def same_rows_def accounts_ok_def ids_def refs_ok_def)

subsection \<open>The handlers keep the tables well formed\<close>

interpretation keeps: with_challenges keep
  by unfold_locales
    (fact keep_pre keep_rows keep_standing keep_insert_user keep_insert_oauth_user keep_set_email
      keep_upsert_verification keep_drop_challenges keep_delete_challenge keep_count_attempt keep_upsert_enrollment
      keep_delete_enrollment keep_count_confirmation keep_link keep_delete_pending keep_insert_reset keep_delete_resets
      keep_insert_key keep_disable_key keep_delete_key keep_add_challenge)+

interpretation keeps_registering: with_registrations keep
  by unfold_locales (fact keep_upsert_pending keep_mark)+

interpretation keeps_standing: with_standing keep
  by unfold_locales (fact keep_activate keep_deactivate keep_delete_user)+

subsection \<open>Changing a profile\<close>

lemma set_opt_same: "(\<And>x s. g (f x s) = g s) \<Longrightarrow> g (set_opt v f r) = g r"
  by (simp add: set_opt_def split: option.split)

lemma set_opt_set: "(\<And>x s. g (f x s) = h x) \<Longrightarrow> g (set_opt v f r) = (case v of None \<Rightarrow> g r | Some x \<Rightarrow> h x)"
  by (simp add: set_opt_def split: option.split)

lemma apply_update_fields:
  "us_id (apply_update f r) = us_id r"
  "us_email (apply_update f r) = us_email r"
  "us_username (apply_update f r) = (case uu_username f of None \<Rightarrow> us_username r | Some n \<Rightarrow> n)"
  "us_role_level (apply_update f r) = (case uu_role_level f of None \<Rightarrow> us_role_level r | Some v \<Rightarrow> v)"
  "us_tier_level (apply_update f r) = (case uu_tier_level f of None \<Rightarrow> us_tier_level r | Some v \<Rightarrow> v)"
  "ac_status (apply_update f r) = (case uu_status f of None \<Rightarrow> ac_status r | Some s \<Rightarrow> to_ascii_lowercase s)"
  "ac_disabled (apply_update f r) =
     (case uu_status f of None \<Rightarrow> ac_disabled r | Some s \<Rightarrow> to_ascii_lowercase s = ''disabled'')"
  "ac_totp_secret (apply_update f r) = ac_totp_secret r"
  unfolding apply_update_def
  by (simp_all add: set_opt_same [where g = us_id] set_opt_same [where g = us_email] set_opt_same [where g = us_username]
      set_opt_same [where g = us_role_level] set_opt_same [where g = us_tier_level] set_opt_same [where g = ac_status]
      set_opt_same [where g = ac_disabled] set_opt_same [where g = ac_totp_secret]
      set_opt_set [where g = us_username and h = "\<lambda>x. x"] set_opt_set [where g = us_role_level and h = "\<lambda>x. x"]
      set_opt_set [where g = us_tier_level and h = "\<lambda>x. x"] set_opt_set [where g = ac_status and h = to_ascii_lowercase]
      set_opt_set [where g = ac_disabled and h = "\<lambda>s. to_ascii_lowercase s = ''disabled''"]
      cong: option.case_cong)

lemma alnum_not_continuation: "is_ascii_alnum c \<Longrightarrow> \<not> is_continuation c"
  by (auto simp: is_ascii_alnum_def is_lower_def is_upper_def is_ascii_digit_def is_continuation_def less_eq_char_def)

lemma validated_name_shape:
  assumes "length_between 3 30 s" and "validate_username s"
  shows "name_shape s"
proof -
  have ok: "is_ascii_alnum c \<or> c = CHR ''_'' \<or> c = CHR ''-''" if "c \<in> set s" for c
    using assms(2) that by (simp add: validate_username_def list_all_iff)
  have "\<not> is_continuation c" if "c \<in> set s" for c
    using ok [OF that] alnum_not_continuation by (auto simp: is_continuation_def)
  then have "filter (\<lambda>c. \<not> is_continuation c) s = s" by simp
  then show ?thesis using assms(1) ok by (simp add: length_between_def Let_def name_shape_def list_all_iff)
qed

text \<open>What the checks of the handler let through for the account the caller names.\<close>

lemma update_account_ok:
  assumes r: "account_ok r" and valid: "user_update_valid X f" and errors: "profile_errors X me f = []"
    and own: "us_role_level me \<noteq> 2 \<Longrightarrow> us_role_level r = us_role_level me \<and> us_tier_level r = us_tier_level me"
  shows "account_ok (apply_update f r)"
proof -
  have "name_shape (us_username (apply_update f r))"
    using r valid validated_name_shape
    by (auto simp: apply_update_fields account_ok_def user_update_valid_def opt_ok_def split: option.splits)
  moreover have "us_role_level (apply_update f r) \<in> {1, 2}"
    using r errors own by (cases "us_role_level me = 2"; cases "uu_role_level f")
      (auto simp: apply_update_fields account_ok_def profile_errors_def role_level_errors_def listed_def Let_def split: if_splits)
  moreover have "1 \<le> us_tier_level (apply_update f r) \<and> us_tier_level (apply_update f r) \<le> 4"
    using r errors own by (cases "us_role_level me = 2"; cases "uu_tier_level f")
      (auto simp: apply_update_fields account_ok_def profile_errors_def tier_level_errors_def listed_def Let_def split: if_splits)
  moreover have "\<exists>s. to_ascii_lowercase s \<in> {''active'', ''disabled''}
      \<and> uu_status f = Some s \<or> uu_status f = None"
    using errors by (cases "uu_status f") (auto simp: profile_errors_def status_errors_def listed_def Let_def split: if_splits)
  then have "ac_status (apply_update f r) = ''active'' \<and> \<not> ac_disabled (apply_update f r)
      \<or> ac_status (apply_update f r) = ''disabled'' \<and> ac_disabled (apply_update f r)"
    using r by (auto simp: apply_update_fields account_ok_def)
  ultimately show ?thesis using r by (simp add: account_ok_def apply_update_fields)
qed

lemma patch_effect:
  "patch_user_profile X me ident f d = (a, d') \<Longrightarrow> d' = d \<or> (\<exists>u. profile_target X me ident = Inr u
     \<and> profile_errors X me f = [] \<and> user_update_valid X f \<and> update_user_in_db X u f d = Inr ((), d'))"
proof -
  have "wp (patch_user_profile X me ident f) (\<lambda>_ d'. d' = d \<or> (\<exists>u. profile_target X me ident = Inr u
     \<and> profile_errors X me f = [] \<and> user_update_valid X f \<and> update_user_in_db X u f d = Inr ((), d'))) d"
    unfolding patch_user_profile_def by (simp add: wp_simps split: sum.split)
  then show "patch_user_profile X me ident f d = (a, d') \<Longrightarrow> ?thesis" by (rule wpD)
qed

lemma target_self: "profile_target X me ident = Inr u \<Longrightarrow> us_role_level me \<noteq> 2 \<Longrightarrow> u = us_id me"
  by (auto simp: profile_target_def result_simps split: if_splits)

lemma same_id: "users_ok us \<Longrightarrow> r \<in> set us \<Longrightarrow> s \<in> set us \<Longrightarrow> us_id r = us_id s \<Longrightarrow> r = s"
  unfolding users_ok_def by (metis distinct_map inj_on_def)

lemma keep_patch:
  assumes me: "me \<in> set (a_users d)" and p: "patch_user_profile X me ident f d = (a, d')"
  shows "keep d d'"
proof (cases "d' = d")
  case False
  then obtain u where t: "profile_target X me ident = Inr u" and e: "profile_errors X me f = []"
    and v: "user_update_valid X f" and upd: "update_user_in_db X u f d = Inr ((), d')"
    using patch_effect [OF p] by blast
  have d': "d' = map_user u (apply_update f) d"
    and fresh: "\<And>x. has_user d u \<Longrightarrow> x \<in> set (a_users d) \<Longrightarrow> us_id x \<noteq> u \<Longrightarrow> uu_username f \<noteq> Some (us_username x)"
    using upd v by (auto simp: update_user_in_db_def split: if_splits)
  show ?thesis unfolding d'
  proof (rule keep_replace)
    fix r
    assume ok: "accounts_ok d" and r: "r \<in> set (a_users d)" "us_id r = u"
    have us: "users_ok (a_users d)" using ok by (simp add: accounts_ok_def)
    have "r = me" if "us_role_level me \<noteq> 2"
      using same_id [OF us r(1) me] target_self [OF t that] r(2) by simp
    then have "account_ok (apply_update f r)"
      using us r(1) by (intro update_account_ok [OF _ v e]) (auto simp: users_ok_def)
    moreover have "apart (apply_update f r) x" if x: "x \<in> set (a_users d)" "us_id x \<noteq> u" for x
    proof -
      have "has_user d u" using r by (auto simp: has_user_def)
      then show ?thesis using rows_apart [OF us r(1) x(1)] fresh [OF _ x] x(2) r(2)
        by (auto simp: apart_def apply_update_fields split: option.splits)
    qed
    ultimately show "us_id (apply_update f r) = u \<and> account_ok (apply_update f r)
        \<and> (\<forall>x \<in> set (a_users d). us_id x \<noteq> u \<longrightarrow> apart (apply_update f r) x)"
      using r(2) by (simp add: apply_update_fields)
  qed
qed (simp add: keep_def)

subsection \<open>Every request keeps the tables well formed\<close>

lemma kind_patching: "kind_of q = Patching \<Longrightarrow> \<exists>h path ident f. q = Authed h path (PatchUser ident f)"
proof (cases q)
  case (Authed h path r)
  then show "kind_of q = Patching \<Longrightarrow> ?thesis" by (cases r) simp_all
qed simp_all

lemma patching_step:
  assumes "kind_of q = Patching" and "account_step W q d = (a, d')" and "preorder_on_states R"
    and "\<And>d d'. same_rows d d' \<Longrightarrow> R d d'"
    and "\<And>me ident f d b d'. me \<in> set (a_users d) \<Longrightarrow> patch_user_profile (wo_x W) me ident f d = (b, d') \<Longrightarrow> R d d'"
  shows "R d d'"
proof -
  obtain h path ident f where q: "q = Authed h path (PatchUser ident f)" using kind_patching [OF assms(1)] by blast
  from assms(2) [unfolded q] show ?thesis
  proof (cases rule: authed_cases)
    case (refused e)
    then show ?thesis by (intro assms(4) same_tables_rows)
  next
    case (caller me d1)
    have "R d d1" by (intro assms(4) same_tables_rows caller)
    moreover have "me \<in> set (a_users d1)" using caller by (auto simp: same_tables_def)
    then have "R d1 d'"
      using caller(6) assms(5) [of me d1 ident f]
      by (cases "patch_user_profile (wo_x W) me ident f d1")
        (auto simp: silent_def bindS_def okS_def split: sum.splits)
    ultimately show ?thesis using assms(3) by (auto simp: preorder_on_states_def)
  qed
qed

lemma step_keeps: "account_step W q d = (a, d') \<Longrightarrow> keep d d'"
proof (cases "kind_of q")
  case Patching
  then show "account_step W q d = (a, d') \<Longrightarrow> keep d d'"
    by (rule patching_step) (auto intro: keep_pre keep_rows keep_patch)
qed (auto intro: staysD keeps.shared keeps.challenging keeps_registering.registering keeps_standing.standing)

lemma trace_keeps: "account_trace d0 tr d \<Longrightarrow> accounts_ok d0 \<Longrightarrow> accounts_ok d"
  by (induction rule: account_trace.induct) (auto dest: step_keeps simp: keep_def)

end
