(* ===== verification/Account_Sample.thy ===== *)
theory Account_Sample
  imports Account_Inv
begin

text \<open>
  A concrete run of the account routes: an account is registered, enables its second factor, renames itself and signs
  in.  The services answer, the token of an account is its id and the hash of a password is the password.
\<close>

subsection \<open>The surroundings\<close>

definition account_env :: "int \<Rightarrow> uuid \<Rightarrow> outside" where
  "account_env t i =
     \<lparr>x_up = (\<lambda>_. True), x_now = t, x_env = (\<lambda>_. None), x_uuid = (\<lambda>u. if u = 7 then ''7'' else ''8''),
      x_parse_uuid = (\<lambda>s. if s = ''7'' then Some 7 else if s = ''8'' then Some 8 else None), x_new_id = i,
      x_random = (\<lambda>n. ''random''), x_code = 123456, x_letters = (\<lambda>_. True),
      x_verify_hash = (\<lambda>p h. Some (p = h)), x_hash = Some, x_jwt_sign = (\<lambda>_ c. Some (cl_sub c)),
      x_jwt_verify = (\<lambda>_ _ _ _ _ s. Inr \<lparr>cl_sub = s, cl_iat = 0, cl_exp = 0, cl_iss = [], cl_aud = []\<rparr>),
      x_base32 = (\<lambda>_. Some []), x_totp_config = (\<lambda>_ _. True),
      x_totp_check = (\<lambda>_ _ _ _ c. Some (c = ''246810'')), x_totp_secret = ''SECRET'', x_totp_uri = (\<lambda>_ _. Some ''uri''),
      x_email_format = (\<lambda>_. True), x_countries = [], x_languages = [], x_earliest_birthday = 0,
      x_image = Inr, x_storage_endpoint = [], x_storage_delete = (\<lambda>_ _. True), x_storage_put = (\<lambda>_ k _. Inr k),
      x_presign = (\<lambda>_ k. Some k)\<rparr>"

definition account_providers :: providers where
  "account_providers =
     \<lparr>pv_parse_url = (\<lambda>_. None), pv_join_url = (\<lambda>_ _. None), pv_query = (\<lambda>_ _. None), pv_number = (\<lambda>_. []),
      pv_csrf = [], pv_nonce = [], pv_verifier = [], pv_challenge = [], pv_suffix = (\<lambda>_. []), pv_google_url = Inl [],
      pv_google_exchange = (\<lambda>_ _. Inl []), pv_google_claims = (\<lambda>_ _. Inl []),
      pv_google_tokeninfo = (\<lambda>_. Unreachable []), pv_yandex_exchange = (\<lambda>_ _ _ _. Unreachable []),
      pv_yandex_user = (\<lambda>_. Unreachable []), pv_vk_exchange = (\<lambda>_ _ _. Unreachable []),
      pv_vk_user = (\<lambda>_ _ _. Unreachable [])\<rparr>"

definition account_world :: "int \<Rightarrow> uuid \<Rightarrow> world" where
  "account_world t i =
     \<lparr>wo_x = account_env t i, wo_p = account_providers,
      wo_k = \<lparr>ke_date = (\<lambda>_. None), ke_print = (\<lambda>_. []), ke_groups = []\<rparr>, wo_is_url = (\<lambda>_. True), wo_print = (\<lambda>_ _. [])\<rparr>"

definition empty_auth_db :: auth_db where
  "empty_auth_db =
     \<lparr>a_users = [],
      a_tiers = [\<lparr>tq_level = 1, tq_name = ''free'', tq_requests_per_day = 1000, tq_max_owned_boards = Some 3,
                  tq_max_upload_bytes = 10, tq_max_storage_bytes = 100\<rparr>],
      a_challenges = [], a_enrollments = [], a_oauth = [], a_pending = [], a_verifications = [], a_resets = [],
      a_keys = [], a_usage = [], a_settings = [], a_audit = [], a_states = [], a_disable = [], a_rates = [],
      a_queue = [], a_sent = [], a_dropped = []\<rparr>"

definition bearer :: "string \<Rightarrow> auth_headers" where
  "bearer token = \<lparr>hd_authorization = Some (''Bearer '' @ token), hd_cookie = None\<rparr>"

definition ann_form :: registration_form where
  "ann_form = \<lparr>rf_email = ''ann@ex.io'', rf_completion_token = ''random'', rf_username = ''ann'',
     rf_password = ''Passw0rd!'', rf_totp = None\<rparr>"

definition rename :: "string \<Rightarrow> user_update" where
  "rename name =
     \<lparr>uu_username = Some name, uu_first_name = None, uu_last_name = None, uu_country_code = None,
      uu_language_code = None, uu_birthday = None, uu_description = None, uu_role_level = Some 1,
      uu_tier_level = None, uu_status = None\<rparr>"

text \<open>The tables after each step.\<close>

definition ann_asked :: pending_registration where
  "ann_asked =
     \<lparr>pn_email = ''ann@ex.io'', pn_verification_code = ''123456'', pn_verification_expires_at = 1600,
      pn_verified_at = None, pn_completion_token = None, pn_completion_expires_at = None\<rparr>"

definition asked_db :: auth_db where
  "asked_db = empty_auth_db\<lparr>a_pending := [ann_asked], a_sent := [(''Ann@ex.io'', verification_mail ''123456'')]\<rparr>"

definition verified_db :: auth_db where
  "verified_db = asked_db\<lparr>a_pending :=
     [ann_asked\<lparr>pn_verified_at := Some 1060, pn_completion_token := Some ''random'', pn_completion_expires_at := Some 2860\<rparr>]\<rparr>"

definition ann :: account where
  "ann = new_account (account_env 1100 7) ''ann'' (Some ''ann@ex.io'') ''Passw0rd!'' None 1 1"

definition ann_db :: auth_db where
  "ann_db = verified_db\<lparr>a_pending := [], a_users := [ann]\<rparr>"

lemmas action_defs =
  bindS_def guardS_def readS_def writeS_def liftE_def okS_def failS_def tryS_def updS_def getS_def plain_def silent_def

lemmas env_defs =
  account_world_def account_env_def get_env_bool_def get_env_with_default_def get_env_def get_env_u64_def

lemma registration_open [simp]:
  "a_settings d = [] \<Longrightarrow> require_public_registration (account_env t i) d = (Inr (), d)"
  by (simp add: require_public_registration_def load_settings_def Let_def setting_def environment_defaults_def
      action_defs env_defs)

lemma env_fields [simp]:
  "x_up (account_env t i) = (\<lambda>_. True)" "x_now (account_env t i) = t" "x_new_id (account_env t i) = i"
  "x_random (account_env t i) n = ''random''" "x_code (account_env t i) = 123456"
  "x_letters (account_env t i) s = True" "x_verify_hash (account_env t i) p h = Some (p = h)"
  "x_hash (account_env t i) p = Some p" "x_email_format (account_env t i) s = True"
  "x_env (account_env t i) k = None" "x_uuid (account_env t i) u = (if u = 7 then ''7'' else ''8'')"
  by (simp_all add: account_env_def)

lemma code_digits [simp]: "six_digits 123456 = ''123456''"
  by (simp add: six_digits_def nat_str.simps digit_char_def, code_simp)

lemma ann_address [simp]:
  "to_ascii_lowercase (trim ''Ann@ex.io'') = ''ann@ex.io''" "to_ascii_lowercase (trim ''ann@ex.io'') = ''ann@ex.io''"
  "is_valid_email ''ann@ex.io''"
  by code_simp+

lemma register_step:
  "account_step (account_world 1000 1) (Register ''Ann@ex.io'') empty_auth_db = (Inr (Done JNull), asked_db)"
  by (simp add: account_world_def post_user_register_def Let_def action_defs check_user_exists_by_email_def
      upsert_pending_registration_def send_mail_def empty_auth_db_def asked_db_def ann_asked_def)
lemma verify_step:
  "account_step (account_world 1060 1) (RegisterVerify ''ann@ex.io'' ''123456'') asked_db = (Inr (Done JNull), verified_db)"
  by (simp add: account_world_def post_user_register_verify_def Let_def action_defs
      fetch_pending_registration_by_email_def ok_orE_def mark_pending_registration_verified_def empty_auth_db_def
      asked_db_def ann_asked_def verified_db_def)


lemma ann_valid [simp]:
  "validate_password ''Passw0rd!'' = Inr ()" "validate_username ''ann''" "length_between 3 50 ''ann''"
  "trim ''ann'' = ''ann''" "username_chars X ''ann'' = x_letters X ''ann''"
  by code_simp+

definition ann_token :: login_response where
  "ann_token =
     \<lparr>lr_headers = [(''Cache-Control'', ''no-store''), (''Authorization'', ''Bearer 7'')],
      lr_body = JObj [(''access_token'', JStr ''7''), (''token_type'', JStr ''Bearer'')]\<rparr>"

lemma token_for_ann [simp]: "issue_login_response (account_env t i) 7 = Inr ann_token"
  unfolding ann_token_def
  by (simp add: issue_login_response_def encode_jwt_def env_defs ok_orE_def map_errE_def bindE_def Let_def)

lemma complete_step:
  "account_step (account_world 1100 7) (RegisterComplete ann_form) verified_db =
     (Inr (SignedIn ann_token), ann_db)"
  by (simp add: account_world_def post_user_register_complete_def ann_form_def Let_def action_defs
      check_user_exists_in_db_def check_user_exists_by_email_def check_user_exists_by_username_def
      fetch_pending_registration_by_email_def ok_orE_def empty_auth_db_def asked_db_def ann_asked_def verified_db_def
      ann_db_def ann_def insert_user_into_db_def check_username_def insert_account_def delete_pending_registration_def
      bindE_def new_account_def today_def)

lemma registration_trace:
  "account_trace empty_auth_db
     [(account_world 1000 1, Register ''Ann@ex.io'', Inr (Done JNull)),
      (account_world 1060 1, RegisterVerify ''ann@ex.io'' ''123456'', Inr (Done JNull)),
      (account_world 1100 7, RegisterComplete ann_form, Inr (SignedIn ann_token))] ann_db"
  using account_trace.step [OF account_trace.step [OF account_trace.step [OF account_trace.start register_step]
    verify_step] complete_step] by simp

lemma empty_accounts_ok: "accounts_ok empty_auth_db"
  by (simp add: accounts_ok_def users_ok_def refs_ok_def table_defs ids_def empty_auth_db_def)

subsection \<open>Signing in with a second factor\<close>

definition ann2 :: account where
  "ann2 = ann\<lparr>ac_totp_secret := Some ''SECRET''\<rparr>"

definition ann2_db :: auth_db where
  "ann2_db = empty_auth_db\<lparr>a_users := [ann2]\<rparr>"

definition challenged_db :: auth_db where
  "challenged_db = ann2_db\<lparr>a_challenges := [\<lparr>lc_id = 9, lc_user_id = 7, lc_expires_at = 1600, lc_attempts = 0\<rparr>]\<rparr>"

lemma login_step:
  "account_step (account_world 1300 9) (Login ''ann@ex.io'' ''Passw0rd!'') ann2_db =
     (Inr (Challenged 9 1600), challenged_db)"
  by (simp add: account_world_def login_def action_defs fetch_active_user_by_email_from_db_def ok_orE_def active_def
      fetch_active_apikeys_by_user_id_from_db_def create_login_challenge_def drop_login_challenges_def
      add_login_challenge_def Let_def has_user_def ann2_db_def challenged_db_def empty_auth_db_def ann2_def ann_def
      new_account_def)

lemma sample_code [simp]: "verify_totp_code (account_env t i) ''SECRET'' ''246810'' = Inr True"
  by (simp add: verify_totp_code_def is_legacy_totp_secret_def is_ascii_digit_def less_eq_char_def account_env_def
      ok_orE_def bindE_def)

lemma login_totp_step:
  "account_step (account_world 1310 1) (LoginTotp 9 ''246810'') challenged_db = (Inr (SignedIn ann_token), ann2_db)"
  by (simp add: account_world_def login_totp_def action_defs fetch_login_challenge_def ok_orE_def map_errE_def
      fetch_active_user_by_id_from_db_def active_def delete_login_challenge_def ann2_db_def challenged_db_def
      empty_auth_db_def ann2_def ann_def new_account_def)

lemma login_trace:
  "account_trace ann2_db [(account_world 1300 9, Login ''ann@ex.io'' ''Passw0rd!'', Inr (Challenged 9 1600))] challenged_db"
  using account_trace.step [OF account_trace.start login_step] by simp

subsection \<open>Changing a profile\<close>

definition renamed_db :: auth_db where
  "renamed_db = ann_db\<lparr>a_users := [ann\<lparr>us_username := ''annie''\<rparr>],
     a_rates := [((7, 1), \<lparr>rl_tier_limit = 1000, rl_request_count = 0\<rparr>, 1520)], a_queue := [(7, ''/users'')]\<rparr>"

definition rename_request :: account_request where
  "rename_request = Authed (bearer ''7'') ''/users'' (PatchUser ''current'' (rename ''annie''))"

lemma ann_caller:
  "authorize (account_env 1220 1) [1, 2] (bearer ''7'') ''/users'' ann_db =
     (Inr ann, renamed_db\<lparr>a_users := [ann]\<rparr>)"
  by (simp add: authorize_def action_defs request_token_def extract_token_from_header_def extract_bearer_token_def
      bearer_def get_env_bool_def get_env_with_default_def get_env_def decode_jwt_def map_errE_def ok_orE_def
      fetch_active_user_from_subject_def fetch_active_user_by_id_from_db_def active_def check_rate_limit_def
      cached_rate_def cache_rate_def queue_usage_def ann_db_def renamed_db_def ann_def new_account_def verified_db_def
      asked_db_def empty_auth_db_def account_env_def)

lemma rename_step: "account_step (account_world 1220 1) rename_request ann_db = (Inr (Done JNull), renamed_db)"
proof -
  have "user_update_valid (account_env 1220 1) (rename ''annie'')"
    unfolding user_update_valid_def rename_def by (simp add: opt_ok_def) code_simp
  then have "patch_user_profile (account_env 1220 1) ann ''current'' (rename ''annie'') (renamed_db\<lparr>a_users := [ann]\<rparr>)
      = (Inr (), renamed_db)"
    by (simp add: patch_user_profile_def profile_target_def action_defs profile_errors_def listed_def Let_def
        role_level_errors_def update_user_in_db_def apply_update_def set_opt_def rename_def map_user_def renamed_db_def
        ann_def new_account_def)
  then show ?thesis
    by (simp add: rename_request_def account_world_def bindS_def [of "authorize _ _ _ _"] ann_caller)
      (simp add: silent_def bindS_def okS_def)
qed

end
