(* ===== verification/Privileges.thy ===== *)
theory Privileges
  imports Account_Sample
begin

text \<open>
  What the account tables guarantee at every moment, and who can change what an account may do.
\<close>

text \<open>C28: along every sequence of requests to the account routes, whatever the services answer and whichever calls
  fail, the tables stay well formed: ids, names and addresses of accounts are unique; names have 3 to 30 of the allowed
  characters, addresses are trimmed and lower-case; roles are 1 or 2, tiers 1 to 4, an account is active exactly when it
  is not disabled; challenges, enrollments, provider links, verifications, reset codes and keys are unique by their
  keys and belong to accounts that exist.\<close>

theorem account_tables_well_formed:
  assumes "account_trace d0 tr d" and "accounts_ok d0"
  shows "accounts_ok d"
  using trace_keeps [OF assms] .

theorem account_tables_well_formed_witness: "accounts_ok ann_db \<and> a_users ann_db = [ann]"
  using account_tables_well_formed [OF registration_trace empty_accounts_ok] by (simp add: ann_db_def)

subsection \<open>Standing\<close>

text \<open>Accounts stay, each keeps its role, its tier and its status, and a new account starts as an ordinary one.\<close>

definition ordinary :: "account \<Rightarrow> bool" where
  "ordinary r \<longleftrightarrow> us_role_level r = 1 \<and> us_tier_level r = 1 \<and> active r"

definition equal_standing :: "account \<Rightarrow> account \<Rightarrow> bool" where
  "equal_standing r r' \<longleftrightarrow> us_id r = us_id r' \<and> us_role_level r = us_role_level r' \<and> us_tier_level r = us_tier_level r'
     \<and> ac_status r = ac_status r'"

definition standing :: "auth_db \<Rightarrow> auth_db \<Rightarrow> bool" where
  "standing d d' \<longleftrightarrow> ids d \<subseteq> ids d'
     \<and> (\<forall>r' \<in> set (a_users d'). (\<exists>r \<in> set (a_users d). equal_standing r r') \<or> us_id r' \<notin> ids d \<and> ordinary r')"

lemma standing_pre: "preorder_on_states standing"
proof -
  have "standing d d''" if s: "standing d d'" and t: "standing d' d''" for d d' d''
  proof -
    have "(\<exists>r \<in> set (a_users d). equal_standing r r'') \<or> us_id r'' \<notin> ids d \<and> ordinary r''"
      if r'': "r'' \<in> set (a_users d'')" for r''
    proof -
      consider r' where "r' \<in> set (a_users d')" "equal_standing r' r''" | "us_id r'' \<notin> ids d'" "ordinary r''"
        using t r'' unfolding standing_def by blast
      then show ?thesis
      proof cases
        case 1
        then consider r where "r \<in> set (a_users d)" "equal_standing r r'" | "us_id r' \<notin> ids d" "ordinary r'"
          using s unfolding standing_def by blast
        then show ?thesis
          using 1(2) by cases (auto simp: equal_standing_def ordinary_def active_def)
      qed (use s in \<open>auto simp: standing_def\<close>)
    qed
    then show ?thesis using s t by (auto simp: standing_def)
  qed
  moreover have "standing d d" for d by (auto simp: standing_def equal_standing_def)
  ultimately show ?thesis unfolding preorder_on_states_def by blast
qed

lemma standing_users: "a_users d' = a_users d \<Longrightarrow> standing d d'"
  by (auto simp: standing_def ids_def equal_standing_def)

lemma standing_map:
  assumes "\<And>r. r \<in> set (a_users d) \<Longrightarrow> us_id r = u \<Longrightarrow> equal_standing r (f r)"
  shows "standing d (map_user u f d)"
proof -
  have e: "equal_standing r (if us_id r = u then f r else r)" if "r \<in> set (a_users d)" for r
    using assms that by (simp add: equal_standing_def)
  have "ids (map_user u f d) = (\<lambda>r. us_id (if us_id r = u then f r else r)) ` set (a_users d)"
    unfolding ids_def a_users_map set_map image_image ..
  also have "\<dots> = ids d"
    unfolding ids_def using e by (intro image_cong) (simp_all add: equal_standing_def)
  finally have "ids (map_user u f d) = ids d" .
  moreover have "\<exists>r \<in> set (a_users d). equal_standing r r'" if "r' \<in> set (a_users (map_user u f d))" for r'
    using that e unfolding a_users_map set_map by blast
  ultimately show ?thesis unfolding standing_def by blast
qed

lemma standing_insert:
  assumes "insert_account r d = Inr (x, d')" and "ordinary r"
  shows "standing d d'"
  using insert_account_effect [OF assms(1)] assms(2) by (auto simp: standing_def ids_def equal_standing_def)

lemma new_account_ordinary: "ordinary (new_account X n e h s 1 1)"
  by (simp add: ordinary_def new_account_def active_def)

lemma standing_insert_user: "insert_user_into_db X n e h None 1 1 d = Inr (x, d') \<Longrightarrow> standing d d'"
  by (elim inserted_user) (erule standing_insert, rule new_account_ordinary)

lemma standing_insert_oauth_user: "insert_oauth_user_into_db X n e h d = Inr (x, d') \<Longrightarrow> standing d d'"
  by (elim inserted_oauth_user) (erule standing_insert, rule new_account_ordinary)

lemma standing_set_email:
  assumes "verify_and_set_user_email now u e code d = Inr (b, d')"
  shows "standing d d'"
proof -
  have "standing d (map_user u (\<lambda>r. r\<lparr>us_email := Some e\<rparr>) d)"
    by (rule standing_map) (simp add: equal_standing_def)
  moreover have "standing d (map_user u f d\<lparr>a_verifications := vs\<rparr>) = standing d (map_user u f d)" for f vs
    by (simp add: standing_def ids_def map_user_def)
  ultimately show ?thesis
    using assms standing_users [of d d] unfolding verify_and_set_user_email_def by (auto split: if_split_asm)
qed

interpretation standings: with_challenges standing
proof unfold_locales
  show "same_rows d d' \<Longrightarrow> standing d d'" for d d' by (auto simp: same_rows_def intro: standing_users)
  show "(\<And>r. same_standing r (f r)) \<Longrightarrow> standing d (map_user u f d)" for f u d
    by (rule standing_map) (simp add: same_standing_def equal_standing_def)
qed (auto simp: drop_login_challenges_def delete_login_challenge_def count_failed_attempt_def upsert_enrollment_def
      delete_enrollment_def count_failed_confirmation_def upsert_oauth_account_def delete_pending_registration_def
      insert_user_password_reset_code_into_db_def delete_all_password_reset_codes_for_user_def
      insert_api_key_into_db_def disable_apikey_in_db_def delete_apikey_from_db_def add_login_challenge_def
      upsert_user_email_verification_def Let_def
      intro: standing_pre standing_users standing_insert_user standing_insert_oauth_user standing_set_email
      split: if_split_asm)

interpretation standings_registering: with_registrations standing
  by unfold_locales (auto simp: upsert_pending_registration_def mark_pending_registration_verified_def Let_def
      intro: standing_users split: if_split_asm)

subsection \<open>Who changes it\<close>

lemma standing_patch:
  assumes ok: "users_ok (a_users d)" and me: "me \<in> set (a_users d)" and role: "us_role_level me \<noteq> 2"
    and p: "patch_user_profile X me ident f d = (a, d')"
  shows "standing d d'"
proof (cases "d' = d")
  case False
  then obtain u where t: "profile_target X me ident = Inr u" and e: "profile_errors X me f = []"
    and v: "user_update_valid X f" and upd: "update_user_in_db X u f d = Inr ((), d')"
    using patch_effect [OF p] by blast
  have "uu_status f = None" "uu_role_level f \<in> {None, Some (us_role_level me)}" "uu_tier_level f \<in> {None, Some (us_tier_level me)}"
    using e role by (auto simp: profile_errors_def listed_def status_errors_def role_level_errors_def
        tier_level_errors_def Let_def split: option.splits if_splits)
  then have "equal_standing me (apply_update f me)"
    by (auto simp: equal_standing_def apply_update_fields)
  moreover have "r = me" if "r \<in> set (a_users d)" "us_id r = u" for r
    using same_id [OF ok that(1) me] target_self [OF t role] that(2) by simp
  moreover have "d' = map_user u (apply_update f) d"
    using upd v by (auto simp: update_user_in_db_def split: if_splits)
  ultimately show ?thesis by (auto intro: standing_map)
qed (simp add: standing_users)

lemma standing_authed:
  assumes ok: "users_ok (a_users d)" and k: "authed_kind r = Standing \<or> authed_kind r = Patching"
    and s: "account_step W (Authed h path r) d = (a, d')" and b: "\<not> by_administrator W (Authed h path r) d"
  shows "standing d d'"
  using s
proof (cases rule: authed_cases)
  case (refused e)
  then show ?thesis by (intro standing_users) (auto simp: same_tables_def)
next
  case (caller me d1)
  have role: "us_role_level me \<noteq> 2" using caller(5) b unfolding by_administrator_def by blast
  have us: "a_users d1 = a_users d" using caller(4) by (auto simp: same_tables_def)
  have "\<exists>ident f. r = PatchUser ident f" using k caller(3) role by (cases r) simp_all
  then obtain ident f where r: "r = PatchUser ident f" by blast
  obtain c where "patch_user_profile (wo_x W) me ident f d1 = (c, d')"
    using caller(6) unfolding r
    by (cases "patch_user_profile (wo_x W) me ident f d1") (auto simp: silent_def bindS_def okS_def split: sum.splits)
  then have "standing d1 d'" using standing_patch [of d1 me] ok caller(1) role us by simp
  then show ?thesis using us by (simp add: standing_def ids_def)
qed

lemma kind_authed:
  "kind_of q \<in> {Standing, Patching} \<Longrightarrow> \<exists>h path r. q = Authed h path r \<and> (authed_kind r = Standing \<or> authed_kind r = Patching)"
  by (cases q) auto

lemma standing_step:
  assumes ok: "users_ok (a_users d)" and s: "account_step W q d = (a, d')" and b: "\<not> by_administrator W q d"
  shows "standing d d'"
proof (cases "kind_of q \<in> {Standing, Patching}")
  case True
  then show ?thesis using kind_authed standing_authed [OF ok _ _] s b by blast
next
  case False
  then consider "kind_of q = Shared" | "kind_of q = Challenging" | "kind_of q = Registering" by (cases "kind_of q") auto
  then show ?thesis
    using staysD [OF standings.shared s] staysD [OF standings.challenging s]
      staysD [OF standings_registering.registering s] by cases
qed

text \<open>C9: only a request that the authorization middleware admits as an administrator's can change the role, the tier or
  the status of an account, or remove one.  After every other request, in every state that the requests can reach, each
  account that was there is still there with the role, tier and status it had, and each account that was not there
  before has role 1 and tier 1 and is active.\<close>

theorem privileges_need_administrator:
  assumes "account_trace d0 tr d" and "accounts_ok d0"
    and "account_step W q d = (a, d')" and "\<not> by_administrator W q d"
  shows "us_id ` set (a_users d) \<subseteq> us_id ` set (a_users d')
    \<and> (\<forall>r' \<in> set (a_users d').
      (\<exists>r \<in> set (a_users d). us_id r = us_id r' \<and> us_role_level r = us_role_level r' \<and> us_tier_level r = us_tier_level r'
         \<and> ac_status r = ac_status r')
      \<or> us_id r' \<notin> us_id ` set (a_users d) \<and> us_role_level r' = 1 \<and> us_tier_level r' = 1 \<and> active r')"
proof -
  have "standing d d'"
    using standing_step [OF _ assms(3,4)] trace_keeps [OF assms(1,2)] by (simp add: accounts_ok_def)
  then show ?thesis unfolding standing_def ids_def equal_standing_def ordinary_def by blast
qed

theorem privileges_need_administrator_witness:
  "us_id ` set (a_users ann_db) \<subseteq> us_id ` set (a_users renamed_db) \<and> us_username (hd (a_users renamed_db)) = ''annie''"
proof -
  have "\<not> by_administrator (account_world 1220 1) rename_request ann_db"
    by (auto simp: by_administrator_def rename_request_def account_world_def ann_caller ann_def new_account_def)
  then show ?thesis
    using privileges_need_administrator [OF registration_trace empty_accounts_ok rename_step]
    by (simp add: renamed_db_def)
qed

end
