(* ===== verification/Second_Factor.thy ===== *)
theory Second_Factor
  imports Account_Sample
begin

text \<open>
  Signing in: which account a token is for, what was presented for it, and where the challenge of a second factor comes
  from.
\<close>

subsection \<open>Requests that leave no new challenge\<close>

definition no_new_challenge :: "auth_db \<Rightarrow> auth_db \<Rightarrow> bool" where
  "no_new_challenge d d' \<longleftrightarrow>
     (\<forall>c' \<in> set (a_challenges d'). \<exists>c \<in> set (a_challenges d).
        lc_id c = lc_id c' \<and> lc_user_id c = lc_user_id c' \<and> lc_expires_at c = lc_expires_at c')"

lemma no_new_pre: "preorder_on_states no_new_challenge"
  unfolding preorder_on_states_def no_new_challenge_def by (intro conjI allI impI) (blast, metis)

lemma no_new_same: "a_challenges d' = a_challenges d \<Longrightarrow> no_new_challenge d d'"
  by (auto simp: no_new_challenge_def)

lemma no_new_fewer: "set (a_challenges d') \<subseteq> set (a_challenges d) \<Longrightarrow> no_new_challenge d d'"
  by (auto simp: no_new_challenge_def)

lemma no_new_map: "a_challenges (map_user u f d) = a_challenges d"
  by (simp add: map_user_def)

interpretation unchallenged: with_registrations no_new_challenge
proof unfold_locales
  show "same_rows d d' \<Longrightarrow> no_new_challenge d d'" for d d' by (auto simp: same_rows_def intro: no_new_same)
  show "no_new_challenge d (map_user u f d)" for f u d by (rule no_new_same) (rule no_new_map)
  show "no_new_challenge d (drop_login_challenges u d)" for u d
    by (rule no_new_fewer) (auto simp: drop_login_challenges_def)
  show "no_new_challenge d (delete_login_challenge i d)" for i d
    by (rule no_new_fewer) (auto simp: delete_login_challenge_def)
  show "count_failed_attempt i d = Inr (n', d') \<Longrightarrow> no_new_challenge d d'" for i d n' d'
    by (auto simp: count_failed_attempt_def no_new_challenge_def) blast+
qed (auto elim!: inserted_user inserted_oauth_user dest!: insert_account_effect
      simp: upsert_enrollment_def no_new_map
      delete_enrollment_def count_failed_confirmation_def upsert_oauth_account_def delete_pending_registration_def
      insert_user_password_reset_code_into_db_def delete_all_password_reset_codes_for_user_def
      insert_api_key_into_db_def disable_apikey_in_db_def delete_apikey_from_db_def
      upsert_user_email_verification_def verify_and_set_user_email_def
      upsert_pending_registration_def mark_pending_registration_verified_def Let_def
      intro: no_new_pre no_new_same split: if_split_asm)

interpretation unchallenged_standing: with_standing no_new_challenge
  by unfold_locales
    (auto simp: activate_user_in_db_def deactivate_user_in_db_def set_user_status_in_db_def delete_user_from_db_def
      no_new_map intro: no_new_same no_new_fewer)

lemma no_new_patch: "patch_user_profile X me ident f d = (a, d') \<Longrightarrow> no_new_challenge d d'"
  using patch_effect [of X me ident f d a d'] by (auto simp: update_user_in_db_def no_new_map intro: no_new_same split: if_splits)

lemma no_new_step:
  assumes "kind_of q \<noteq> Challenging" and s: "account_step W q d = (a, d')"
  shows "no_new_challenge d d'"
proof (cases "kind_of q")
  case Patching
  then show ?thesis using s
    by (rule patching_step) (auto intro: no_new_pre unchallenged.rows no_new_patch)
qed (use assms(1) staysD [OF unchallenged.shared s] staysD [OF unchallenged.registering s]
    staysD [OF unchallenged_standing.standing s] in simp_all)

subsection \<open>Requests that fail leave none\<close>

definition clean_failure :: "('s \<Rightarrow> 's \<Rightarrow> bool) \<Rightarrow> ('s, 'a) action \<Rightarrow> bool" where
  "clean_failure R m \<longleftrightarrow> (\<forall>d e d'. m d = (Inl e, d') \<longrightarrow> R d d')"

lemma clean_stays: "stays R m \<Longrightarrow> clean_failure R m"
  by (auto simp: clean_failure_def stays_def) (metis snd_conv)

lemma clean_bind:
  assumes "preorder_on_states R" and "stays R m" and "\<And>x. clean_failure R (f x)"
  shows "clean_failure R (bindS m f)"
  unfolding clean_failure_def
proof (intro allI impI)
  fix d e d'
  assume b: "bindS m f d = (Inl e, d')"
  obtain r d1 where m: "m d = (r, d1)" by force
  have d1: "R d d1" using assms(2) m by (rule staysD)
  show "R d d'"
  proof (cases r)
    case (Inr x)
    have "f x d1 = (Inl e, d')" using b m Inr by (simp add: bindS_def)
    then have "R d1 d'" using assms(3) [of x] unfolding clean_failure_def by blast
    then show ?thesis using d1 assms(1) unfolding preorder_on_states_def by blast
  qed (use b m d1 in \<open>simp add: bindS_def\<close>)
qed

lemma clean_last: "clean_failure R m \<Longrightarrow> clean_failure R (bindS m (\<lambda>x. okS (f x)))"
  unfolding clean_failure_def by (auto simp: bindS_def okS_def split: prod.splits sum.splits)

lemma clean_if: "clean_failure R m \<Longrightarrow> clean_failure R n \<Longrightarrow> clean_failure R (if c then m else n)"
  by simp

lemma clean_create: "clean_failure no_new_challenge (create_login_challenge X e u t)"
  unfolding create_login_challenge_def
proof (rule clean_bind [OF no_new_pre])
  show "clean_failure no_new_challenge (writeS X QAddChallenge (\<lambda>_. e) (add_login_challenge (x_new_id X) u t))"
    by (auto simp: clean_failure_def writeS_def add_login_challenge_def Let_def intro: no_new_same split: if_split_asm)
qed (intro stays_write_plain no_new_pre unchallenged.challenges_dropped)

lemma clean_login: "clean_failure no_new_challenge (login X email pw)"
  unfolding login_def
  by (intro clean_bind no_new_pre clean_if clean_last clean_create clean_stays stays_intros)

lemma clean_browser: "clean_failure no_new_challenge (complete_browser_oauth X P reg s l)"
  unfolding complete_browser_oauth_def Let_def
  by (intro clean_bind no_new_pre clean_if clean_last clean_create unchallenged.h_find_or_create)
    (auto intro!: clean_stays unchallenged.acts simp: action_simps intro: unchallenged.statement split: option.split)

lemma clean_exchange: "clean_failure no_new_challenge (oauth_google_exchange X P tok)"
  unfolding oauth_google_exchange_def Let_def
  by (intro clean_bind no_new_pre clean_if clean_last clean_create unchallenged.h_provider_enabled
        unchallenged.h_create_exchange stays_if)
    (auto intro!: clean_stays unchallenged.acts unchallenged.h_create_exchange
      simp: action_simps intro: unchallenged.statement split: option.split)

lemma clean_callbacks:
  "clean_failure no_new_challenge (oauth_google_callback X P code csrf)"
  "clean_failure no_new_challenge (oauth_yandex_callback X P code csrf)"
  "clean_failure no_new_challenge (oauth_vk_callback X P code csrf dev)"
  unfolding oauth_google_callback_def oauth_yandex_callback_def oauth_vk_callback_def
  by (intro clean_bind no_new_pre clean_browser unchallenged.h_provider_enabled unchallenged.h_take_state
      unchallenged.acts)+

lemma clean_step: "kind_of q = Challenging \<Longrightarrow> clean_failure no_new_challenge (account_step W q)"
proof (cases q)
  case (Authed h path r)
  then show "kind_of q = Challenging \<Longrightarrow> ?thesis" by (cases r) simp_all
qed (simp_all add: clean_login clean_exchange clean_callbacks)

subsection \<open>The first factor\<close>

text \<open>The account a provider's answer is for: the linked one, else the one with the address, else a new one.\<close>

definition vouched :: "auth_db \<Rightarrow> oauth_login \<Rightarrow> uuid \<Rightarrow> bool" where
  "vouched d l u \<longleftrightarrow>
     (case fetch_user_by_oauth_account (ol_provider l) (ol_provider_user_id l) d of
        Some r \<Rightarrow> us_id r = u \<and> active r
      | None \<Rightarrow> u \<notin> us_id ` set (a_users d)
          \<or> (\<exists>r \<in> set (a_users d). \<exists>e. us_id r = u \<and> active r \<and> ol_email l = Some e
                \<and> us_email r = Some (to_ascii_lowercase (trim e))))"

definition provider_answer :: "outside \<Rightarrow> providers \<Rightarrow> account_request \<Rightarrow> oauth_state \<Rightarrow> oauth_login \<Rightarrow> bool" where
  "provider_answer X P q s l \<longleftrightarrow>
     (case q of
        GoogleCallback code csrf \<Rightarrow>
          (\<exists>t id_token nonce c. pv_google_exchange P code (os_pkce_verifier s) = Inr t \<and> gt_id_token t = Some id_token
             \<and> os_nonce s = Some nonce \<and> pv_google_claims P id_token nonce = Inr c \<and> google_login X t c = Inr l)
      | YandexCallback code csrf \<Rightarrow>
          (\<exists>i k t u. pv_yandex_exchange P code i k (os_pkce_verifier s) = Reply t
             \<and> pv_yandex_user P (yt_access_token t) = Reply u \<and> yandex_login X t u = Inr l)
      | VkCallback code csrf dev \<Rightarrow>
          (\<exists>i redirect t u.
             pv_vk_exchange P (vk_base X @ ''/oauth2/auth'')
               [(''grant_type'', ''authorization_code''), (''redirect_uri'', redirect), (''client_id'', i),
                (''code_verifier'', os_pkce_verifier s), (''state'', csrf), (''device_id'', dev)] code = Reply t
             \<and> vt_state t = csrf
             \<and> pv_vk_user P (vk_base X @ ''/oauth2/user_info'') i (vt_access_token t) = Reply u \<and> vk_login X P t u = Inr l)
      | _ \<Rightarrow> False)"

definition by_callback :: "world \<Rightarrow> auth_db \<Rightarrow> account_request \<Rightarrow> string \<Rightarrow> string \<Rightarrow> uuid \<Rightarrow> bool" where
  "by_callback W d q csrf provider u \<longleftrightarrow>
     (\<exists>s l. get_state (x_now (wo_x W)) csrf d = Some s \<and> os_provider s = provider
        \<and> provider_answer (wo_x W) (wo_p W) q s l \<and> vouched d l u)"

text \<open>What a request presented for the account \<open>u\<close>, in the tables \<open>d\<close> it found.\<close>

fun first_factor :: "world \<Rightarrow> auth_db \<Rightarrow> account_request \<Rightarrow> uuid \<Rightarrow> bool" where
  "first_factor W d (Login email password) u \<longleftrightarrow>
     (\<exists>r \<in> set (a_users d). us_id r = u \<and> us_email r = Some email \<and> active r
        \<and> (x_verify_hash (wo_x W) password (ac_password_hash r) = Some True
           \<or> (\<exists>k \<in> set (a_keys d). ak_user_id k = u \<and> key_active (today (wo_x W)) k
                \<and> x_verify_hash (wo_x W) password (ak_key_hash k) = Some True)))"
| "first_factor W d (GoogleExchange id_token) u \<longleftrightarrow>
     (\<exists>c email. tokeninfo (pv_google_tokeninfo (wo_p W) id_token) = Inr c \<and> tokeninfo_email (wo_x W) c = Inr email
        \<and> (u \<notin> us_id ` set (a_users d)
           \<or> (\<exists>r \<in> set (a_users d). us_id r = u \<and> us_email r = Some email \<and> active r)))"
| "first_factor W d (GoogleCallback code csrf) u \<longleftrightarrow> by_callback W d (GoogleCallback code csrf) csrf ''google'' u"
| "first_factor W d (YandexCallback code csrf) u \<longleftrightarrow> by_callback W d (YandexCallback code csrf) csrf ''yandex'' u"
| "first_factor W d (VkCallback code csrf dev) u \<longleftrightarrow> by_callback W d (VkCallback code csrf dev) csrf ''vk'' u"
| "first_factor W d (RegisterComplete f) u \<longleftrightarrow> u \<notin> us_id ` set (a_users d)"
| "first_factor W d q u \<longleftrightarrow> False"

text \<open>The challenge an answer hands out.\<close>

definition offers :: "outside \<Rightarrow> auth_answer \<Rightarrow> uuid \<Rightarrow> bool" where
  "offers X a i \<longleftrightarrow>
     (\<exists>t. a = Challenged i t) \<or> (\<exists>redirect hs. a = ChallengedAt (append_totp_challenge X redirect i) hs)"

text \<open>How a request that checked a first factor ends, from the tables \<open>d\<close> with the account \<open>r\<close>.\<close>

definition challenge_made :: "outside \<Rightarrow> uuid \<Rightarrow> uuid \<Rightarrow> auth_db \<Rightarrow> auth_db \<Rightarrow> bool" where
  "challenge_made X u i d d' \<longleftrightarrow> i = x_new_id X \<and> a_users d' = a_users d
     \<and> (\<forall>c \<in> set (a_challenges d'). c \<in> set (a_challenges d)
          \<or> lc_id c = i \<and> lc_user_id c = u \<and> lc_expires_at c = x_now X + 300)"

lemma create_made:
  "create_login_challenge X e u (x_now X + 300) d = (Inr c, d') \<Longrightarrow> challenge_made X u (lc_id c) d d'"
  unfolding create_login_challenge_def
  by (auto simp: action_simps drop_login_challenges_def add_login_challenge_def challenge_made_def Let_def split: if_split_asm)

definition ended :: "outside \<Rightarrow> account \<Rightarrow> auth_db \<Rightarrow> auth_answer \<Rightarrow> auth_db \<Rightarrow> bool" where
  "ended X r d a d' \<longleftrightarrow>
     (if ac_totp_secret r \<noteq> None
      then \<exists>i. challenge_made X (us_id r) i d d' \<and> \<not> signs_in a \<and> offers X a i
      else d' = d \<and> signs_in a \<and> token_answer X (us_id r) a)"

lemma offers_simps [simp]: "offers X (Challenged i t) i" "offers X (ChallengedAt (append_totp_challenge X redirect i) hs) i"
  by (auto simp: offers_def)

lemma ended_challenge:
  "ac_totp_secret r \<noteq> None \<Longrightarrow> create_login_challenge X e (us_id r) (x_now X + 300) d = (Inr c, d')
     \<Longrightarrow> \<not> signs_in a \<Longrightarrow> offers X a (lc_id c) \<Longrightarrow> ended X r d a d'"
  by (drule create_made [where e = e]) (auto simp: ended_def)

lemma ended_token: "ac_totp_secret r = None \<Longrightarrow> signs_in a \<Longrightarrow> token_answer X (us_id r) a \<Longrightarrow> ended X r d a d"
  by (simp add: ended_def)

lemma find_inD: "find p xs = Some x \<Longrightarrow> x \<in> set xs \<and> p x"
  by (auto simp: find_Some_iff)

lemma ended_at_login:
  assumes "(if ac_totp_secret r \<noteq> None
     then bindS (create_login_challenge X e (us_id r) (x_now X + 300)) (\<lambda>c. okS (Challenged (lc_id c) (lc_expires_at c)))
     else bindS (liftE (issue_login_response X (us_id r))) (\<lambda>r. okS (SignedIn r))) d = (Inr a, d')"
  shows "ended X r d a d'"
  using assms by (cases "ac_totp_secret r") (auto simp: action_simps token_answer_def intro: ended_challenge ended_token)

lemma login_answer:
  assumes "login X email pw d = (Inr a, d')"
  shows "\<exists>r \<in> set (a_users d). us_email r = Some email \<and> active r \<and> ended X r d a d'
    \<and> (x_verify_hash X pw (ac_password_hash r) = Some True
       \<or> (\<exists>k \<in> set (a_keys d). ak_user_id k = us_id r \<and> key_active (today X) k \<and> x_verify_hash X pw (ak_key_hash k) = Some True))"
proof -
  let ?keys = "\<lambda>r. fetch_active_apikeys_by_user_id_from_db (today X) (us_id r) d"
  obtain r v where r: "fetch_active_user_by_email_from_db email d = Some r" "x_verify_hash X pw (ac_password_hash r) = Some v"
      "any_api_key_valid X pw (?keys r) \<or> v"
    and tail: "(if ac_totp_secret r \<noteq> None
     then bindS (create_login_challenge X internal_error (us_id r) (x_now X + 300)) (\<lambda>c. okS (Challenged (lc_id c) (lc_expires_at c)))
     else bindS (liftE (issue_login_response X (us_id r))) (\<lambda>r. okS (SignedIn r))) d = (Inr a, d')"
    using assms unfolding login_def bindS_Inr readS_Inr liftE_Inr guardS_Inr by (auto simp: result_simps)
  have "x_verify_hash X pw (ac_password_hash r) = Some True
      \<or> (\<exists>k \<in> set (a_keys d). ak_user_id k = us_id r \<and> key_active (today X) k \<and> x_verify_hash X pw (ak_key_hash k) = Some True)"
    using r(2,3)
    by (cases v) (auto simp: any_api_key_valid_def list_ex_iff fetch_active_apikeys_by_user_id_from_db_def)
  moreover have "r \<in> set (a_users d) \<and> us_email r = Some email \<and> active r"
    using find_inD [OF r(1) [unfolded fetch_active_user_by_email_from_db_def]] by simp
  ultimately show ?thesis using ended_at_login [OF tail] by blast
qed

text \<open>The browser flow: the row of the account changes in what the profile shows only.\<close>

definition same_factor :: "account \<Rightarrow> account \<Rightarrow> bool" where
  "same_factor r r' \<longleftrightarrow> us_id r' = us_id r \<and> us_email r' = us_email r \<and> ac_status r' = ac_status r
     \<and> ac_totp_secret r' = ac_totp_secret r"

definition same_factors :: "auth_db \<Rightarrow> auth_db \<Rightarrow> bool" where
  "same_factors d d' \<longleftrightarrow> a_challenges d' = a_challenges d
     \<and> (\<forall>r \<in> set (a_users d). \<exists>r' \<in> set (a_users d'). same_factor r r')"

lemma same_factors_pre: "preorder_on_states same_factors"
  unfolding preorder_on_states_def same_factors_def
  by (intro conjI allI impI) (auto simp: same_factor_def, (metis (no_types, lifting))+)

lemma same_factors_map:
  assumes "\<And>r. same_factor r (f r)"
  shows "same_factors d (map_user u f d)"
proof -
  have "same_factor r (if us_id r = u then f r else r)" for r using assms by (simp add: same_factor_def)
  then show ?thesis unfolding same_factors_def a_users_map no_new_map set_map by blast
qed

lemma same_factors_picture: "same_factors d (update_user_profile_picture_in_db u url d)"
  unfolding update_user_profile_picture_in_db_def by (rule same_factors_map) (simp add: same_factor_def)

lemma same_factors_names: "same_factors d (fill_missing_oauth_profile_names u a b d)"
  unfolding fill_missing_oauth_profile_names_def by (rule same_factors_map) (simp add: same_factor_def)

lemma same_factors_link: "upsert_oauth_account l d = Inr (x, d') \<Longrightarrow> same_factors d d'"
  by (auto simp: upsert_oauth_account_def same_factors_def same_factor_def split: if_split_asm)

lemma create_oauth_user_row:
  assumes "create_oauth_user X P provider i e d = (Inr r, d')"
  shows "r \<in> set (a_users d') \<and> active r \<and> us_id r \<notin> us_id ` set (a_users d) \<and> a_challenges d' = a_challenges d"
proof -
  obtain n h x where ins: "insert_oauth_user_into_db X n e h d = Inr (x, d')"
    and r: "fetch_active_user_by_id_from_db (us_id x) d' = Some r"
    using assms unfolding create_oauth_user_def Let_def by (auto simp: action_simps result_simps)
  have "r \<in> set (a_users d')" "us_id r = us_id x" "active r"
    using find_inD [OF r [unfolded fetch_active_user_by_id_from_db_def]] by auto
  then show ?thesis using ins by (auto elim!: inserted_oauth_user dest!: insert_account_effect simp: ids_def)
qed

lemma find_or_create_row:
  assumes "find_or_create_oauth_user X P provider i e reg d = (Inr r, d')"
  shows "r \<in> set (a_users d') \<and> active r \<and> a_challenges d' = a_challenges d
    \<and> (case fetch_user_by_oauth_account provider i d of
          Some r' \<Rightarrow> r' = r
        | None \<Rightarrow> us_id r \<notin> us_id ` set (a_users d) \<or> r \<in> set (a_users d) \<and> e \<noteq> None \<and> us_email r = e)"
proof (cases "fetch_user_by_oauth_account provider i d")
  case (Some r')
  then have "r' \<in> set (a_users d)"
    by (auto simp: fetch_user_by_oauth_account_def bind_eq_Some_conv dest: find_inD)
  then show ?thesis
    using assms Some unfolding find_or_create_oauth_user_def Let_def
    by (auto simp: action_simps split: if_split_asm)
next
  case None
  show ?thesis
  proof (cases "case e of None \<Rightarrow> None | Some a \<Rightarrow> fetch_user_by_email_from_db a d")
    case (Some r')
    then obtain a where a: "e = Some a" "fetch_user_by_email_from_db a d = Some r'" by (auto split: option.splits)
    have "r' \<in> set (a_users d)" "us_email r' = Some a"
      using find_inD [OF a(2) [unfolded fetch_user_by_email_from_db_def]] by auto
    then show ?thesis
      using assms None a unfolding find_or_create_oauth_user_def Let_def
      by (auto simp: action_simps account_active_def)
  next
    case no: None
    have "create_oauth_user X P provider i e d = (Inr r, d')"
      using assms None no unfolding find_or_create_oauth_user_def Let_def
      by (cases e) (auto simp: action_simps)
    from create_oauth_user_row [OF this] show ?thesis using None by simp
  qed
qed

lemma browser_token_answer: "browser_token X redirect u = Inr a \<Longrightarrow> signs_in a \<and> token_answer X u a"
  by (auto simp: browser_token_def token_answer_def result_simps)

lemma browser_answer:
  assumes "complete_browser_oauth X P reg s l d = (Inr a, d')" and "provider_answer X P q s l"
  shows "\<exists>r d1. r \<in> set (a_users d1) \<and> active r \<and> a_challenges d1 = a_challenges d \<and> ended X r d1 a d'
    \<and> vouched d l (us_id r)"
proof -
  let ?e = "case ol_email l of Some e \<Rightarrow> (if trim e \<noteq> [] then Some (to_ascii_lowercase (trim e)) else None) | None \<Rightarrow> None"
  obtain r d1 d2 d3 d4 where f: "find_or_create_oauth_user X P (ol_provider l) (ol_provider_user_id l) ?e reg d = (Inr r, d1)"
    and d2: "d2 = fill_missing_oauth_profile_names (us_id r) (ol_first_name l) (ol_last_name l) d1"
    and d3: "upsert_oauth_account (link_of r l) d2 = Inr ((), d3)"
    and d4: "(case (us_profile_picture_url r, filled (ol_picture_url l)) of
                  (None, Some url) \<Rightarrow> tryS X QPicture (update_user_profile_picture_in_db (us_id r) url)
                | _ \<Rightarrow> okS ()) d3 = (Inr (), d4)"
    and tail: "(if ac_totp_secret r \<noteq> None
         then bindS (create_login_challenge X (api_err 500 ''database error'') (us_id r) (x_now X + 300)) (\<lambda>c.
              okS (ChallengedAt (append_totp_challenge X (os_redirect s) (lc_id c)) [(''Cache-Control'', ''no-store'')]))
         else liftE (browser_token X (os_redirect s) (us_id r))) d4 = (Inr a, d')"
    using assms(1) unfolding complete_browser_oauth_def Let_def bindS_Inr writeS_Inr plain_Inr by auto
  note row = find_or_create_row [OF f]
  have "same_factors d3 d4"
    using d4 same_factors_picture [of d3 "us_id r"] same_factors_pre
    by (auto simp: action_simps preorder_on_states_def split: option.splits if_split_asm)
  moreover have "same_factors d1 d2" unfolding d2 by (rule same_factors_names)
  ultimately have "same_factors d1 d4"
    using same_factors_link [OF d3] same_factors_pre unfolding preorder_on_states_def by blast
  then obtain r' where r': "r' \<in> set (a_users d4)" "same_factor r r'" and ch: "a_challenges d4 = a_challenges d"
    using row unfolding same_factors_def by (auto dest: bspec)
  have "ended X r' d4 a d'"
  proof (cases "ac_totp_secret r")
    case None
    then have "browser_token X (os_redirect s) (us_id r) = Inr a" "d' = d4" using tail by (simp_all add: action_simps)
    then show ?thesis using browser_token_answer r'(2) None by (auto simp: ended_def same_factor_def)
  next
    case (Some y)
    then obtain c where "create_login_challenge X (api_err 500 ''database error'') (us_id r') (x_now X + 300) d4 = (Inr c, d')"
        "a = ChallengedAt (append_totp_challenge X (os_redirect s) (lc_id c)) [(''Cache-Control'', ''no-store'')]"
      using tail r'(2) by (auto simp: action_simps same_factor_def)
    then show ?thesis using Some r'(2) by (intro ended_challenge) (auto simp: same_factor_def)
  qed
  moreover have "vouched d l (us_id r)"
    using row unfolding vouched_def by (auto split: option.splits if_split_asm)
  ultimately show ?thesis using r' ch row by (auto simp: same_factor_def active_def intro!: exI [of _ r'] exI [of _ d4])
qed

text \<open>The three callbacks.\<close>

lemma take_state_found:
  "take_oauth_state X csrf provider d = (Inr s, d') \<Longrightarrow> get_state (x_now X) csrf d = Some s \<and> os_provider s = provider
     \<and> a_users d' = a_users d \<and> a_oauth d' = a_oauth d \<and> a_challenges d' = a_challenges d"
  unfolding take_oauth_state_def by (auto simp: action_simps result_simps)

lemma enabled_found: "provider_enabled X en refusal d = (Inr s, d') \<Longrightarrow> d' = d"
  unfolding provider_enabled_def by (auto simp: action_simps)

lemma fetched_Inr: "fetched a b c r = Inr x \<longleftrightarrow> r = Reply x"
  by (simp add: fetched_def split: http_reply.split)

lemma vouched_same:
  assumes "a_users d' = a_users d" and "a_oauth d' = a_oauth d"
  shows "vouched d' l u = vouched d l u"
  unfolding vouched_def fetch_user_by_oauth_account_def assms ..

lemma callback_answer:
  assumes "take_oauth_state (wo_x W) csrf provider d = (Inr s, d2)"
    and "complete_browser_oauth (wo_x W) (wo_p W) reg s l d2 = (Inr a, d')"
    and "provider_answer (wo_x W) (wo_p W) q s l"
  shows "\<exists>r d1. r \<in> set (a_users d1) \<and> active r \<and> a_challenges d1 = a_challenges d \<and> ended (wo_x W) r d1 a d'
    \<and> by_callback W d q csrf provider (us_id r)"
proof -
  note t = take_state_found [OF assms(1)]
  obtain r d1 where "r \<in> set (a_users d1)" "active r" "a_challenges d1 = a_challenges d2" "ended (wo_x W) r d1 a d'"
      "vouched d2 l (us_id r)"
    using browser_answer [OF assms(2,3)] by blast
  moreover have "vouched d2 l u = vouched d l u" for u using t by (intro vouched_same) simp_all
  ultimately show ?thesis using t assms(3) unfolding by_callback_def by metis
qed

lemma google_answer:
  assumes "oauth_google_callback (wo_x W) (wo_p W) code csrf d = (Inr a, d')"
  shows "\<exists>r d1. r \<in> set (a_users d1) \<and> active r \<and> a_challenges d1 = a_challenges d \<and> ended (wo_x W) r d1 a d'
    \<and> first_factor W d (GoogleCallback code csrf) (us_id r)"
  using assms unfolding oauth_google_callback_def bindS_Inr liftE_Inr
  by (clarsimp simp: result_simps dest!: enabled_found)
    (rule callback_answer, assumption, assumption, auto simp: provider_answer_def)

lemma yandex_answer:
  assumes "oauth_yandex_callback (wo_x W) (wo_p W) code csrf d = (Inr a, d')"
  shows "\<exists>r d1. r \<in> set (a_users d1) \<and> active r \<and> a_challenges d1 = a_challenges d \<and> ended (wo_x W) r d1 a d'
    \<and> first_factor W d (YandexCallback code csrf) (us_id r)"
  using assms unfolding oauth_yandex_callback_def bindS_Inr liftE_Inr guardS_Inr fetched_Inr
  by (clarsimp simp: result_simps dest!: enabled_found)
    (rule callback_answer, assumption, assumption, auto simp: provider_answer_def)

lemma vk_answer:
  assumes "oauth_vk_callback (wo_x W) (wo_p W) code csrf dev d = (Inr a, d')"
  shows "\<exists>r d1. r \<in> set (a_users d1) \<and> active r \<and> a_challenges d1 = a_challenges d \<and> ended (wo_x W) r d1 a d'
    \<and> first_factor W d (VkCallback code csrf dev) (us_id r)"
  using assms unfolding oauth_vk_callback_def bindS_Inr liftE_Inr guardS_Inr fetched_Inr
  by (clarsimp simp: result_simps dest!: enabled_found)
    (rule callback_answer, assumption, assumption, auto simp: provider_answer_def)

text \<open>The exchange of the desktop application; the row it ends with is the one the address named, or a new one.\<close>

lemma find_map:
  "(\<And>x. p (g x) = p x) \<Longrightarrow> find p (map g xs) = map_option g (find p xs)"
  by (induction xs) auto

lemma find_append_None: "find p xs = None \<Longrightarrow> find p (xs @ ys) = find p ys"
  by (induction xs) (auto split: if_splits)

definition at_address :: "string \<Rightarrow> account \<Rightarrow> bool" where
  "at_address email r \<longleftrightarrow> us_email r = Some email"

lemma fetch_at: "fetch_user_by_email_from_db email d = find (at_address email) (a_users d)"
  by (simp add: fetch_user_by_email_from_db_def at_address_def [abs_def])

lemma exchange_created:
  assumes "create_exchange_user X P email d = (Inr (), d')" and "fetch_user_by_email_from_db email d = None"
    and "fetch_user_by_email_from_db email d' = Some r"
  shows "active r \<and> us_id r \<notin> us_id ` set (a_users d) \<and> a_challenges d' = a_challenges d"
proof -
  obtain n h x where "insert_user_into_db X n email h None 1 1 d = Inr (x, d')"
    using assms(1) unfolding create_exchange_user_def Let_def by (auto simp: action_simps)
  then obtain name e where i: "insert_account (new_account X name e h None 1 1) d = Inr (x, d')"
    by (auto elim: inserted_user)
  then have "a_users d' = a_users d @ [new_account X name e h None 1 1]" "a_challenges d' = a_challenges d"
      "x_new_id X \<notin> us_id ` set (a_users d)"
    using insert_account_effect [OF i] by (auto simp: ids_def new_account_def)
  moreover from this have "r = new_account X name e h None 1 1"
    using assms(2,3) by (auto simp: fetch_at find_append_None split: if_split_asm)
  ultimately show ?thesis by (simp add: new_account_def active_def)
qed

lemma fetch_after_picture:
  "fetch_user_by_email_from_db email (update_user_profile_picture_in_db u url d)
     = map_option (\<lambda>r. if us_id r = u then r\<lparr>us_profile_picture_url := Some url\<rparr> else r) (fetch_user_by_email_from_db email d)"
  unfolding fetch_at update_user_profile_picture_in_db_def a_users_map by (rule find_map) (simp add: at_address_def)

lemma exchange_end:
  assumes ti: "tokeninfo (pv_google_tokeninfo (wo_p W) id_token) = Inr c"
    and te: "tokeninfo_email X c = Inr email" and X: "X = wo_x W"
    and ex: "account_active (fetch_user_by_email_from_db email d)"
    and d1: "(if fetch_user_by_email_from_db email d = None
             then bindS (guardS (\<not> ss_public_registration_enabled settings) no_registration) (\<lambda>_.
                  create_exchange_user X (wo_p W) email)
             else okS ()) d = (Inr y, d1)"
    and d2: "(case Option.bind (json_get ''picture'' c) as_str of None \<Rightarrow> okS ()
              | Some url \<Rightarrow>
                  (case if x_up X QUserAgain then fetch_user_by_email_from_db email d1 else None of None \<Rightarrow> okS ()
                   | Some u \<Rightarrow>
                       (if us_profile_picture_url u = None
                        then tryS X QPicture (update_user_profile_picture_in_db (us_id u) url) else okS ()))) d1 = (Inr z, d2)"
    and found: "ok_orE e' (fetch_user_by_email_from_db email d2) = Inr r"
    and tail: "(if ac_totp_secret r \<noteq> None
      then bindS (create_login_challenge X e (us_id r) (x_now X + 300)) (\<lambda>ch.
           okS (Challenged (lc_id ch) (lc_expires_at ch)))
      else
        bindS (liftE (map_errE (\<lambda>_. e'') (encode_jwt X (x_uuid X (us_id r))))) (\<lambda>token.
        okS (SignedIn \<lparr>lr_headers = [], lr_body = JObj [(''token'', JStr token)]\<rparr>))) d2 = (Inr a, d')"
  shows "\<exists>r d1. r \<in> set (a_users d1) \<and> active r \<and> a_challenges d1 = a_challenges d \<and> ended (wo_x W) r d1 a d'
    \<and> first_factor W d (GoogleExchange id_token) (us_id r)"
proof -
  have r: "fetch_user_by_email_from_db email d2 = Some r" using found by (simp add: result_simps)
  have "d2 = d1 \<or> (\<exists>u url. d2 = update_user_profile_picture_in_db u url d1)"
    using d2 by (auto simp: action_simps split: option.splits if_split_asm)
  then obtain r1 where r1: "fetch_user_by_email_from_db email d1 = Some r1" "us_id r = us_id r1" "ac_status r = ac_status r1"
      "a_challenges d2 = a_challenges d1"
    using r same_factors_picture unfolding same_factors_def by (auto simp: fetch_after_picture split: if_split_asm)
  have "active r1 \<and> a_challenges d1 = a_challenges d \<and> (us_id r1 \<notin> us_id ` set (a_users d)
      \<or> (\<exists>r \<in> set (a_users d). us_id r = us_id r1 \<and> us_email r = Some email \<and> active r))"
  proof (cases "fetch_user_by_email_from_db email d")
    case None
    then have "create_exchange_user X (wo_p W) email d = (Inr (), d1)" using d1 by (simp add: action_simps)
    from exchange_created [OF this None r1(1)] show ?thesis by simp
  next
    case (Some r0)
    then have "d1 = d" "r0 = r1" using d1 r1(1) by (auto simp: action_simps)
    then show ?thesis using Some ex find_inD [of "at_address email" "a_users d" r0]
      by (auto simp: account_active_def fetch_at at_address_def)
  qed
  moreover have "r \<in> set (a_users d2)" using find_inD [of "at_address email" "a_users d2" r] r by (simp add: fetch_at)
  moreover have "ended X r d2 a d'"
    using tail by (cases "ac_totp_secret r")
      (auto simp: action_simps result_simps token_answer_def intro: ended_challenge intro!: ended_token)
  ultimately show ?thesis using ti te r1 unfolding X
    by (intro exI [of _ r] exI [of _ d2]) (auto simp: active_def)
qed

lemma exchange_answer:
  assumes "oauth_google_exchange (wo_x W) (wo_p W) id_token d = (Inr a, d')"
  shows "\<exists>r d1. r \<in> set (a_users d1) \<and> active r \<and> a_challenges d1 = a_challenges d \<and> ended (wo_x W) r d1 a d'
    \<and> first_factor W d (GoogleExchange id_token) (us_id r)"
  using assms unfolding oauth_google_exchange_def Let_def bindS_Inr liftE_Inr guardS_Inr readS_Inr
    getS_Inr not_not
  by (clarify dest!: enabled_found) (rule exchange_end [OF _ _ refl], assumption+)

lemma challenging_answer:
  assumes "kind_of q = Challenging" and "account_step W q d = (Inr a, d')"
  shows "\<exists>r d1. r \<in> set (a_users d1) \<and> active r \<and> a_challenges d1 = a_challenges d \<and> ended (wo_x W) r d1 a d'
    \<and> first_factor W d q (us_id r)"
proof (cases q)
  case (Login email pw)
  then show ?thesis using assms(2) login_answer [of "wo_x W" email pw d a d'] by fastforce
next
  case (Authed h path r)
  then show ?thesis using assms(1) by (cases r) simp_all
qed (use assms google_answer yandex_answer vk_answer exchange_answer in \<open>simp_all del: first_factor.simps\<close>)

subsection \<open>Where a challenge comes from\<close>

definition challenge_origin :: "auth_db \<Rightarrow> account_event list \<Rightarrow> login_challenge \<Rightarrow> bool" where
  "challenge_origin d0 tr c \<longleftrightarrow>
     (\<exists>tr1 W q a tr2 d. tr = tr1 @ (W, q, Inr a) # tr2 \<and> account_trace d0 tr1 d \<and> first_factor W d q (lc_user_id c)
        \<and> offers (wo_x W) a (lc_id c) \<and> lc_expires_at c = x_now (wo_x W) + 300)"

lemma origin_extends: "challenge_origin d0 tr c \<Longrightarrow> challenge_origin d0 (tr @ [e]) c"
  unfolding challenge_origin_def by fastforce

lemma origin_same:
  "challenge_origin d0 tr c \<Longrightarrow> lc_id c' = lc_id c \<Longrightarrow> lc_user_id c' = lc_user_id c \<Longrightarrow> lc_expires_at c' = lc_expires_at c
     \<Longrightarrow> challenge_origin d0 tr c'"
  unfolding challenge_origin_def by metis

lemma step_origin:
  assumes tr: "account_trace d0 tr d" and s: "account_step W q d = (a, d')" and c: "c \<in> set (a_challenges d')"
    and old: "\<And>c. c \<in> set (a_challenges d) \<Longrightarrow> challenge_origin d0 tr c"
  shows "challenge_origin d0 (tr @ [(W, q, a)]) c"
proof -
  have kept: ?thesis if same: "no_new_challenge d d'"
  proof -
    obtain c0 where c0: "c0 \<in> set (a_challenges d)" "lc_id c0 = lc_id c" "lc_user_id c0 = lc_user_id c"
        "lc_expires_at c0 = lc_expires_at c"
      using same c unfolding no_new_challenge_def by blast
    show ?thesis using origin_same [OF origin_extends [OF old [OF c0(1)]]] c0(2-4) by simp
  qed
  show ?thesis
  proof (cases "kind_of q = Challenging")
    case False
    then show ?thesis using no_new_step s kept by blast
  next
    case True
    show ?thesis
    proof (cases a)
      case (Inl e)
      then show ?thesis using clean_step [OF True, of W] s kept unfolding clean_failure_def by blast
    next
      case (Inr ans)
      obtain r d1 where r: "a_challenges d1 = a_challenges d" "ended (wo_x W) r d1 ans d'" "first_factor W d q (us_id r)"
        using challenging_answer [OF True s [unfolded Inr]] by blast
      show ?thesis
      proof (cases "c \<in> set (a_challenges d)")
        case True
        then show ?thesis by (intro origin_extends old)
      next
        case False
        then obtain i where "challenge_made (wo_x W) (us_id r) i d1 d'" "offers (wo_x W) ans i"
          using r(1,2) c by (auto simp: ended_def split: if_split_asm)
        then have "offers (wo_x W) ans (lc_id c)" "lc_user_id c = us_id r" "lc_expires_at c = x_now (wo_x W) + 300"
          using c False r(1) by (auto simp: challenge_made_def)
        then show ?thesis using tr r(3) Inr unfolding challenge_origin_def by fastforce
      qed
    qed
  qed
qed

lemma challenges_origin:
  assumes "account_trace d0 tr d" and "a_challenges d0 = []"
  shows "c \<in> set (a_challenges d) \<Longrightarrow> challenge_origin d0 tr c"
  using assms
proof (induction arbitrary: c rule: account_trace.induct)
  case (step tr d W q a d')
  then show ?case by (intro step_origin [OF step.hyps]) auto
qed simp

subsection \<open>Which account a token is for\<close>

lemma quiet_answer: "silent m d = (Inr a, d') \<Longrightarrow> a = Done JNull"
  by (auto simp: silent_def action_simps)

lemma authed_answer: "authed_handler W me r d = (Inr a, d') \<Longrightarrow> a = Done JNull"
  by (cases r) (auto dest: quiet_answer)

lemma complete_answer:
  assumes "post_user_register_complete X f d = (Inr a, d')"
  shows "\<exists>r \<in> set (a_users d'). active r \<and> ac_totp_secret r = None \<and> us_id r \<notin> us_id ` set (a_users d)
    \<and> token_answer X (us_id r) a"
proof -
  obtain h r d1 l where i: "insert_user_into_db X (rf_username f) (rf_email f) h None 1 1 d = Inr (r, d1)"
      "d' = delete_pending_registration (rf_email f) d1" "issue_login_response X (us_id r) = Inr l" "a = SignedIn l"
    using assms unfolding post_user_register_complete_def require_public_registration_def
    by (auto simp: action_simps)
  from i(1) obtain n e where n: "insert_account (new_account X n e h None 1 1) d = Inr (r, d1)"
    by (auto elim: inserted_user)
  note e = insert_account_effect [OF n]
  have "active r" "ac_totp_secret r = None" using e by (simp_all add: new_account_def active_def)
  moreover have "r \<in> set (a_users d')" "us_id r \<notin> us_id ` set (a_users d)"
    using e i(2) by (auto simp: delete_pending_registration_def ids_def)
  ultimately show ?thesis using i(3,4) by (auto simp: token_answer_def)
qed

lemma totp_answer:
  assumes "login_totp X i code d = (Inr a, d')"
  shows "\<exists>c \<in> set (a_challenges d). \<exists>r \<in> set (a_users d'). \<exists>secret. lc_id c = i \<and> x_now X \<le> lc_expires_at c \<and> us_id r = lc_user_id c
    \<and> active r \<and> ac_totp_secret r = Some secret \<and> verify_totp_code X secret code = Inr True \<and> token_answer X (us_id r) a"
proof -
  obtain c r secret l where c: "fetch_login_challenge i d = Some c" "x_now X \<le> lc_expires_at c"
      "fetch_active_user_by_id_from_db (lc_user_id c) d = Some r" "ac_totp_secret r = Some secret"
      "verify_totp_code X secret code = Inr True" "issue_login_response X (us_id r) = Inr l" "a = SignedIn l"
      "d' = d \<or> d' = delete_login_challenge (lc_id c) d"
    using assms unfolding login_totp_def Let_def
    by (auto simp: action_simps result_simps split: if_split_asm)
  have "c \<in> set (a_challenges d)" "lc_id c = i"
    using find_inD [OF c(1) [unfolded fetch_login_challenge_def]] by auto
  moreover have "r \<in> set (a_users d)" "us_id r = lc_user_id c" "active r"
    using find_inD [OF c(3) [unfolded fetch_active_user_by_id_from_db_def]] by auto
  moreover have "a_users d' = a_users d" using c(8) by (auto simp: delete_login_challenge_def)
  ultimately show ?thesis using c(2,4-7)
    by (intro bexI [of _ c] bexI [of _ r] exI [of _ secret]) (auto simp: token_answer_def)
qed

text \<open>C8: every answer that signs a caller in is a token of an active account.  Either the account has no second factor
  and the request itself presented its first one (its password or one of its keys, a completed registration, or the
  answer of a provider about it); or the request presented a code that the account's secret accepts, for a challenge
  that an earlier request, at most 300 seconds before, was answered with after presenting the account's first factor.\<close>

theorem sign_in_needs_factors:
  assumes tr: "account_trace d0 tr d" and d0: "a_challenges d0 = []"
    and s: "account_step W q d = (Inr a, d')" and a: "signs_in a"
  shows "\<exists>r \<in> set (a_users d'). active r \<and> token_answer (wo_x W) (us_id r) a
    \<and> (ac_totp_secret r = None \<and> first_factor W d q (us_id r)
       \<or> (\<exists>i code secret tr1 W1 q1 a1 tr2 d1.
            q = LoginTotp i code \<and> ac_totp_secret r = Some secret \<and> verify_totp_code (wo_x W) secret code = Inr True
            \<and> tr = tr1 @ (W1, q1, Inr a1) # tr2 \<and> account_trace d0 tr1 d1 \<and> first_factor W1 d1 q1 (us_id r)
            \<and> offers (wo_x W1) a1 i \<and> x_now (wo_x W) \<le> x_now (wo_x W1) + 300))"
proof (cases "kind_of q = Challenging")
  case True
  obtain r d1 where r: "r \<in> set (a_users d1)" "active r" "ended (wo_x W) r d1 a d'" "first_factor W d q (us_id r)"
    using challenging_answer [OF True s] by blast
  then have "ac_totp_secret r = None \<and> d' = d1 \<and> token_answer (wo_x W) (us_id r) a"
    using a by (auto simp: ended_def split: if_split_asm)
  then show ?thesis using r by blast
next
  case False
  then consider i code where "q = LoginTotp i code" | f where "q = RegisterComplete f"
    using s a quiet_answer authed_answer by (cases q) (auto simp: action_simps dest!: quiet_answer authed_answer)
  then show ?thesis
  proof cases
    case 1
    then obtain c r secret where c: "c \<in> set (a_challenges d)" "r \<in> set (a_users d')" "lc_id c = i"
        "x_now (wo_x W) \<le> lc_expires_at c" "us_id r = lc_user_id c" "active r" "ac_totp_secret r = Some secret"
        "verify_totp_code (wo_x W) secret code = Inr True" "token_answer (wo_x W) (us_id r) a"
      using totp_answer [of "wo_x W" i code d a d'] s by auto
    obtain tr1 W1 q1 a1 tr2 d1 where "tr = tr1 @ (W1, q1, Inr a1) # tr2" "account_trace d0 tr1 d1"
        "first_factor W1 d1 q1 (us_id r)" "offers (wo_x W1) a1 i" "lc_expires_at c = x_now (wo_x W1) + 300"
      using challenges_origin [OF tr d0 c(1)] c(3,5) unfolding challenge_origin_def by auto
    then show ?thesis using 1 c(4,6-9)
      by (intro bexI [OF _ c(2)] conjI disjI2 exI [of _ i] exI [of _ code] exI [of _ secret] exI [of _ tr1] exI [of _ W1]
          exI [of _ q1] exI [of _ a1] exI [of _ tr2] exI [of _ d1]) simp_all
  next
    case 2
    then show ?thesis using complete_answer [of "wo_x W" f d a d'] s by fastforce
  qed
qed

theorem sign_in_needs_factors_witness:
  "\<exists>tr1 W1 q1 a1 tr2 d1.
     [(account_world 1300 9, Login ''ann@ex.io'' ''Passw0rd!'', Inr (Challenged 9 1600))] = tr1 @ (W1, q1, Inr a1) # tr2
     \<and> account_trace ann2_db tr1 d1 \<and> first_factor W1 d1 q1 7 \<and> offers (wo_x W1) a1 9 \<and> 1310 \<le> x_now (wo_x W1) + 300"
proof -
  have "a_challenges ann2_db = []" by (simp add: ann2_db_def empty_auth_db_def)
  moreover have "us_id r = 7 \<and> ac_totp_secret r = Some ''SECRET''" if "r \<in> set (a_users ann2_db)" for r
    using that by (simp add: ann2_db_def ann2_def ann_def new_account_def)
  ultimately show ?thesis
    using sign_in_needs_factors [OF login_trace _ login_totp_step] by (fastforce simp: account_world_def)
qed

subsection \<open>The counter of failed disabling\<close>

text \<open>A count whose \<open>EXPIRE\<close> failed after the \<open>INCR\<close> that created it never ends: later failures set no expiry, and
  from the fifth on disabling is refused at every later time.\<close>

lemma live_put: "live_count now u (put_count u (n, None) d) = Some (n, None)"
  by (simp add: live_count_def put_count_def)

lemma unexpiring_count:
  assumes "live_count (x_now X) u d = None" and "x_up X QRedisSet" and "\<not> x_up X QRedisExpire"
    and "record_disable_failure X u d = (a, d')"
  shows "live_count t u d' = Some (1, None)"
  using assms by (auto simp: record_disable_failure_def bindS_def writeS_def incr_count_def live_put)

lemma unexpiring_stays:
  assumes "live_count (x_now X) u d = Some (n, None)" and "n \<ge> 1" and "x_up X QRedisSet"
    and "record_disable_failure X u d = (a, d')"
  shows "live_count t u d' = Some (n + 1, None)"
  using assms by (auto simp: record_disable_failure_def bindS_def writeS_def incr_count_def live_put okS_def split: if_split_asm)

lemma unexpiring_locks:
  assumes "live_count (x_now X) (us_id me) d = Some (n, None)" and "n \<ge> 5" and "x_up X QRedisGet"
    and "ac_totp_secret me = Some s"
  shows "fst (disable_totp X me code d) = Inl (api_err 429 ''Too many invalid codes. Try again later.'')"
  using assms by (simp add: disable_totp_def Let_def disable_attempts_def MAX_CONFIRM_ATTEMPTS_def bindS_def liftE_def
      ok_orE_def readS_def guardS_def)

end
