(* ===== verification/Registered.thy ===== *)
theory Registered
  imports Account_Sample
begin

text \<open>
  Registration over time: what a registration that was completed presented, and in which order.
\<close>

subsection \<open>Requests that leave the pending registrations alone\<close>

definition no_new_pending :: "auth_db \<Rightarrow> auth_db \<Rightarrow> bool" where
  "no_new_pending d d' \<longleftrightarrow> set (a_pending d') \<subseteq> set (a_pending d)"

lemma no_new_pending_pre: "preorder_on_states no_new_pending"
  by (auto simp: preorder_on_states_def no_new_pending_def)

lemma no_new_pending_same: "a_pending d' = a_pending d \<Longrightarrow> no_new_pending d d'"
  by (simp add: no_new_pending_def)

lemma pending_map [simp]: "a_pending (map_user u f d) = a_pending d"
  by (simp add: map_user_def)

interpretation unregistered: with_challenges no_new_pending
proof unfold_locales
  show "same_rows d d' \<Longrightarrow> no_new_pending d d'" for d d' by (simp add: same_rows_def no_new_pending_same)
  show "no_new_pending d (delete_pending_registration e d)" for e d
    by (auto simp: no_new_pending_def delete_pending_registration_def)
qed (auto elim!: inserted_user inserted_oauth_user dest!: insert_account_effect
      simp: drop_login_challenges_def delete_login_challenge_def count_failed_attempt_def upsert_enrollment_def
      delete_enrollment_def count_failed_confirmation_def upsert_oauth_account_def
      insert_user_password_reset_code_into_db_def delete_all_password_reset_codes_for_user_def
      insert_api_key_into_db_def disable_apikey_in_db_def delete_apikey_from_db_def add_login_challenge_def
      upsert_user_email_verification_def verify_and_set_user_email_def Let_def
      intro: no_new_pending_pre no_new_pending_same split: if_split_asm)

interpretation unregistered_standing: with_standing no_new_pending
  by unfold_locales
    (auto simp: activate_user_in_db_def deactivate_user_in_db_def set_user_status_in_db_def delete_user_from_db_def
      intro: no_new_pending_same)

lemma no_new_pending_patch: "patch_user_profile X me ident f d = (a, d') \<Longrightarrow> no_new_pending d d'"
  using patch_effect [of X me ident f d a d'] by (auto simp: update_user_in_db_def intro: no_new_pending_same split: if_splits)

lemma no_new_pending_step:
  assumes "kind_of q \<noteq> Registering" and s: "account_step W q d = (a, d')"
  shows "no_new_pending d d'"
proof (cases "kind_of q")
  case Patching
  then show ?thesis using s
    by (rule patching_step) (auto intro: no_new_pending_pre unregistered.rows no_new_pending_patch)
qed (use assms(1) staysD [OF unregistered.shared s] staysD [OF unregistered.challenging s]
    staysD [OF unregistered_standing.standing s] in simp_all)

lemma kind_registering: "kind_of q = Registering \<Longrightarrow> (\<exists>e. q = Register e) \<or> (\<exists>e code. q = RegisterVerify e code)"
proof (cases q)
  case (Authed h path r)
  then show "kind_of q = Registering \<Longrightarrow> ?thesis" by (cases r) simp_all
qed simp_all

subsection \<open>The two requests that change them\<close>

definition asked :: "outside \<Rightarrow> string \<Rightarrow> pending_registration" where
  "asked X e =
     \<lparr>pn_email = to_ascii_lowercase (trim e), pn_verification_code = six_digits (x_code X),
      pn_verification_expires_at = x_now X + 600, pn_verified_at = None, pn_completion_token = None,
      pn_completion_expires_at = None\<rparr>"

lemma register_effect:
  assumes "account_step W (Register e) d = (a, d')" and "p \<in> set (a_pending d')"
  shows "p \<in> set (a_pending d) \<or> p = asked (wo_x W) e"
proof -
  let ?R = "\<lambda>d d'. set (a_pending d') \<subseteq> insert (asked (wo_x W) e) (set (a_pending d))"
  have pre: "preorder_on_states ?R" by (auto simp: preorder_on_states_def)
  have "set (a_pending d') \<subseteq> insert (asked (wo_x W) e) (set (a_pending d))"
    if "upsert_pending_registration e (six_digits (x_code (wo_x W))) (x_now (wo_x W) + 600) d = Inr (x, d')" for d x d'
    using that by (auto simp: upsert_pending_registration_def asked_def Let_def split: if_split_asm)
  then have "stays ?R (account_step W (Register e))"
    unfolding account_step.simps post_user_register_def send_mail_def require_public_registration_def Let_def
    by (intro stays_intros pre stays_writeS) (auto simp: plain_def)
  from staysD [OF this assms(1)] show ?thesis using assms(2) by blast
qed

definition marked :: "outside \<Rightarrow> pending_registration \<Rightarrow> pending_registration" where
  "marked X p = p\<lparr>pn_verified_at := Some (x_now X), pn_completion_token := Some (x_random X 48),
     pn_completion_expires_at := Some (x_now X + 1800)\<rparr>"

lemma mark_hits:
  assumes "mark_pending_registration_verified now e code k t d = Inr (b, d')" and "p \<in> set (a_pending d')"
  shows "p \<in> set (a_pending d) \<or> b \<and> (\<exists>p0 \<in> set (a_pending d). pn_email p0 = e \<and> pn_verification_code p0 = code
     \<and> now < pn_verification_expires_at p0
     \<and> p = p0\<lparr>pn_verified_at := Some now, pn_completion_token := Some k, pn_completion_expires_at := Some t\<rparr>)"
  using assms unfolding mark_pending_registration_verified_def Let_def by (auto split: if_split_asm)

lemma require_stays: "wp (require_public_registration X) (\<lambda>a d'. d' = d) d"
  unfolding require_public_registration_def by (simp add: wp_simps)

lemma wp_require [wp_simps]:
  "wp (require_public_registration X) Q d \<longleftrightarrow> Q (fst (require_public_registration X d)) d"
  using require_stays [of X d] by (simp add: wp_def)

lemma verify_effect:
  assumes "account_step W (RegisterVerify e code) d = (a, d')" and "p \<in> set (a_pending d')"
  shows "p \<in> set (a_pending d) \<or> a = Inr (Done JNull)
    \<and> (\<exists>p0 \<in> set (a_pending d). pn_email p0 = e \<and> pn_verification_code p0 = code
         \<and> x_now (wo_x W) < pn_verification_expires_at p0 \<and> p = marked (wo_x W) p0)"
proof -
  let ?X = "wo_x W"
  have "wp (account_step W (RegisterVerify e code)) (\<lambda>a d'. d' = d \<or> (\<exists>b. mark_pending_registration_verified (x_now ?X) e
      code (x_random ?X 48) (x_now ?X + 1800) d = Inr (b, d') \<and> (b \<longrightarrow> a = Inr (Done JNull)))) d"
    unfolding account_step.simps post_user_register_verify_def Let_def
    by (auto simp: wp_simps split: sum.split)
  then have "d' = d \<or> (\<exists>b. mark_pending_registration_verified (x_now ?X) e
      code (x_random ?X 48) (x_now ?X + 1800) d = Inr (b, d') \<and> (b \<longrightarrow> a = Inr (Done JNull)))"
    using assms(1) by (rule wpD)
  then show ?thesis using mark_hits [OF _ assms(2)] assms(2) unfolding marked_def by fast
qed

subsection \<open>Where a pending registration comes from\<close>

definition asked_at :: "account_event list \<Rightarrow> nat \<Rightarrow> world \<Rightarrow> string \<Rightarrow> bool" where
  "asked_at tr i W e \<longleftrightarrow> i < length tr \<and> (\<exists>a. tr ! i = (W, Register e, a))"

definition verified_at :: "account_event list \<Rightarrow> nat \<Rightarrow> world \<Rightarrow> pending_registration \<Rightarrow> bool" where
  "verified_at tr j W p \<longleftrightarrow> j < length tr
     \<and> tr ! j = (W, RegisterVerify (pn_email p) (pn_verification_code p), Inr (Done JNull))
     \<and> x_now (wo_x W) < pn_verification_expires_at p"

definition origin :: "account_event list \<Rightarrow> pending_registration \<Rightarrow> bool" where
  "origin tr p \<longleftrightarrow>
     (\<exists>i W e. asked_at tr i W e \<and> (p = asked (wo_x W) e
        \<or> (\<exists>j W2. i < j \<and> verified_at tr j W2 (asked (wo_x W) e) \<and> p = marked (wo_x W2) (asked (wo_x W) e))))"

lemma asked_extends: "asked_at tr i W e \<Longrightarrow> asked_at (tr @ [x]) i W e"
  by (auto simp: asked_at_def nth_append)

lemma verified_extends: "verified_at tr i W p \<Longrightarrow> verified_at (tr @ [x]) i W p"
  by (auto simp: verified_at_def nth_append)

lemma pending_origin_extends: "origin tr p \<Longrightarrow> origin (tr @ [x]) p"
  unfolding origin_def using asked_extends verified_extends by metis

lemma pending_origin_step:
  assumes s: "account_step W q d = (a, d')" and p: "p \<in> set (a_pending d')"
    and old: "\<And>p. p \<in> set (a_pending d) \<Longrightarrow> origin tr p"
  shows "origin (tr @ [(W, q, a)]) p"
proof (cases "p \<in> set (a_pending d)")
  case True
  then show ?thesis by (intro pending_origin_extends old)
next
  case new: False
  have "kind_of q = Registering"
    using no_new_pending_step [OF _ s] p new by (auto simp: no_new_pending_def)
  then consider e where "q = Register e" | e code where "q = RegisterVerify e code" using kind_registering by blast
  then show ?thesis
  proof cases
    case 1
    then have "p = asked (wo_x W) e" using register_effect s p new by blast
    moreover have "asked_at (tr @ [(W, q, a)]) (length tr) W e" using 1 by (simp add: asked_at_def)
    ultimately show ?thesis unfolding origin_def by blast
  next
    case 2
    then obtain p0 where a: "a = Inr (Done JNull)" and p0: "p0 \<in> set (a_pending d)" "pn_email p0 = e"
        "pn_verification_code p0 = code" "x_now (wo_x W) < pn_verification_expires_at p0" "p = marked (wo_x W) p0"
      using verify_effect s p new by blast
    obtain i W1 e1 where i: "asked_at tr i W1 e1"
        "p0 = asked (wo_x W1) e1 \<or> (\<exists>W2 :: world. p0 = marked (wo_x W2) (asked (wo_x W1) e1))"
      using old [OF p0(1)] unfolding origin_def by blast
    let ?p1 = "asked (wo_x W1) e1"
    have "pn_email ?p1 = e" "pn_verification_code ?p1 = code" "x_now (wo_x W) < pn_verification_expires_at ?p1"
        "p = marked (wo_x W) ?p1"
      using i(2) p0(2-5) by (auto simp: marked_def)
    then have "verified_at (tr @ [(W, q, a)]) (length tr) W ?p1" "p = marked (wo_x W) ?p1" using a 2
      by (simp_all add: verified_at_def)
    moreover have "i < length tr" using i(1) by (simp add: asked_at_def)
    ultimately show ?thesis using asked_extends [OF i(1)] unfolding origin_def by blast
  qed
qed

lemma pending_origin:
  assumes "account_trace d0 tr d" and "a_pending d0 = []"
  shows "p \<in> set (a_pending d) \<Longrightarrow> origin tr p"
  using assms
proof (induction arbitrary: p rule: account_trace.induct)
  case (step tr d W q a d')
  then show ?case by (intro pending_origin_step [OF step.hyps(2)]) auto
qed simp

text \<open>C27: an account is registered only by one who asked for a code for its address, presented that code within ten
  minutes and completed the registration within half an hour after that with the token the second answer carried: before
  a completed registration for an address there is a request for that address (up to its case and the blanks around it),
  after it and less than 600 seconds later an accepted verification with the code drawn for that request, and the
  completion presents the completion token drawn for that verification at most 1800 seconds later.  The completion adds
  exactly one account, an ordinary one with that address.\<close>

theorem registration_needs_verified_address:
  assumes tr: "account_trace d0 tr d" and d0: "a_pending d0 = []"
    and s: "account_step W (RegisterComplete f) d = (Inr a, d')"
  shows "(\<exists>i j W1 e a1 W2. i < j \<and> j < length tr \<and> tr ! i = (W1, Register e, a1)
       \<and> tr ! j = (W2, RegisterVerify (rf_email f) (six_digits (x_code (wo_x W1))), Inr (Done JNull))
       \<and> rf_email f = to_ascii_lowercase (trim e) \<and> x_now (wo_x W2) < x_now (wo_x W1) + 600
       \<and> rf_completion_token f = x_random (wo_x W2) 48 \<and> x_now (wo_x W) \<le> x_now (wo_x W2) + 1800)
    \<and> (\<exists>r. a_users d' = a_users d @ [r] \<and> us_email r = Some (rf_email f) \<and> us_role_level r = 1 \<and> us_tier_level r = 1
         \<and> us_email r \<notin> us_email ` set (a_users d))"
proof -
  obtain p h r d1 where c: "fetch_pending_registration_by_email (rf_email f) d = Some p" "pn_verified_at p \<noteq> None"
      "pn_completion_token p = Some (rf_completion_token f)"
      "\<not> (case pn_completion_expires_at p of None \<Rightarrow> True | Some t \<Rightarrow> x_now (wo_x W) > t)"
      "insert_user_into_db (wo_x W) (rf_username f) (rf_email f) h None 1 1 d = Inr (r, d1)"
      "d' = delete_pending_registration (rf_email f) d1"
    using s unfolding account_step.simps post_user_register_complete_def require_public_registration_def
    by (auto simp: action_simps result_simps)
  have "p \<in> set (a_pending d)" "pn_email p = rf_email f"
    using c(1) by (auto simp: fetch_pending_registration_by_email_def find_Some_iff)
  from pending_origin [OF tr d0 this(1)] this(2) c(2)
  obtain i j W1 e W2 where ij: "asked_at tr i W1 e" "i < j" "verified_at tr j W2 (asked (wo_x W1) e)"
      "p = marked (wo_x W2) (asked (wo_x W1) e)"
    unfolding origin_def by (auto simp: asked_def)
  then have em: "rf_email f = to_ascii_lowercase (trim e)" using \<open>pn_email p = rf_email f\<close> by (simp add: marked_def asked_def)
  from ij obtain a1 where o: "i < j" "j < length tr" "tr ! i = (W1, Register e, a1)"
      "tr ! j = (W2, RegisterVerify (rf_email f) (six_digits (x_code (wo_x W1))), Inr (Done JNull))"
      "x_now (wo_x W2) < x_now (wo_x W1) + 600" "p = marked (wo_x W2) (asked (wo_x W1) e)"
    unfolding asked_at_def verified_at_def em by (auto simp: asked_def)
  have "to_ascii_lowercase (trim (rf_email f)) = rf_email f"
    using normalised_norm [of e] unfolding em by (simp add: normalised_def)
  then obtain n where "insert_account (new_account (wo_x W) n (Some (rf_email f)) h None 1 1) d = Inr (r, d1)"
    using c(5) by (auto elim: inserted_user)
  from insert_account_effect [OF this]
  have "\<exists>r. a_users d' = a_users d @ [r] \<and> us_email r = Some (rf_email f) \<and> us_role_level r = 1 \<and> us_tier_level r = 1
         \<and> us_email r \<notin> us_email ` set (a_users d)"
    using c(6) by (auto simp: delete_pending_registration_def new_account_def)
  moreover have "rf_completion_token f = x_random (wo_x W2) 48" "x_now (wo_x W) \<le> x_now (wo_x W2) + 1800"
    using c(3,4) o(6) by (auto simp: marked_def)
  ultimately show ?thesis using o(1-5) em by blast
qed

definition sample_events :: "account_event list" where
  "sample_events =
     [(account_world 1000 1, Register ''Ann@ex.io'', Inr (Done JNull)),
      (account_world 1060 1, RegisterVerify ''ann@ex.io'' ''123456'', Inr (Done JNull))]"

theorem registration_needs_verified_address_witness:
  "a_users ann_db = a_users verified_db @ [ann]
   \<and> (\<exists>i j W1 e a1 W2. i < j \<and> j < length sample_events \<and> sample_events ! i = (W1, Register e, a1)
       \<and> sample_events ! j = (W2, RegisterVerify (rf_email ann_form) (six_digits (x_code (wo_x W1))), Inr (Done JNull))
       \<and> rf_email ann_form = to_ascii_lowercase (trim e) \<and> x_now (wo_x W2) < x_now (wo_x W1) + 600)"
proof -
  have tr: "account_trace empty_auth_db sample_events verified_db"
    using account_trace.step [OF account_trace.step [OF account_trace.start register_step] verify_step]
    by (simp add: sample_events_def)
  have d0: "a_pending empty_auth_db = []" by (simp add: empty_auth_db_def)
  have "a_users ann_db = a_users verified_db @ [ann]"
    by (simp add: empty_auth_db_def ann_db_def verified_db_def asked_db_def)
  then show ?thesis using registration_needs_verified_address [OF tr d0 complete_step] by blast
qed

subsection \<open>Registrations that cannot be completed\<close>

text \<open>A pending registration is stored under the lower-case address and looked up by the address as it is written.\<close>

lemma raw_address_not_found:
  assumes "\<And>p. p \<in> set (a_pending d) \<Longrightarrow> normalised (pn_email p)" and "\<not> normalised e" and "x_up X QUser"
    and "fst (require_public_registration X d) = Inr ()"
  shows "fst (post_user_register_verify X e code d) = Inl (api_err 404 ''Pending registration not found.'')"
proof -
  have "require_public_registration X d = (Inr (), d)"
    using require_stays [of X d] assms(4) by (simp add: wp_def prod_eq_iff)
  moreover have "fetch_pending_registration_by_email e d = None"
    using assms(1,2) by (auto simp: fetch_pending_registration_by_email_def find_None_iff)
  ultimately show ?thesis
    using assms(3) by (simp add: post_user_register_verify_def Let_def bindS_def readS_def liftE_def ok_orE_def)
qed

text \<open>A name the handlers accept and the insertion refuses.\<close>

lemma hyphen_refused:
  "length_between 3 50 ''a-b'' \<and> validate_username ''a-b'' \<and> \<not> (\<exists>n. check_username X ''a-b'' = Inr n)"
proof -
  have "trim ''a-b'' = ''a-b''" "length_between 3 50 ''a-b''" "validate_username ''a-b''" by code_simp+
  moreover have "\<not> username_chars X ''a-b''"
    by (simp add: username_chars_def is_ascii_def is_ascii_alnum_def is_lower_def is_upper_def is_ascii_digit_def less_eq_char_def)
  ultimately show ?thesis by (simp add: check_username_def)
qed

end
