(* ===== verification/Spec2Isabelle.thy ===== *)
theory Spec2Isabelle
  imports Wire Yrs_Mapping Yrs_Text Samples Hurried_Replay Fanout Quotas Uploads Presence Feed Privileges Second_Factor Registered
begin

text \<open>
  A model of the Nezumo server, a backend for collaborative boards, and the theorems that make it correct.

  \<^bold>\<open>The program.\<close>  A board is a Yrs document.  Each instance of the server keeps the boards it serves resident
  (\<open>src/src/state\<close>): a commit that comes in over a socket or HTTP is validated against the resident document by a
  separate process, written in one transaction with a compare-and-swap on the board's head, and fanned out to the
  other instances, which catch up from the journal (\<open>src/src/database\<close>).  Jobs (\<open>src/src/jobs\<close>) compact the journal into
  checkpoints, prune what the checkpoints cover, delete orphaned objects and remove stale sessions.  Around that are
  the endpoints for boards, members, invitations, embeds and uploads and the accounts (\<open>src/src/handlers\<close>), the presence
  data in Redis (\<open>src/src/cache\<close>) and the object store (\<open>src/src/storage\<close>).

  \<^bold>\<open>Conventions.\<close>  A Rust function is a HOL function of the same name (a suffix \<open>_handler\<close>, \<open>_row\<close>, \<open>_in_db\<close> or the
  like where the name would clash); \<open>Result\<close> is a sum with \<open>Inl\<close> for \<open>Err\<close>, and \<open>?\<close> is \<open>bindE\<close> (\<open>Prelude\<close>).  Handlers
  that write are state-passing functions, \<open>action\<close>s in the account theories.  Database rows are records, tables lists of
  rows, statements functions on them; which calls fail is an argument (\<open>up\<close> and its kind), so every theorem holds for all
  patterns of failures unless it says otherwise.  Clocks, random values, hashes, base64, signatures, the validator
  process, the converter, the providers, the S3 service and the Yrs crate are parameters: the record \<open>yrs\<close> holds the
  crate functions, with \<open>yrs_reads_writes\<close> (a map reads back what was written) and \<open>yrs_replicas\<close> (updates are a replicated
  state) as what is assumed of it, and \<open>s3_laws\<close> what is assumed of the store.  \<open>Samples\<close> and the sample sections
  instantiate every parameter with a concrete function that satisfies its laws.

  \<^bold>\<open>Theories.\<close>
  \<^item> \<open>Prelude\<close>, \<open>Json\<close>, \<open>Rust_Str\<close>, \<open>Paging\<close>: results, JSON values with their numbers, the string functions of the standard
    library, and ordered pages of a table (locale \<open>paged_log\<close>).
  \<^item> \<open>Wire\<close> (\<open>state/yrs_wire.rs\<close>): the binary update stream; both directions of the round trip.
  \<^item> \<open>Yrs_Mapping\<close>, \<open>Yrs_Text\<close>, \<open>Yrs_Model\<close> (\<open>state/yrs_model.rs\<close> and its modules): JSON to Yrs values, structural text,
    canonical snapshots and their documents; round trips, totality on safe values, stability of the normal form.
  \<^item> \<open>Coordinator\<close> (\<open>yrs_coordinator.rs\<close>, \<open>canonical_base.rs\<close>): candidates, prepared commits, the resident document.
  \<^item> \<open>Journal\<close>, \<open>Compaction\<close>, \<open>Assets\<close>: the journal tables, checkpoints, and the stable asset references of a snapshot.
  \<^item> \<open>Registry\<close> (\<open>coordinator_registry.rs\<close>): activation, commit with its fences and retry, eviction.
  \<^item> \<open>Durable\<close>: the abstract specification.  A board is a base and a history of updates; \<open>journal_ok\<close> says that a pruned
    and compacted journal still stands for a history.  \<open>Commit_Safety\<close>, \<open>Retention\<close> and \<open>Pruning\<close> show that commits extend
    this history by exactly one validated update, that activation recovers its document, that compaction publishes a
    faithful checkpoint and that retention loses nothing.
  \<^item> \<open>Activation\<close> and \<open>Cluster\<close>: many instances at once.  Activation is taken apart into its transactions and single
    reads (run without interference they are \<open>activate\<close>); commits, crashes, jobs, retention and other activations run
    between any two of them.  The invariant is \<open>cluster_inv\<close>, the results are that the history only grows and that
    residents converge, as long as retention is not two checkpoints ahead of a replay that still reads.
    \<open>Hurried_Replay\<close> is a run without that condition in which a resident loses edits.
  \<^item> \<open>Fanout\<close> (\<open>yrs_fanout.rs\<close>) and \<open>Hub\<close> (\<open>realtime.rs\<close>): the replay of the journal to local sockets, with the tasks of one
    instance interleaved step by step, and the channels and cursor frames.
  \<^item> \<open>Socket\<close>, \<open>Socket_Commit\<close>, \<open>Feed\<close> (\<open>handlers/realtime.rs\<close>, \<open>handlers/events.rs\<close>): the send task with batching and
    resync requests, throttled cursors, the commit message from the frame to its answer, and the checkpoint and tail
    endpoints a joining client reads.
  \<^item> \<open>Web_Db\<close>, \<open>Access\<close>, \<open>Sharing\<close>, \<open>Quotas\<close>: the web tables, who may see and edit a board endpoint by endpoint, sequences
    of sharing requests, and tier quotas under interleaved transactions.
  \<^item> \<open>Storage\<close>, \<open>Cleanup\<close>, \<open>Uploads\<close>: object storage, garbage collection, the deletion outbox and the upload endpoints.
  \<^item> \<open>Presence\<close> (\<open>cache/sessions.rs\<close>): sessions, heartbeats and cursors in Redis and the clean-up job.
  \<^item> \<open>Accounts\<close>, \<open>Login\<close>, \<open>Totp\<close>, \<open>Registration\<close>, \<open>Profile\<close>, \<open>Oauth\<close>, \<open>Providers\<close>, \<open>Administration\<close>: the account tables and every
    account handler; \<open>Account_Run\<close> dispatches the routes as one step function.  \<open>Account_Contract\<close> is the interface
    between tables and handlers (a relation that every statement respects is respected by every handler),
    \<open>Account_Rules\<close> and \<open>Account_Inv\<close> carry the proofs of \<open>Privileges\<close>, \<open>Second_Factor\<close> and \<open>Registered\<close>;
    \<open>Account_Sample\<close> is a concrete run.

  \<^bold>\<open>Loops and fuel.\<close>  The replay loop \<open>catch_up_loop\<close> has the distance to the head as fuel, which is enough because every
  page moves the cursor on; \<open>reconcile_loop\<close>, \<open>read_tail\<close> and the string loops have termination measures; the listing of
  a bucket is a partial function whose end is the hypothesis \<open>pages_end\<close>.  The page sizes are those of the code (512).

  \<^bold>\<open>Where the model is coarser than the code.\<close>
  \<^item> A database transaction is a function that returns the new rows or an error: rollback is built into its type, and a
    commit whose outcome the client cannot know is an error without effect.  The statements of one compaction pass or of
    one prune see one state; \<open>FOR UPDATE SKIP LOCKED\<close> is left out.  The compare-and-swap on the head allows at most one
    checkpoint between the reads of a compaction and its publication.
  \<^item> In \<open>commit\<close> and \<open>ensure_active\<close> the activation is the function \<open>activate\<close>, without interference; \<open>Cluster\<close> is where it
    is interleaved.  The reads of one request in \<open>Feed\<close> see one state.  An account request is one step.
  \<^item> Ties in \<open>ORDER BY\<close> are resolved by the order of the rows, text is ordered by bytes, hash maps iterate in the order of
    insertion.  Trimming and lower-casing are ASCII (\<open>file_ext\<close>, \<open>insert_user_into_db\<close>, \<open>insert_oauth_user_into_db\<close>).
  \<^item> Doubles are rationals with the special values; their printing and parsing are parameters.
  \<^item> \<open>decode_envelope\<close> leaves the version number out of its message.  The deletion that undoes a failed
    \<open>create_board_handler\<close> succeeds.  A Redis scan returns each key once.  The clean-up job of the sessions has its own copy
    of the presence builder, \<open>build_job_users\<close>.  Required environment variables are total functions, the messages of the
    validation library are fixed texts.
  \<^item> A failed request to the object store may or may not have been carried out; what later readers of the store see is
    what it holds (\<open>lists_exactly\<close>).

  \<^bold>\<open>Not modelled.\<close>  Import and export archives, the handlers of projects with their tags and states, voting and views,
  link previews and embed policies, preview rendering, support reports, health and usage, static pages and reference data,
  mail, image processing, the pool of validator processes, request signing, connection set-up, timers, and the wiring of
  routes.  Log lines, metrics and documentation attributes carry no decision and are left out everywhere.
\<close>

end
